(* ===== verification/GoText.thy ===== *)
theory GoText
  imports Prelude
begin

text \<open>
  Go strings are byte sequences: a \<open>string\<close> here is a list of 8-bit characters and \<open>length\<close> is
  \<open>len\<close>. The theory models what the domain package uses of \<open>strconv\<close> (decimal rendering of a
  non-negative integer), of \<open>unicode/utf8\<close> (decoding, validity, rune count) and of \<open>strings\<close>
  (\<open>TrimSpace\<close>, \<open>Cut\<close>), from their documented behaviour.
\<close>

section \<open>Bytes and decimal digits\<close>

definition byte :: "char \<Rightarrow> nat" where
  "byte c = of_char c"

definition digit_char :: "nat \<Rightarrow> char" where
  "digit_char d = char_of (48 + d)"

definition is_digit :: "char \<Rightarrow> bool" where
  "is_digit c = (byte CHR ''0'' \<le> byte c \<and> byte c \<le> byte CHR ''9'')"

definition digit_val :: "char \<Rightarrow> nat" where
  "digit_val c = byte c - byte CHR ''0''"

lemma byte_less [simp]: "byte c < 256"
  by (simp add: byte_def)

lemma byte_inj [simp]: "byte c = byte d \<longleftrightarrow> c = d"
  by (simp add: byte_def)

lemma byte_digit_char: "d < 10 \<Longrightarrow> byte (digit_char d) = 48 + d"
  by (simp add: byte_def digit_char_def)

lemma byte_literals [simp]: "byte CHR ''0'' = 48" "byte CHR ''9'' = 57"
  by (simp_all add: byte_def)

lemma is_digit_digit_char [simp]: "d < 10 \<Longrightarrow> is_digit (digit_char d)"
  by (simp add: is_digit_def byte_digit_char)

lemma digit_val_digit_char [simp]: "d < 10 \<Longrightarrow> digit_val (digit_char d) = d"
  by (simp add: digit_val_def byte_digit_char)

lemma digit_val_less: "is_digit c \<Longrightarrow> digit_val c < 10"
  unfolding is_digit_def digit_val_def byte_literals by linarith

lemma not_is_digit [simp]: "\<not> is_digit CHR ''.''" "\<not> is_digit CHR ''-''" "\<not> is_digit CHR ''+''"
  by (simp_all add: is_digit_def) (simp_all add: byte_def)

text \<open>\<open>strconv.FormatInt(n, 10)\<close> of a non-negative \<open>n\<close>.\<close>

fun format_nat :: "nat \<Rightarrow> string" where
  "format_nat n = (if n < 10 then [digit_char n] else format_nat (n div 10) @ [digit_char (n mod 10)])"

declare format_nat.simps [simp del]

text \<open>The number a digit string denotes, continuing from a prefix already read.\<close>

definition read_digits :: "nat \<Rightarrow> string \<Rightarrow> nat" where
  "read_digits = foldl (\<lambda>a c. 10 * a + digit_val c)"

lemma read_digits_simps [simp]:
  "read_digits a [] = a"
  "read_digits a (c # cs) = read_digits (10 * a + digit_val c) cs"
  "read_digits a (cs @ ds) = read_digits (read_digits a cs) ds"
  by (simp_all add: read_digits_def)

lemma format_nat_digits: "list_all is_digit (format_nat n)"
proof (induction n rule: format_nat.induct)
  case (1 n)
  then show ?case by (simp add: format_nat.simps [of n])
qed

lemma format_nat_nonempty [simp]: "format_nat n \<noteq> []"
  by (simp add: format_nat.simps [of n])

lemma read_format_nat: "read_digits 0 (format_nat n) = n"
proof (induction n rule: format_nat.induct)
  case (1 n)
  then show ?case by (simp add: format_nat.simps [of n])
qed

lemma read_digits_ge: "a \<le> read_digits a cs"
proof (induction cs arbitrary: a)
  case (Cons c cs)
  from this [of "10 * a + digit_val c"] show ?case by simp
qed simp

section \<open>UTF-8\<close>

definition cont_byte :: "nat \<Rightarrow> bool" where
  "cont_byte b = (128 \<le> b \<and> b \<le> 191)"

text \<open>
  \<open>utf8.DecodeRuneInString\<close>: the rune and its width in bytes; \<open>None\<close> with width 1 where Go
  returns \<open>RuneError\<close> with width 1.
\<close>

definition decode2 :: "nat \<Rightarrow> nat list \<Rightarrow> nat option \<times> nat" where
  "decode2 b0 bs = (case bs of
     b1 # _ \<Rightarrow> if cont_byte b1 then (Some ((b0 - 192) * 64 + (b1 - 128)), 2) else (None, 1)
   | _ \<Rightarrow> (None, 1))"

definition decode3 :: "nat \<Rightarrow> nat \<Rightarrow> nat \<Rightarrow> nat list \<Rightarrow> nat option \<times> nat" where
  "decode3 lo hi b0 bs = (case bs of
     b1 # b2 # _ \<Rightarrow>
       if lo \<le> b1 \<and> b1 \<le> hi \<and> cont_byte b2
       then (Some ((b0 - 224) * 4096 + (b1 - 128) * 64 + (b2 - 128)), 3) else (None, 1)
   | _ \<Rightarrow> (None, 1))"

definition decode4 :: "nat \<Rightarrow> nat \<Rightarrow> nat \<Rightarrow> nat list \<Rightarrow> nat option \<times> nat" where
  "decode4 lo hi b0 bs = (case bs of
     b1 # b2 # b3 # _ \<Rightarrow>
       if lo \<le> b1 \<and> b1 \<le> hi \<and> cont_byte b2 \<and> cont_byte b3
       then (Some ((b0 - 240) * 262144 + (b1 - 128) * 4096 + (b2 - 128) * 64 + (b3 - 128)), 4)
       else (None, 1)
   | _ \<Rightarrow> (None, 1))"

definition decode_rune :: "nat \<Rightarrow> nat list \<Rightarrow> nat option \<times> nat" where
  "decode_rune b0 bs =
     (if b0 < 128 then (Some b0, 1)
      else if 194 \<le> b0 \<and> b0 \<le> 223 then decode2 b0 bs
      else if b0 = 224 then decode3 160 191 b0 bs
      else if b0 = 237 then decode3 128 159 b0 bs
      else if 225 \<le> b0 \<and> b0 \<le> 239 then decode3 128 191 b0 bs
      else if b0 = 240 then decode4 144 191 b0 bs
      else if 241 \<le> b0 \<and> b0 \<le> 243 then decode4 128 191 b0 bs
      else if b0 = 244 then decode4 128 143 b0 bs
      else (None, 1))"

lemmas decode_defs = decode_rune_def decode2_def decode3_def decode4_def

lemma decode_width_pos: "0 < snd (decode_rune b bs)"
  by (simp add: decode_defs split: list.split)

lemma decode_width_le: "snd (decode_rune b bs) \<le> Suc (length bs)"
  by (auto simp: decode_defs split: list.split)

text \<open>Ranging over a string: each decoded rune with the bytes it was decoded from.\<close>

function runes :: "string \<Rightarrow> (nat option \<times> string) list" where
  "runes [] = []"
| "runes (c # cs) =
     (let (r, w) = decode_rune (byte c) (map byte cs)
      in (r, take w (c # cs)) # runes (drop w (c # cs)))"
  by pat_completeness auto
termination
proof (relation "measure length", goal_cases)
  case (2 c cs x r w)
  then have "0 < w"
    using decode_width_pos [of "byte c" "map byte cs"] by (metis snd_conv)
  then show ?case by simp
qed simp

definition valid_utf8 :: "string \<Rightarrow> bool" where
  "valid_utf8 s = list_all (\<lambda>(r, _). r \<noteq> None) (runes s)"

definition rune_count :: "string \<Rightarrow> nat" where
  "rune_count s = length (runes s)"

text \<open>\<open>unicode.IsSpace\<close>\<close>

definition is_space :: "nat \<Rightarrow> bool" where
  "is_space r = (r \<in> {9, 10, 11, 12, 13, 32, 133, 160, 5760, 8232, 8233, 8239, 8287, 12288} \<or>
     (8192 \<le> r \<and> r \<le> 8202))"

definition space_chunk :: "nat option \<times> string \<Rightarrow> bool" where
  "space_chunk p = (case fst p of Some r \<Rightarrow> is_space r | None \<Rightarrow> False)"

text \<open>\<open>strings.TrimSpace\<close>: the runes of the string without the spaces at both ends.\<close>

definition trim_space :: "string \<Rightarrow> string" where
  "trim_space s =
     concat (map snd (rev (dropWhile space_chunk (rev (dropWhile space_chunk (runes s))))))"

text \<open>\<open>strings.Cut\<close> at the first occurrence of a byte.\<close>

fun cut_at :: "char \<Rightarrow> string \<Rightarrow> (string \<times> string) option" where
  "cut_at x [] = None"
| "cut_at x (c # cs) =
     (if c = x then Some ([], cs) else map_option (\<lambda>(a, b). (c # a, b)) (cut_at x cs))"

lemma cut_at_append: "x \<notin> set a \<Longrightarrow> cut_at x (a @ x # b) = Some (a, b)"
  by (induction a) auto

lemma cut_at_SomeD: "cut_at x s = Some (a, b) \<Longrightarrow> s = a @ x # b \<and> x \<notin> set a"
  by (induction x s arbitrary: a rule: cut_at.induct) (auto split: if_splits)

lemma append_sep_inj:
  fixes p :: string
  assumes "p @ c # x = q @ c # y" "c \<notin> set p" "c \<notin> set q"
  shows "p = q \<and> x = y"
proof -
  have "cut_at c (p @ c # x) = Some (p, x)" using assms(2) by (rule cut_at_append)
  moreover have "cut_at c (q @ c # y) = Some (q, y)" using assms(3) by (rule cut_at_append)
  ultimately show ?thesis unfolding assms(1) by simp
qed

text \<open>\<open>strings.Split\<close> at every occurrence of a byte, and \<open>strings.Join\<close>.\<close>

fun split_on :: "char \<Rightarrow> string \<Rightarrow> string list" where
  "split_on x [] = [[]]"
| "split_on x (c # cs) =
     (if c = x then [] # split_on x cs
      else case split_on x cs of [] \<Rightarrow> [[c]] | p # ps \<Rightarrow> (c # p) # ps)"

lemma split_on_none: "x \<notin> set a \<Longrightarrow> split_on x a = [a]"
  by (induction a) auto

lemma split_on_append: "x \<notin> set a \<Longrightarrow> split_on x (a @ x # b) = a # split_on x b"
  by (induction a) auto

section \<open>ASCII strings\<close>

definition ascii :: "string \<Rightarrow> bool" where
  "ascii s = list_all (\<lambda>c. byte c < 128) s"

abbreviation "ascii_rune c \<equiv> (Some (byte c), [c])"

lemma runes_ascii: "ascii s \<Longrightarrow> runes s = map (\<lambda>c. ascii_rune c) s"
  by (induction s) (simp_all add: ascii_def decode_rune_def)

lemma dropWhile_hd: "xs = [] \<or> \<not> P (hd xs) \<Longrightarrow> dropWhile P xs = xs"
  by (cases xs) auto

lemma trim_space_ascii:
  assumes "ascii s" "s \<noteq> []" "\<not> is_space (byte (hd s))" "\<not> is_space (byte (last s))"
  shows "trim_space s = s"
proof -
  define rs where "rs = map (\<lambda>c. ascii_rune c) s"
  have hl: "hd rs = ascii_rune (hd s)" "last rs = ascii_rune (last s)" "rs \<noteq> []"
    using assms(2) by (simp_all add: rs_def hd_map last_map)
  have "dropWhile space_chunk rs = rs"
    using hl assms(3) by (intro dropWhile_hd) (simp add: space_chunk_def)
  moreover have "dropWhile space_chunk (rev rs) = rev rs"
    using hl assms(4) by (intro dropWhile_hd) (simp add: space_chunk_def hd_rev)
  moreover have "concat (map snd rs) = s" unfolding rs_def by (induction s) simp_all
  ultimately show ?thesis by (simp add: trim_space_def runes_ascii [OF assms(1)] flip: rs_def)
qed

end
