(* ===== verification/DomainErrors.thy ===== *)
theory DomainErrors
  imports Prelude
begin

text \<open>
  The sentinels of \<open>internal/domain\<close> (errors.go, ledger.go, wager.go, leg.go) in the groups
  the source declares them in, and the root every sentinel wraps. A sentinel is named as in the
  source by an abbreviation. The text an error is decorated with on its way up is not modelled:
  what \<open>errors.Is\<close> sees is.
\<close>

section \<open>The sentinels\<close>

text \<open>errors.go: identifiers, slugs, display names\<close>

datatype id_err = EmptyID | IDTooLong | IDCharset | EmptySlug | SlugTooLong | SlugCharset
   | EmptyName | NameTooLong | NameCharset

text \<open>errors.go: money\<close>

datatype money_err = MoneyOverflow | MoneyPrecision | MoneySyntax | MoneyNotFinite
   | MoneyDivideByZero | UnknownRounding

text \<open>errors.go: time\<close>

datatype time_err = ZeroTime | StaleUpdate

text \<open>errors.go: enumerations and lifecycle\<close>

datatype enum_err = UnknownEventKind | UnknownEventStatus | UnknownMarketType
   | UnknownMarketStatus | UnknownSelectionRole | UnknownBookKind | IllegalTransition

text \<open>errors.go: events\<close>

datatype event_err = CompetitorsRequired | CompetitorsNotApplicable | NegativeScore
   | InvalidPeriod | InvalidElapsed | ClockNotInPlay | ScoreNotApplicable

text \<open>errors.go: markets and selections\<close>

datatype market_err = LineRequired | LineNotApplicable | LineNotFinite | LineNotPositive
   | LineSyntax | SubjectRequired | SubjectNotApplicable | RoleNotApplicable | MismatchedParent

text \<open>errors.go: prices\<close>

datatype price_err = OddsNotFinite | OddsOutOfRange | LineMismatch

text \<open>ledger.go\<close>

datatype ledger_err = UnknownAccountKind | UnknownEntryKind | AccountOwnerRequired
   | AccountOwnerNotApplicable | UnbalancedTransaction | TooFewEntries | ZeroEntryAmount
   | MixedEntryKinds | SameAccountTransfer | WagerRequired | AmountNotPositive

text \<open>wager.go: kinds, legs, price and settlement\<close>

datatype wager_err = UnknownWagerKind | UnknownWagerStatus | LegCount | DuplicateSelection
   | DuplicateMarket | LegNotPending | StakeNotPositive | WagerOddsOutOfRange | WagerPriceMismatch
   | PayoutBelowStake | ReturnAmount | WagerNotSettled

text \<open>wager.go: teasers and round robins\<close>

datatype ticket_err = TeaserPointsRequired | TeaserPointsNotApplicable | TeaserPointsMismatch
   | TeasedLegRequired | TeasedLegNotApplicable | RoundRobinParentRequired
   | RoundRobinParentNotApplicable | CombinationSize

text \<open>leg.go\<close>

datatype leg_err = UnknownLegStatus | LegPriceMismatch | LegPriceRequired | LegNotTeasable
   | LegLineRequired | LegNotGraded

datatype derr =
    EId id_err
  | EMoney money_err
  | ETime time_err
  | EEnum enum_err
  | EEvent event_err
  | EMarket market_err
  | EPrice price_err
  | ELedger ledger_err
  | EWager wager_err
  | ETicket ticket_err
  | ELeg leg_err

type_synonym 'a res = "derr + 'a"

abbreviation "ErrEmptyID \<equiv> EId EmptyID"
abbreviation "ErrIDTooLong \<equiv> EId IDTooLong"
abbreviation "ErrIDCharset \<equiv> EId IDCharset"
abbreviation "ErrEmptySlug \<equiv> EId EmptySlug"
abbreviation "ErrSlugTooLong \<equiv> EId SlugTooLong"
abbreviation "ErrSlugCharset \<equiv> EId SlugCharset"
abbreviation "ErrEmptyName \<equiv> EId EmptyName"
abbreviation "ErrNameTooLong \<equiv> EId NameTooLong"
abbreviation "ErrNameCharset \<equiv> EId NameCharset"
abbreviation "ErrMoneyOverflow \<equiv> EMoney MoneyOverflow"
abbreviation "ErrMoneyPrecision \<equiv> EMoney MoneyPrecision"
abbreviation "ErrMoneySyntax \<equiv> EMoney MoneySyntax"
abbreviation "ErrMoneyNotFinite \<equiv> EMoney MoneyNotFinite"
abbreviation "ErrMoneyDivideByZero \<equiv> EMoney MoneyDivideByZero"
abbreviation "ErrUnknownRounding \<equiv> EMoney UnknownRounding"
abbreviation "ErrZeroTime \<equiv> ETime ZeroTime"
abbreviation "ErrStaleUpdate \<equiv> ETime StaleUpdate"
abbreviation "ErrUnknownEventKind \<equiv> EEnum UnknownEventKind"
abbreviation "ErrUnknownEventStatus \<equiv> EEnum UnknownEventStatus"
abbreviation "ErrUnknownMarketType \<equiv> EEnum UnknownMarketType"
abbreviation "ErrUnknownMarketStatus \<equiv> EEnum UnknownMarketStatus"
abbreviation "ErrUnknownSelectionRole \<equiv> EEnum UnknownSelectionRole"
abbreviation "ErrUnknownBookKind \<equiv> EEnum UnknownBookKind"
abbreviation "ErrIllegalTransition \<equiv> EEnum IllegalTransition"
abbreviation "ErrCompetitorsRequired \<equiv> EEvent CompetitorsRequired"
abbreviation "ErrCompetitorsNotApplicable \<equiv> EEvent CompetitorsNotApplicable"
abbreviation "ErrNegativeScore \<equiv> EEvent NegativeScore"
abbreviation "ErrInvalidPeriod \<equiv> EEvent InvalidPeriod"
abbreviation "ErrInvalidElapsed \<equiv> EEvent InvalidElapsed"
abbreviation "ErrClockNotInPlay \<equiv> EEvent ClockNotInPlay"
abbreviation "ErrScoreNotApplicable \<equiv> EEvent ScoreNotApplicable"
abbreviation "ErrLineRequired \<equiv> EMarket LineRequired"
abbreviation "ErrLineNotApplicable \<equiv> EMarket LineNotApplicable"
abbreviation "ErrLineNotFinite \<equiv> EMarket LineNotFinite"
abbreviation "ErrLineNotPositive \<equiv> EMarket LineNotPositive"
abbreviation "ErrLineSyntax \<equiv> EMarket LineSyntax"
abbreviation "ErrSubjectRequired \<equiv> EMarket SubjectRequired"
abbreviation "ErrSubjectNotApplicable \<equiv> EMarket SubjectNotApplicable"
abbreviation "ErrRoleNotApplicable \<equiv> EMarket RoleNotApplicable"
abbreviation "ErrMismatchedParent \<equiv> EMarket MismatchedParent"
abbreviation "ErrOddsNotFinite \<equiv> EPrice OddsNotFinite"
abbreviation "ErrOddsOutOfRange \<equiv> EPrice OddsOutOfRange"
abbreviation "ErrLineMismatch \<equiv> EPrice LineMismatch"
abbreviation "ErrUnknownAccountKind \<equiv> ELedger UnknownAccountKind"
abbreviation "ErrUnknownEntryKind \<equiv> ELedger UnknownEntryKind"
abbreviation "ErrAccountOwnerRequired \<equiv> ELedger AccountOwnerRequired"
abbreviation "ErrAccountOwnerNotApplicable \<equiv> ELedger AccountOwnerNotApplicable"
abbreviation "ErrUnbalancedTransaction \<equiv> ELedger UnbalancedTransaction"
abbreviation "ErrTooFewEntries \<equiv> ELedger TooFewEntries"
abbreviation "ErrZeroEntryAmount \<equiv> ELedger ZeroEntryAmount"
abbreviation "ErrMixedEntryKinds \<equiv> ELedger MixedEntryKinds"
abbreviation "ErrSameAccountTransfer \<equiv> ELedger SameAccountTransfer"
abbreviation "ErrWagerRequired \<equiv> ELedger WagerRequired"
abbreviation "ErrAmountNotPositive \<equiv> ELedger AmountNotPositive"
abbreviation "ErrUnknownWagerKind \<equiv> EWager UnknownWagerKind"
abbreviation "ErrUnknownWagerStatus \<equiv> EWager UnknownWagerStatus"
abbreviation "ErrLegCount \<equiv> EWager LegCount"
abbreviation "ErrDuplicateSelection \<equiv> EWager DuplicateSelection"
abbreviation "ErrDuplicateMarket \<equiv> EWager DuplicateMarket"
abbreviation "ErrLegNotPending \<equiv> EWager LegNotPending"
abbreviation "ErrStakeNotPositive \<equiv> EWager StakeNotPositive"
abbreviation "ErrWagerOddsOutOfRange \<equiv> EWager WagerOddsOutOfRange"
abbreviation "ErrWagerPriceMismatch \<equiv> EWager WagerPriceMismatch"
abbreviation "ErrPayoutBelowStake \<equiv> EWager PayoutBelowStake"
abbreviation "ErrReturnAmount \<equiv> EWager ReturnAmount"
abbreviation "ErrWagerNotSettled \<equiv> EWager WagerNotSettled"
abbreviation "ErrTeaserPointsRequired \<equiv> ETicket TeaserPointsRequired"
abbreviation "ErrTeaserPointsNotApplicable \<equiv> ETicket TeaserPointsNotApplicable"
abbreviation "ErrTeaserPointsMismatch \<equiv> ETicket TeaserPointsMismatch"
abbreviation "ErrTeasedLegRequired \<equiv> ETicket TeasedLegRequired"
abbreviation "ErrTeasedLegNotApplicable \<equiv> ETicket TeasedLegNotApplicable"
abbreviation "ErrRoundRobinParentRequired \<equiv> ETicket RoundRobinParentRequired"
abbreviation "ErrRoundRobinParentNotApplicable \<equiv> ETicket RoundRobinParentNotApplicable"
abbreviation "ErrCombinationSize \<equiv> ETicket CombinationSize"
abbreviation "ErrUnknownLegStatus \<equiv> ELeg UnknownLegStatus"
abbreviation "ErrLegPriceMismatch \<equiv> ELeg LegPriceMismatch"
abbreviation "ErrLegPriceRequired \<equiv> ELeg LegPriceRequired"
abbreviation "ErrLegNotTeasable \<equiv> ELeg LegNotTeasable"
abbreviation "ErrLegLineRequired \<equiv> ELeg LegLineRequired"
abbreviation "ErrLegNotGraded \<equiv> ELeg LegNotGraded"

section \<open>The roots\<close>

text \<open>The two roots of the taxonomy; a caller maps them to 400 and 409.\<close>

datatype derr_root = ErrInvalid | ErrConflict

fun derr_wraps :: "derr \<Rightarrow> derr_root" where
  "derr_wraps (ETime StaleUpdate) = ErrConflict"
| "derr_wraps (EEnum IllegalTransition) = ErrConflict"
| "derr_wraps (EEvent ClockNotInPlay) = ErrConflict"
| "derr_wraps (EEvent ScoreNotApplicable) = ErrConflict"
| "derr_wraps (EPrice LineMismatch) = ErrConflict"
| "derr_wraps (EWager WagerNotSettled) = ErrConflict"
| "derr_wraps (ELeg LegNotGraded) = ErrConflict"
| "derr_wraps _ = ErrInvalid"

end
