(* ===== verification/Ids.thy ===== *)
theory Ids
  imports GoText DomainErrors
begin

text \<open>
  \<open>internal/domain/ids.go\<close>: the identifier and slug charsets and the normalisation of display
  names. The identifier types are all byte strings validated by \<open>validID\<close>; the empty string is
  the zero identifier.
\<close>

section \<open>Identifiers\<close>

definition MaxIDLen :: nat where "MaxIDLen = 128"
definition MaxSlugLen :: nat where "MaxSlugLen = 64"
definition MaxNameLen :: nat where "MaxNameLen = 160"

definition between :: "char \<Rightarrow> char \<Rightarrow> char \<Rightarrow> bool" where
  "between lo hi c = (byte lo \<le> byte c \<and> byte c \<le> byte hi)"

definition id_char :: "char \<Rightarrow> bool" where
  "id_char c =
     (between CHR ''a'' CHR ''z'' c \<or> between CHR ''A'' CHR ''Z'' c \<or> between CHR ''0'' CHR ''9'' c
      \<or> c = CHR ''-'' \<or> c = CHR ''_'' \<or> c = CHR ''.'')"

definition validID :: "string \<Rightarrow> unit res" where
  "validID s =
     (if s = [] then Inl ErrEmptyID
      else if MaxIDLen < length s then Inl ErrIDTooLong
      else if \<not> list_all id_char s then Inl ErrIDCharset
      else Inr ())"

text \<open>
  Every typed constructor (\<open>NewSportID\<close> to \<open>NewCompetitorID\<close>, \<open>NewUserID\<close>, \<open>NewWagerID\<close>,
  \<open>NewLegID\<close>, \<open>NewTransactionID\<close>, \<open>NewRoundRobinID\<close>) is this function at its own string type.
\<close>

definition new_id :: "string \<Rightarrow> string res" where
  "new_id s = bindE (validID s) (\<lambda>_. Inr s)"

definition id_is_zero :: "string \<Rightarrow> bool" where
  "id_is_zero s = (s = [])"

definition slug_alnum :: "char \<Rightarrow> bool" where
  "slug_alnum c = (between CHR ''a'' CHR ''z'' c \<or> between CHR ''0'' CHR ''9'' c)"

definition NewSlug :: "string \<Rightarrow> string res" where
  "NewSlug s = (case s of
     [] \<Rightarrow> Inl ErrEmptySlug
   | c # cs \<Rightarrow>
       if MaxSlugLen < length s then Inl ErrSlugTooLong
       else if \<not> slug_alnum c then Inl ErrSlugCharset
       else if \<not> list_all (\<lambda>d. slug_alnum d \<or> d = CHR ''-'' \<or> d = CHR ''_'') cs
         then Inl ErrSlugCharset
       else Inr s)"

lemma validID_ok_iff [result_simps]:
  "validID s = Inr u \<longleftrightarrow> s \<noteq> [] \<and> length s \<le> 128 \<and> list_all id_char s"
  by (auto simp: validID_def MaxIDLen_def)

lemma new_id_ok_iff [result_simps]: "new_id s = Inr t \<longleftrightarrow> t = s \<and> validID s = Inr ()"
  by (auto simp: new_id_def result_simps)

lemma between_code: "between lo hi c \<longleftrightarrow> byte lo \<le> byte c \<and> byte c \<le> byte hi"
  by (simp add: between_def)

lemma id_char_not_colon [simp]: "\<not> id_char CHR '':''"
  by (simp add: id_char_def between_def) (simp add: byte_def)

lemma slug_alnum_id_char: "slug_alnum c \<Longrightarrow> id_char c"
  by (auto simp: slug_alnum_def id_char_def)

lemma slug_rest_id_char: "slug_alnum c \<or> c = CHR ''-'' \<or> c = CHR ''_'' \<Longrightarrow> id_char c"
  by (auto simp: slug_alnum_def id_char_def)

text \<open>A slug is an identifier: the slug charset and bound are inside the identifier's.\<close>

lemma NewSlug_validID: "NewSlug s = Inr t \<Longrightarrow> t = s \<and> validID s = Inr ()"
  by (auto simp: NewSlug_def result_simps MaxSlugLen_def list_all_iff slug_rest_id_char
      dest: slug_alnum_id_char split: list.splits if_splits)

lemma validID_no_colon: "validID s = Inr u \<Longrightarrow> CHR '':'' \<notin> set s"
  using id_char_not_colon by (auto simp: result_simps list_all_iff)

section \<open>Display names\<close>

definition control_rune :: "nat option \<Rightarrow> bool" where
  "control_rune r = (case r of Some n \<Rightarrow> n < 32 \<or> n = 127 | None \<Rightarrow> False)"

definition validateName :: "string \<Rightarrow> string res" where
  "validateName s =
     (let t = trim_space s in
      if t = [] then Inl ErrEmptyName
      else if \<not> valid_utf8 t then Inl ErrNameCharset
      else if MaxNameLen < rune_count t then Inl ErrNameTooLong
      else if list_ex (\<lambda>(r, _). control_rune r) (runes t) then Inl ErrNameCharset
      else Inr t)"

text \<open>Printable ASCII with no space at either end is a display name as it stands.\<close>

definition plain_name :: "string \<Rightarrow> bool" where
  "plain_name s =
     (s \<noteq> [] \<and> length s \<le> 160 \<and> list_all (\<lambda>c. 32 \<le> byte c \<and> byte c < 127) s \<and>
      byte (hd s) \<noteq> 32 \<and> byte (last s) \<noteq> 32)"

lemma printable_not_space: "32 \<le> n \<Longrightarrow> n < 127 \<Longrightarrow> n \<noteq> 32 \<Longrightarrow> \<not> is_space n"
  by (auto simp: is_space_def)

lemma validateName_plain: "plain_name s \<Longrightarrow> validateName s = Inr s"
proof -
  assume p: "plain_name s"
  then have a: "ascii s"
    by (auto simp: plain_name_def ascii_def list_all_iff)
  have "32 \<le> byte (hd s) \<and> byte (hd s) < 127" "32 \<le> byte (last s) \<and> byte (last s) < 127"
    using p by (auto simp: plain_name_def list_all_iff)
  then have "trim_space s = s"
    using p by (intro trim_space_ascii a printable_not_space) (auto simp: plain_name_def)
  moreover have "valid_utf8 s" by (simp add: valid_utf8_def runes_ascii [OF a] list_all_iff)
  moreover have "\<not> list_ex (\<lambda>(r, _). control_rune r) (runes s)"
    using p by (auto simp: runes_ascii [OF a] list_ex_iff control_rune_def plain_name_def list_all_iff)
  ultimately show ?thesis
    using p by (simp add: validateName_def plain_name_def rune_count_def runes_ascii [OF a]
        MaxNameLen_def Let_def)
qed

end
