(* ===== verification/GoFloat.thy ===== *)
theory GoFloat
  imports Prelude
begin

text \<open>
  Go's \<open>float64\<close>: IEEE 754 binary64 with round-to-nearest, ties to even. A finite value is the
  rational number it denotes, so two finite floats are the same number exactly when they are
  equal; minus zero is a value of its own. \<open>fround\<close> is the rounding of an exact result to
  binary64, overflow and gradual underflow included, and every arithmetic operation is the exact
  operation on rationals followed by \<open>fround\<close>. All definitions compute.
\<close>

section \<open>Powers of two and the binary logarithm\<close>

definition pow2 :: "int \<Rightarrow> rat" where
  "pow2 k = (if 0 \<le> k then 2 ^ nat k else 1 / 2 ^ nat (- k))"

fun nlog2 :: "nat \<Rightarrow> nat" where
  "nlog2 n = (if n < 2 then 0 else Suc (nlog2 (n div 2)))"

declare nlog2.simps [simp del]

definition rlog2 :: "rat \<Rightarrow> int" where
  "rlog2 q = (if 1 \<le> q then int (nlog2 (nat \<lfloor>q\<rfloor>))
              else - int (Suc (nlog2 (nat (\<lceil>1 / q\<rceil> - 1)))))"

lemma pow2_powi: "pow2 k = 2 powi k"
  by (simp add: pow2_def power_int_def power_one_over inverse_eq_divide)

lemma pow2_pos [simp]: "0 < pow2 k"
  by (simp add: pow2_def)

lemma pow2_nonneg [simp]: "0 \<le> pow2 k" and pow2_nonzero [simp]: "pow2 k \<noteq> 0"
  using pow2_pos [of k] by linarith+

lemma pow2_add: "pow2 (j + k) = pow2 j * pow2 k"
  by (simp add: pow2_powi power_int_add)

lemma pow2_diff: "pow2 (j - k) = pow2 j / pow2 k"
  by (simp add: pow2_powi power_int_diff)

lemma pow2_Suc: "pow2 (k + 1) = 2 * pow2 k"
  by (simp add: pow2_add) (simp add: pow2_def)

lemma pow2_mono: "j \<le> k \<Longrightarrow> pow2 j \<le> pow2 k"
  by (simp add: pow2_powi power_int_increasing)

lemma pow2_less_imp: "pow2 j < pow2 k \<Longrightarrow> j < k"
  by (rule ccontr) (simp add: pow2_mono leD not_less)

lemma pow2_int: "0 \<le> k \<Longrightarrow> pow2 k = of_int (2 ^ nat k)"
  by (simp add: pow2_def)

lemma nlog2_bounds: "0 < n \<Longrightarrow> 2 ^ nlog2 n \<le> n \<and> n < 2 ^ Suc (nlog2 n)"
proof (induction n rule: nlog2.induct)
  case (1 n)
  show ?case
  proof (cases "n < 2")
    case True
    with "1.prems" show ?thesis by (subst (1 2) nlog2.simps) simp
  next
    case False
    with "1.IH" have "2 ^ nlog2 (n div 2) \<le> n div 2 \<and> n div 2 < 2 ^ Suc (nlog2 (n div 2))"
      by simp
    then have "2 * 2 ^ nlog2 (n div 2) \<le> n" "n < 2 * 2 ^ Suc (nlog2 (n div 2))"
      by (auto simp: less_mult_imp_div_less intro: order_trans [OF mult_le_mono2])
    with False show ?thesis by (simp add: nlog2.simps [of n])
  qed
qed

lemma rlog2_bounds:
  assumes "0 < q"
  shows "pow2 (rlog2 q) \<le> q \<and> q < pow2 (rlog2 q + 1)"
proof (cases "1 \<le> q")
  case True
  define n where "n = nat \<lfloor>q\<rfloor>"
  have q: "1 \<le> \<lfloor>q\<rfloor>" using True by simp
  then have n: "0 < n" and "int n = \<lfloor>q\<rfloor>" by (simp_all add: n_def)
  have "of_int \<lfloor>q\<rfloor> \<le> q" "q < of_int \<lfloor>q\<rfloor> + 1" by linarith+
  then have nq: "of_nat n \<le> q" "q < of_nat n + 1"
    by (simp_all flip: \<open>int n = \<lfloor>q\<rfloor>\<close>)
  have "(2::rat) ^ nlog2 n \<le> of_nat n"
    using nlog2_bounds [OF n] by (metis of_nat_le_iff of_nat_numeral of_nat_power)
  moreover have "of_nat n + 1 \<le> (2::rat) ^ Suc (nlog2 n)"
    using nlog2_bounds [OF n] by (metis Suc_eq_plus1 Suc_leI of_nat_1 of_nat_add of_nat_le_iff
        of_nat_numeral of_nat_power)
  ultimately have b: "2 ^ nlog2 n \<le> q" "q < 2 ^ Suc (nlog2 n)"
    using nq by linarith+
  have e: "rlog2 q = int (nlog2 n)" using True by (simp add: rlog2_def n_def)
  show ?thesis using b unfolding e by (simp add: pow2_def nat_add_distrib)
next
  case False
  define n where "n = nat (\<lceil>1 / q\<rceil> - 1)"
  have "1 < 1 / q" using False assms by (simp add: less_divide_eq)
  then have "1 < \<lceil>1 / q\<rceil>" by linarith
  then have n: "0 < n" and nc: "int n = \<lceil>1 / q\<rceil> - 1" using assms by (auto simp: n_def)
  have "1 / q \<le> of_int (int n + 1)" "of_int (int n) < 1 / q"
    using ceiling_correct [of "1 / q"] by (simp_all add: nc)
  then have nq: "1 / q \<le> of_nat n + 1" "of_nat n < 1 / q" by simp_all
  have "(2::rat) ^ nlog2 n \<le> of_nat n"
    using nlog2_bounds [OF n] by (metis of_nat_le_iff of_nat_numeral of_nat_power)
  with nq(2) have hi: "2 ^ nlog2 n < 1 / q" by linarith
  have "of_nat n + 1 \<le> (2::rat) ^ Suc (nlog2 n)"
    using nlog2_bounds [OF n] by (metis Suc_eq_plus1 Suc_leI of_nat_1 of_nat_add of_nat_le_iff
        of_nat_numeral of_nat_power)
  with nq(1) have lo: "1 / q \<le> 2 ^ Suc (nlog2 n)" by linarith
  have e: "rlog2 q = - int (Suc (nlog2 n))" using False by (simp add: rlog2_def n_def)
  have "pow2 (rlog2 q) = 1 / 2 ^ Suc (nlog2 n)" unfolding e by (simp add: pow2_def nat_add_distrib)
  moreover have "pow2 (rlog2 q + 1) = 1 / 2 ^ nlog2 n"
  proof (cases "nlog2 n = 0")
    case True
    then show ?thesis unfolding e by (simp add: pow2_def)
  next
    case False
    then show ?thesis unfolding e by (simp add: pow2_def)
  qed
  moreover have "1 / 2 ^ Suc (nlog2 n) \<le> q" using lo assms by (simp add: field_simps)
  moreover have "q < 1 / 2 ^ nlog2 n" using hi assms by (simp add: field_simps)
  ultimately show ?thesis by simp
qed

lemma rlog2_mono: "0 < a \<Longrightarrow> a \<le> b \<Longrightarrow> rlog2 a \<le> rlog2 b"
  using rlog2_bounds [of a] rlog2_bounds [of b] pow2_less_imp [of "rlog2 a" "rlog2 b + 1"]
  by linarith

lemma rlog2_less: "0 < q \<Longrightarrow> q < pow2 k \<Longrightarrow> rlog2 q < k"
  using rlog2_bounds [of q] pow2_less_imp by (meson le_less_trans)

lemma rlog2_ge: "pow2 k \<le> q \<Longrightarrow> k \<le> rlog2 q"
  using rlog2_bounds [of q] pow2_less_imp [of k "rlog2 q + 1"] pow2_pos [of k] by linarith

section \<open>Rounding\<close>

text \<open>Nearest integer, ties to even; then ties away from zero; then truncation.\<close>

definition rhe :: "rat \<Rightarrow> int" where
  "rhe q = (let f = \<lfloor>q\<rfloor>; d = q - of_int f in
     if d < 1 / 2 then f else if 1 / 2 < d then f + 1 else if even f then f else f + 1)"

definition rha :: "rat \<Rightarrow> int" where
  "rha q = (if q < 0 then - \<lfloor>- q + 1 / 2\<rfloor> else \<lfloor>q + 1 / 2\<rfloor>)"

definition rtz :: "rat \<Rightarrow> int" where
  "rtz q = (if q < 0 then - \<lfloor>- q\<rfloor> else \<lfloor>q\<rfloor>)"

lemma rhe_of_int [simp]: "rhe (of_int n) = n"
  by (simp add: rhe_def)

lemma rha_of_int [simp]: "rha (of_int n) = n"
proof -
  have "\<lfloor>of_int m + 1 / 2 :: rat\<rfloor> = m" for m by (simp add: floor_unique)
  from this [of n] this [of "- n"] show ?thesis by (simp add: rha_def)
qed

lemma rtz_of_int [simp]: "rtz (of_int n) = n"
  using floor_of_int [of "- n"] by (simp add: rtz_def)

lemma rhe_near: "\<bar>of_int (rhe q) - q\<bar> \<le> 1 / 2"
proof -
  have "of_int \<lfloor>q\<rfloor> \<le> q" "q < of_int \<lfloor>q\<rfloor> + 1" using floor_correct [of q] by simp_all
  then show ?thesis by (simp add: rhe_def Let_def abs_le_iff)
qed

lemma rhe_mono:
  assumes "a \<le> b"
  shows "rhe a \<le> rhe b"
proof (cases "\<lfloor>a\<rfloor> = \<lfloor>b\<rfloor>")
  case True
  with assms show ?thesis by (auto simp: rhe_def Let_def)
next
  case False
  then have "\<lfloor>a\<rfloor> + 1 \<le> \<lfloor>b\<rfloor>" using floor_mono [OF assms] by linarith
  moreover have "rhe a \<le> \<lfloor>a\<rfloor> + 1" "\<lfloor>b\<rfloor> \<le> rhe b" by (simp_all add: rhe_def Let_def)
  ultimately show ?thesis by linarith
qed

lemma rha_mono: "a \<le> b \<Longrightarrow> rha a \<le> rha b"
proof -
  assume ab: "a \<le> b"
  consider "b < 0" | "a < 0" "0 \<le> b" | "0 \<le> a" using ab by linarith
  then show "rha a \<le> rha b"
  proof cases
    case 1
    then show ?thesis using ab by (simp add: rha_def floor_mono)
  next
    case 2
    then have "0 \<le> \<lfloor>- a + 1 / 2\<rfloor>" "0 \<le> \<lfloor>b + 1 / 2\<rfloor>" by simp_all
    moreover have "rha a = - \<lfloor>- a + 1 / 2\<rfloor>" "rha b = \<lfloor>b + 1 / 2\<rfloor>" using 2 by (simp_all add: rha_def)
    ultimately show ?thesis by linarith
  next
    case 3
    then show ?thesis using ab by (simp add: rha_def floor_mono)
  qed
qed

lemma rtz_mono: "a \<le> b \<Longrightarrow> rtz a \<le> rtz b"
proof -
  assume ab: "a \<le> b"
  consider "b < 0" | "a < 0" "0 \<le> b" | "0 \<le> a" using ab by linarith
  then show "rtz a \<le> rtz b"
  proof cases
    case 1
    then show ?thesis using ab by (simp add: rtz_def floor_mono)
  next
    case 2
    then have "0 \<le> \<lfloor>- a\<rfloor>" "0 \<le> \<lfloor>b\<rfloor>" by simp_all
    moreover have "rtz a = - \<lfloor>- a\<rfloor>" "rtz b = \<lfloor>b\<rfloor>" using 2 by (simp_all add: rtz_def)
    ultimately show ?thesis by linarith
  next
    case 3
    then show ?thesis using ab by (simp add: rtz_def floor_mono)
  qed
qed

text \<open>The exponent of a unit in the last place, and the magnitude rounded to it.\<close>

definition ulp_exp :: "rat \<Rightarrow> int" where
  "ulp_exp q = max (rlog2 q - 52) (- 1074)"

definition rmag :: "rat \<Rightarrow> rat" where
  "rmag q = of_int (rhe (q / pow2 (ulp_exp q))) * pow2 (ulp_exp q)"

lemma rhe_grid_le: "q \<le> pow2 k \<Longrightarrow> u \<le> k \<Longrightarrow> of_int (rhe (q / pow2 u)) * pow2 u \<le> pow2 k"
proof -
  assume q: "q \<le> pow2 k" and u: "u \<le> k"
  have "q / pow2 u \<le> pow2 (k - u)" using q by (simp add: pow2_diff divide_right_mono)
  then have "q / pow2 u \<le> of_int (2 ^ nat (k - u))" using u by (simp add: pow2_int)
  then have "rhe (q / pow2 u) \<le> 2 ^ nat (k - u)"
    using rhe_mono rhe_of_int by metis
  then have "of_int (rhe (q / pow2 u)) \<le> pow2 (k - u)"
    using u by (simp add: pow2_int flip: of_int_le_iff)
  then show ?thesis
    by (simp add: pow2_diff pos_le_divide_eq)
qed

lemma rhe_grid_ge: "pow2 k \<le> q \<Longrightarrow> u \<le> k \<Longrightarrow> pow2 k \<le> of_int (rhe (q / pow2 u)) * pow2 u"
proof -
  assume q: "pow2 k \<le> q" and u: "u \<le> k"
  have "pow2 (k - u) \<le> q / pow2 u" using q by (simp add: pow2_diff divide_right_mono)
  then have "of_int (2 ^ nat (k - u)) \<le> q / pow2 u" using u by (simp add: pow2_int)
  then have "2 ^ nat (k - u) \<le> rhe (q / pow2 u)"
    using rhe_mono rhe_of_int by metis
  then have "pow2 (k - u) \<le> of_int (rhe (q / pow2 u))"
    using u by (simp add: pow2_int flip: of_int_le_iff)
  then show ?thesis
    by (simp add: pow2_diff pos_divide_le_eq)
qed

lemma rmag_mono:
  assumes "0 < a" "a \<le> b"
  shows "rmag a \<le> rmag b"
proof (cases "ulp_exp a = ulp_exp b")
  case True
  with assms show ?thesis
    by (simp add: rmag_def mult_right_mono rhe_mono divide_right_mono)
next
  case False
  have ab: "rlog2 a \<le> rlog2 b" using rlog2_mono assms by blast
  then have u: "ulp_exp a \<le> rlog2 b" "ulp_exp b \<le> rlog2 b" and lt: "rlog2 a + 1 \<le> rlog2 b"
    using False by (auto simp: ulp_exp_def)
  have "a \<le> pow2 (rlog2 b)"
    using rlog2_bounds [OF assms(1)] pow2_mono [OF lt] by linarith
  then have "rmag a \<le> pow2 (rlog2 b)"
    unfolding rmag_def using u(1) by (rule rhe_grid_le)
  also have "\<dots> \<le> rmag b"
    unfolding rmag_def using rlog2_bounds [of b] assms u(2) by (intro rhe_grid_ge) auto
  finally show ?thesis .
qed

lemma rmag_nonneg: "0 < q \<Longrightarrow> 0 \<le> rmag q"
  using rhe_mono [of 0 "q / pow2 (ulp_exp q)"] rhe_of_int [of 0] by (simp add: rmag_def)

text \<open>An integer of at most 53 bits is a binary64 value.\<close>

lemma rmag_int:
  assumes "0 < n" "n < 2 ^ 53"
  shows "rmag (of_int n) = of_int n"
proof -
  define u where "u = ulp_exp (of_int n)"
  have "(of_int n :: rat) < of_int (2 ^ 53)" using assms(2) by (simp only: of_int_less_iff)
  then have "(of_int n :: rat) < pow2 53" by (simp add: pow2_def)
  moreover have "pow2 0 \<le> (of_int n :: rat)" using assms by (simp add: pow2_def)
  ultimately have "rlog2 (of_int n) < 53" "0 \<le> rlog2 (of_int n)"
    using rlog2_less [of "of_int n" 53] rlog2_ge [of 0 "of_int n"] assms by simp_all
  then have u: "u \<le> 0" by (simp add: u_def ulp_exp_def)
  have "pow2 0 = 1" by (simp add: pow2_def)
  then have "1 / pow2 u = of_int (2 ^ nat (- u))"
    using u pow2_diff [of 0 u] pow2_int [of "- u"] by simp
  then have "of_int n * (1 / pow2 u) = of_int (n * 2 ^ nat (- u))"
    by (simp only: of_int_mult)
  then have q: "of_int n / pow2 u = of_int (n * 2 ^ nat (- u))" by simp
  have "rhe (of_int n / pow2 u) = n * 2 ^ nat (- u)" unfolding q by (rule rhe_of_int)
  then have "rmag (of_int n) = of_int (n * 2 ^ nat (- u)) * pow2 u"
    by (simp only: rmag_def u_def)
  also have "\<dots> = of_int n" unfolding q [symmetric] by simp
  finally show ?thesis .
qed

section \<open>Values\<close>

text \<open>\<open>FInf True\<close> is minus infinity; \<open>NZero\<close> is minus zero.\<close>

datatype f64 = FNaN | FInf bool | NZero | Fin rat

fun fval :: "f64 \<Rightarrow> rat" where
  "fval (Fin q) = q"
| "fval _ = 0"

fun is_nan :: "f64 \<Rightarrow> bool" where
  "is_nan FNaN = True"
| "is_nan _ = False"

fun is_inf :: "f64 \<Rightarrow> bool" where
  "is_inf (FInf _) = True"
| "is_inf _ = False"

fun fsign :: "f64 \<Rightarrow> bool" where
  "fsign (FInf s) = s"
| "fsign NZero = True"
| "fsign (Fin q) = (q < 0)"
| "fsign FNaN = False"

definition is_finite :: "f64 \<Rightarrow> bool" where
  "is_finite x = (\<not> is_nan x \<and> \<not> is_inf x)"

definition fsigned :: "bool \<Rightarrow> rat \<Rightarrow> f64" where
  "fsigned s r = (if r = 0 then (if s then NZero else Fin 0) else Fin (if s then - r else r))"

definition fround :: "rat \<Rightarrow> f64" where
  "fround q = (if q = 0 then Fin 0 else
     let r = rmag \<bar>q\<bar> in if pow2 1024 \<le> r then FInf (q < 0) else fsigned (q < 0) r)"

text \<open>The values a Go \<open>float64\<close> can hold.\<close>

definition is_f64 :: "f64 \<Rightarrow> bool" where
  "is_f64 x = (case x of Fin q \<Rightarrow> fround q = Fin q | _ \<Rightarrow> True)"

subsection \<open>Arithmetic\<close>

definition fneg :: "f64 \<Rightarrow> f64" where
  "fneg x = (case x of FNaN \<Rightarrow> FNaN | FInf s \<Rightarrow> FInf (\<not> s) | NZero \<Rightarrow> Fin 0
     | Fin q \<Rightarrow> if q = 0 then NZero else Fin (- q))"

definition fabs :: "f64 \<Rightarrow> f64" where
  "fabs x = (case x of FNaN \<Rightarrow> FNaN | FInf _ \<Rightarrow> FInf False | NZero \<Rightarrow> Fin 0 | Fin q \<Rightarrow> Fin \<bar>q\<bar>)"

definition fmul :: "f64 \<Rightarrow> f64 \<Rightarrow> f64" where
  "fmul x y =
     (if is_nan x \<or> is_nan y then FNaN
      else if is_inf x \<or> is_inf y then
        (if (is_finite x \<and> fval x = 0) \<or> (is_finite y \<and> fval y = 0) then FNaN
         else FInf (fsign x \<noteq> fsign y))
      else if fval x * fval y = 0 then fsigned (fsign x \<noteq> fsign y) 0
      else fround (fval x * fval y))"

definition fdiv :: "f64 \<Rightarrow> f64 \<Rightarrow> f64" where
  "fdiv x y =
     (if is_nan x \<or> is_nan y then FNaN
      else if is_inf x then (if is_inf y then FNaN else FInf (fsign x \<noteq> fsign y))
      else if is_inf y then fsigned (fsign x \<noteq> fsign y) 0
      else if fval y = 0 then (if fval x = 0 then FNaN else FInf (fsign x \<noteq> fsign y))
      else if fval x = 0 then fsigned (fsign x \<noteq> fsign y) 0
      else fround (fval x / fval y))"

definition fadd :: "f64 \<Rightarrow> f64 \<Rightarrow> f64" where
  "fadd x y =
     (if is_nan x \<or> is_nan y then FNaN
      else if is_inf x then (if is_inf y \<and> fsign x \<noteq> fsign y then FNaN else x)
      else if is_inf y then y
      else if x = NZero \<and> y = NZero then NZero
      else fround (fval x + fval y))"

definition fsub :: "f64 \<Rightarrow> f64 \<Rightarrow> f64" where
  "fsub x y = fadd x (fneg y)"

subsection \<open>Comparison\<close>

text \<open>Go's \<open>==\<close>, \<open><\<close> and \<open><=\<close>: false on FNaN, and the two zeros are equal.\<close>

definition feq :: "f64 \<Rightarrow> f64 \<Rightarrow> bool" where
  "feq x y = (\<not> is_nan x \<and> \<not> is_nan y \<and>
     (if is_inf x \<or> is_inf y then x = y else fval x = fval y))"

definition flt :: "f64 \<Rightarrow> f64 \<Rightarrow> bool" where
  "flt x y = (\<not> is_nan x \<and> \<not> is_nan y \<and>
     (if is_inf x then fsign x \<and> y \<noteq> x else if is_inf y then \<not> fsign y else fval x < fval y))"

definition fle :: "f64 \<Rightarrow> f64 \<Rightarrow> bool" where
  "fle x y = (flt x y \<or> feq x y)"

definition fmax :: "f64 \<Rightarrow> f64 \<Rightarrow> f64" where
  "fmax x y =
     (if x = FInf False \<or> y = FInf False then FInf False
      else if is_nan x \<or> is_nan y then FNaN
      else if fval x = 0 \<and> fval y = 0 \<and> is_finite x \<and> is_finite y
        then (if fsign x then y else x)
      else if flt y x then x else y)"

subsection \<open>Rounding to an integral value\<close>

definition fintegral :: "(rat \<Rightarrow> int) \<Rightarrow> f64 \<Rightarrow> f64" where
  "fintegral r x = (case x of Fin q \<Rightarrow> fsigned (q < 0) \<bar>of_int (r q)\<bar> | _ \<Rightarrow> x)"

definition math_Round :: "f64 \<Rightarrow> f64" where
  "math_Round = fintegral rha"

definition math_RoundToEven :: "f64 \<Rightarrow> f64" where
  "math_RoundToEven = fintegral rhe"

definition math_Trunc :: "f64 \<Rightarrow> f64" where
  "math_Trunc = fintegral rtz"

subsection \<open>Facts the money arithmetic uses\<close>

lemma fround_int:
  assumes "\<bar>n\<bar> < 2 ^ 53"
  shows "fround (of_int n) = Fin (of_int n)"
proof (cases "n = 0")
  case False
  then have r: "rmag \<bar>of_int n\<bar> = \<bar>of_int n\<bar>"
    using rmag_int [of "\<bar>n\<bar>"] assms by simp
  have "(of_int \<bar>n\<bar> :: rat) < of_int (2 ^ 53)" using assms by (simp only: of_int_less_iff)
  moreover have "(of_int (2 ^ 53) :: rat) \<le> pow2 1024" by (simp add: pow2_def)
  ultimately have "\<not> pow2 1024 \<le> (\<bar>of_int n\<bar> :: rat)" by simp
  with False r show ?thesis by (simp add: fround_def fsigned_def Let_def)
qed (simp add: fround_def)

text \<open>
  A product rounded to binary64 is not below an integer of at most 53 bits that the exact product
  is not below: rounding is monotone and the integer is representable.
\<close>

lemma fround_ge_int:
  assumes "0 < n" "n < 2 ^ 53" "of_int n \<le> q"
  shows "fround q = FInf False \<or> (\<exists>r. fround q = Fin r \<and> of_int n \<le> r)"
proof -
  have n: "(0::rat) < of_int n" using assms(1) by simp
  then have q: "0 < q" using assms(3) by linarith
  have "rmag (of_int n) \<le> rmag q" using n assms(3) by (rule rmag_mono)
  then have "of_int n \<le> rmag q" using rmag_int [OF assms(1,2)] by simp
  with n q show ?thesis by (auto simp: fround_def fsigned_def Let_def)
qed

lemmas float_arith_defs = fneg_def fabs_def fmul_def fdiv_def fadd_def fsub_def
lemmas float_cmp_defs = feq_def flt_def fle_def

text \<open>Below \<open>2 ^ 53\<close> a unit in the last place is at most 1, so the rounding error is at most 1/2.\<close>

lemma rmag_error:
  assumes "0 < q" "q < 2 ^ 53"
  shows "\<bar>rmag q - q\<bar> \<le> 1 / 2"
proof -
  define u where "u = ulp_exp q"
  have "q < pow2 53" using assms(2) by (simp add: pow2_def)
  then have "rlog2 q < 53" by (rule rlog2_less [OF assms(1)])
  then have "pow2 u \<le> pow2 0" by (intro pow2_mono) (simp add: u_def ulp_exp_def)
  then have u1: "pow2 u \<le> 1" by (simp add: pow2_def)
  have "rmag q - q = (of_int (rhe (q / pow2 u)) - q / pow2 u) * pow2 u"
    by (simp add: rmag_def u_def left_diff_distrib)
  then have "\<bar>rmag q - q\<bar> = \<bar>of_int (rhe (q / pow2 u)) - q / pow2 u\<bar> * pow2 u"
    by (simp add: abs_mult)
  also have "\<dots> \<le> (1 / 2) * 1"
    using rhe_near u1 by (intro mult_mono) simp_all
  finally show ?thesis by simp
qed

lemma rmag_ge_pow53: "2 ^ 53 \<le> q \<Longrightarrow> 2 ^ 53 \<le> rmag q"
proof -
  assume "2 ^ 53 \<le> q"
  then have q: "pow2 53 \<le> q" by (simp add: pow2_def)
  then have "53 \<le> rlog2 q" by (rule rlog2_ge)
  then have "ulp_exp q \<le> rlog2 q" by (simp add: ulp_exp_def)
  have "pow2 (rlog2 q) \<le> q" using rlog2_bounds [of q] q pow2_pos [of 53] by linarith
  then have "pow2 (rlog2 q) \<le> rmag q"
    unfolding rmag_def using \<open>ulp_exp q \<le> rlog2 q\<close> by (rule rhe_grid_ge)
  moreover have "pow2 53 \<le> pow2 (rlog2 q)" using \<open>53 \<le> rlog2 q\<close> by (rule pow2_mono)
  ultimately show ?thesis by (simp add: pow2_def)
qed

lemma fround_error:
  assumes "\<not> is_inf (fround q)" "\<bar>fval (fround q)\<bar> < 2 ^ 53"
  shows "\<bar>fval (fround q) - q\<bar> \<le> 1 / 2"
proof (cases "q = 0")
  case False
  then have "\<not> pow2 1024 \<le> rmag \<bar>q\<bar>"
    using assms(1) by (auto simp: fround_def Let_def split: if_splits)
  with False have v: "fval (fround q) = (if q < 0 then - rmag \<bar>q\<bar> else rmag \<bar>q\<bar>)"
    by (simp add: fround_def fsigned_def Let_def)
  have pos: "0 < \<bar>q\<bar>" using False by simp
  have "\<bar>fval (fround q)\<bar> = rmag \<bar>q\<bar>" using rmag_nonneg [OF pos] by (simp add: v)
  with assms(2) have "\<not> 2 ^ 53 \<le> rmag \<bar>q\<bar>" by linarith
  then have "\<not> 2 ^ 53 \<le> \<bar>q\<bar>" using rmag_ge_pow53 by blast
  then have "\<bar>q\<bar> < 2 ^ 53" by linarith
  then have "\<bar>rmag \<bar>q\<bar> - \<bar>q\<bar>\<bar> \<le> 1 / 2" using rmag_error [OF pos] by blast
  then show ?thesis unfolding v abs_le_iff by (cases "q < 0") auto
qed (simp add: fround_def)

end
