(* ===== verification/CodedEnum.thy ===== *)
theory CodedEnum
  imports Prelude
begin

text \<open>
  What the enumerations of the code share: \<open>String\<close> and \<open>Parse\<close> are inverse on the defined values,
  \<open>MarshalText\<close> refuses exactly the undefined value, \<open>UnmarshalText\<close> is \<open>Parse\<close>. The contract is a
  locale over the error type of the package, and its consequences are proved once.
\<close>

locale coded_enum =
  fixes str :: "'k \<Rightarrow> string"
    and parse :: "string \<Rightarrow> 'e + 'k"
    and valid :: "'k \<Rightarrow> bool"
    and marshal :: "'k \<Rightarrow> 'e + string"
    and unmarshal :: "string \<Rightarrow> 'e + 'k"
    and unknown :: 'k
    and err :: 'e
  assumes parse_str: "valid k \<Longrightarrow> parse (str k) = Inr k"
    and parse_sound: "parse s = Inr k \<Longrightarrow> valid k \<and> str k = s"
    and parse_err: "parse s = Inl e \<Longrightarrow> e = err"
    and invalid_unknown: "\<not> valid k \<longleftrightarrow> k = unknown"
    and marshal_valid: "valid k \<Longrightarrow> marshal k = Inr (str k)"
    and marshal_invalid: "\<not> valid k \<Longrightarrow> marshal k = Inl err"
    and unmarshal_parse: "unmarshal b = parse b"
begin

lemma parse_iff: "parse s = Inr k \<longleftrightarrow> valid k \<and> str k = s"
  using parse_str parse_sound by blast

lemma str_inj: "valid j \<Longrightarrow> valid k \<Longrightarrow> str j = str k \<Longrightarrow> j = k"
  by (metis parse_str sum.inject(2))

lemma roundtrip: "valid k \<Longrightarrow> bindE (marshal k) unmarshal = Inr k"
  by (simp add: marshal_valid unmarshal_parse parse_str)

lemma reverse_roundtrip: "unmarshal b = Inr k \<Longrightarrow> marshal k = Inr b"
  using parse_sound by (auto simp: unmarshal_parse marshal_valid)

lemma unmarshal_never_unknown: "unmarshal b \<noteq> Inr unknown"
  using parse_sound invalid_unknown by (metis unmarshal_parse)

text \<open>The wire contract in one statement: what is written is read back, and only that.\<close>

lemma wire: "(\<exists>b. marshal k = Inr b \<and> unmarshal b = Inr k) \<longleftrightarrow> k \<noteq> unknown"
  using marshal_valid marshal_invalid parse_str unmarshal_parse invalid_unknown
  by (metis Inl_Inr_False)

end

end
