(* ===== verification/TextEnum.thy ===== *)
theory TextEnum
  imports DomainErrors CodedEnum
begin

text \<open>
  The enumerations of the domain package: \<open>coded_enum\<close> at the errors of the package. A raw \<open>uint8\<close>
  outside the declared constants behaves in every function as the declared \<open>Unknown\<close> does and is
  modelled by it.
\<close>

locale text_enum = coded_enum str parse valid marshal unmarshal unknown err
  for str :: "'k \<Rightarrow> string"
    and parse :: "string \<Rightarrow> 'k res"
    and valid :: "'k \<Rightarrow> bool"
    and marshal :: "'k \<Rightarrow> string res"
    and unmarshal :: "string \<Rightarrow> 'k res"
    and unknown :: 'k
    and err :: derr

end
