(* ===== verification/Lifecycle.thy ===== *)
theory Lifecycle
  imports Prelude
begin

text \<open>
  The two contracts that events, markets and wagers share: a status follows an explicit set of
  transitions, and every change carries an instant that may not precede the value's own. They
  are stated as locales over the operations of an entity; each entity interprets them on its own
  \<open>CanTransitionTo\<close> and on its own updates.
\<close>

section \<open>Applying updates\<close>

text \<open>
  A consumer holds a value and applies updates to it as they arrive; an update that is refused
  leaves the held value as it was.
\<close>

definition keep :: "'a \<Rightarrow> 'e + 'a \<Rightarrow> 'a" where
  "keep x r = (case r of Inl _ \<Rightarrow> x | Inr y \<Rightarrow> y)"

fun run :: "('op \<Rightarrow> 'a \<Rightarrow> 'e + 'a) \<Rightarrow> 'op list \<Rightarrow> 'a \<Rightarrow> 'a" where
  "run step [] x = x"
| "run step (op # ops) x = run step ops (keep x (step op x))"

text \<open>The updates of a sequence that were accepted.\<close>

fun accepted :: "('op \<Rightarrow> 'a \<Rightarrow> 'e + 'a) \<Rightarrow> 'op list \<Rightarrow> 'a \<Rightarrow> 'op list" where
  "accepted step [] x = []"
| "accepted step (op # ops) x =
     (case step op x of Inl _ \<Rightarrow> accepted step ops x | Inr y \<Rightarrow> op # accepted step ops y)"

lemma keep_simps [simp]: "keep x (Inl e) = x" "keep x (Inr y) = y"
  by (simp_all add: keep_def)

lemma run_append: "run step (ops @ ops') x = run step ops' (run step ops x)"
  by (induction ops arbitrary: x) simp_all

lemma run_invariant:
  assumes "\<And>op x y. P x \<Longrightarrow> step op x = Inr y \<Longrightarrow> P y" "P x"
  shows "P (run step ops x)"
  using assms(2)
proof (induction ops arbitrary: x)
  case (Cons op ops)
  then show ?case using assms(1) by (cases "step op x") auto
qed simp

lemma run_accepted: "run step (accepted step ops x) x = run step ops x"
  by (induction ops arbitrary: x) (auto split: sum.split)

section \<open>Status transitions\<close>

locale lifecycle =
  fixes valid :: "'s \<Rightarrow> bool"
    and can :: "'s \<Rightarrow> 's \<Rightarrow> bool"
    and terminal :: "'s \<Rightarrow> bool"
    and stage :: "'s \<Rightarrow> nat"
  assumes can_valid: "can s t \<Longrightarrow> valid s \<and> valid t"
    and can_refl: "valid s \<Longrightarrow> can s s"
    and terminal_iff: "valid s \<Longrightarrow> terminal s \<longleftrightarrow> (\<forall>t. can s t \<longrightarrow> t = s)"
    and can_stage: "can s t \<Longrightarrow> stage s \<le> stage t"
begin

lemma star_valid: "can\<^sup>*\<^sup>* s t \<Longrightarrow> valid s \<Longrightarrow> valid t"
  by (induction rule: rtranclp_induct) (auto dest: can_valid)

lemma terminal_star: "can\<^sup>*\<^sup>* s t \<Longrightarrow> valid s \<Longrightarrow> terminal s \<Longrightarrow> t = s"
  by (induction rule: rtranclp_induct) (auto simp: terminal_iff)

lemma star_stage: "can\<^sup>*\<^sup>* s t \<Longrightarrow> stage s \<le> stage t"
  by (induction rule: rtranclp_induct) (auto dest: can_stage)

end

section \<open>Stamped updates\<close>

locale stamped =
  fixes step :: "'op \<Rightarrow> 'a \<Rightarrow> 'e + 'a"
    and instant :: "'op \<Rightarrow> time"
    and updated :: "'a \<Rightarrow> time"
  assumes step_stamp: "step op x = Inr y \<Longrightarrow> updated y = instant op \<and> updated x \<le> instant op"
begin

lemma stale_refused: "instant op < updated x \<Longrightarrow> keep x (step op x) = x"
  by (cases "step op x") (auto dest: step_stamp)

lemma keep_updated: "updated x \<le> updated (keep x (step op x))"
  by (cases "step op x") (auto dest: step_stamp)

lemma run_updated: "updated x \<le> updated (run step ops x)"
proof (induction ops arbitrary: x)
  case (Cons op ops)
  have "updated x \<le> updated (keep x (step op x))" by (rule keep_updated)
  also have "\<dots> \<le> updated (run step ops (keep x (step op x)))" by (rule Cons.IH)
  finally show ?case by simp
qed simp

text \<open>However the updates arrive, the instants of the accepted ones never go back.\<close>

lemma accepted_sorted: "sorted (updated x # map instant (accepted step ops x))"
proof (induction ops arbitrary: x)
  case (Cons op ops)
  show ?case
  proof (cases "step op x")
    case (Inl e)
    then show ?thesis using Cons.IH [of x] by simp
  next
    case (Inr y)
    then show ?thesis using Cons.IH [of y] step_stamp [OF Inr] by auto
  qed
qed simp

end

section \<open>Entities\<close>

locale entity = lifecycle valid can terminal stage + stamped step instant updated
  for valid :: "'s \<Rightarrow> bool" and can :: "'s \<Rightarrow> 's \<Rightarrow> bool" and terminal :: "'s \<Rightarrow> bool"
    and stage :: "'s \<Rightarrow> nat"
    and step :: "'op \<Rightarrow> 'a \<Rightarrow> 'e + 'a" and instant :: "'op \<Rightarrow> time" and updated :: "'a \<Rightarrow> time" +
  fixes status :: "'a \<Rightarrow> 's"
  assumes step_status: "step op x = Inr y \<Longrightarrow> valid (status x) \<Longrightarrow> can (status x) (status y)"
begin

lemma run_status: "valid (status x) \<Longrightarrow> can\<^sup>*\<^sup>* (status x) (status (run step ops x))"
proof (induction ops arbitrary: x)
  case (Cons op ops)
  have c: "can (status x) (status (keep x (step op x)))"
    using step_status [of op x] can_refl [OF Cons.prems] Cons.prems by (cases "step op x") auto
  then have "can\<^sup>*\<^sup>* (status (keep x (step op x))) (status (run step ops (keep x (step op x))))"
    using can_valid by (intro Cons.IH) blast
  with c show ?case by (simp add: converse_rtranclp_into_rtranclp)
qed simp

lemma run_terminal: "valid (status x) \<Longrightarrow> terminal (status x) \<Longrightarrow> status (run step ops x) = status x"
  using run_status terminal_star by blast

lemma run_stage: "valid (status x) \<Longrightarrow> stage (status x) \<le> stage (status (run step ops x))"
  using run_status star_stage by blast

lemma run_valid: "valid (status x) \<Longrightarrow> valid (status (run step ops x))"
  using run_status star_valid by blast

end

end
