(* ===== verification/Market.thy ===== *)
theory Market
  imports Ids GoFloat TextEnum Lifecycle
begin

text \<open>
  \<open>internal/domain/market.go\<close>: the optional line, market types with their line rule, the market
  lifecycle, and the market value with its constructor and updates.
\<close>

section \<open>Lines\<close>

text \<open>
  An absent line keeps a value of 0, as the zero \<open>Line\<close> does. \<open>==\<close> on lines compares the floats
  with \<open>==\<close>, so -0 and 0 are one line.
\<close>

record Line =
  line_value :: f64
  line_present :: bool

definition NoLine :: Line where
  "NoLine = \<lparr> line_value = Fin 0, line_present = False \<rparr>"

definition NewLine :: "f64 \<Rightarrow> Line res" where
  "NewLine v =
     (if is_nan v \<or> is_inf v then Inl ErrLineNotFinite
      else Inr \<lparr> line_value = v, line_present = True \<rparr>)"

definition Line_Value :: "Line \<Rightarrow> f64 \<times> bool" where
  "Line_Value l = (line_value l, line_present l)"

definition Line_ValueOr :: "Line \<Rightarrow> f64 \<Rightarrow> f64" where
  "Line_ValueOr l fallback = (if \<not> line_present l then fallback else line_value l)"

definition Line_Invert :: "Line \<Rightarrow> Line" where
  "Line_Invert l =
     (if \<not> line_present l then NoLine
      else if feq (line_value l) (Fin 0) then \<lparr> line_value = Fin 0, line_present = True \<rparr>
      else \<lparr> line_value = fneg (line_value l), line_present = True \<rparr>)"

definition Line_Equal :: "Line \<Rightarrow> Line \<Rightarrow> bool" where
  "Line_Equal l o' = (feq (line_value l) (line_value o') \<and> line_present l = line_present o')"

datatype LineRule = LineRuleUnknown | LineRuleForbidden | LineRuleRequired | LineRuleOptional

section \<open>Market types\<close>

datatype MarketType = MarketTypeUnknown | MarketTypeMoneyline | MarketTypeSpread | MarketTypeTotal | MarketTypePlayerProp | MarketTypeFutures

fun MarketType_String :: "MarketType \<Rightarrow> string" where
  "MarketType_String MarketTypeMoneyline = ''moneyline''"
| "MarketType_String MarketTypeSpread = ''spread''"
| "MarketType_String MarketTypeTotal = ''total''"
| "MarketType_String MarketTypePlayerProp = ''player_prop''"
| "MarketType_String MarketTypeFutures = ''futures''"
| "MarketType_String MarketTypeUnknown = ''unknown''"

fun MarketType_Valid :: "MarketType \<Rightarrow> bool" where
  "MarketType_Valid MarketTypeUnknown = False"
| "MarketType_Valid _ = True"

definition ParseMarketType :: "string \<Rightarrow> MarketType res" where
  "ParseMarketType s =
     (if s = ''moneyline'' then Inr MarketTypeMoneyline
      else if s = ''spread'' then Inr MarketTypeSpread
      else if s = ''total'' then Inr MarketTypeTotal
      else if s = ''player_prop'' then Inr MarketTypePlayerProp
      else if s = ''futures'' then Inr MarketTypeFutures
      else Inl ErrUnknownMarketType)"

definition MarketType_MarshalText :: "MarketType \<Rightarrow> string res" where
  "MarketType_MarshalText k = (if \<not> MarketType_Valid k then Inl ErrUnknownMarketType else Inr (MarketType_String k))"

definition MarketType_UnmarshalText :: "string \<Rightarrow> MarketType res" where
  "MarketType_UnmarshalText b = ParseMarketType b"

interpretation market_type: text_enum MarketType_String ParseMarketType MarketType_Valid
  MarketType_MarshalText MarketType_UnmarshalText MarketTypeUnknown ErrUnknownMarketType
proof unfold_locales
  show "MarketType_Valid k \<Longrightarrow> ParseMarketType (MarketType_String k) = Inr k" for k
    by (cases k) (simp_all add: ParseMarketType_def)
  show "\<not> MarketType_Valid k \<longleftrightarrow> k = MarketTypeUnknown" for k by (cases k) simp_all
qed (auto simp: ParseMarketType_def MarketType_MarshalText_def MarketType_UnmarshalText_def split: if_splits)

fun MarketType_LineRule :: "MarketType \<Rightarrow> LineRule" where
  "MarketType_LineRule MarketTypeMoneyline = LineRuleForbidden"
| "MarketType_LineRule MarketTypeFutures = LineRuleForbidden"
| "MarketType_LineRule MarketTypeSpread = LineRuleRequired"
| "MarketType_LineRule MarketTypeTotal = LineRuleRequired"
| "MarketType_LineRule MarketTypePlayerProp = LineRuleOptional"
| "MarketType_LineRule MarketTypeUnknown = LineRuleUnknown"

definition NeedsSubject :: "MarketType \<Rightarrow> bool" where
  "NeedsSubject t = (t = MarketTypePlayerProp)"

definition validateLine :: "MarketType \<Rightarrow> Line \<Rightarrow> unit res" where
  "validateLine t l =
     bindE (case MarketType_LineRule t of
         LineRuleForbidden \<Rightarrow> if line_present l then Inl ErrLineNotApplicable else Inr ()
       | LineRuleRequired \<Rightarrow> if \<not> line_present l then Inl ErrLineRequired else Inr ()
       | LineRuleOptional \<Rightarrow> Inr ()
       | LineRuleUnknown \<Rightarrow> Inl ErrUnknownMarketType)
     (\<lambda>_. if t = MarketTypeTotal \<and> snd (Line_Value l) \<and> fle (fst (Line_Value l)) (Fin 0)
           then Inl ErrLineNotPositive else Inr ())"

section \<open>The lifecycle\<close>

datatype MarketStatus = MarketStatusUnknown | MarketStatusOpen | MarketStatusSuspended | MarketStatusClosed | MarketStatusSettled | MarketStatusVoided

fun MarketStatus_String :: "MarketStatus \<Rightarrow> string" where
  "MarketStatus_String MarketStatusOpen = ''open''"
| "MarketStatus_String MarketStatusSuspended = ''suspended''"
| "MarketStatus_String MarketStatusClosed = ''closed''"
| "MarketStatus_String MarketStatusSettled = ''settled''"
| "MarketStatus_String MarketStatusVoided = ''voided''"
| "MarketStatus_String MarketStatusUnknown = ''unknown''"

fun MarketStatus_Valid :: "MarketStatus \<Rightarrow> bool" where
  "MarketStatus_Valid MarketStatusUnknown = False"
| "MarketStatus_Valid _ = True"

definition ParseMarketStatus :: "string \<Rightarrow> MarketStatus res" where
  "ParseMarketStatus s =
     (if s = ''open'' then Inr MarketStatusOpen
      else if s = ''suspended'' then Inr MarketStatusSuspended
      else if s = ''closed'' then Inr MarketStatusClosed
      else if s = ''settled'' then Inr MarketStatusSettled
      else if s = ''voided'' then Inr MarketStatusVoided
      else Inl ErrUnknownMarketStatus)"

definition MarketStatus_MarshalText :: "MarketStatus \<Rightarrow> string res" where
  "MarketStatus_MarshalText k = (if \<not> MarketStatus_Valid k then Inl ErrUnknownMarketStatus else Inr (MarketStatus_String k))"

definition MarketStatus_UnmarshalText :: "string \<Rightarrow> MarketStatus res" where
  "MarketStatus_UnmarshalText b = ParseMarketStatus b"

interpretation market_status: text_enum MarketStatus_String ParseMarketStatus MarketStatus_Valid
  MarketStatus_MarshalText MarketStatus_UnmarshalText MarketStatusUnknown ErrUnknownMarketStatus
proof unfold_locales
  show "MarketStatus_Valid k \<Longrightarrow> ParseMarketStatus (MarketStatus_String k) = Inr k" for k
    by (cases k) (simp_all add: ParseMarketStatus_def)
  show "\<not> MarketStatus_Valid k \<longleftrightarrow> k = MarketStatusUnknown" for k by (cases k) simp_all
qed (auto simp: ParseMarketStatus_def MarketStatus_MarshalText_def MarketStatus_UnmarshalText_def split: if_splits)

definition MarketStatus_IsTerminal :: "MarketStatus \<Rightarrow> bool" where
  "MarketStatus_IsTerminal s = (s = MarketStatusSettled \<or> s = MarketStatusVoided)"

definition MarketStatus_AcceptsWagers :: "MarketStatus \<Rightarrow> bool" where
  "MarketStatus_AcceptsWagers s = (s = MarketStatusOpen)"

definition MarketStatus_CanTransitionTo :: "MarketStatus \<Rightarrow> MarketStatus \<Rightarrow> bool" where
  "MarketStatus_CanTransitionTo s next_status =
     (if \<not> MarketStatus_Valid s \<or> \<not> MarketStatus_Valid next_status then False
      else if s = next_status then True
      else case s of
        MarketStatusOpen \<Rightarrow>
          next_status = MarketStatusSuspended \<or> next_status = MarketStatusClosed \<or>
          next_status = MarketStatusVoided
      | MarketStatusSuspended \<Rightarrow>
          next_status = MarketStatusOpen \<or> next_status = MarketStatusClosed \<or>
          next_status = MarketStatusVoided
      | MarketStatusClosed \<Rightarrow>
          next_status = MarketStatusSettled \<or> next_status = MarketStatusVoided
      | _ \<Rightarrow> False)"

text \<open>How far a market has got: trading, closed, graded or voided.\<close>

fun market_stage :: "MarketStatus \<Rightarrow> nat" where
  "market_stage MarketStatusClosed = 1"
| "market_stage MarketStatusSettled = 2"
| "market_stage MarketStatusVoided = 2"
| "market_stage _ = 0"

section \<open>Markets\<close>

record Market =
  market_id :: string
  market_eventID :: string
  market_typ :: MarketType
  market_line :: Line
  market_subject :: string
  market_status :: MarketStatus
  market_updatedAt :: time

record MarketParams =
  mp_ID :: string
  mp_EventID :: string
  mp_Type :: MarketType
  mp_Line :: Line
  mp_Subject :: string
  mp_Status :: MarketStatus
  mp_UpdatedAt :: time

definition NewMarket :: "MarketParams \<Rightarrow> Market res" where
  "NewMarket p =
     bindE (validID (mp_ID p)) (\<lambda>_.
     bindE (validID (mp_EventID p)) (\<lambda>_.
     if \<not> MarketType_Valid (mp_Type p) then Inl ErrUnknownMarketType
     else if \<not> MarketStatus_Valid (mp_Status p) then Inl ErrUnknownMarketStatus
     else
     bindE (validateLine (mp_Type p) (mp_Line p)) (\<lambda>_.
     bindE
       (if NeedsSubject (mp_Type p) then
          (case validateName (mp_Subject p) of Inl _ \<Rightarrow> Inl ErrSubjectRequired | Inr s \<Rightarrow> Inr s)
        else if mp_Subject p \<noteq> [] then Inl ErrSubjectNotApplicable else Inr [])
     (\<lambda>subject.
     if time_is_zero (mp_UpdatedAt p) then Inl ErrZeroTime
     else Inr \<lparr> market_id = mp_ID p, market_eventID = mp_EventID p, market_typ = mp_Type p,
                market_line = mp_Line p, market_subject = subject, market_status = mp_Status p,
                market_updatedAt = time_utc (mp_UpdatedAt p) \<rparr>))))"

definition Market_AcceptsWagers :: "Market \<Rightarrow> bool" where
  "Market_AcceptsWagers m = MarketStatus_AcceptsWagers (market_status m)"

definition market_stamp :: "Market \<Rightarrow> time \<Rightarrow> Market res" where
  "market_stamp m at_time =
     (if time_is_zero at_time then Inl ErrZeroTime
      else let u = time_utc at_time in
        if time_before u (market_updatedAt m) then Inl ErrStaleUpdate
        else Inr (m \<lparr> market_updatedAt := u \<rparr>))"

definition Market_WithStatus :: "Market \<Rightarrow> MarketStatus \<Rightarrow> time \<Rightarrow> Market res" where
  "Market_WithStatus m next_status at_time =
     (if \<not> MarketStatus_Valid next_status then Inl ErrUnknownMarketStatus
      else if \<not> MarketStatus_CanTransitionTo (market_status m) next_status
      then Inl ErrIllegalTransition
      else bindE (market_stamp m at_time) (\<lambda>stamped. Inr (stamped \<lparr> market_status := next_status \<rparr>)))"

definition Market_WithLine :: "Market \<Rightarrow> Line \<Rightarrow> time \<Rightarrow> Market res" where
  "Market_WithLine m l at_time =
     bindE (validateLine (market_typ m) l) (\<lambda>_.
     bindE (market_stamp m at_time) (\<lambda>stamped. Inr (stamped \<lparr> market_line := l \<rparr>)))"

definition Market_IsZero :: "Market \<Rightarrow> bool" where
  "Market_IsZero m = id_is_zero (market_id m)"

text \<open>The updates a market admits, as data.\<close>

datatype market_op = MarketStatusOp MarketStatus time | MarketLineOp Line time

fun market_step :: "market_op \<Rightarrow> Market \<Rightarrow> Market res" where
  "market_step (MarketStatusOp s t) m = Market_WithStatus m s t"
| "market_step (MarketLineOp l t) m = Market_WithLine m l t"

fun market_op_time :: "market_op \<Rightarrow> time" where
  "market_op_time (MarketStatusOp s t) = t"
| "market_op_time (MarketLineOp l t) = t"

lemma market_stamp_ok [result_simps]:
  "market_stamp m t = Inr n \<longleftrightarrow> t \<noteq> 0 \<and> market_updatedAt m \<le> t \<and> n = m \<lparr> market_updatedAt := t \<rparr>"
  by (auto simp: market_stamp_def time_defs Let_def)

lemma Market_WithStatus_ok [result_simps]:
  "Market_WithStatus m s t = Inr n \<longleftrightarrow>
    MarketStatus_CanTransitionTo (market_status m) s \<and> t \<noteq> 0 \<and> market_updatedAt m \<le> t \<and>
    n = m \<lparr> market_updatedAt := t, market_status := s \<rparr>"
  by (auto simp: Market_WithStatus_def result_simps MarketStatus_CanTransitionTo_def)

lemma Market_WithLine_ok [result_simps]:
  "Market_WithLine m l t = Inr n \<longleftrightarrow>
    validateLine (market_typ m) l = Inr () \<and> t \<noteq> 0 \<and> market_updatedAt m \<le> t \<and>
    n = m \<lparr> market_updatedAt := t, market_line := l \<rparr>"
  by (auto simp: Market_WithLine_def result_simps)

lemma can_self_iff: "MarketStatus_CanTransitionTo s s \<longleftrightarrow> MarketStatus_Valid s"
  by (simp add: MarketStatus_CanTransitionTo_def)

interpretation markets: entity MarketStatus_Valid MarketStatus_CanTransitionTo
  MarketStatus_IsTerminal market_stage market_step market_op_time market_updatedAt market_status
proof unfold_locales
  fix s t assume "MarketStatus_CanTransitionTo s t"
  then show "MarketStatus_Valid s \<and> MarketStatus_Valid t" "market_stage s \<le> market_stage t"
    by (auto simp: MarketStatus_CanTransitionTo_def split: if_splits MarketStatus.splits)
next
  fix s assume "MarketStatus_Valid s"
  then show "MarketStatus_CanTransitionTo s s" by (simp add: MarketStatus_CanTransitionTo_def)
next
  fix s assume v: "MarketStatus_Valid s"
  have "\<not> MarketStatus_IsTerminal s \<Longrightarrow>
      MarketStatus_CanTransitionTo s MarketStatusVoided \<and> MarketStatusVoided \<noteq> s"
    using v by (cases s) (simp_all add: MarketStatus_CanTransitionTo_def MarketStatus_IsTerminal_def)
  moreover have "MarketStatus_IsTerminal s \<Longrightarrow> MarketStatus_CanTransitionTo s t \<Longrightarrow> t = s" for t
    by (cases s) (auto simp: MarketStatus_CanTransitionTo_def MarketStatus_IsTerminal_def split: if_splits)
  ultimately show "MarketStatus_IsTerminal s \<longleftrightarrow> (\<forall>t. MarketStatus_CanTransitionTo s t \<longrightarrow> t = s)"
    by blast
next
  fix op x y assume "market_step op x = Inr y"
  then show "market_updatedAt y = market_op_time op \<and> market_updatedAt x \<le> market_op_time op"
    by (cases op) (auto simp: result_simps)
next
  fix op x y assume "market_step op x = Inr y" "MarketStatus_Valid (market_status x)"
  then show "MarketStatus_CanTransitionTo (market_status x) (market_status y)"
    by (cases op) (auto simp: result_simps can_self_iff)
qed

section \<open>Every market that can exist\<close>

text \<open>
  Outside the package a \<open>Line\<close> comes from \<open>NoLine\<close> or \<open>NewLine\<close> only, and a market from
  \<open>NewMarket\<close> and its updates.
\<close>

definition line_built :: "Line \<Rightarrow> bool" where
  "line_built l = (l = NoLine \<or> NewLine (line_value l) = Inr l)"

fun op_lines_built :: "market_op \<Rightarrow> bool" where
  "op_lines_built (MarketLineOp l t) = line_built l"
| "op_lines_built _ = True"

inductive market_reachable :: "Market \<Rightarrow> bool" where
  new_market: "NewMarket p = Inr m \<Longrightarrow> line_built (mp_Line p) \<Longrightarrow> market_reachable m"
| update_market: "market_reachable m \<Longrightarrow> market_step op m = Inr n \<Longrightarrow> op_lines_built op \<Longrightarrow>
    market_reachable n"

text \<open>What a well-formed market is, independently of how it was made.\<close>

definition market_wf :: "Market \<Rightarrow> bool" where
  "market_wf m =
     (validID (market_id m) = Inr () \<and> validID (market_eventID m) = Inr () \<and>
      MarketType_Valid (market_typ m) \<and> MarketStatus_Valid (market_status m) \<and>
      (line_present (market_line m) \<longrightarrow> is_finite (line_value (market_line m))) \<and>
      (market_typ m \<in> {MarketTypeMoneyline, MarketTypeFutures} \<longrightarrow> \<not> line_present (market_line m)) \<and>
      (market_typ m \<in> {MarketTypeSpread, MarketTypeTotal} \<longrightarrow> line_present (market_line m)) \<and>
      (market_typ m = MarketTypeTotal \<longrightarrow> 0 < fval (line_value (market_line m))) \<and>
      (market_typ m = MarketTypePlayerProp \<longleftrightarrow> market_subject m \<noteq> []) \<and>
      market_updatedAt m \<noteq> 0)"

lemma line_built_finite: "line_built l \<Longrightarrow> line_present l \<Longrightarrow> is_finite (line_value l)"
  by (auto simp: line_built_def NoLine_def NewLine_def is_finite_def split: if_splits)

lemma NewLine_finite: "NewLine v = Inr l \<longleftrightarrow> is_finite v \<and> l = \<lparr> line_value = v, line_present = True \<rparr>"
  by (auto simp: NewLine_def is_finite_def)

lemma fle_zero_finite: "is_finite x \<Longrightarrow> fle x (Fin 0) \<longleftrightarrow> fval x \<le> 0"
  by (auto simp: fle_def flt_def feq_def is_finite_def)

lemma validateLine_rule:
  assumes "validateLine t l = Inr ()" "line_built l"
  shows "t \<in> {MarketTypeMoneyline, MarketTypeFutures} \<Longrightarrow> \<not> line_present l"
    "t \<in> {MarketTypeSpread, MarketTypeTotal} \<Longrightarrow> line_present l"
    "t = MarketTypeTotal \<Longrightarrow> 0 < fval (line_value l)"
  using assms line_built_finite [OF assms(2)]
  by (auto simp: validateLine_def result_simps Line_Value_def fle_zero_finite split: if_splits)

lemma validateName_nonempty: "validateName s = Inr t \<Longrightarrow> t \<noteq> []"
  by (auto simp: validateName_def Let_def split: if_splits)

lemma NewMarket_wf: "NewMarket p = Inr m \<Longrightarrow> line_built (mp_Line p) \<Longrightarrow> market_wf m"
  using validateLine_rule [of "mp_Type p" "mp_Line p"] line_built_finite [of "mp_Line p"]
  by (auto simp: NewMarket_def market_wf_def result_simps NeedsSubject_def time_defs
      dest: validateName_nonempty split: if_splits sum.splits)

lemma market_step_wf: "market_wf m \<Longrightarrow> market_step op m = Inr n \<Longrightarrow> op_lines_built op \<Longrightarrow> market_wf n"
proof (cases op)
  case (MarketLineOp l t)
  then show "market_wf m \<Longrightarrow> market_step op m = Inr n \<Longrightarrow> op_lines_built op \<Longrightarrow> market_wf n"
    using validateLine_rule [of "market_typ m" l] line_built_finite [of l]
    by (auto simp: result_simps market_wf_def)
qed (auto simp: result_simps market_wf_def dest: markets.can_valid)

lemma market_reachable_wf: "market_reachable m \<Longrightarrow> market_wf m"
  by (induction rule: market_reachable.induct) (auto intro: NewMarket_wf market_step_wf)

lemma closed_stays_closed:
  assumes "MarketStatus_Valid (market_status m)" "1 \<le> market_stage (market_status m)"
  shows "\<not> Market_AcceptsWagers (run market_step ops m)"
proof
  assume "Market_AcceptsWagers (run market_step ops m)"
  then have "market_stage (market_status (run market_step ops m)) = 0"
    by (simp add: Market_AcceptsWagers_def MarketStatus_AcceptsWagers_def)
  with markets.run_stage [OF assms(1), of ops] assms(2) show False by simp
qed

end
