(* ===== verification/Selection.thy ===== *)
theory Selection
  imports Market
begin

text \<open>
  \<open>internal/domain/selection.go\<close>: the roles a selection plays, which market type admits which
  role, and the line a selection trades at.
\<close>

section \<open>Roles\<close>

datatype SelectionRole = SelectionRoleUnknown | SelectionRoleHome | SelectionRoleAway | SelectionRoleDraw | SelectionRoleOver | SelectionRoleUnder | SelectionRoleOutright

fun SelectionRole_String :: "SelectionRole \<Rightarrow> string" where
  "SelectionRole_String SelectionRoleHome = ''home''"
| "SelectionRole_String SelectionRoleAway = ''away''"
| "SelectionRole_String SelectionRoleDraw = ''draw''"
| "SelectionRole_String SelectionRoleOver = ''over''"
| "SelectionRole_String SelectionRoleUnder = ''under''"
| "SelectionRole_String SelectionRoleOutright = ''outright''"
| "SelectionRole_String SelectionRoleUnknown = ''unknown''"

fun SelectionRole_Valid :: "SelectionRole \<Rightarrow> bool" where
  "SelectionRole_Valid SelectionRoleUnknown = False"
| "SelectionRole_Valid _ = True"

definition ParseSelectionRole :: "string \<Rightarrow> SelectionRole res" where
  "ParseSelectionRole s =
     (if s = ''home'' then Inr SelectionRoleHome
      else if s = ''away'' then Inr SelectionRoleAway
      else if s = ''draw'' then Inr SelectionRoleDraw
      else if s = ''over'' then Inr SelectionRoleOver
      else if s = ''under'' then Inr SelectionRoleUnder
      else if s = ''outright'' then Inr SelectionRoleOutright
      else Inl ErrUnknownSelectionRole)"

definition SelectionRole_MarshalText :: "SelectionRole \<Rightarrow> string res" where
  "SelectionRole_MarshalText k = (if \<not> SelectionRole_Valid k then Inl ErrUnknownSelectionRole else Inr (SelectionRole_String k))"

definition SelectionRole_UnmarshalText :: "string \<Rightarrow> SelectionRole res" where
  "SelectionRole_UnmarshalText b = ParseSelectionRole b"

interpretation selection_role: text_enum SelectionRole_String ParseSelectionRole SelectionRole_Valid
  SelectionRole_MarshalText SelectionRole_UnmarshalText SelectionRoleUnknown ErrUnknownSelectionRole
proof unfold_locales
  show "SelectionRole_Valid k \<Longrightarrow> ParseSelectionRole (SelectionRole_String k) = Inr k" for k
    by (cases k) (simp_all add: ParseSelectionRole_def)
  show "\<not> SelectionRole_Valid k \<longleftrightarrow> k = SelectionRoleUnknown" for k by (cases k) simp_all
qed (auto simp: ParseSelectionRole_def SelectionRole_MarshalText_def SelectionRole_UnmarshalText_def split: if_splits)

fun SelectionRole_Opposite :: "SelectionRole \<Rightarrow> SelectionRole \<times> bool" where
  "SelectionRole_Opposite SelectionRoleHome = (SelectionRoleAway, True)"
| "SelectionRole_Opposite SelectionRoleAway = (SelectionRoleHome, True)"
| "SelectionRole_Opposite SelectionRoleOver = (SelectionRoleUnder, True)"
| "SelectionRole_Opposite SelectionRoleUnder = (SelectionRoleOver, True)"
| "SelectionRole_Opposite _ = (SelectionRoleUnknown, False)"

fun SelectionRole_DisplayOrder :: "SelectionRole \<Rightarrow> int" where
  "SelectionRole_DisplayOrder SelectionRoleHome = 0"
| "SelectionRole_DisplayOrder SelectionRoleDraw = 1"
| "SelectionRole_DisplayOrder SelectionRoleAway = 2"
| "SelectionRole_DisplayOrder SelectionRoleOver = 3"
| "SelectionRole_DisplayOrder SelectionRoleUnder = 4"
| "SelectionRole_DisplayOrder SelectionRoleOutright = 5"
| "SelectionRole_DisplayOrder SelectionRoleUnknown = 6"

definition AllowsRole :: "MarketType \<Rightarrow> SelectionRole \<Rightarrow> bool" where
  "AllowsRole t r =
     (if \<not> MarketType_Valid t \<or> \<not> SelectionRole_Valid r then False
      else case t of
        MarketTypeMoneyline \<Rightarrow> r = SelectionRoleHome \<or> r = SelectionRoleAway \<or> r = SelectionRoleDraw
      | MarketTypeSpread \<Rightarrow> r = SelectionRoleHome \<or> r = SelectionRoleAway
      | MarketTypeTotal \<Rightarrow> r = SelectionRoleOver \<or> r = SelectionRoleUnder
      | MarketTypePlayerProp \<Rightarrow>
          r = SelectionRoleOver \<or> r = SelectionRoleUnder \<or> r = SelectionRoleOutright
      | MarketTypeFutures \<Rightarrow> r = SelectionRoleOutright
      | _ \<Rightarrow> False)"

section \<open>Selections\<close>

record Selection =
  sel_id :: string
  sel_marketID :: string
  sel_role :: SelectionRole
  sel_name :: string

record SelectionParams =
  slp_ID :: string
  slp_MarketID :: string
  slp_Role :: SelectionRole
  slp_Name :: string

definition NewSelection :: "SelectionParams \<Rightarrow> Selection res" where
  "NewSelection p =
     bindE (validID (slp_ID p)) (\<lambda>_.
     bindE (validID (slp_MarketID p)) (\<lambda>_.
     if \<not> SelectionRole_Valid (slp_Role p) then Inl ErrUnknownSelectionRole
     else
     bindE (validateName (slp_Name p)) (\<lambda>name.
     Inr \<lparr> sel_id = slp_ID p, sel_marketID = slp_MarketID p, sel_role = slp_Role p,
           sel_name = name \<rparr>)))"

definition Selection_BelongsTo :: "Selection \<Rightarrow> Market \<Rightarrow> bool" where
  "Selection_BelongsTo s m = (\<not> id_is_zero (sel_marketID s) \<and> sel_marketID s = market_id m)"

definition ValidateSelectionForMarket :: "Market \<Rightarrow> Selection \<Rightarrow> unit res" where
  "ValidateSelectionForMarket m s =
     (if \<not> Selection_BelongsTo s m then Inl ErrMismatchedParent
      else if \<not> AllowsRole (market_typ m) (sel_role s) then Inl ErrRoleNotApplicable
      else Inr ())"

definition EffectiveLine :: "Market \<Rightarrow> Selection \<Rightarrow> Line res" where
  "EffectiveLine m s =
     bindE (ValidateSelectionForMarket m s) (\<lambda>_.
       if market_typ m = MarketTypeSpread \<and> sel_role s = SelectionRoleAway
       then Inr (Line_Invert (market_line m))
       else Inr (market_line m))"

section \<open>The pairing of roles\<close>

lemma Opposite_involutive:
  "SelectionRole_Opposite r = (r', True) \<Longrightarrow> r' \<noteq> r \<and> SelectionRole_Opposite r' = (r, True)"
  by (cases r) auto

lemma Opposite_allowed:
  "SelectionRole_Opposite r = (r', True) \<Longrightarrow> AllowsRole t r \<Longrightarrow> AllowsRole t r'"
  by (cases r; cases t) (auto simp: AllowsRole_def)

lemma Line_Invert_value:
  assumes "line_present l" "is_finite (line_value l)"
  shows "line_present (Line_Invert l)" "is_finite (line_value (Line_Invert l))"
    "fval (line_value (Line_Invert l)) = - fval (line_value l)"
  using assms
  by (auto simp: Line_Invert_def feq_def fneg_def is_finite_def split: f64.splits)

lemma Line_Equal_refl: "line_built l \<Longrightarrow> Line_Equal l l"
  by (auto simp: line_built_def NoLine_def NewLine_def Line_Equal_def feq_def split: if_splits)

lemma Line_Equal_present:
  "line_built l \<Longrightarrow> line_built k \<Longrightarrow> Line_Equal l k \<longleftrightarrow>
    line_present l = line_present k \<and> fval (line_value l) = fval (line_value k)"
  by (auto simp: line_built_def NoLine_def NewLine_def Line_Equal_def feq_def split: if_splits)

lemma Line_Invert_built: "line_built l \<Longrightarrow> line_built (Line_Invert l)"
  by (auto simp: line_built_def NoLine_def NewLine_def Line_Invert_def fneg_def feq_def
      split: if_splits f64.splits)

lemma line_built_absent: "line_built l \<Longrightarrow> \<not> line_present l \<Longrightarrow> l = NoLine"
  by (auto simp: line_built_def NewLine_finite) (metis Line.select_convs(2))

text \<open>Inverting twice gives back the line, as the code compares lines.\<close>

lemma Line_Invert_twice: "line_built l \<Longrightarrow> Line_Equal (Line_Invert (Line_Invert l)) l"
proof (cases "line_present l")
  case True
  assume l: "line_built l"
  note fin = line_built_finite [OF l True]
  note i = Line_Invert_value [OF True fin]
  note ii = Line_Invert_value [OF i(1,2)]
  show ?thesis
    using i ii True by (simp add: Line_Equal_present Line_Invert_built l)
next
  case False
  assume "line_built l"
  with False have "l = NoLine" by (rule line_built_absent [rotated])
  then show ?thesis by (simp add: Line_Invert_def NoLine_def Line_Equal_def feq_def)
qed

text \<open>
  The line of a selection and the line of the opposite one: mirrored on a spread, shared
  everywhere else.
\<close>

lemma EffectiveLine_ok:
  "EffectiveLine m s = Inr l \<longleftrightarrow> sel_marketID s \<noteq> [] \<and> sel_marketID s = market_id m \<and>
    AllowsRole (market_typ m) (sel_role s) \<and>
    l = (if market_typ m = MarketTypeSpread \<and> sel_role s = SelectionRoleAway
         then Line_Invert (market_line m) else market_line m)"
  by (auto simp: EffectiveLine_def ValidateSelectionForMarket_def Selection_BelongsTo_def
      id_is_zero_def result_simps)

lemma EffectiveLine_opposite:
  assumes "EffectiveLine m s = Inr l" "EffectiveLine m t = Inr k"
    and "SelectionRole_Opposite (sel_role s) = (sel_role t, True)" "line_built (market_line m)"
  shows "Line_Equal k (if market_typ m = MarketTypeSpread then Line_Invert l else l)"
proof (cases "market_typ m = MarketTypeSpread")
  case True
  then have "sel_role s \<in> {SelectionRoleHome, SelectionRoleAway}"
    using assms(1) by (simp add: EffectiveLine_ok AllowsRole_def split: if_splits)
  then show ?thesis
    using assms True Line_Invert_twice [OF assms(4)]
    by (auto simp: EffectiveLine_ok Line_Equal_refl Line_Invert_built Line_Equal_present)
qed (use assms in \<open>auto simp: EffectiveLine_ok Line_Equal_refl\<close>)

end
