(* ===== verification/GoInt.thy ===== *)
theory GoInt
  imports Prelude "HOL-Library.Signed_Division"
begin

text \<open>
  Go's \<open>int64\<close> and \<open>uint64\<close>: both are \<open>64 word\<close>, arithmetic wraps, conversion between the two
  keeps the bits, and \<open><\<close> on \<open>int64\<close> is the signed order. \<open>/\<close> and \<open>%\<close> on \<open>int64\<close> truncate
  toward zero.
\<close>

unbundle bit_operations_syntax

type_synonym int64 = "64 word"
type_synonym uint64 = "64 word"

definition go_div :: "int64 \<Rightarrow> int64 \<Rightarrow> int64" where
  "go_div a b = word_of_int (sint a sdiv sint b)"

definition go_mod :: "int64 \<Rightarrow> int64 \<Rightarrow> int64" where
  "go_mod a b = word_of_int (sint a smod sint b)"

section \<open>Signed values\<close>

lemma sint64_bounds: "- (2 ^ 63) \<le> sint (a :: int64)" "sint (a :: int64) < 2 ^ 63"
  using sint_ge [of a] sint_lt [of a] by simp_all

lemma sint_eq_iff: "sint (a :: int64) = sint b \<longleftrightarrow> a = b"
  by (auto intro: signed_word_eqI)

definition wrap64 :: "int \<Rightarrow> int" where
  "wrap64 k = (k + 2 ^ 63) mod 2 ^ 64 - 2 ^ 63"

lemma signed_take_bit_63: "signed_take_bit 63 k = wrap64 k" for k :: int
  by (simp add: signed_take_bit_eq_take_bit_shift take_bit_eq_mod wrap64_def)

lemma sint_add64: "sint (a + b) = wrap64 (sint a + sint b)" for a b :: int64
  by (simp add: sint_word_ariths signed_take_bit_63)

lemma sint_sub64: "sint (a - b) = wrap64 (sint a - sint b)" for a b :: int64
  by (simp add: sint_word_ariths signed_take_bit_63)

lemma sint_neg64: "sint (- a) = wrap64 (- sint a)" for a :: int64
  by (simp add: sint_word_ariths signed_take_bit_63)

lemma sint_of_int64: "sint (word_of_int k :: int64) = wrap64 k"
  by (simp add: sint_sbintrunc' signed_take_bit_63)

lemma wrap64_id: "- (2 ^ 63) \<le> k \<Longrightarrow> k < 2 ^ 63 \<Longrightarrow> wrap64 k = k"
  by (simp add: wrap64_def)

lemma wrap64_up: "2 ^ 63 \<le> k \<Longrightarrow> k < 2 ^ 64 \<Longrightarrow> wrap64 k = k - 2 ^ 64"
proof -
  assume "2 ^ 63 \<le> k" "k < 2 ^ 64"
  then have "(k + 2 ^ 63 - 2 ^ 64) mod 2 ^ 64 = k + 2 ^ 63 - 2 ^ 64"
    by (intro mod_pos_pos_trivial) simp_all
  then show ?thesis by (simp only: wrap64_def minus_mod_self2)
qed

lemma wrap64_down: "- (2 ^ 64) \<le> k \<Longrightarrow> k < - (2 ^ 63) \<Longrightarrow> wrap64 k = k + 2 ^ 64"
proof -
  assume "- (2 ^ 64) \<le> k" "k < - (2 ^ 63)"
  then have "(k + 2 ^ 63 + 2 ^ 64) mod 2 ^ 64 = k + 2 ^ 63 + 2 ^ 64"
    by (intro mod_pos_pos_trivial) simp_all
  then show ?thesis by (simp only: wrap64_def mod_add_self2)
qed

lemma sint_eqI64: "sint (a :: int64) = k \<Longrightarrow> a = word_of_int k"
  by auto

lemma wrap64_cong: "wrap64 (wrap64 j + k) = wrap64 (j + k)"
  by (simp add: wrap64_def mod_simps) (simp add: algebra_simps)

lemma wrap64_sum_sign:
  assumes "- (2 ^ 63) \<le> j" "j < 2 ^ 63" "- (2 ^ 63) \<le> k" "k < 2 ^ 63"
  shows "(j < 0) \<noteq> (wrap64 (j + k) < 0) \<and> (k < 0) \<noteq> (wrap64 (j + k) < 0) \<longleftrightarrow>
    j + k < - (2 ^ 63) \<or> 2 ^ 63 \<le> j + k"
proof -
  consider "j + k < - (2 ^ 63)" | "2 ^ 63 \<le> j + k" | "- (2 ^ 63) \<le> j + k" "j + k < 2 ^ 63"
    by linarith
  then show ?thesis
  proof cases
    case 1
    with assms have "wrap64 (j + k) = j + k + 2 ^ 64" by (intro wrap64_down) simp_all
    with 1 assms show ?thesis by auto
  next
    case 2
    with assms have "wrap64 (j + k) = j + k - 2 ^ 64" by (intro wrap64_up) simp_all
    with 2 assms show ?thesis by auto
  next
    case 3
    then have "wrap64 (j + k) = j + k" by (rule wrap64_id)
    with 3 assms show ?thesis by auto
  qed
qed

lemma wrap64_diff_sign:
  assumes "- (2 ^ 63) \<le> j" "j < 2 ^ 63" "- (2 ^ 63) \<le> k" "k < 2 ^ 63"
  shows "(j < 0) \<noteq> (k < 0) \<and> (j < 0) \<noteq> (wrap64 (j - k) < 0) \<longleftrightarrow>
    j - k < - (2 ^ 63) \<or> 2 ^ 63 \<le> j - k"
proof -
  consider "j - k < - (2 ^ 63)" | "2 ^ 63 \<le> j - k" | "- (2 ^ 63) \<le> j - k" "j - k < 2 ^ 63"
    by linarith
  then show ?thesis
  proof cases
    case 1
    with assms have "wrap64 (j - k) = j - k + 2 ^ 64" by (intro wrap64_down) simp_all
    with 1 assms show ?thesis by auto
  next
    case 2
    with assms have "wrap64 (j - k) = j - k - 2 ^ 64" by (intro wrap64_up) simp_all
    with 2 assms show ?thesis by auto
  next
    case 3
    then have "wrap64 (j - k) = j - k" by (rule wrap64_id)
    with 3 assms show ?thesis by auto
  qed
qed

section \<open>The sign bit\<close>

lemma sless_zero_bit: "a <s 0 \<longleftrightarrow> bit a 63" for a :: int64
  using bit_last_iff [of a] by (simp add: word_sless_alt)

lemma xor_and_sign:
  "(a XOR s) AND (b XOR s) <s 0 \<longleftrightarrow> (a <s 0) \<noteq> (s <s 0) \<and> (b <s 0) \<noteq> (s <s 0)" for a b s :: int64
  by (simp add: sless_zero_bit bit_simps)

text \<open>The sign-bit identity: operands of one sign with a sum of the other.\<close>

lemma add_overflow_sign:
  fixes a b :: int64
  shows "(a XOR (a + b)) AND (b XOR (a + b)) <s 0 \<longleftrightarrow>
    sint a + sint b < - (2 ^ 63) \<or> 2 ^ 63 \<le> sint a + sint b"
  using wrap64_sum_sign [OF sint64_bounds sint64_bounds, of a b]
  by (simp only: xor_and_sign) (simp only: word_sless_alt sint_add64 sint_0)

lemma sub_overflow_sign:
  fixes a b :: int64
  shows "(a XOR b) AND (a XOR (a - b)) <s 0 \<longleftrightarrow>
    sint a - sint b < - (2 ^ 63) \<or> 2 ^ 63 \<le> sint a - sint b"
proof -
  have "(a XOR b) AND (a XOR (a - b)) <s 0 \<longleftrightarrow>
      (a <s 0) \<noteq> (b <s 0) \<and> (a <s 0) \<noteq> (a - b <s 0)"
    by (simp add: sless_zero_bit bit_simps)
  then show ?thesis
    using wrap64_diff_sign [OF sint64_bounds sint64_bounds, of a b]
    by (simp only: word_sless_alt sint_sub64 sint_0)
qed

section \<open>Unsigned magnitudes\<close>

lemma uint_of_nonneg: "0 \<le> sint a \<Longrightarrow> uint a = sint a" for a :: int64
proof -
  assume a: "0 \<le> sint a"
  have s: "sint a = wrap64 (uint a)" by (simp add: sint_uint signed_take_bit_63)
  have u: "0 \<le> uint a" "uint a < 2 ^ 64" using uint_lt2p [of a] by simp_all
  have "uint a < 2 ^ 63"
  proof (rule ccontr)
    assume "\<not> uint a < 2 ^ 63"
    then have "sint a = uint a - 2 ^ 64" using u s by (simp add: wrap64_up)
    with a u show False by simp
  qed
  with u have "wrap64 (uint a) = uint a" by (intro wrap64_id) linarith+
  with s show ?thesis by simp
qed

lemma sint_of_small: "unat a < 2 ^ 63 \<Longrightarrow> sint a = int (unat a)" for a :: int64
proof -
  assume "unat a < 2 ^ 63"
  then have "int (unat a) < int (2 ^ 63)" by (simp only: of_nat_less_iff)
  then have "uint a < 2 ^ 63" by (simp only: uint_nat [symmetric]) simp
  then have "wrap64 (uint a) = uint a" using uint_ge_0 [of a] by (intro wrap64_id) linarith+
  then have "sint a = uint a" by (simp add: sint_uint signed_take_bit_63)
  then show ?thesis by (simp only: uint_nat)
qed

lemma uint_eq_sint_mod: "uint a = sint a mod 2 ^ 64" for a :: int64
proof -
  have "uint a = uint (word_of_int (sint a) :: int64)" by simp
  also have "\<dots> = sint a mod 2 ^ 64" by (simp only: uint_word_of_int_eq take_bit_eq_mod) simp
  finally show ?thesis .
qed

end
