(* ===== verification/Money.thy ===== *)
theory Money
  imports GoInt GoFloat GoText TextEnum
begin

text \<open>
  \<open>internal/domain/money.go\<close>: signed minor units as a 64-bit word, with the overflow guards the
  code writes on the word, the rounding modes, multiplication by a float, and the decimal
  rendering and parsing. Each operation comes with its characterisation on integers, which is
  what the other components use.
\<close>

unbundle bit_operations_syntax

type_synonym money = int64

definition MinorUnitsPerMajor :: int64 where "MinorUnitsPerMajor = 100"
definition MaxSafeMoney :: money where "MaxSafeMoney = 9007199254740991"
definition MinSafeMoney :: money where "MinSafeMoney = - 9007199254740991"
definition ZeroMoney :: money where "ZeroMoney = 0"

definition unsafe :: "money \<Rightarrow> bool" where
  "unsafe m = (MaxSafeMoney <s m \<or> m <s MinSafeMoney)"

abbreviation "safe_units k \<equiv> \<bar>k :: int\<bar> \<le> 9007199254740991"

lemma unsafe_iff: "unsafe m \<longleftrightarrow> \<not> safe_units (sint m)"
  by (auto simp: unsafe_def MaxSafeMoney_def MinSafeMoney_def word_sless_alt)

section \<open>Rounding modes\<close>

datatype Rounding = RoundingUnknown | RoundHalfAwayFromZero | RoundHalfToEven | RoundTowardZero

fun Rounding_String :: "Rounding \<Rightarrow> string" where
  "Rounding_String RoundHalfAwayFromZero = ''half_away_from_zero''"
| "Rounding_String RoundHalfToEven = ''half_to_even''"
| "Rounding_String RoundTowardZero = ''toward_zero''"
| "Rounding_String RoundingUnknown = ''unknown''"

fun Rounding_Valid :: "Rounding \<Rightarrow> bool" where
  "Rounding_Valid RoundingUnknown = False"
| "Rounding_Valid _ = True"

definition ParseRounding :: "string \<Rightarrow> Rounding res" where
  "ParseRounding s =
     (if s = ''half_away_from_zero'' then Inr RoundHalfAwayFromZero
      else if s = ''half_to_even'' then Inr RoundHalfToEven
      else if s = ''toward_zero'' then Inr RoundTowardZero
      else Inl ErrUnknownRounding)"

definition Rounding_MarshalText :: "Rounding \<Rightarrow> string res" where
  "Rounding_MarshalText r = (if \<not> Rounding_Valid r then Inl ErrUnknownRounding else Inr (Rounding_String r))"

definition Rounding_UnmarshalText :: "string \<Rightarrow> Rounding res" where
  "Rounding_UnmarshalText b = ParseRounding b"

interpretation rounding: text_enum Rounding_String ParseRounding Rounding_Valid
  Rounding_MarshalText Rounding_UnmarshalText RoundingUnknown ErrUnknownRounding
proof unfold_locales
  show "Rounding_Valid k \<Longrightarrow> ParseRounding (Rounding_String k) = Inr k" for k
    by (cases k) (simp_all add: ParseRounding_def)
  show "ParseRounding s = Inr k \<Longrightarrow> Rounding_Valid k \<and> Rounding_String k = s" for s k
    by (auto simp: ParseRounding_def split: if_splits)
  show "ParseRounding s = Inl e \<Longrightarrow> e = ErrUnknownRounding" for s e
    by (auto simp: ParseRounding_def split: if_splits)
  show "\<not> Rounding_Valid k \<longleftrightarrow> k = RoundingUnknown" for k by (cases k) simp_all
qed (simp_all add: Rounding_MarshalText_def Rounding_UnmarshalText_def)

section \<open>Construction and inspection\<close>

definition FromMinorUnits :: "int64 \<Rightarrow> money res" where
  "FromMinorUnits n = (if MaxSafeMoney <s n \<or> n <s MinSafeMoney then Inl ErrMoneyOverflow else Inr n)"

definition FromMajorUnits :: "int64 \<Rightarrow> money res" where
  "FromMajorUnits n =
     (if go_div MaxSafeMoney MinorUnitsPerMajor <s n \<or> n <s go_div MinSafeMoney MinorUnitsPerMajor
      then Inl ErrMoneyOverflow else Inr (n * MinorUnitsPerMajor))"

definition magnitude :: "money \<Rightarrow> uint64" where
  "magnitude m = (if m <s 0 then - (m + 1) + 1 else m)"

definition absUint64 :: "int64 \<Rightarrow> uint64" where
  "absUint64 k = (if k <s 0 then - (k + 1) + 1 else k)"

definition Money_Split :: "money \<Rightarrow> int64 \<times> int64 \<times> int" where
  "Money_Split m =
     (let u = magnitude m; sign = (if 0 <s m then 1 else if m <s 0 then - 1 else 0)
      in (u div MinorUnitsPerMajor, u mod MinorUnitsPerMajor, sign))"

definition Money_IsZero :: "money \<Rightarrow> bool" where "Money_IsZero m = (m = 0)"
definition Money_IsPositive :: "money \<Rightarrow> bool" where "Money_IsPositive m = (0 <s m)"
definition Money_IsNegative :: "money \<Rightarrow> bool" where "Money_IsNegative m = (m <s 0)"

definition Money_Compare :: "money \<Rightarrow> money \<Rightarrow> int" where
  "Money_Compare m n = (if m <s n then - 1 else if n <s m then 1 else 0)"

section \<open>Checked arithmetic\<close>

definition Money_Add :: "money \<Rightarrow> money \<Rightarrow> money res" where
  "Money_Add m n =
     (let s = m + n in
      if (m XOR s) AND (n XOR s) <s 0 then Inl ErrMoneyOverflow
      else if MaxSafeMoney <s s \<or> s <s MinSafeMoney then Inl ErrMoneyOverflow
      else Inr s)"

definition Money_Sub :: "money \<Rightarrow> money \<Rightarrow> money res" where
  "Money_Sub m n =
     (let d = m - n in
      if (m XOR n) AND (m XOR d) <s 0 then Inl ErrMoneyOverflow
      else if MaxSafeMoney <s d \<or> d <s MinSafeMoney then Inl ErrMoneyOverflow
      else Inr d)"

definition Money_Neg :: "money \<Rightarrow> money res" where
  "Money_Neg m =
     (if m = - (2 ^ 63) then Inl ErrMoneyOverflow
      else let n = - m in
        if MaxSafeMoney <s n \<or> n <s MinSafeMoney then Inl ErrMoneyOverflow else Inr n)"

definition Money_Abs :: "money \<Rightarrow> money res" where
  "Money_Abs m =
     (if m <s 0 then Money_Neg m
      else if MaxSafeMoney <s m then Inl ErrMoneyOverflow else Inr m)"

definition Money_MulInt :: "money \<Rightarrow> int64 \<Rightarrow> money res" where
  "Money_MulInt m k =
     (if m = 0 \<or> k = 0 then Inr ZeroMoney
      else if MaxSafeMoney <s m \<or> m <s MinSafeMoney then Inl ErrMoneyOverflow
      else let am = magnitude m; ak = absUint64 k in
        if MaxSafeMoney div ak < am then Inl ErrMoneyOverflow
        else let product = am * ak in
          if (m <s 0) \<noteq> (k <s 0) then Inr (- product) else Inr product)"

definition Money_DivMod :: "money \<Rightarrow> int64 \<Rightarrow> (money \<times> money) res" where
  "Money_DivMod m k =
     (if k = 0 then Inl ErrMoneyDivideByZero
      else if k = - 1 then bindE (Money_Neg m) (\<lambda>q. Inr (q, 0))
      else Inr (go_div m k, go_mod m k))"

fun SumMoney_from :: "money \<Rightarrow> money list \<Rightarrow> money res" where
  "SumMoney_from acc [] = Inr acc"
| "SumMoney_from acc (v # vs) = bindE (Money_Add acc v) (\<lambda>next_total. SumMoney_from next_total vs)"

definition SumMoney :: "money list \<Rightarrow> money res" where
  "SumMoney vs = SumMoney_from ZeroMoney vs"

section \<open>Characterisation on integers\<close>

named_theorems money_simps "what a checked operation returns, on integers"

lemma sint_consts [simp]:
  "sint MaxSafeMoney = 9007199254740991" "sint MinSafeMoney = - 9007199254740991"
  "sint ZeroMoney = 0"
  by (simp_all add: MaxSafeMoney_def MinSafeMoney_def ZeroMoney_def)

lemma Money_IsZero_iff [money_simps]: "Money_IsZero m \<longleftrightarrow> sint m = 0"
  by (simp add: Money_IsZero_def flip: sint_eq_iff)

lemma Money_IsPositive_iff [money_simps]: "Money_IsPositive m \<longleftrightarrow> 0 < sint m"
  by (simp add: Money_IsPositive_def word_sless_alt)

lemma Money_Compare_less [money_simps]: "Money_Compare m n < 0 \<longleftrightarrow> sint m < sint n"
  by (simp add: Money_Compare_def word_sless_alt)

lemma Money_Compare_greater [money_simps]: "0 < Money_Compare m n \<longleftrightarrow> sint n < sint m"
  by (simp add: Money_Compare_def word_sless_alt)

lemma Money_Compare_eq [money_simps]: "Money_Compare m n = 0 \<longleftrightarrow> m = n"
  by (simp add: Money_Compare_def word_sless_alt flip: sint_eq_iff)

lemma sint_add_safe: "safe_units (sint m + sint n) \<Longrightarrow> sint (m + n) = sint m + sint n"
  for m n :: money
  by (simp add: sint_add64 wrap64_id abs_le_iff)

lemma sint_sub_safe: "safe_units (sint m - sint n) \<Longrightarrow> sint (m - n) = sint m - sint n"
  for m n :: money
  by (simp add: sint_sub64 wrap64_id abs_le_iff)

lemma Money_Add_eq:
  "Money_Add m n = (if safe_units (sint m + sint n) then Inr (m + n) else Inl ErrMoneyOverflow)"
proof (cases "sint m + sint n < - (2 ^ 63) \<or> 2 ^ 63 \<le> sint m + sint n")
  case True
  then have "\<not> safe_units (sint m + sint n)" by auto
  with True show ?thesis by (simp only: Money_Add_def Let_def add_overflow_sign) simp
next
  case False
  then have "sint (m + n) = sint m + sint n" by (simp add: sint_add64 wrap64_id not_less not_le)
  with False show ?thesis
    unfolding Money_Add_def Let_def add_overflow_sign unsafe_def [symmetric] unsafe_iff by auto
qed

lemma Money_Sub_eq:
  "Money_Sub m n = (if safe_units (sint m - sint n) then Inr (m - n) else Inl ErrMoneyOverflow)"
proof (cases "sint m - sint n < - (2 ^ 63) \<or> 2 ^ 63 \<le> sint m - sint n")
  case True
  then have "\<not> safe_units (sint m - sint n)" by auto
  with True show ?thesis by (simp only: Money_Sub_def Let_def sub_overflow_sign) simp
next
  case False
  then have "sint (m - n) = sint m - sint n" by (simp add: sint_sub64 wrap64_id not_less not_le)
  with False show ?thesis
    unfolding Money_Sub_def Let_def sub_overflow_sign unsafe_def [symmetric] unsafe_iff by auto
qed

lemma Money_Add_ok [money_simps]:
  "Money_Add m n = Inr s \<longleftrightarrow> safe_units (sint m + sint n) \<and> sint s = sint m + sint n"
  using sint_add_safe [of m n] by (auto simp: Money_Add_eq simp flip: sint_eq_iff)

lemma Money_Sub_ok [money_simps]:
  "Money_Sub m n = Inr s \<longleftrightarrow> safe_units (sint m - sint n) \<and> sint s = sint m - sint n"
  using sint_sub_safe [of m n] by (auto simp: Money_Sub_eq simp flip: sint_eq_iff)

lemma Money_err: "Money_Add m n = Inl e \<Longrightarrow> e = ErrMoneyOverflow"
  "Money_Sub m n = Inl e \<Longrightarrow> e = ErrMoneyOverflow"
  by (auto simp: Money_Add_eq Money_Sub_eq split: if_splits)

lemma minint_sint: "m = - (2 ^ 63) \<longleftrightarrow> sint m = - (2 ^ 63)" for m :: money
  by (simp flip: sint_eq_iff)

lemma sint_neg_min: "sint m \<noteq> - (2 ^ 63) \<Longrightarrow> sint (- m) = - sint m" for m :: money
  using sint64_bounds [of m] wrap64_id [of "- sint m"] by (simp add: sint_neg64)

lemma Money_Neg_ok [money_simps]: "Money_Neg m = Inr n \<longleftrightarrow> safe_units (sint m) \<and> sint n = - sint m"
proof (cases "sint m = - (2 ^ 63)")
  case False
  then have "sint (- m) = - sint m" by (rule sint_neg_min)
  with False show ?thesis
    unfolding Money_Neg_def Let_def minint_sint unsafe_def [symmetric] unsafe_iff
    by (auto simp flip: sint_eq_iff)
next
  case True
  then show ?thesis unfolding Money_Neg_def minint_sint by simp
qed

lemma Money_Abs_ok [money_simps]: "Money_Abs m = Inr n \<longleftrightarrow> safe_units (sint m) \<and> sint n = \<bar>sint m\<bar>"
  by (auto simp: Money_Abs_def word_sless_alt money_simps simp flip: sint_eq_iff)

subsection \<open>Multiplication and division by integers\<close>

lemma magnitude_eq: "magnitude m = (if m <s 0 then - m else m)"
  by (simp add: magnitude_def)

lemma absUint64_eq: "absUint64 k = (if k <s 0 then - k else k)"
  by (simp add: absUint64_def)

lemma uint_abs64: "uint (if m <s 0 then - m else m) = \<bar>sint m\<bar>" for m :: int64
proof (cases "sint m < 0")
  case True
  have "uint (- m) = (- sint m) mod 2 ^ 64"
    by (simp add: uint_eq_sint_mod [of "- m"] sint_neg64 wrap64_def mod_simps)
  also have "\<dots> = - sint m"
    using True sint64_bounds [of m] by (intro mod_pos_pos_trivial) simp_all
  finally show ?thesis using True by (simp add: word_sless_alt)
qed (simp add: word_sless_alt uint_of_nonneg)

lemma uint_magnitude: "uint (magnitude m) = \<bar>sint m\<bar>"
  by (simp only: magnitude_eq uint_abs64)

lemma uint_absUint64: "uint (absUint64 k) = \<bar>sint k\<bar>"
  by (simp only: absUint64_eq uint_abs64)

lemma uint_MaxSafeMoney: "uint MaxSafeMoney = 9007199254740991"
  by (simp add: MaxSafeMoney_def)

lemma div_less_iff_mult: "0 < k \<Longrightarrow> a div k < m \<longleftrightarrow> a < m * k" for a k m :: int
proof
  assume k: "0 < k" and "a div k < m"
  then have "(a div k + 1) * k \<le> m * k" by (intro mult_right_mono) simp_all
  moreover have "a < (a div k + 1) * k"
    using div_mult_mod_eq [of a k] pos_mod_bound [OF k, of a] unfolding distrib_right mult_1 by linarith
  ultimately show "a < m * k" by linarith
next
  assume k: "0 < k" and a: "a < m * k"
  show "a div k < m"
  proof (rule ccontr)
    assume "\<not> a div k < m"
    then have "m * k \<le> (a div k) * k" using k by (intro mult_right_mono) simp_all
    also have "\<dots> \<le> a" using k div_mult_mod_eq [of a k] pos_mod_sign [of k a] by linarith
    finally show False using a by simp
  qed
qed

lemma mul_guard:
  assumes "k \<noteq> 0"
  shows "MaxSafeMoney div absUint64 k < magnitude m \<longleftrightarrow> \<not> safe_units (sint m * sint k)"
proof -
  have "0 < \<bar>sint k\<bar>" using assms by (simp flip: sint_eq_iff)
  then show ?thesis
    by (simp add: word_less_def uint_div uint_magnitude uint_absUint64 uint_MaxSafeMoney
        div_less_iff_mult abs_mult not_le)
qed

lemma sint_mul64: "sint (a * b) = wrap64 (sint a * sint b)" for a b :: int64
  by (simp add: sint_word_ariths signed_take_bit_63)

lemma signed_product:
  "(if (m <s 0) \<noteq> (k <s 0) then - (magnitude m * absUint64 k) else magnitude m * absUint64 k) = m * k"
  by (simp add: magnitude_eq absUint64_eq)

lemma Money_MulInt_eq:
  "Money_MulInt m k = (if safe_units (sint m * sint k) then Inr (m * k) else Inl ErrMoneyOverflow)"
proof (cases "m = 0 \<or> k = 0")
  case True
  then show ?thesis by (auto simp: Money_MulInt_def ZeroMoney_def)
next
  case False
  then have k: "1 \<le> \<bar>sint k\<bar>" and nz: "m \<noteq> 0" "k \<noteq> 0" by (auto simp flip: sint_eq_iff)
  have guard: "unsafe m \<Longrightarrow> \<not> safe_units (sint m * sint k)"
    using mult_mono [of "\<bar>sint m\<bar>" "\<bar>sint m\<bar>" 1 "\<bar>sint k\<bar>"] k by (simp add: unsafe_iff abs_mult)
  show ?thesis
    using nz guard signed_product [of m k]
    unfolding Money_MulInt_def unsafe_def [symmetric] Let_def mul_guard [OF nz(2)]
    by (auto split: if_splits)
qed

lemma Money_MulInt_ok [money_simps]:
  "Money_MulInt m k = Inr n \<longleftrightarrow> safe_units (sint m * sint k) \<and> sint n = sint m * sint k"
proof -
  have "safe_units (sint m * sint k) \<Longrightarrow> sint (m * k) = sint m * sint k"
    by (simp add: sint_mul64 wrap64_id abs_le_iff)
  then show ?thesis by (auto simp: Money_MulInt_eq simp flip: sint_eq_iff)
qed

lemma abs_sdiv: "\<bar>a sdiv b\<bar> \<le> \<bar>a\<bar> div \<bar>b\<bar>" for a b :: int
  by (auto simp: signed_divide_int_def abs_mult abs_sgn_eq div_int_pos_iff)

lemma sint_go_div:
  assumes "sint b \<noteq> 0" "sint b \<noteq> - 1"
  shows "sint (go_div a b) = sint a sdiv sint b"
proof (cases "sint b = 1")
  case True
  then show ?thesis by (simp add: go_div_def)
next
  case False
  then have "\<bar>sint a\<bar> div \<bar>sint b\<bar> \<le> \<bar>sint a\<bar> div 2"
    using assms by (intro zdiv_mono2) auto
  also have "\<dots> < 2 ^ 63" using sint64_bounds [of a] by auto
  finally have "\<bar>sint a sdiv sint b\<bar> < 2 ^ 63" using abs_sdiv [of "sint a" "sint b"] by linarith
  then show ?thesis by (simp add: go_div_def sint_of_int64 wrap64_id abs_less_iff)
qed

lemma abs_smod_less: "b \<noteq> 0 \<Longrightarrow> \<bar>a smod b\<bar> < \<bar>b\<bar>" for a b :: int
  by (simp add: signed_modulo_int_def abs_mult abs_sgn_eq)

lemma smod_sign: "b \<noteq> 0 \<Longrightarrow> 0 \<le> (a smod b) * a" for a b :: int
proof -
  assume "b \<noteq> 0"
  then have "0 \<le> \<bar>a\<bar> mod \<bar>b\<bar>" by simp
  then have "0 \<le> \<bar>a\<bar> * (\<bar>a\<bar> mod \<bar>b\<bar>)" by simp
  also have "\<dots> = (a smod b) * a"
    by (cases a "0::int" rule: linorder_cases) (simp_all add: signed_modulo_int_def)
  finally show ?thesis .
qed

lemma sint_go_mod: "sint b \<noteq> 0 \<Longrightarrow> sint (go_mod a b) = sint a smod sint b"
proof -
  assume b: "sint b \<noteq> 0"
  then have "\<bar>sint a smod sint b\<bar> < \<bar>sint b\<bar>" by (rule abs_smod_less)
  also have "\<bar>sint b\<bar> \<le> 2 ^ 63" using sint64_bounds [of b] by auto
  finally show ?thesis by (simp add: go_mod_def sint_of_int64 wrap64_id abs_less_iff)
qed

lemma Money_DivMod_ok:
  assumes "Money_DivMod m k = Inr (q, r)"
  shows "sint q * sint k + sint r = sint m" "\<bar>sint r\<bar> < \<bar>sint k\<bar>" "sint r * sint m \<ge> 0"
proof -
  have k0: "sint k \<noteq> 0" using assms by (auto simp: Money_DivMod_def simp flip: sint_eq_iff)
  have all: "sint q * sint k + sint r = sint m \<and> \<bar>sint r\<bar> < \<bar>sint k\<bar> \<and> sint r * sint m \<ge> 0"
  proof (cases "k = - 1")
    case True
    then show ?thesis using assms by (auto simp: Money_DivMod_def result_simps money_simps)
  next
    case False
    then have k: "sint k \<noteq> - 1" by (simp flip: sint_eq_iff)
    have "q = go_div m k" "r = go_mod m k"
      using assms k0 False by (auto simp: Money_DivMod_def split: if_splits)
    then show ?thesis
      using sdiv_mult_smod_eq [of "sint m" "sint k"] abs_smod_less [OF k0, of "sint m"]
        smod_sign [OF k0, of "sint m"]
      by (simp add: sint_go_div [OF k0 k] sint_go_mod [OF k0])
  qed
  then show "sint q * sint k + sint r = sint m" "\<bar>sint r\<bar> < \<bar>sint k\<bar>" "sint r * sint m \<ge> 0"
    by blast+
qed

subsection \<open>Sums\<close>

abbreviation "units vs \<equiv> sum_list (map sint (vs :: money list))"

lemma SumMoney_from_ok:
  "SumMoney_from t vs = Inr s \<Longrightarrow> sint s = sint t + units vs"
  by (induction vs arbitrary: t) (auto simp: result_simps money_simps)

lemma SumMoney_ok: "SumMoney vs = Inr s \<Longrightarrow> sint s = units vs"
  using SumMoney_from_ok [of ZeroMoney vs s] by (simp add: SumMoney_def)

lemma SumMoney_from_iff:
  "SumMoney_from t vs = Inr s \<longleftrightarrow>
    (\<forall>i < length vs. safe_units (sint t + units (take (Suc i) vs))) \<and> sint s = sint t + units vs"
proof (induction vs arbitrary: t)
  case Nil
  then show ?case by (auto simp flip: sint_eq_iff)
next
  case (Cons v vs)
  have "(\<forall>i < length (v # vs). safe_units (sint t + units (take (Suc i) (v # vs)))) \<longleftrightarrow>
      safe_units (sint t + sint v) \<and>
      (\<forall>i < length vs. safe_units (sint t + sint v + units (take (Suc i) vs)))"
    by (simp add: All_less_Suc2 add.assoc)
  then show ?case
    using Cons.IH by (auto simp: Money_Add_eq sint_add_safe add.assoc)
qed

end
