(* ===== verification/MoneyFloat.thy ===== *)
theory MoneyFloat
  imports Money
begin

text \<open>
  \<open>Money.MulFloat\<close>, the one place where a \<open>float64\<close> determines an amount. The product is
  computed in binary64, rounded to an integral float under the stated mode, range-checked as a
  float and converted.
\<close>

definition float64_of_int64 :: "int64 \<Rightarrow> f64" where
  "float64_of_int64 m = fround (of_int (sint m))"

text \<open>
  The conversion of a float to \<open>int64\<close> truncates. Outside the range of \<open>int64\<close> Go leaves it
  implementation-defined; the guard before it excludes that.
\<close>

definition int64_of_float64 :: "f64 \<Rightarrow> int64" where
  "int64_of_float64 x = word_of_int (rtz (fval x))"

definition Money_MulFloat :: "money \<Rightarrow> f64 \<Rightarrow> Rounding \<Rightarrow> money res" where
  "Money_MulFloat m factor r =
     (if \<not> Rounding_Valid r then Inl ErrUnknownRounding
      else if is_nan factor \<or> is_inf factor then Inl ErrMoneyNotFinite
      else if MaxSafeMoney <s m \<or> m <s MinSafeMoney then Inl ErrMoneyOverflow
      else let p = fmul (float64_of_int64 m) factor in
        if is_nan p \<or> is_inf p then Inl ErrMoneyOverflow
        else bindE
          (case r of
             RoundHalfAwayFromZero \<Rightarrow> Inr (math_Round p)
           | RoundHalfToEven \<Rightarrow> Inr (math_RoundToEven p)
           | RoundTowardZero \<Rightarrow> Inr (math_Trunc p)
           | RoundingUnknown \<Rightarrow> Inl ErrUnknownRounding)
          (\<lambda>rounded.
             if flt (float64_of_int64 MaxSafeMoney) rounded \<or> flt rounded (float64_of_int64 MinSafeMoney)
             then Inl ErrMoneyOverflow
             else Inr (int64_of_float64 rounded)))"

section \<open>What it computes\<close>

declare of_int_sint [simp del]

text \<open>The integer a rounding mode maps an exact value to.\<close>

definition round_by :: "Rounding \<Rightarrow> rat \<Rightarrow> int" where
  "round_by r q = (case r of RoundHalfAwayFromZero \<Rightarrow> rha q | RoundHalfToEven \<Rightarrow> rhe q | _ \<Rightarrow> rtz q)"

lemma round_by_int [simp]: "round_by r (of_int n) = n"
  by (simp add: round_by_def split: Rounding.split)

lemma round_by_mono: "a \<le> b \<Longrightarrow> round_by r a \<le> round_by r b"
  by (simp add: round_by_def rha_mono rhe_mono rtz_mono split: Rounding.split)

lemma round_by_0 [simp]: "round_by r 0 = 0"
  using round_by_int [of r 0] by simp

text \<open>The binary64 product of an amount and a factor, as a value.\<close>

definition fproduct :: "money \<Rightarrow> f64 \<Rightarrow> f64" where
  "fproduct m factor = fmul (float64_of_int64 m) factor"

lemma fval_fsigned [simp]: "fval (fsigned s r) = (if s then - r else r)"
  by (simp add: fsigned_def)

lemma fsigned_finite [simp]: "\<not> is_nan (fsigned s r)" "\<not> is_inf (fsigned s r)"
  by (simp_all add: fsigned_def)

lemma rsign: "(q < 0 \<Longrightarrow> n \<le> 0) \<Longrightarrow> (0 \<le> q \<Longrightarrow> 0 \<le> n) \<Longrightarrow>
  (if q < 0 then - \<bar>of_int n\<bar> else \<bar>of_int n\<bar>) = (of_int n :: rat)" for q :: rat
  by simp

lemma round_by_sign: "(q < 0 \<longrightarrow> round_by r q \<le> 0) \<and> (0 \<le> q \<longrightarrow> 0 \<le> round_by r q)"
  using round_by_mono [of q 0 r] round_by_mono [of 0 q r] by auto

lemma fval_rounded:
  assumes "\<not> is_nan p" "\<not> is_inf p"
  shows "fval (math_Round p) = of_int (rha (fval p))"
    "fval (math_RoundToEven p) = of_int (rhe (fval p))"
    "fval (math_Trunc p) = of_int (rtz (fval p))"
  using assms round_by_sign [of "fval p" RoundHalfAwayFromZero]
    round_by_sign [of "fval p" RoundHalfToEven] round_by_sign [of "fval p" RoundTowardZero]
  by (cases p; simp add: math_Round_def math_RoundToEven_def math_Trunc_def fintegral_def
      round_by_def rhe_of_int [of 0, simplified] rha_of_int [of 0, simplified]
      rtz_of_int [of 0, simplified])+

lemma rounded_finite:
  assumes "\<not> is_nan p" "\<not> is_inf p"
  shows "\<not> is_nan (math_Round p)" "\<not> is_inf (math_Round p)"
    "\<not> is_nan (math_RoundToEven p)" "\<not> is_inf (math_RoundToEven p)"
    "\<not> is_nan (math_Trunc p)" "\<not> is_inf (math_Trunc p)"
  using assms by (cases p; simp add: math_Round_def math_RoundToEven_def math_Trunc_def fintegral_def)+

lemma float64_of_safe: "safe_units (sint m) \<Longrightarrow> float64_of_int64 m = Fin (of_int (sint m))"
  unfolding float64_of_int64_def by (rule fround_int) simp

lemma range_guard:
  assumes "\<not> is_nan x" "\<not> is_inf x" "fval x = of_int n"
  shows "flt (float64_of_int64 MaxSafeMoney) x \<or> flt x (float64_of_int64 MinSafeMoney) \<longleftrightarrow>
    \<not> safe_units n"
proof -
  have "(9007199254740991 < (of_int n :: rat)) = (9007199254740991 < n)"
    by (metis of_int_less_iff of_int_numeral)
  moreover have "((of_int n :: rat) < - 9007199254740991) = (n < - 9007199254740991)"
    by (metis of_int_less_iff of_int_numeral of_int_minus)
  ultimately show ?thesis using assms by (auto simp: flt_def float64_of_safe)
qed

lemma int64_of_integral: "fval x = of_int n \<Longrightarrow> safe_units n \<Longrightarrow> sint (int64_of_float64 x) = n"
  by (simp add: int64_of_float64_def sint_of_int64 wrap64_id abs_le_iff)

definition mul_float_defined :: "money \<Rightarrow> f64 \<Rightarrow> Rounding \<Rightarrow> bool" where
  "mul_float_defined m factor r =
     (Rounding_Valid r \<and> is_finite factor \<and> safe_units (sint m) \<and> is_finite (fproduct m factor) \<and>
      safe_units (round_by r (fval (fproduct m factor))))"

lemma Money_MulFloat_ok [money_simps]:
  "Money_MulFloat m factor r = Inr n \<longleftrightarrow>
     mul_float_defined m factor r \<and> sint n = round_by r (fval (fproduct m factor))"
proof (cases "Rounding_Valid r \<and> is_finite factor \<and> \<not> unsafe m \<and> is_finite (fproduct m factor)")
  case True
  define p where "p = fproduct m factor"
  have p: "\<not> is_nan p" "\<not> is_inf p" using True by (auto simp: p_def is_finite_def)
  have sound: "(if flt (float64_of_int64 MaxSafeMoney) x \<or> flt x (float64_of_int64 MinSafeMoney)
        then Inl ErrMoneyOverflow else Inr (int64_of_float64 x)) = Inr n \<longleftrightarrow>
      safe_units k \<and> sint n = k"
    if "\<not> is_nan x" "\<not> is_inf x" "fval x = of_int k" for x k
    using range_guard [OF that] int64_of_integral [OF that(3)] by (auto simp flip: sint_eq_iff)
  have "Money_MulFloat m factor r = Inr n \<longleftrightarrow>
      safe_units (round_by r (fval p)) \<and> sint n = round_by r (fval p)"
    using True p sound [OF rounded_finite(1,2) fval_rounded(1), OF p p p]
      sound [OF rounded_finite(3,4) fval_rounded(2), OF p p p]
      sound [OF rounded_finite(5,6) fval_rounded(3), OF p p p]
    unfolding Money_MulFloat_def unsafe_def [symmetric] fproduct_def [symmetric] p_def [symmetric] Let_def
    by (cases r) (simp_all add: is_finite_def round_by_def)
  then show ?thesis using True by (auto simp: mul_float_defined_def p_def unsafe_iff)
next
  case False
  then show ?thesis
    unfolding Money_MulFloat_def unsafe_def [symmetric] fproduct_def [symmetric] Let_def
    by (auto simp: mul_float_defined_def is_finite_def unsafe_iff)
qed

lemma round_by_error: "\<bar>of_int (round_by r q) - q\<bar> < 1"
proof -
  have "\<bar>of_int (rha q) - q\<bar> < 1" "\<bar>of_int (rtz q) - q\<bar> < 1"
    by (auto simp: rha_def rtz_def abs_less_iff) linarith+
  then show ?thesis
    using rhe_near [of q] by (auto simp: round_by_def split: Rounding.split)
qed

lemma fproduct_safe:
  assumes "safe_units (sint m)" "is_finite f"
  shows "fproduct m f = (if of_int (sint m) * fval f = 0 then fsigned ((sint m < 0) \<noteq> fsign f) 0
    else fround (of_int (sint m) * fval f))"
  using assms by (auto simp: fproduct_def float64_of_safe fmul_def is_finite_def)

text \<open>The amount is within a minor unit and a half of the exact product.\<close>

lemma Money_MulFloat_error:
  assumes "Money_MulFloat m f r = Inr n"
  shows "\<bar>of_int (sint n) - of_int (sint m) * fval f\<bar> < 3 / 2"
proof -
  define p where "p = fval (fproduct m f)"
  have d: "safe_units (sint m)" "is_finite f" "is_finite (fproduct m f)" "safe_units (round_by r p)"
    and n: "sint n = round_by r p"
    using assms by (auto simp: Money_MulFloat_ok mul_float_defined_def p_def)
  have e1: "\<bar>of_int (sint n) - p\<bar> < 1" unfolding n by (rule round_by_error)
  have "\<bar>p - of_int (sint m) * fval f\<bar> \<le> 1 / 2"
  proof (cases "of_int (sint m) * fval f = 0")
    case True
    then have "p = 0" using d by (simp add: p_def fproduct_safe)
    then show ?thesis by (simp only: True)
  next
    case False
    then have p: "p = fval (fround (of_int (sint m) * fval f))" "\<not> is_inf (fround (of_int (sint m) * fval f))"
      using d by (simp_all add: p_def fproduct_safe is_finite_def)
    have "of_int \<bar>round_by r p\<bar> \<le> (of_int 9007199254740991 :: rat)"
      using d(4) by (simp only: of_int_le_iff)
    then have "\<bar>p\<bar> < 2 ^ 53" using round_by_error [of r p] by simp
    then show ?thesis unfolding p(1) by (intro fround_error p(2))
  qed
  with e1 show ?thesis by linarith
qed

text \<open>A factor of at least one never makes a positive amount smaller.\<close>

lemma Money_MulFloat_ge:
  assumes "Money_MulFloat m f r = Inr n" "0 < sint m" "1 \<le> fval f"
  shows "sint m \<le> sint n"
proof -
  define q where "q = of_int (sint m) * fval f"
  have d: "safe_units (sint m)" "is_finite f" "is_finite (fproduct m f)"
    and n: "sint n = round_by r (fval (fproduct m f))"
    using assms(1) by (auto simp: Money_MulFloat_ok mul_float_defined_def)
  have m: "(0::rat) < of_int (sint m)" using assms(2) by simp
  have q: "of_int (sint m) \<le> q"
    unfolding q_def using mult_left_mono [OF assms(3), of "of_int (sint m)"] m by simp
  then have p: "fproduct m f = fround q" using d m by (simp add: fproduct_safe flip: q_def)
  have "sint m < 2 ^ 53" using d(1) by simp
  from fround_ge_int [OF assms(2) this q] have "of_int (sint m) \<le> fval (fround q)"
    using d(3) by (auto simp: p is_finite_def)
  then show ?thesis unfolding n p using round_by_mono [of "of_int (sint m)"] by fastforce
qed

end
