(* ===== verification/Price.thy ===== *)
theory Price
  imports Selection MoneyFloat
begin

text \<open>
  \<open>internal/domain/price.go\<close>: the quote of a book for a selection, change detection, staleness,
  and what a stake at a quote pays.
\<close>

definition MinDecimalOdds :: f64 where "MinDecimalOdds = Fin 1"
definition MaxDecimalOdds :: f64 where "MaxDecimalOdds = Fin 100000"

record Price =
  price_selectionID :: string
  price_bookID :: string
  price_decimal :: f64
  price_line :: Line
  price_observedAt :: time

record PriceParams =
  pp_SelectionID :: string
  pp_BookID :: string
  pp_Decimal :: f64
  pp_Line :: Line
  pp_ObservedAt :: time

definition NewPrice :: "PriceParams \<Rightarrow> Price res" where
  "NewPrice p =
     bindE (validID (pp_SelectionID p)) (\<lambda>_.
     bindE (validID (pp_BookID p)) (\<lambda>_.
     if is_nan (pp_Decimal p) \<or> is_inf (pp_Decimal p) then Inl ErrOddsNotFinite
     else if fle (pp_Decimal p) MinDecimalOdds \<or> flt MaxDecimalOdds (pp_Decimal p)
       then Inl ErrOddsOutOfRange
     else if time_is_zero (pp_ObservedAt p) then Inl ErrZeroTime
     else Inr \<lparr> price_selectionID = pp_SelectionID p, price_bookID = pp_BookID p,
                price_decimal = pp_Decimal p, price_line = pp_Line p,
                price_observedAt = time_utc (pp_ObservedAt p) \<rparr>))"

definition Price_Age :: "Price \<Rightarrow> time \<Rightarrow> duration" where
  "Price_Age p now = time_sub now (price_observedAt p)"

definition Price_IsStale :: "Price \<Rightarrow> time \<Rightarrow> duration \<Rightarrow> bool" where
  "Price_IsStale p now ttl = (ttl < Price_Age p now)"

definition Price_SameQuoteAs :: "Price \<Rightarrow> Price \<Rightarrow> bool" where
  "Price_SameQuoteAs p q =
     (price_selectionID p = price_selectionID q \<and> price_bookID p = price_bookID q \<and>
      feq (price_decimal p) (price_decimal q) \<and> Line_Equal (price_line p) (price_line q))"

definition Price_Equal :: "Price \<Rightarrow> Price \<Rightarrow> bool" where
  "Price_Equal p q = (Price_SameQuoteAs p q \<and> price_observedAt p = price_observedAt q)"

definition Price_IsNewerThan :: "Price \<Rightarrow> Price \<Rightarrow> bool" where
  "Price_IsNewerThan p q = (price_observedAt q < price_observedAt p)"

definition Price_PayoutFor :: "Price \<Rightarrow> money \<Rightarrow> Rounding \<Rightarrow> money res" where
  "Price_PayoutFor p stake r = Money_MulFloat stake (price_decimal p) r"

definition Price_ProfitFor :: "Price \<Rightarrow> money \<Rightarrow> Rounding \<Rightarrow> money res" where
  "Price_ProfitFor p stake r =
     bindE (Price_PayoutFor p stake r) (\<lambda>payout. Money_Sub payout stake)"

definition Price_IsZero :: "Price \<Rightarrow> bool" where
  "Price_IsZero p = id_is_zero (price_selectionID p)"

definition ValidatePriceForSelection :: "Market \<Rightarrow> Selection \<Rightarrow> Price \<Rightarrow> unit res" where
  "ValidatePriceForSelection m s p =
     bindE (EffectiveLine m s) (\<lambda>effective.
       if price_selectionID p \<noteq> sel_id s then Inl ErrMismatchedParent
       else if \<not> Line_Equal (price_line p) effective then Inl ErrLineMismatch
       else Inr ())"

section \<open>What a price guarantees\<close>

definition decimal_ok :: "f64 \<Rightarrow> bool" where
  "decimal_ok x = (is_finite x \<and> 1 < fval x \<and> fval x \<le> 100000)"

lemma decimal_range_iff:
  "(is_nan x \<or> is_inf x) \<or> (fle x MinDecimalOdds \<or> flt MaxDecimalOdds x) \<longleftrightarrow> \<not> decimal_ok x"
  by (auto simp: decimal_ok_def is_finite_def fle_def flt_def feq_def MinDecimalOdds_def
      MaxDecimalOdds_def)

lemma NewPrice_ok:
  "NewPrice p = Inr q \<longleftrightarrow> validID (pp_SelectionID p) = Inr () \<and> validID (pp_BookID p) = Inr () \<and>
    decimal_ok (pp_Decimal p) \<and> pp_ObservedAt p \<noteq> 0 \<and>
    q = \<lparr> price_selectionID = pp_SelectionID p, price_bookID = pp_BookID p,
          price_decimal = pp_Decimal p, price_line = pp_Line p, price_observedAt = pp_ObservedAt p \<rparr>"
  using decimal_range_iff [of "pp_Decimal p"]
  by (auto simp: NewPrice_def result_simps time_defs)

lemma NewPrice_decimal: "NewPrice p = Inr q \<Longrightarrow> decimal_ok (price_decimal q)"
  by (auto simp: NewPrice_ok)

text \<open>A winning stake at a valid price returns at least the stake; the profit is not negative.\<close>

lemma payout_ge_stake:
  assumes "decimal_ok (price_decimal p)" "Price_PayoutFor p stake r = Inr payout" "0 < sint stake"
  shows "sint stake \<le> sint payout"
  using assms by (intro Money_MulFloat_ge) (auto simp: Price_PayoutFor_def decimal_ok_def)

lemma profit_nonneg:
  assumes "decimal_ok (price_decimal p)" "Price_ProfitFor p stake r = Inr profit" "0 < sint stake"
  shows "0 \<le> sint profit"
  using assms payout_ge_stake [OF assms(1) _ assms(3), of r]
  by (auto simp: Price_ProfitFor_def result_simps money_simps)

text \<open>Change detection is an equivalence on the prices that can be built.\<close>

lemma SameQuote_refl: "decimal_ok (price_decimal p) \<Longrightarrow> line_built (price_line p) \<Longrightarrow> Price_SameQuoteAs p p"
  by (simp add: Price_SameQuoteAs_def Line_Equal_refl feq_def decimal_ok_def is_finite_def)

lemma feq_sym: "feq x y = feq y x"
  by (auto simp: feq_def)

lemma feq_trans: "feq x y \<Longrightarrow> feq y z \<Longrightarrow> feq x z"
  by (auto simp: feq_def split: if_splits)

lemma SameQuote_sym: "Price_SameQuoteAs p q = Price_SameQuoteAs q p"
  by (auto simp: Price_SameQuoteAs_def Line_Equal_def feq_sym)

lemma SameQuote_trans: "Price_SameQuoteAs p q \<Longrightarrow> Price_SameQuoteAs q r \<Longrightarrow> Price_SameQuoteAs p r"
  by (auto simp: Price_SameQuoteAs_def Line_Equal_def dest: feq_trans)

end
