(* ===== verification/Leg.thy ===== *)
theory Leg
  imports Price
begin

text \<open>
  \<open>internal/domain/leg.go\<close>: one selection of a wager with the price it was booked at, its teased
  line and its grading.
\<close>

section \<open>Grading status\<close>

datatype LegStatus = LegStatusUnknown | LegStatusPending | LegStatusWon | LegStatusLost | LegStatusVoid | LegStatusPush

fun LegStatus_String :: "LegStatus \<Rightarrow> string" where
  "LegStatus_String LegStatusPending = ''pending''"
| "LegStatus_String LegStatusWon = ''won''"
| "LegStatus_String LegStatusLost = ''lost''"
| "LegStatus_String LegStatusVoid = ''void''"
| "LegStatus_String LegStatusPush = ''push''"
| "LegStatus_String LegStatusUnknown = ''unknown''"

fun LegStatus_Valid :: "LegStatus \<Rightarrow> bool" where
  "LegStatus_Valid LegStatusUnknown = False"
| "LegStatus_Valid _ = True"

definition ParseLegStatus :: "string \<Rightarrow> LegStatus res" where
  "ParseLegStatus s =
     (if s = ''pending'' then Inr LegStatusPending
      else if s = ''won'' then Inr LegStatusWon
      else if s = ''lost'' then Inr LegStatusLost
      else if s = ''void'' then Inr LegStatusVoid
      else if s = ''push'' then Inr LegStatusPush
      else Inl ErrUnknownLegStatus)"

definition LegStatus_MarshalText :: "LegStatus \<Rightarrow> string res" where
  "LegStatus_MarshalText k = (if \<not> LegStatus_Valid k then Inl ErrUnknownLegStatus else Inr (LegStatus_String k))"

definition LegStatus_UnmarshalText :: "string \<Rightarrow> LegStatus res" where
  "LegStatus_UnmarshalText b = ParseLegStatus b"

interpretation leg_status_text: text_enum LegStatus_String ParseLegStatus LegStatus_Valid
  LegStatus_MarshalText LegStatus_UnmarshalText LegStatusUnknown ErrUnknownLegStatus
proof unfold_locales
  show "LegStatus_Valid k \<Longrightarrow> ParseLegStatus (LegStatus_String k) = Inr k" for k
    by (cases k) (simp_all add: ParseLegStatus_def)
  show "\<not> LegStatus_Valid k \<longleftrightarrow> k = LegStatusUnknown" for k by (cases k) simp_all
qed (auto simp: ParseLegStatus_def LegStatus_MarshalText_def LegStatus_UnmarshalText_def split: if_splits)

definition LegStatus_IsTerminal :: "LegStatus \<Rightarrow> bool" where
  "LegStatus_IsTerminal s = (s \<in> {LegStatusWon, LegStatusLost, LegStatusVoid, LegStatusPush})"

definition LegStatus_CanTransitionTo :: "LegStatus \<Rightarrow> LegStatus \<Rightarrow> bool" where
  "LegStatus_CanTransitionTo s next_status =
     (if \<not> LegStatus_Valid s \<or> \<not> LegStatus_Valid next_status then False
      else if s = next_status then True
      else if s = LegStatusPending then LegStatus_IsTerminal next_status
      else False)"

fun leg_stage :: "LegStatus \<Rightarrow> nat" where
  "leg_stage LegStatusUnknown = 0"
| "leg_stage LegStatusPending = 0"
| "leg_stage _ = 1"

interpretation leg_status: lifecycle LegStatus_Valid LegStatus_CanTransitionTo LegStatus_IsTerminal
  leg_stage
proof unfold_locales
  fix s t assume "LegStatus_CanTransitionTo s t"
  then show "LegStatus_Valid s \<and> LegStatus_Valid t" "leg_stage s \<le> leg_stage t"
    by (cases s; auto simp: LegStatus_CanTransitionTo_def split: if_splits)+
next
  fix s assume v: "LegStatus_Valid s"
  then show "LegStatus_CanTransitionTo s s" by (simp add: LegStatus_CanTransitionTo_def)
  have "\<not> LegStatus_IsTerminal s \<Longrightarrow> LegStatus_CanTransitionTo s LegStatusWon \<and> LegStatusWon \<noteq> s"
    using v by (cases s) (simp_all add: LegStatus_CanTransitionTo_def LegStatus_IsTerminal_def)
  moreover have "LegStatus_IsTerminal s \<Longrightarrow> LegStatus_CanTransitionTo s t \<Longrightarrow> t = s" for t
    by (auto simp: LegStatus_CanTransitionTo_def LegStatus_IsTerminal_def split: if_splits)
  ultimately show "LegStatus_IsTerminal s \<longleftrightarrow> (\<forall>t. LegStatus_CanTransitionTo s t \<longrightarrow> t = s)"
    by blast
qed

section \<open>Legs\<close>

record Leg =
  leg_id :: string
  leg_eventID :: string
  leg_marketID :: string
  leg_marketType :: MarketType
  leg_selectionID :: string
  leg_role :: SelectionRole
  leg_price :: Price
  leg_teasedLine :: Line
  leg_status :: LegStatus
  leg_gradedAt :: time
  leg_hasGradedAt :: bool

record LegParams =
  lgp_ID :: string
  lgp_EventID :: string
  lgp_MarketID :: string
  lgp_MarketType :: MarketType
  lgp_Role :: SelectionRole
  lgp_SelectionID :: string
  lgp_Price :: Price
  lgp_TeasedLine :: Line

definition Leg_WithTeasedLine :: "Leg \<Rightarrow> Line \<Rightarrow> Leg res" where
  "Leg_WithTeasedLine l teased =
     (if leg_marketType l \<noteq> MarketTypeSpread \<and> leg_marketType l \<noteq> MarketTypeTotal
      then Inl ErrLegNotTeasable
      else if \<not> line_present teased then Inl ErrLineRequired
      else if \<not> line_present (price_line (leg_price l)) then Inl ErrLegLineRequired
      else if LegStatus_IsTerminal (leg_status l) then Inl ErrIllegalTransition
      else Inr (l \<lparr> leg_teasedLine := teased \<rparr>))"

definition NewLeg :: "LegParams \<Rightarrow> Leg res" where
  "NewLeg p =
     bindE (validID (lgp_ID p)) (\<lambda>_.
     bindE (validID (lgp_EventID p)) (\<lambda>_.
     bindE (validID (lgp_MarketID p)) (\<lambda>_.
     bindE (validID (lgp_SelectionID p)) (\<lambda>_.
     if \<not> MarketType_Valid (lgp_MarketType p) then Inl ErrUnknownMarketType
     else if \<not> SelectionRole_Valid (lgp_Role p) then Inl ErrUnknownSelectionRole
     else if \<not> AllowsRole (lgp_MarketType p) (lgp_Role p) then Inl ErrRoleNotApplicable
     else if Price_IsZero (lgp_Price p) then Inl ErrLegPriceRequired
     else if price_selectionID (lgp_Price p) \<noteq> lgp_SelectionID p then Inl ErrLegPriceMismatch
     else
       let leg = \<lparr> leg_id = lgp_ID p, leg_eventID = lgp_EventID p, leg_marketID = lgp_MarketID p,
                   leg_marketType = lgp_MarketType p, leg_selectionID = lgp_SelectionID p,
                   leg_role = lgp_Role p, leg_price = lgp_Price p, leg_teasedLine = NoLine,
                   leg_status = LegStatusPending, leg_gradedAt = 0, leg_hasGradedAt = False \<rparr>
       in if line_present (lgp_TeasedLine p) then Leg_WithTeasedLine leg (lgp_TeasedLine p)
          else Inr leg))))"

definition NewLegFrom :: "string \<Rightarrow> Market \<Rightarrow> Selection \<Rightarrow> Price \<Rightarrow> Leg res" where
  "NewLegFrom id0 m s p =
     bindE (ValidatePriceForSelection m s p) (\<lambda>_.
       NewLeg \<lparr> lgp_ID = id0, lgp_EventID = market_eventID m, lgp_MarketID = market_id m,
                lgp_MarketType = market_typ m, lgp_Role = sel_role s, lgp_SelectionID = sel_id s,
                lgp_Price = p, lgp_TeasedLine = NoLine \<rparr>)"

definition Leg_QuotedDecimal :: "Leg \<Rightarrow> f64" where
  "Leg_QuotedDecimal l = price_decimal (leg_price l)"

definition Leg_GradingLine :: "Leg \<Rightarrow> Line" where
  "Leg_GradingLine l =
     (if line_present (leg_teasedLine l) then leg_teasedLine l else price_line (leg_price l))"

definition Leg_IsZero :: "Leg \<Rightarrow> bool" where
  "Leg_IsZero l = id_is_zero (leg_id l)"

definition Leg_WithStatus :: "Leg \<Rightarrow> LegStatus \<Rightarrow> time \<Rightarrow> Leg res" where
  "Leg_WithStatus l next_status at_time =
     (if \<not> LegStatus_Valid next_status then Inl ErrUnknownLegStatus
      else if \<not> LegStatus_CanTransitionTo (leg_status l) next_status then Inl ErrIllegalTransition
      else if time_is_zero at_time then Inl ErrZeroTime
      else if leg_status l = next_status then Inr l
      else let nextLeg = l \<lparr> leg_status := next_status \<rparr> in
        Inr (if LegStatus_IsTerminal next_status
             then nextLeg \<lparr> leg_gradedAt := time_utc at_time, leg_hasGradedAt := True \<rparr>
             else nextLeg))"

definition Leg_GradedMultiplier :: "Leg \<Rightarrow> f64 res" where
  "Leg_GradedMultiplier l = (case leg_status l of
     LegStatusWon \<Rightarrow> Inr (price_decimal (leg_price l))
   | LegStatusLost \<Rightarrow> Inr (Fin 0)
   | LegStatusVoid \<Rightarrow> Inr (Fin 1)
   | LegStatusPush \<Rightarrow> Inr (Fin 1)
   | _ \<Rightarrow> Inl ErrLegNotGraded)"

section \<open>Grading\<close>

lemma leg_can_valid: "LegStatus_CanTransitionTo s t \<Longrightarrow> LegStatus_Valid t"
  by (simp add: LegStatus_CanTransitionTo_def split: if_splits)

lemma Leg_WithStatus_ok:
  "Leg_WithStatus l s t = Inr m \<longleftrightarrow> LegStatus_CanTransitionTo (leg_status l) s \<and> t \<noteq> 0 \<and>
    m = (if leg_status l = s then l
         else l \<lparr> leg_status := s, leg_gradedAt := t, leg_hasGradedAt := True \<rparr>)"
  by (auto simp: Leg_WithStatus_def time_defs Let_def LegStatus_CanTransitionTo_def split: if_splits)

text \<open>A redelivered grading changes nothing, the recorded instant included.\<close>

lemma regrade_idempotent:
  "Leg_WithStatus l s t = Inr m \<Longrightarrow> t' \<noteq> 0 \<Longrightarrow> Leg_WithStatus m s t' = Inr m"
  by (auto simp: Leg_WithStatus_ok LegStatus_CanTransitionTo_def split: if_splits)

lemma graded_leg_frozen:
  "LegStatus_IsTerminal (leg_status l) \<Longrightarrow> Leg_WithStatus l s t = Inr m \<Longrightarrow> m = l"
  by (auto simp: Leg_WithStatus_ok LegStatus_CanTransitionTo_def LegStatus_IsTerminal_def split: if_splits)

lemma GradedMultiplier_pending: "is_ok (Leg_GradedMultiplier l) \<longleftrightarrow> LegStatus_IsTerminal (leg_status l)"
  by (cases "leg_status l") (simp_all add: Leg_GradedMultiplier_def LegStatus_IsTerminal_def)

section \<open>Every leg that can exist\<close>

text \<open>The fields a price was built with are the fields it has, so it can be rebuilt from itself.\<close>

definition price_built :: "Price \<Rightarrow> bool" where
  "price_built q = (line_built (price_line q) \<and>
     NewPrice \<lparr> pp_SelectionID = price_selectionID q, pp_BookID = price_bookID q,
                pp_Decimal = price_decimal q, pp_Line = price_line q,
                pp_ObservedAt = price_observedAt q \<rparr> = Inr q)"

lemma price_built_ok:
  "price_built q \<Longrightarrow> validID (price_selectionID q) = Inr () \<and> validID (price_bookID q) = Inr () \<and>
    decimal_ok (price_decimal q) \<and> price_observedAt q \<noteq> 0 \<and> line_built (price_line q)"
  by (auto simp: price_built_def NewPrice_ok)

lemma NewPrice_built: "NewPrice p = Inr q \<Longrightarrow> line_built (pp_Line p) \<Longrightarrow> price_built q"
  by (auto simp: price_built_def NewPrice_ok)

inductive leg_reachable :: "Leg \<Rightarrow> bool" where
  new_leg: "NewLeg p = Inr l \<Longrightarrow> price_built (lgp_Price p) \<Longrightarrow> line_built (lgp_TeasedLine p) \<Longrightarrow>
    leg_reachable l"
| tease_leg: "leg_reachable l \<Longrightarrow> line_built teased \<Longrightarrow> Leg_WithTeasedLine l teased = Inr m \<Longrightarrow>
    leg_reachable m"
| grade_leg: "leg_reachable l \<Longrightarrow> Leg_WithStatus l s t = Inr m \<Longrightarrow> leg_reachable m"

definition leg_wf :: "Leg \<Rightarrow> bool" where
  "leg_wf l =
     (validID (leg_id l) = Inr () \<and> validID (leg_eventID l) = Inr () \<and>
      validID (leg_marketID l) = Inr () \<and> AllowsRole (leg_marketType l) (leg_role l) \<and>
      price_built (leg_price l) \<and> price_selectionID (leg_price l) = leg_selectionID l \<and>
      (line_present (leg_teasedLine l) \<longrightarrow>
         leg_marketType l \<in> {MarketTypeSpread, MarketTypeTotal} \<and>
         line_present (price_line (leg_price l)) \<and>
         is_finite (line_value (leg_teasedLine l))) \<and>
      LegStatus_Valid (leg_status l) \<and>
      (leg_hasGradedAt l \<longleftrightarrow> LegStatus_IsTerminal (leg_status l)) \<and>
      (leg_hasGradedAt l \<longleftrightarrow> leg_gradedAt l \<noteq> 0))"

lemma Leg_WithTeasedLine_ok:
  "Leg_WithTeasedLine l k = Inr m \<longleftrightarrow>
    leg_marketType l \<in> {MarketTypeSpread, MarketTypeTotal} \<and> line_present k \<and>
    line_present (price_line (leg_price l)) \<and> \<not> LegStatus_IsTerminal (leg_status l) \<and>
    m = l \<lparr> leg_teasedLine := k \<rparr>"
  by (auto simp: Leg_WithTeasedLine_def)

lemma tease_wf: "leg_wf l \<Longrightarrow> line_built k \<Longrightarrow> Leg_WithTeasedLine l k = Inr m \<Longrightarrow> leg_wf m"
  by (auto simp: leg_wf_def Leg_WithTeasedLine_ok line_built_finite)

lemma grade_wf: "leg_wf l \<Longrightarrow> Leg_WithStatus l s t = Inr m \<Longrightarrow> leg_wf m"
  by (auto simp: leg_wf_def Leg_WithStatus_ok LegStatus_CanTransitionTo_def split: if_splits)

lemma NewLeg_wf:
  assumes "NewLeg p = Inr l" "price_built (lgp_Price p)" "line_built (lgp_TeasedLine p)"
  shows "leg_wf l"
proof -
  define leg where "leg = \<lparr> leg_id = lgp_ID p, leg_eventID = lgp_EventID p,
    leg_marketID = lgp_MarketID p, leg_marketType = lgp_MarketType p,
    leg_selectionID = lgp_SelectionID p, leg_role = lgp_Role p, leg_price = lgp_Price p,
    leg_teasedLine = NoLine, leg_status = LegStatusPending, leg_gradedAt = 0, leg_hasGradedAt = False \<rparr>"
  have "leg_wf leg" "l = leg \<or> Leg_WithTeasedLine leg (lgp_TeasedLine p) = Inr l"
    using assms(1,2)
    by (auto simp: NewLeg_def Let_def result_simps leg_wf_def leg_def NoLine_def
        LegStatus_IsTerminal_def split: if_splits)
  then show ?thesis using tease_wf [OF _ assms(3)] by blast
qed

lemma leg_reachable_wf: "leg_reachable l \<Longrightarrow> leg_wf l"
  by (induction rule: leg_reachable.induct) (auto intro: NewLeg_wf tease_wf grade_wf)

lemma GradedMultiplier_range:
  assumes "leg_wf l" "Leg_GradedMultiplier l = Inr x"
  shows "is_finite x \<and> 0 \<le> fval x \<and> fval x \<le> 100000"
  using assms price_built_ok [of "leg_price l"]
  by (cases "leg_status l") (auto simp: Leg_GradedMultiplier_def leg_wf_def decimal_ok_def is_finite_def)

text \<open>A leg booked from live entities settles at the line its selection trades at.\<close>

lemma NewLegFrom_line:
  assumes "NewLegFrom i m s p = Inr l"
  obtains eff where "EffectiveLine m s = Inr eff" "Line_Equal (Leg_GradingLine l) eff"
    "leg_price l = p" "leg_selectionID l = sel_id s" "leg_marketID l = market_id m"
  using assms
  by (auto simp: NewLegFrom_def ValidatePriceForSelection_def result_simps NewLeg_def Let_def
      Leg_GradingLine_def NoLine_def split: if_splits)

end
