(* ===== verification/Wager.thy ===== *)
theory Wager
  imports Leg
begin

text \<open>
  \<open>internal/domain/wager.go\<close>, the ticket: kinds and statuses, construction with its validators,
  and the transitions (open, grade a leg, settle, cash out) that close it.
\<close>

definition MaxWagerLegs :: nat where "MaxWagerLegs = 25"
definition MaxTeaserPoints :: f64 where "MaxTeaserPoints = Fin 20"
definition MaxWagerDecimal :: f64 where "MaxWagerDecimal = Fin 1000000000"

text \<open>Constants that are not dyadic are the nearest binary64, as the compiler rounds them.\<close>

definition teaserLineTolerance :: f64 where "teaserLineTolerance = fround (1 / 10 ^ 9)"
definition ticketPriceTolerance :: f64 where "ticketPriceTolerance = fround (1 / 10 ^ 12)"

section \<open>Kinds and statuses\<close>

datatype WagerKind = WagerKindUnknown | WagerKindStraight | WagerKindParlay | WagerKindRoundRobin | WagerKindTeaser

fun WagerKind_String :: "WagerKind \<Rightarrow> string" where
  "WagerKind_String WagerKindStraight = ''straight''"
| "WagerKind_String WagerKindParlay = ''parlay''"
| "WagerKind_String WagerKindRoundRobin = ''round_robin''"
| "WagerKind_String WagerKindTeaser = ''teaser''"
| "WagerKind_String WagerKindUnknown = ''unknown''"

fun WagerKind_Valid :: "WagerKind \<Rightarrow> bool" where
  "WagerKind_Valid WagerKindUnknown = False"
| "WagerKind_Valid _ = True"

definition ParseWagerKind :: "string \<Rightarrow> WagerKind res" where
  "ParseWagerKind s =
     (if s = ''straight'' then Inr WagerKindStraight
      else if s = ''parlay'' then Inr WagerKindParlay
      else if s = ''round_robin'' then Inr WagerKindRoundRobin
      else if s = ''teaser'' then Inr WagerKindTeaser
      else Inl ErrUnknownWagerKind)"

definition WagerKind_MarshalText :: "WagerKind \<Rightarrow> string res" where
  "WagerKind_MarshalText k = (if \<not> WagerKind_Valid k then Inl ErrUnknownWagerKind else Inr (WagerKind_String k))"

definition WagerKind_UnmarshalText :: "string \<Rightarrow> WagerKind res" where
  "WagerKind_UnmarshalText b = ParseWagerKind b"

interpretation wager_kind_text: text_enum WagerKind_String ParseWagerKind WagerKind_Valid
  WagerKind_MarshalText WagerKind_UnmarshalText WagerKindUnknown ErrUnknownWagerKind
proof unfold_locales
  show "WagerKind_Valid k \<Longrightarrow> ParseWagerKind (WagerKind_String k) = Inr k" for k
    by (cases k) (simp_all add: ParseWagerKind_def)
  show "\<not> WagerKind_Valid k \<longleftrightarrow> k = WagerKindUnknown" for k by (cases k) simp_all
qed (auto simp: ParseWagerKind_def WagerKind_MarshalText_def WagerKind_UnmarshalText_def split: if_splits)

definition WagerKind_IsMulti :: "WagerKind \<Rightarrow> bool" where
  "WagerKind_IsMulti k = (k \<in> {WagerKindParlay, WagerKindRoundRobin, WagerKindTeaser})"

datatype WagerStatus = WagerStatusUnknown | WagerStatusPlaced | WagerStatusOpen | WagerStatusWon | WagerStatusLost | WagerStatusVoid | WagerStatusPush | WagerStatusCashedOut

fun WagerStatus_String :: "WagerStatus \<Rightarrow> string" where
  "WagerStatus_String WagerStatusPlaced = ''placed''"
| "WagerStatus_String WagerStatusOpen = ''open''"
| "WagerStatus_String WagerStatusWon = ''won''"
| "WagerStatus_String WagerStatusLost = ''lost''"
| "WagerStatus_String WagerStatusVoid = ''void''"
| "WagerStatus_String WagerStatusPush = ''push''"
| "WagerStatus_String WagerStatusCashedOut = ''cashed_out''"
| "WagerStatus_String WagerStatusUnknown = ''unknown''"

fun WagerStatus_Valid :: "WagerStatus \<Rightarrow> bool" where
  "WagerStatus_Valid WagerStatusUnknown = False"
| "WagerStatus_Valid _ = True"

definition ParseWagerStatus :: "string \<Rightarrow> WagerStatus res" where
  "ParseWagerStatus s =
     (if s = ''placed'' then Inr WagerStatusPlaced
      else if s = ''open'' then Inr WagerStatusOpen
      else if s = ''won'' then Inr WagerStatusWon
      else if s = ''lost'' then Inr WagerStatusLost
      else if s = ''void'' then Inr WagerStatusVoid
      else if s = ''push'' then Inr WagerStatusPush
      else if s = ''cashed_out'' then Inr WagerStatusCashedOut
      else Inl ErrUnknownWagerStatus)"

definition WagerStatus_MarshalText :: "WagerStatus \<Rightarrow> string res" where
  "WagerStatus_MarshalText k = (if \<not> WagerStatus_Valid k then Inl ErrUnknownWagerStatus else Inr (WagerStatus_String k))"

definition WagerStatus_UnmarshalText :: "string \<Rightarrow> WagerStatus res" where
  "WagerStatus_UnmarshalText b = ParseWagerStatus b"

interpretation wager_status_text: text_enum WagerStatus_String ParseWagerStatus WagerStatus_Valid
  WagerStatus_MarshalText WagerStatus_UnmarshalText WagerStatusUnknown ErrUnknownWagerStatus
proof unfold_locales
  show "WagerStatus_Valid k \<Longrightarrow> ParseWagerStatus (WagerStatus_String k) = Inr k" for k
    by (cases k) (simp_all add: ParseWagerStatus_def)
  show "\<not> WagerStatus_Valid k \<longleftrightarrow> k = WagerStatusUnknown" for k by (cases k) simp_all
qed (auto simp: ParseWagerStatus_def WagerStatus_MarshalText_def WagerStatus_UnmarshalText_def split: if_splits)

definition WagerStatus_IsTerminal :: "WagerStatus \<Rightarrow> bool" where
  "WagerStatus_IsTerminal s =
     (s \<in> {WagerStatusWon, WagerStatusLost, WagerStatusVoid, WagerStatusPush, WagerStatusCashedOut})"

definition WagerStatus_IsGraded :: "WagerStatus \<Rightarrow> bool" where
  "WagerStatus_IsGraded s = (s \<in> {WagerStatusWon, WagerStatusLost, WagerStatusVoid, WagerStatusPush})"

definition WagerStatus_HoldsEscrow :: "WagerStatus \<Rightarrow> bool" where
  "WagerStatus_HoldsEscrow s = (s = WagerStatusPlaced \<or> s = WagerStatusOpen)"

definition WagerStatus_CanTransitionTo :: "WagerStatus \<Rightarrow> WagerStatus \<Rightarrow> bool" where
  "WagerStatus_CanTransitionTo s next_status =
     (if \<not> WagerStatus_Valid s \<or> \<not> WagerStatus_Valid next_status then False
      else if s = next_status then True
      else case s of
        WagerStatusPlaced \<Rightarrow> next_status = WagerStatusOpen \<or> WagerStatus_IsTerminal next_status
      | WagerStatusOpen \<Rightarrow> WagerStatus_IsTerminal next_status
      | _ \<Rightarrow> False)"

text \<open>How far a ticket has got: placed, running, closed.\<close>

fun wager_stage :: "WagerStatus \<Rightarrow> nat" where
  "wager_stage WagerStatusUnknown = 0"
| "wager_stage WagerStatusPlaced = 0"
| "wager_stage WagerStatusOpen = 1"
| "wager_stage _ = 2"

section \<open>Construction\<close>

record Wager =
  wager_id :: string
  wager_userID :: string
  wager_kind :: WagerKind
  wager_legs :: "Leg list"
  wager_stake :: money
  wager_accepted :: f64
  wager_rounding :: Rounding
  wager_payout :: money
  wager_profit :: money
  wager_teaserPoints :: f64
  wager_hasTeaser :: bool
  wager_roundRobinID :: string
  wager_status :: WagerStatus
  wager_returned :: money
  wager_netReturn :: money
  wager_hasReturned :: bool
  wager_placedAt :: time
  wager_updatedAt :: time

record WagerParams =
  wp_ID :: string
  wp_UserID :: string
  wp_Kind :: WagerKind
  wp_Legs :: "Leg list"
  wp_Stake :: money
  wp_AcceptedDecimal :: f64
  wp_Rounding :: Rounding
  wp_TeaserPoints :: f64
  wp_RoundRobinID :: string
  wp_PlacedAt :: time

text \<open>The loop of \<open>validateLegSet\<close>, with the two sets it collects.\<close>

fun check_legs :: "string set \<Rightarrow> string set \<Rightarrow> Leg list \<Rightarrow> unit res" where
  "check_legs seenSelection seenMarket [] = Inr ()"
| "check_legs seenSelection seenMarket (leg # legs) =
     (if Leg_IsZero leg then Inl ErrLegPriceRequired
      else if leg_status leg \<noteq> LegStatusPending then Inl ErrLegNotPending
      else if leg_selectionID leg \<in> seenSelection then Inl ErrDuplicateSelection
      else if leg_marketID leg \<in> seenMarket then Inl ErrDuplicateMarket
      else check_legs (insert (leg_selectionID leg) seenSelection)
             (insert (leg_marketID leg) seenMarket) legs)"

definition validateLegSet :: "Leg list \<Rightarrow> Leg list res" where
  "validateLegSet legs =
     (if length legs = 0 then Inl ErrLegCount
      else if MaxWagerLegs < length legs then Inl ErrLegCount
      else bindE (check_legs {} {} legs) (\<lambda>_. Inr legs))"

definition validateLegCount :: "WagerKind \<Rightarrow> nat \<Rightarrow> unit res" where
  "validateLegCount kind n =
     (if kind = WagerKindStraight \<and> n \<noteq> 1 then Inl ErrLegCount
      else if WagerKind_IsMulti kind \<and> n < 2 then Inl ErrLegCount
      else Inr ())"

text \<open>The check of one teased leg against the points the ticket states.\<close>

definition check_teased :: "f64 \<Rightarrow> Leg \<Rightarrow> unit res" where
  "check_teased points leg =
     (case Line_Value (leg_teasedLine leg) of (teased, ok) \<Rightarrow>
      if \<not> ok then Inl ErrTeasedLegRequired
      else case Line_Value (price_line (leg_price leg)) of (booked, ok') \<Rightarrow>
      if \<not> ok' then Inl ErrLegLineRequired
      else if flt teaserLineTolerance (fabs (fsub (fabs (fsub teased booked)) points))
      then Inl ErrTeaserPointsMismatch
      else Inr ())"

fun check_teased_all :: "f64 \<Rightarrow> Leg list \<Rightarrow> unit res" where
  "check_teased_all points [] = Inr ()"
| "check_teased_all points (leg # legs) =
     bindE (check_teased points leg) (\<lambda>_. check_teased_all points legs)"

definition validateTeaser :: "WagerKind \<Rightarrow> f64 \<Rightarrow> Leg list \<Rightarrow> unit res" where
  "validateTeaser kind points legs =
     (if kind \<noteq> WagerKindTeaser then
        if \<not> feq points (Fin 0) then Inl ErrTeaserPointsNotApplicable
        else if list_ex (\<lambda>leg. line_present (leg_teasedLine leg)) legs
        then Inl ErrTeasedLegNotApplicable
        else Inr ()
      else if is_nan points \<or> is_inf points \<or> fle points (Fin 0) \<or> flt MaxTeaserPoints points
      then Inl ErrTeaserPointsRequired
      else check_teased_all points legs)"

definition validateRoundRobinParent :: "WagerKind \<Rightarrow> string \<Rightarrow> unit res" where
  "validateRoundRobinParent kind parent =
     (if kind = WagerKindRoundRobin then
        case validID parent of Inl _ \<Rightarrow> Inl ErrRoundRobinParentRequired | Inr _ \<Rightarrow> Inr ()
      else if \<not> id_is_zero parent then Inl ErrRoundRobinParentNotApplicable
      else Inr ())"

text \<open>\<open>legs[0]\<close> is read for a straight only, which has one leg by then.\<close>

definition validateTicketPrice :: "WagerKind \<Rightarrow> f64 \<Rightarrow> Leg list \<Rightarrow> unit res" where
  "validateTicketPrice kind ticket legs =
     (if is_nan ticket \<or> is_inf ticket then Inl ErrOddsNotFinite
      else if fle ticket MinDecimalOdds \<or> flt MaxWagerDecimal ticket then Inl ErrWagerOddsOutOfRange
      else if kind \<noteq> WagerKindStraight then Inr ()
      else let leg = Leg_QuotedDecimal (legs ! 0);
               scale = fmax (fabs ticket) (fabs leg)
        in if flt ticketPriceTolerance (fdiv (fabs (fsub ticket leg)) scale)
           then Inl ErrWagerPriceMismatch
           else Inr ())"

definition NewWager :: "WagerParams \<Rightarrow> Wager res" where
  "NewWager p =
     bindE (validID (wp_ID p)) (\<lambda>_.
     bindE (validID (wp_UserID p)) (\<lambda>_.
     if \<not> WagerKind_Valid (wp_Kind p) then Inl ErrUnknownWagerKind else
     bindE (validateLegSet (wp_Legs p)) (\<lambda>legs.
     bindE (validateLegCount (wp_Kind p) (length legs)) (\<lambda>_.
     bindE (validateTeaser (wp_Kind p) (wp_TeaserPoints p) legs) (\<lambda>_.
     bindE (validateRoundRobinParent (wp_Kind p) (wp_RoundRobinID p)) (\<lambda>_.
     if \<not> Money_IsPositive (wp_Stake p) then Inl ErrStakeNotPositive else
     bindE (validateTicketPrice (wp_Kind p) (wp_AcceptedDecimal p) legs) (\<lambda>_.
     if \<not> Rounding_Valid (wp_Rounding p) then Inl ErrUnknownRounding
     else if time_is_zero (wp_PlacedAt p) then Inl ErrZeroTime else
     bindE (Money_MulFloat (wp_Stake p) (wp_AcceptedDecimal p) (wp_Rounding p)) (\<lambda>payout.
     if Money_Compare payout (wp_Stake p) < 0 then Inl ErrPayoutBelowStake else
     bindE (Money_Sub payout (wp_Stake p)) (\<lambda>profit.
     Inr \<lparr> wager_id = wp_ID p, wager_userID = wp_UserID p, wager_kind = wp_Kind p,
           wager_legs = legs, wager_stake = wp_Stake p, wager_accepted = wp_AcceptedDecimal p,
           wager_rounding = wp_Rounding p, wager_payout = payout, wager_profit = profit,
           wager_teaserPoints = wp_TeaserPoints p, wager_hasTeaser = (wp_Kind p = WagerKindTeaser),
           wager_roundRobinID = wp_RoundRobinID p, wager_status = WagerStatusPlaced,
           wager_returned = 0, wager_netReturn = 0, wager_hasReturned = False,
           wager_placedAt = time_utc (wp_PlacedAt p),
           wager_updatedAt = time_utc (wp_PlacedAt p) \<rparr>)))))))))"

section \<open>Inspection\<close>

definition Wager_Leg :: "Wager \<Rightarrow> string \<Rightarrow> Leg option" where
  "Wager_Leg w id0 = find (\<lambda>leg. leg_id leg = id0) (wager_legs w)"

definition Wager_SettledAt :: "Wager \<Rightarrow> time option" where
  "Wager_SettledAt w =
     (if \<not> WagerStatus_IsTerminal (wager_status w) then None else Some (wager_updatedAt w))"

definition Wager_EventIDs :: "Wager \<Rightarrow> string list" where
  "Wager_EventIDs w = remdups_adj (sort (map leg_eventID (wager_legs w)))"

definition Wager_IsSameGame :: "Wager \<Rightarrow> bool" where
  "Wager_IsSameGame w = (1 < length (wager_legs w) \<and> length (Wager_EventIDs w) = 1)"

definition Wager_AllLegsGraded :: "Wager \<Rightarrow> bool" where
  "Wager_AllLegsGraded w = list_all (\<lambda>leg. LegStatus_IsTerminal (leg_status leg)) (wager_legs w)"

section \<open>Transitions\<close>

definition wager_stamp :: "Wager \<Rightarrow> time \<Rightarrow> Wager res" where
  "wager_stamp w at_time =
     (if time_is_zero at_time then Inl ErrZeroTime
      else let u = time_utc at_time in
        if time_before u (wager_updatedAt w) then Inl ErrStaleUpdate
        else Inr (w \<lparr> wager_updatedAt := u \<rparr>))"

definition Wager_Open :: "Wager \<Rightarrow> time \<Rightarrow> Wager res" where
  "Wager_Open w at_time =
     (if \<not> WagerStatus_CanTransitionTo (wager_status w) WagerStatusOpen then Inl ErrIllegalTransition
      else bindE (wager_stamp w at_time) (\<lambda>stamped.
        Inr (stamped \<lparr> wager_status := WagerStatusOpen \<rparr>)))"

text \<open>\<open>slices.IndexFunc\<close>: the first leg with the identifier.\<close>

fun leg_index :: "string \<Rightarrow> Leg list \<Rightarrow> nat option" where
  "leg_index id0 [] = None"
| "leg_index id0 (l # ls) =
     (if leg_id l = id0 then Some 0 else map_option Suc (leg_index id0 ls))"

definition Wager_GradeLeg :: "Wager \<Rightarrow> string \<Rightarrow> LegStatus \<Rightarrow> time \<Rightarrow> Wager res" where
  "Wager_GradeLeg w id0 next_status at_time =
     (if WagerStatus_IsTerminal (wager_status w) then Inl ErrIllegalTransition
      else case leg_index id0 (wager_legs w) of
        None \<Rightarrow> Inl ErrMismatchedParent
      | Some idx \<Rightarrow>
          bindE (Leg_WithStatus (wager_legs w ! idx) next_status at_time) (\<lambda>graded.
          bindE (wager_stamp w at_time) (\<lambda>stamped.
          Inr (stamped \<lparr> wager_legs := (wager_legs stamped)[idx := graded] \<rparr>))))"

definition checkReturn :: "Wager \<Rightarrow> WagerStatus \<Rightarrow> money \<Rightarrow> unit res" where
  "checkReturn w outcome ret = (case outcome of
     WagerStatusLost \<Rightarrow> if \<not> Money_IsZero ret then Inl ErrReturnAmount else Inr ()
   | WagerStatusVoid \<Rightarrow> if Money_Compare ret (wager_stake w) \<noteq> 0 then Inl ErrReturnAmount else Inr ()
   | WagerStatusPush \<Rightarrow> if Money_Compare ret (wager_stake w) \<noteq> 0 then Inl ErrReturnAmount else Inr ()
   | WagerStatusWon \<Rightarrow>
       if Money_Compare ret (wager_stake w) < 0 then Inl ErrReturnAmount
       else if 0 < Money_Compare ret (wager_payout w) then Inl ErrReturnAmount else Inr ()
   | _ \<Rightarrow> Inl ErrIllegalTransition)"

definition settleAt :: "Wager \<Rightarrow> WagerStatus \<Rightarrow> money \<Rightarrow> time \<Rightarrow> Wager res" where
  "settleAt w next_status ret at_time =
     bindE (Money_Sub ret (wager_stake w)) (\<lambda>net.
     bindE (wager_stamp w at_time) (\<lambda>stamped.
     Inr (stamped \<lparr> wager_status := next_status, wager_returned := ret,
                    wager_netReturn := net, wager_hasReturned := True \<rparr>)))"

definition Wager_Settle :: "Wager \<Rightarrow> WagerStatus \<Rightarrow> money \<Rightarrow> time \<Rightarrow> Wager res" where
  "Wager_Settle w next_status ret at_time =
     (if \<not> WagerStatus_IsGraded next_status then Inl ErrIllegalTransition
      else if \<not> WagerStatus_CanTransitionTo (wager_status w) next_status then Inl ErrIllegalTransition
      else bindE (checkReturn w next_status ret) (\<lambda>_. settleAt w next_status ret at_time))"

definition Wager_CashOut :: "Wager \<Rightarrow> money \<Rightarrow> time \<Rightarrow> Wager res" where
  "Wager_CashOut w amount at_time =
     (if \<not> WagerStatus_CanTransitionTo (wager_status w) WagerStatusCashedOut then Inl ErrIllegalTransition
      else if \<not> Money_IsPositive amount then Inl ErrReturnAmount
      else if 0 < Money_Compare amount (wager_payout w) then Inl ErrReturnAmount
      else settleAt w WagerStatusCashedOut amount at_time)"

text \<open>The transitions, as data.\<close>

datatype wager_op =
    OpenOp time
  | GradeLegOp string LegStatus time
  | SettleOp WagerStatus money time
  | CashOutOp money time

fun wager_step :: "wager_op \<Rightarrow> Wager \<Rightarrow> Wager res" where
  "wager_step (OpenOp t) w = Wager_Open w t"
| "wager_step (GradeLegOp i s t) w = Wager_GradeLeg w i s t"
| "wager_step (SettleOp s m t) w = Wager_Settle w s m t"
| "wager_step (CashOutOp m t) w = Wager_CashOut w m t"

fun wager_op_time :: "wager_op \<Rightarrow> time" where
  "wager_op_time (OpenOp t) = t"
| "wager_op_time (GradeLegOp i s t) = t"
| "wager_op_time (SettleOp s m t) = t"
| "wager_op_time (CashOutOp m t) = t"

section \<open>What the transitions do\<close>

lemma wager_stamp_ok [result_simps]:
  "wager_stamp w t = Inr v \<longleftrightarrow> t \<noteq> 0 \<and> wager_updatedAt w \<le> t \<and> v = w \<lparr> wager_updatedAt := t \<rparr>"
  by (auto simp: wager_stamp_def time_defs Let_def)

lemma Wager_Open_ok:
  "Wager_Open w t = Inr v \<longleftrightarrow> WagerStatus_CanTransitionTo (wager_status w) WagerStatusOpen \<and>
    t \<noteq> 0 \<and> wager_updatedAt w \<le> t \<and>
    v = w \<lparr> wager_updatedAt := t, wager_status := WagerStatusOpen \<rparr>"
  by (auto simp: Wager_Open_def result_simps)

lemma Wager_GradeLeg_ok:
  "Wager_GradeLeg w i s t = Inr v \<longleftrightarrow> \<not> WagerStatus_IsTerminal (wager_status w) \<and>
    t \<noteq> 0 \<and> wager_updatedAt w \<le> t \<and>
    (\<exists>k l. leg_index i (wager_legs w) = Some k \<and> Leg_WithStatus (wager_legs w ! k) s t = Inr l \<and>
       v = w \<lparr> wager_updatedAt := t, wager_legs := (wager_legs w)[k := l] \<rparr>)"
  by (auto simp: Wager_GradeLeg_def result_simps split: option.splits)

lemma settleAt_ok:
  "settleAt w s m t = Inr v \<longleftrightarrow> t \<noteq> 0 \<and> wager_updatedAt w \<le> t \<and>
    safe_units (sint m - sint (wager_stake w)) \<and>
    v = w \<lparr> wager_updatedAt := t, wager_status := s, wager_returned := m,
            wager_netReturn := m - wager_stake w, wager_hasReturned := True \<rparr>"
  by (auto simp: settleAt_def result_simps Money_Sub_eq)

text \<open>The amounts an outcome admits, on integers.\<close>

definition outcome_amount :: "Wager \<Rightarrow> WagerStatus \<Rightarrow> int \<Rightarrow> bool" where
  "outcome_amount w s r = (case s of
     WagerStatusLost \<Rightarrow> r = 0
   | WagerStatusVoid \<Rightarrow> r = sint (wager_stake w)
   | WagerStatusPush \<Rightarrow> r = sint (wager_stake w)
   | WagerStatusWon \<Rightarrow> sint (wager_stake w) \<le> r \<and> r \<le> sint (wager_payout w)
   | WagerStatusCashedOut \<Rightarrow> 0 < r \<and> r \<le> sint (wager_payout w)
   | _ \<Rightarrow> False)"

lemma checkReturn_ok:
  "checkReturn w s m = Inr () \<longleftrightarrow> WagerStatus_IsGraded s \<and> outcome_amount w s (sint m)"
  by (cases s)
    (auto simp: checkReturn_def outcome_amount_def WagerStatus_IsGraded_def money_simps
      simp flip: sint_eq_iff)

lemma Wager_Settle_ok:
  "Wager_Settle w s m t = Inr v \<longleftrightarrow> WagerStatus_IsGraded s \<and>
    WagerStatus_CanTransitionTo (wager_status w) s \<and> outcome_amount w s (sint m) \<and>
    settleAt w s m t = Inr v"
  by (auto simp: Wager_Settle_def result_simps checkReturn_ok)

lemma Wager_CashOut_ok:
  "Wager_CashOut w m t = Inr v \<longleftrightarrow>
    WagerStatus_CanTransitionTo (wager_status w) WagerStatusCashedOut \<and>
    outcome_amount w WagerStatusCashedOut (sint m) \<and> settleAt w WagerStatusCashedOut m t = Inr v"
  by (auto simp: Wager_CashOut_def outcome_amount_def money_simps)

lemmas wager_step_ok = Wager_Open_ok Wager_GradeLeg_ok Wager_Settle_ok Wager_CashOut_ok settleAt_ok

lemma wager_can_valid: "WagerStatus_CanTransitionTo s t \<Longrightarrow> WagerStatus_Valid s \<and> WagerStatus_Valid t"
  by (simp add: WagerStatus_CanTransitionTo_def split: if_splits)

lemma wager_can_self: "WagerStatus_CanTransitionTo s s \<longleftrightarrow> WagerStatus_Valid s"
  by (simp add: WagerStatus_CanTransitionTo_def)

interpretation wagers: entity WagerStatus_Valid WagerStatus_CanTransitionTo WagerStatus_IsTerminal
  wager_stage wager_step wager_op_time wager_updatedAt wager_status
proof unfold_locales
  fix s t assume "WagerStatus_CanTransitionTo s t"
  then show "WagerStatus_Valid s \<and> WagerStatus_Valid t" by (rule wager_can_valid)
next
  fix s t assume "WagerStatus_CanTransitionTo s t"
  then show "wager_stage s \<le> wager_stage t"
    by (cases s) (auto simp: WagerStatus_CanTransitionTo_def WagerStatus_IsTerminal_def split: if_splits)
next
  fix s assume v: "WagerStatus_Valid s"
  then show "WagerStatus_CanTransitionTo s s" by (simp add: wager_can_self)
  have "\<not> WagerStatus_IsTerminal s \<Longrightarrow>
      WagerStatus_CanTransitionTo s WagerStatusVoid \<and> WagerStatusVoid \<noteq> s"
    using v by (cases s) (simp_all add: WagerStatus_CanTransitionTo_def WagerStatus_IsTerminal_def)
  moreover have "WagerStatus_IsTerminal s \<Longrightarrow> WagerStatus_CanTransitionTo s t \<Longrightarrow> t = s" for t
    by (auto simp: WagerStatus_CanTransitionTo_def WagerStatus_IsTerminal_def split: if_splits)
  ultimately show "WagerStatus_IsTerminal s \<longleftrightarrow> (\<forall>t. WagerStatus_CanTransitionTo s t \<longrightarrow> t = s)"
    by blast
next
  fix op x y assume "wager_step op x = Inr y"
  then show "wager_updatedAt y = wager_op_time op \<and> wager_updatedAt x \<le> wager_op_time op"
    by (cases op) (auto simp: wager_step_ok)
next
  fix op x y assume "wager_step op x = Inr y" "WagerStatus_Valid (wager_status x)"
  then show "WagerStatus_CanTransitionTo (wager_status x) (wager_status y)"
    by (cases op) (auto simp: wager_step_ok wager_can_self)
qed

end
