(* ===== verification/WagerInvariant.thy ===== *)
theory WagerInvariant
  imports Wager
begin

text \<open>
  What holds of every wager: the constructor's guarantees, the invariant over all transitions,
  what a ticket never changes after placement, and when a settlement is final.
\<close>

section \<open>The constructor\<close>

lemma check_legs_ok:
  "check_legs S M legs = Inr u \<longleftrightarrow>
    list_all (\<lambda>l. leg_id l \<noteq> [] \<and> leg_status l = LegStatusPending) legs \<and>
    distinct (map leg_selectionID legs) \<and> distinct (map leg_marketID legs) \<and>
    set (map leg_selectionID legs) \<inter> S = {} \<and> set (map leg_marketID legs) \<inter> M = {}"
  by (induction S M legs rule: check_legs.induct) (auto simp: Leg_IsZero_def id_is_zero_def)

lemma validateLegSet_ok:
  "validateLegSet legs = Inr ls \<longleftrightarrow> ls = legs \<and> 1 \<le> length legs \<and> length legs \<le> 25 \<and>
    list_all (\<lambda>l. leg_id l \<noteq> [] \<and> leg_status l = LegStatusPending) legs \<and>
    distinct (map leg_selectionID legs) \<and> distinct (map leg_marketID legs)"
  by (cases legs) (auto simp: validateLegSet_def MaxWagerLegs_def result_simps check_legs_ok
      simp del: check_legs.simps)

definition ticket_decimal_ok :: "f64 \<Rightarrow> bool" where
  "ticket_decimal_ok x = (is_finite x \<and> 1 < fval x \<and> fval x \<le> 1000000000)"

lemma validateTicketPrice_range: "validateTicketPrice k x legs = Inr () \<Longrightarrow> ticket_decimal_ok x"
  by (auto simp: validateTicketPrice_def ticket_decimal_ok_def is_finite_def fle_def flt_def feq_def
      MinDecimalOdds_def MaxWagerDecimal_def split: if_splits)

text \<open>The fields of a ticket that are fixed when it is placed.\<close>

definition ticket_wf :: "Wager \<Rightarrow> bool" where
  "ticket_wf w =
     (validID (wager_id w) = Inr () \<and> validID (wager_userID w) = Inr () \<and>
      WagerKind_Valid (wager_kind w) \<and>
      0 < sint (wager_stake w) \<and> safe_units (sint (wager_stake w)) \<and>
      ticket_decimal_ok (wager_accepted w) \<and>
      Money_MulFloat (wager_stake w) (wager_accepted w) (wager_rounding w) = Inr (wager_payout w) \<and>
      sint (wager_stake w) \<le> sint (wager_payout w) \<and>
      sint (wager_profit w) = sint (wager_payout w) - sint (wager_stake w) \<and>
      (wager_hasTeaser w \<longleftrightarrow> wager_kind w = WagerKindTeaser) \<and>
      (wager_kind w = WagerKindRoundRobin \<longleftrightarrow> wager_roundRobinID w \<noteq> []) \<and>
      wager_placedAt w \<noteq> 0)"

definition legs_wf :: "Wager \<Rightarrow> bool" where
  "legs_wf w =
     (length (wager_legs w) \<le> 25 \<and>
      (if wager_kind w = WagerKindStraight then length (wager_legs w) = 1 else 2 \<le> length (wager_legs w)) \<and>
      distinct (map leg_selectionID (wager_legs w)) \<and> distinct (map leg_marketID (wager_legs w)) \<and>
      (wager_kind w = WagerKindTeaser \<longleftrightarrow> (\<exists>l \<in> set (wager_legs w). line_present (leg_teasedLine l))) \<and>
      list_all leg_wf (wager_legs w))"

definition money_wf :: "Wager \<Rightarrow> bool" where
  "money_wf w =
     (if WagerStatus_IsTerminal (wager_status w) then
        wager_hasReturned w \<and> outcome_amount w (wager_status w) (sint (wager_returned w)) \<and>
        sint (wager_netReturn w) = sint (wager_returned w) - sint (wager_stake w)
      else \<not> wager_hasReturned w \<and> wager_returned w = 0 \<and> wager_netReturn w = 0)"

definition wager_wf :: "Wager \<Rightarrow> bool" where
  "wager_wf w =
     (ticket_wf w \<and> legs_wf w \<and> money_wf w \<and> WagerStatus_Valid (wager_status w) \<and>
      wager_placedAt w \<le> wager_updatedAt w)"

lemma check_teased_all_ok: "check_teased_all p ls = Inr u \<Longrightarrow> l \<in> set ls \<Longrightarrow> check_teased p l = Inr ()"
  by (induction p ls rule: check_teased_all.induct) (auto simp: result_simps)

lemma validateTeaser_teased:
  assumes "validateTeaser k p legs = Inr ()" "legs \<noteq> []"
  shows "k = WagerKindTeaser \<longleftrightarrow> (\<exists>l \<in> set legs. line_present (leg_teasedLine l))"
proof (cases "k = WagerKindTeaser")
  case True
  then have "check_teased_all p legs = Inr ()"
    using assms(1) by (auto simp: validateTeaser_def split: if_splits)
  from check_teased_all_ok [OF this hd_in_set [OF assms(2)]]
  have "line_present (leg_teasedLine (hd legs))"
    by (auto simp: check_teased_def Line_Value_def split: if_splits)
  with True assms(2) show ?thesis by auto
next
  case False
  then show ?thesis using assms(1) by (auto simp: validateTeaser_def list_ex_iff split: if_splits)
qed

lemma validateLegCount_ok:
  "validateLegCount k n = Inr u \<longleftrightarrow>
    (k = WagerKindStraight \<longrightarrow> n = 1) \<and> (WagerKind_IsMulti k \<longrightarrow> 2 \<le> n)"
  by (auto simp: validateLegCount_def)

lemma validateRoundRobinParent_ok:
  "validateRoundRobinParent k r = Inr u \<Longrightarrow> k = WagerKindRoundRobin \<longleftrightarrow> r \<noteq> []"
  by (auto simp: validateRoundRobinParent_def id_is_zero_def result_simps split: if_splits sum.splits)

lemma multi_cases: "WagerKind_Valid k \<Longrightarrow> k \<noteq> WagerKindStraight \<Longrightarrow> WagerKind_IsMulti k"
  by (cases k) (simp_all add: WagerKind_IsMulti_def)

lemma mul_float_safe: "Money_MulFloat m f r = Inr n \<Longrightarrow> safe_units (sint m) \<and> safe_units (sint n)"
  by (auto simp: Money_MulFloat_ok mul_float_defined_def)

text \<open>What an accepted parameter set went through, in the order of the code.\<close>

lemma NewWager_ok:
  "NewWager p = Inr w \<longleftrightarrow>
    validID (wp_ID p) = Inr () \<and> validID (wp_UserID p) = Inr () \<and> WagerKind_Valid (wp_Kind p) \<and>
    validateLegSet (wp_Legs p) = Inr (wp_Legs p) \<and>
    validateLegCount (wp_Kind p) (length (wp_Legs p)) = Inr () \<and>
    validateTeaser (wp_Kind p) (wp_TeaserPoints p) (wp_Legs p) = Inr () \<and>
    validateRoundRobinParent (wp_Kind p) (wp_RoundRobinID p) = Inr () \<and>
    0 < sint (wp_Stake p) \<and>
    validateTicketPrice (wp_Kind p) (wp_AcceptedDecimal p) (wp_Legs p) = Inr () \<and>
    Rounding_Valid (wp_Rounding p) \<and> wp_PlacedAt p \<noteq> 0 \<and>
    (\<exists>payout. Money_MulFloat (wp_Stake p) (wp_AcceptedDecimal p) (wp_Rounding p) = Inr payout \<and>
      sint (wp_Stake p) \<le> sint payout \<and> safe_units (sint payout - sint (wp_Stake p)) \<and>
      w = \<lparr> wager_id = wp_ID p, wager_userID = wp_UserID p, wager_kind = wp_Kind p,
           wager_legs = wp_Legs p, wager_stake = wp_Stake p, wager_accepted = wp_AcceptedDecimal p,
           wager_rounding = wp_Rounding p, wager_payout = payout,
           wager_profit = payout - wp_Stake p,
           wager_teaserPoints = wp_TeaserPoints p, wager_hasTeaser = (wp_Kind p = WagerKindTeaser),
           wager_roundRobinID = wp_RoundRobinID p, wager_status = WagerStatusPlaced,
           wager_returned = 0, wager_netReturn = 0, wager_hasReturned = False,
           wager_placedAt = wp_PlacedAt p, wager_updatedAt = wp_PlacedAt p \<rparr>)"
proof -
  have legs: "validateLegSet ls = Inr ks \<Longrightarrow> ks = ls" for ls ks by (simp add: validateLegSet_ok)
  have sub: "Money_Sub a b = Inr c \<longleftrightarrow> safe_units (sint a - sint b) \<and> c = a - b" for a b c
    by (auto simp: Money_Sub_eq)
  show ?thesis
    unfolding NewWager_def result_simps Money_IsPositive_iff Money_Compare_less sub time_defs
    by (auto dest: legs simp: result_simps split: if_splits)
qed

text \<open>The payout guard never fires: a price above one never returns less than the stake.\<close>

lemma payout_guard_unreachable:
  assumes "validateTicketPrice k x legs = Inr ()" "0 < sint stake" "Money_MulFloat stake x r = Inr payout"
  shows "\<not> Money_Compare payout stake < 0" "is_ok (Money_Sub payout stake)"
proof -
  have "1 \<le> fval x" using validateTicketPrice_range [OF assms(1)] by (simp add: ticket_decimal_ok_def)
  then have ge: "sint stake \<le> sint payout" using Money_MulFloat_ge [OF assms(3,2)] by blast
  then show "\<not> Money_Compare payout stake < 0" by (simp add: money_simps)
  have "safe_units (sint payout)" "0 < sint stake" using mul_float_safe [OF assms(3)] assms(2) by auto
  with ge show "is_ok (Money_Sub payout stake)" by (simp add: Money_Sub_eq)
qed

lemma NewWager_wf:
  assumes "NewWager p = Inr w" "list_all leg_wf (wp_Legs p)"
  shows "wager_wf w"
proof -
  have "wp_Legs p \<noteq> []" using assms(1) by (auto simp: NewWager_ok validateLegSet_ok)
  then have teased: "wp_Kind p = WagerKindTeaser \<longleftrightarrow> (\<exists>l \<in> set (wp_Legs p). line_present (leg_teasedLine l))"
    using assms(1) validateTeaser_teased unfolding NewWager_ok by blast
  have "ticket_wf w"
    using assms(1) validateTicketPrice_range validateRoundRobinParent_ok
    by (auto simp: NewWager_ok ticket_wf_def sint_sub_safe dest: mul_float_safe)
  moreover have "wager_legs w = wp_Legs p" "wager_kind w = wp_Kind p"
      "distinct (map leg_selectionID (wp_Legs p))" "distinct (map leg_marketID (wp_Legs p))"
      "length (wp_Legs p) \<le> 25"
      "if wp_Kind p = WagerKindStraight then length (wp_Legs p) = 1 else 2 \<le> length (wp_Legs p)"
    using assms(1) multi_cases [of "wp_Kind p"]
    by (auto simp: NewWager_ok validateLegSet_ok validateLegCount_ok)
  then have "legs_wf w" by (simp add: legs_wf_def teased assms(2))
  moreover have "money_wf w"
    using assms(1) by (auto simp: NewWager_ok money_wf_def WagerStatus_IsTerminal_def)
  ultimately show ?thesis using assms(1) by (auto simp: NewWager_ok wager_wf_def)
qed

section \<open>The invariant\<close>

lemma ticket_wf_update [simp]:
  "ticket_wf (w \<lparr> wager_updatedAt := t \<rparr>) = ticket_wf w"
  "ticket_wf (w \<lparr> wager_status := s \<rparr>) = ticket_wf w"
  "ticket_wf (w \<lparr> wager_legs := ls \<rparr>) = ticket_wf w"
  "ticket_wf (w \<lparr> wager_returned := m \<rparr>) = ticket_wf w"
  "ticket_wf (w \<lparr> wager_netReturn := m \<rparr>) = ticket_wf w"
  "ticket_wf (w \<lparr> wager_hasReturned := b \<rparr>) = ticket_wf w"
  by (simp_all add: ticket_wf_def)

lemma legs_wf_update [simp]:
  "legs_wf (w \<lparr> wager_updatedAt := t \<rparr>) = legs_wf w"
  "legs_wf (w \<lparr> wager_status := s \<rparr>) = legs_wf w"
  "legs_wf (w \<lparr> wager_returned := m \<rparr>) = legs_wf w"
  "legs_wf (w \<lparr> wager_netReturn := m \<rparr>) = legs_wf w"
  "legs_wf (w \<lparr> wager_hasReturned := b \<rparr>) = legs_wf w"
  by (simp_all add: legs_wf_def)

lemma leg_index_SomeD: "leg_index i ls = Some k \<Longrightarrow> k < length ls \<and> leg_id (ls ! k) = i"
  by (induction i ls arbitrary: k rule: leg_index.induct) (auto split: if_splits)

lemma Leg_WithStatus_keeps:
  "Leg_WithStatus l s t = Inr m \<Longrightarrow>
    leg_id m = leg_id l \<and> leg_eventID m = leg_eventID l \<and> leg_selectionID m = leg_selectionID l \<and>
    leg_marketID m = leg_marketID l \<and> leg_marketType m = leg_marketType l \<and> leg_role m = leg_role l \<and>
    leg_price m = leg_price l \<and> leg_teasedLine m = leg_teasedLine l"
  by (auto simp: Leg_WithStatus_ok split: if_splits)

text \<open>What a leg is besides its grading.\<close>

definition leg_booking :: "Leg \<Rightarrow> string \<times> string \<times> string \<times> string \<times> MarketType \<times> SelectionRole \<times> Price \<times> Line" where
  "leg_booking l = (leg_id l, leg_eventID l, leg_selectionID l, leg_marketID l, leg_marketType l,
     leg_role l, leg_price l, leg_teasedLine l)"

lemma graded_bookings:
  assumes "Leg_WithStatus (ls ! k) s t = Inr m" "k < length ls"
  shows "map leg_booking (ls[k := m]) = map leg_booking ls"
  using Leg_WithStatus_keeps [OF assms(1)] by (intro map_list_update_id) (simp add: leg_booking_def)

lemma bookings_legs_wf:
  assumes "map leg_booking ls = map leg_booking (wager_legs w)" "list_all leg_wf ls" "legs_wf w"
  shows "legs_wf (w \<lparr> wager_legs := ls \<rparr>)"
proof -
  have proj: "map f ls = map f (wager_legs w)" if "\<And>l. f l = g (leg_booking l)" for f :: "Leg \<Rightarrow> 'b" and g
    using arg_cong [OF assms(1), of "map g"] by (simp add: comp_def flip: that)
  have "map leg_selectionID ls = map leg_selectionID (wager_legs w)"
    by (rule proj [of _ "\<lambda>(_, _, s, _). s"]) (simp add: leg_booking_def)
  moreover have "map leg_marketID ls = map leg_marketID (wager_legs w)"
    by (rule proj [of _ "\<lambda>(_, _, _, m, _). m"]) (simp add: leg_booking_def)
  moreover have "map (\<lambda>l. line_present (leg_teasedLine l)) ls =
      map (\<lambda>l. line_present (leg_teasedLine l)) (wager_legs w)"
    by (rule proj [of _ "\<lambda>(_, _, _, _, _, _, _, t). line_present t"]) (simp add: leg_booking_def)
  from arg_cong [OF this, of "\<lambda>bs. True \<in> set bs"]
  have "(\<exists>l \<in> set ls. line_present (leg_teasedLine l)) \<longleftrightarrow>
      (\<exists>l \<in> set (wager_legs w). line_present (leg_teasedLine l))"
    by (simp add: image_iff)
  moreover have "length ls = length (wager_legs w)" using map_eq_imp_length_eq [OF assms(1)] .
  ultimately show ?thesis using assms(2,3) by (simp add: legs_wf_def)
qed

lemma GradeLeg_legs_wf:
  assumes "Wager_GradeLeg w i s t = Inr v" "legs_wf w"
  shows "legs_wf v"
proof -
  from assms(1) obtain k l where k: "k < length (wager_legs w)"
    and l: "Leg_WithStatus (wager_legs w ! k) s t = Inr l"
    and v: "v = w \<lparr> wager_updatedAt := t, wager_legs := (wager_legs w)[k := l] \<rparr>"
    by (auto simp: Wager_GradeLeg_ok dest: leg_index_SomeD)
  have all: "list_all leg_wf (wager_legs w)" using assms(2) by (simp add: legs_wf_def)
  then have "leg_wf l" using grade_wf [OF _ l] k by (simp add: list_all_length)
  then have "list_all leg_wf ((wager_legs w)[k := l])"
    using all set_update_subset_insert [of "wager_legs w" k l] by (auto simp: list_all_iff)
  with graded_bookings [OF l k] assms(2) show ?thesis
    unfolding v by (simp add: bookings_legs_wf)
qed

lemma wager_step_wf:
  assumes "wager_step op w = Inr v" "wager_wf w"
  shows "wager_wf v"
proof -
  have "WagerStatus_Valid (wager_status v)"
    using wagers.step_status [OF assms(1)] wagers.can_valid assms(2) by (auto simp: wager_wf_def)
  moreover have "ticket_wf v" using assms by (cases op) (auto simp: wager_step_ok wager_wf_def)
  moreover have "legs_wf v"
    using assms by (cases op) (auto simp: wager_step_ok wager_wf_def
        intro: GradeLeg_legs_wf [unfolded Wager_GradeLeg_ok, rotated])
  moreover have "money_wf v"
    using assms
    by (cases op) (auto simp: wager_step_ok wager_wf_def money_wf_def outcome_amount_def sint_sub_safe
        WagerStatus_CanTransitionTo_def WagerStatus_IsTerminal_def WagerStatus_IsGraded_def
        split: if_splits WagerStatus.splits)
  moreover have "wager_placedAt v \<le> wager_updatedAt v"
    using assms by (cases op) (auto simp: wager_step_ok wager_wf_def)
  ultimately show ?thesis by (simp add: wager_wf_def)
qed

text \<open>
  Wagers come from \<open>NewWager\<close> on legs that were built and are changed by the transitions only.
\<close>

inductive wager_reachable :: "Wager \<Rightarrow> bool" where
  place_wager: "NewWager p = Inr w \<Longrightarrow> \<forall>l \<in> set (wp_Legs p). leg_reachable l \<Longrightarrow> wager_reachable w"
| change_wager: "wager_reachable w \<Longrightarrow> wager_step op w = Inr v \<Longrightarrow> wager_reachable v"

lemma wager_reachable_wf: "wager_reachable w \<Longrightarrow> wager_wf w"
proof (induction rule: wager_reachable.induct)
  case (place_wager p w)
  then have "list_all leg_wf (wp_Legs p)" by (auto simp: list_all_iff leg_reachable_wf)
  with place_wager(1) show ?case by (rule NewWager_wf)
qed (rule wager_step_wf)

section \<open>What never changes\<close>

definition wager_ticket where
  "wager_ticket w = (wager_id w, wager_userID w, wager_kind w, wager_stake w, wager_accepted w,
     wager_rounding w, wager_payout w, wager_profit w, wager_teaserPoints w, wager_roundRobinID w,
     wager_placedAt w, map leg_booking (wager_legs w))"

lemma wager_step_ticket: "wager_step op w = Inr v \<Longrightarrow> wager_ticket v = wager_ticket w"
  by (cases op) (auto simp: wager_step_ok wager_ticket_def dest: graded_bookings leg_index_SomeD)

lemma run_ticket: "wager_ticket (run wager_step ops w) = wager_ticket w"
  by (rule run_invariant [where P = "\<lambda>v. wager_ticket v = wager_ticket w"])
    (auto dest: wager_step_ticket)

text \<open>
  A closed ticket keeps its status, its legs and their gradings. It can be stamped again, and on
  the two outcomes whose amount is a range the amount recorded can be replaced.
\<close>

lemma closed_step:
  assumes "wager_step op w = Inr v" "WagerStatus_IsTerminal (wager_status w)"
  shows "wager_status v = wager_status w \<and> wager_legs v = wager_legs w"
proof -
  have "WagerStatus_CanTransitionTo (wager_status w) s \<Longrightarrow> s = wager_status w" for s
    using assms(2) wagers.terminal_iff wager_can_valid by blast
  with assms show ?thesis by (cases op) (auto simp: wager_step_ok)
qed

lemma fixed_amount_final:
  assumes "wager_status w \<in> {WagerStatusLost, WagerStatusVoid, WagerStatusPush}" "wager_wf w"
  shows "wager_returned (run wager_step ops w) = wager_returned w"
proof -
  define P where "P v \<longleftrightarrow> wager_wf v \<and> wager_status v = wager_status w \<and> wager_ticket v = wager_ticket w" for v
  have closed: "WagerStatus_IsTerminal (wager_status w)" using assms(1) by (auto simp: WagerStatus_IsTerminal_def)
  have "P (run wager_step ops w)"
  proof (rule run_invariant)
    show "P w" using assms(2) by (simp add: P_def)
    fix op x y assume "P x" "wager_step op x = Inr y"
    then show "P y" using closed closed_step [of op x y] wager_step_wf wager_step_ticket by (auto simp: P_def)
  qed
  then show ?thesis
    using assms closed
    by (auto simp: P_def wager_wf_def money_wf_def outcome_amount_def wager_ticket_def simp flip: sint_eq_iff)
qed

text \<open>The exposure of both sides is bounded by the ticket from the moment it is placed.\<close>

lemma settled_bounds:
  assumes "wager_wf w" "WagerStatus_IsTerminal (wager_status w)"
  shows "0 \<le> sint (wager_returned w) \<and> sint (wager_returned w) \<le> sint (wager_payout w) \<and>
    - sint (wager_stake w) \<le> sint (wager_netReturn w) \<and> sint (wager_netReturn w) \<le> sint (wager_profit w)"
  using assms
  by (cases "wager_status w")
    (auto simp: wager_wf_def money_wf_def ticket_wf_def outcome_amount_def WagerStatus_IsTerminal_def)

end
