(* ===== verification/WagerLimits.thy ===== *)
theory WagerLimits
  imports WagerInvariant
begin

text \<open>
  What the transitions of \<open>internal/domain/wager.go\<close> leave open: a ticket that is won or cashed
  out accepts a second settlement at another amount, a leg behind another leg of the same
  identifier is never graded, and the teaser check reads the points without their direction.
\<close>

section \<open>Settling again\<close>

lemma won_resettles:
  assumes "wager_wf w" "wager_status w = WagerStatusWon"
  shows "(\<exists>v. Wager_Settle w WagerStatusWon m t = Inr v \<and> wager_returned v = m) \<longleftrightarrow>
    sint (wager_stake w) \<le> sint m \<and> sint m \<le> sint (wager_payout w) \<and> t \<noteq> 0 \<and> wager_updatedAt w \<le> t"
proof -
  have "0 < sint (wager_stake w)" "safe_units (sint (wager_payout w))"
    using assms(1) by (auto simp: wager_wf_def ticket_wf_def dest: mul_float_safe)
  then have "sint (wager_stake w) \<le> sint m \<and> sint m \<le> sint (wager_payout w) \<Longrightarrow>
      safe_units (sint m - sint (wager_stake w))"
    by simp
  then show ?thesis
    using assms(2)
    by (auto simp: Wager_Settle_ok settleAt_ok outcome_amount_def WagerStatus_IsGraded_def wager_can_self)
qed

section \<open>Legs that share an identifier\<close>

text \<open>\<open>GradeLeg\<close> reaches the first leg with the identifier it is given, and no other.\<close>

lemma leg_index_first: "leg_index (leg_id (ls ! j)) ls = Some k \<Longrightarrow> j < length ls \<Longrightarrow> k \<le> j"
  by (induction "leg_id (ls ! j)" ls arbitrary: j k rule: leg_index.induct)
    (auto simp: nth_Cons split: if_splits nat.splits)

lemma leg_index_bookings:
  "map leg_booking ls = map leg_booking ks \<Longrightarrow> leg_index i ls = leg_index i ks"
proof (induction ls arbitrary: ks)
  case (Cons l ls)
  then show ?case by (cases ks) (auto simp: leg_booking_def)
qed simp

lemma shadowed_step:
  assumes "wager_step op w = Inr v" "leg_index (leg_id (wager_legs w ! j)) (wager_legs w) \<noteq> Some j"
  shows "wager_legs v ! j = wager_legs w ! j"
proof -
  have "wager_legs w ! j = ((wager_legs w)[k := l]) ! j"
    if "leg_index i (wager_legs w) = Some k" for i k l
    using that assms(2) leg_index_SomeD [OF that] by (cases "k = j") auto
  with assms(1) show ?thesis by (cases op) (auto simp: wager_step_ok)
qed

lemma shadowed_run:
  assumes "leg_index (leg_id (wager_legs w ! j)) (wager_legs w) \<noteq> Some j"
  shows "wager_legs (run wager_step ops w) ! j = wager_legs w ! j"
proof -
  define P where "P v \<longleftrightarrow> wager_legs v ! j = wager_legs w ! j \<and>
    map leg_booking (wager_legs v) = map leg_booking (wager_legs w)" for v :: Wager
  have "P (run wager_step ops w)"
  proof (rule run_invariant)
    show "P w" by (simp add: P_def)
    fix op x y assume x: "P x" and st: "wager_step op x = Inr y"
    have "leg_index (leg_id (wager_legs x ! j)) (wager_legs x) \<noteq> Some j"
      using assms x leg_index_bookings unfolding P_def by metis
    moreover have "map leg_booking (wager_legs y) = map leg_booking (wager_legs x)"
      using wager_step_ticket [OF st] by (simp add: wager_ticket_def)
    ultimately show "P y" using x shadowed_step [OF st] by (simp add: P_def)
  qed
  then show ?thesis by (simp add: P_def)
qed

section \<open>Teased lines\<close>

text \<open>The check of a teased leg, on the exact values of finite lines whose difference is exact.\<close>

lemma tolerance_finite: "is_finite teaserLineTolerance"
proof -
  have "rmag (1 / 10 ^ 9) \<le> rmag (of_int 1)" by (rule rmag_mono) simp_all
  then have "rmag (1 / 10 ^ 9) < pow2 1024" using rmag_int [of 1] by (simp add: pow2_def)
  then show ?thesis by (simp add: teaserLineTolerance_def fround_def Let_def is_finite_def)
qed

lemma check_teased_exact:
  assumes "leg_teasedLine l = \<lparr> line_value = Fin a, line_present = True \<rparr>"
    and "price_line (leg_price l) = \<lparr> line_value = Fin b, line_present = True \<rparr>"
    and "fround (a - b) = Fin (a - b)" "fround (\<bar>a - b\<bar> - p) = Fin (\<bar>a - b\<bar> - p)"
  shows "check_teased (Fin p) l = Inr () \<longleftrightarrow> \<bar>\<bar>a - b\<bar> - p\<bar> \<le> fval teaserLineTolerance"
proof -
  have sub: "fround (x - y) = Fin (x - y) \<Longrightarrow> fsub (Fin x) (Fin y) = Fin (x - y)" for x y
    by (cases "y = 0") (auto simp: fsub_def fneg_def fadd_def)
  show ?thesis
    using assms tolerance_finite
    by (auto simp: check_teased_def Line_Value_def sub fabs_def flt_def is_finite_def)
qed

section \<open>The guard after the multiplication\<close>

lemma validators_other_errors:
  "validID s \<noteq> Inl ErrPayoutBelowStake" "validateLegSet ls \<noteq> Inl ErrPayoutBelowStake"
  "validateLegCount k n \<noteq> Inl ErrPayoutBelowStake" "validateTeaser k x ls \<noteq> Inl ErrPayoutBelowStake"
  "validateRoundRobinParent k s \<noteq> Inl ErrPayoutBelowStake"
  "validateTicketPrice k x ls \<noteq> Inl ErrPayoutBelowStake"
  "Money_MulFloat m x r \<noteq> Inl ErrPayoutBelowStake" "Money_Sub m m' \<noteq> Inl ErrPayoutBelowStake"
proof -
  have legs: "check_legs S M ls \<noteq> Inl ErrPayoutBelowStake" for S M
    by (induction S M ls rule: check_legs.induct) auto
  have teased: "check_teased_all x ls \<noteq> Inl ErrPayoutBelowStake"
    by (induction x ls rule: check_teased_all.induct)
      (auto simp: check_teased_def bindE_eq_Inl split: if_splits prod.splits)
  show "validateLegSet ls \<noteq> Inl ErrPayoutBelowStake" "validateTeaser k x ls \<noteq> Inl ErrPayoutBelowStake"
    using legs teased by (auto simp: validateLegSet_def validateTeaser_def bindE_eq_Inl)
  show "validID s \<noteq> Inl ErrPayoutBelowStake" "validateLegCount k n \<noteq> Inl ErrPayoutBelowStake"
    "validateRoundRobinParent k s \<noteq> Inl ErrPayoutBelowStake"
    "validateTicketPrice k x ls \<noteq> Inl ErrPayoutBelowStake" "Money_Sub m m' \<noteq> Inl ErrPayoutBelowStake"
    by (auto simp: validID_def validateLegCount_def validateRoundRobinParent_def validateTicketPrice_def
        Money_Sub_eq Let_def split: sum.splits)
  show "Money_MulFloat m x r \<noteq> Inl ErrPayoutBelowStake"
    by (auto simp: Money_MulFloat_def bindE_eq_Inl Let_def split: if_splits Rounding.splits)
qed

lemma guard_never_fires: "NewWager p \<noteq> Inl ErrPayoutBelowStake"
  using payout_guard_unreachable(1)
  by (auto simp: NewWager_def bindE_eq_Inl validators_other_errors Money_IsPositive_iff split: if_splits)

end
