(* ===== verification/Odometer.thy ===== *)
theory Odometer
  imports Prelude
begin

text \<open>
  \<open>combinationIndexes\<close> of \<open>internal/domain/wager.go\<close>: the odometer that lists the k-subsets of
  \<open>{0..<n}\<close>. The loops are translated as they are; the result is shown to be the sorted list of
  all strictly increasing index lists, by showing that one turn of the odometer is the immediate
  lexicographic successor.
\<close>

section \<open>The loops\<close>

text \<open>
  The backward scan. The counter is one above the index of the code, so that 0 is the \<open>i < 0\<close>
  the outer loop returns on.
\<close>

fun odo_scan :: "nat \<Rightarrow> nat \<Rightarrow> nat list \<Rightarrow> nat \<Rightarrow> nat" where
  "odo_scan n k idx 0 = 0"
| "odo_scan n k idx (Suc i) = (if idx ! i = n - k + i then odo_scan n k idx i else Suc i)"

text \<open>The forward loop that packs everything right of the advanced index.\<close>

function odo_pack :: "nat \<Rightarrow> nat \<Rightarrow> nat list \<Rightarrow> nat list" where
  "odo_pack k j idx = (if j < k then odo_pack k (Suc j) (idx[j := idx ! (j - 1) + 1]) else idx)"
  by pat_completeness auto
termination by (relation "measure (\<lambda>(k, j, _). k - j)") auto

declare odo_pack.simps [simp del]

definition odo_next :: "nat \<Rightarrow> nat \<Rightarrow> nat list \<Rightarrow> nat list option" where
  "odo_next n k idx = (case odo_scan n k idx k of
     0 \<Rightarrow> None
   | Suc i \<Rightarrow> Some (odo_pack k (Suc i) (idx[i := idx ! i + 1])))"

text \<open>The outer loop has no bound in the code: not returning would be \<open>None\<close>.\<close>

partial_function (option) odo_loop :: "nat \<Rightarrow> nat \<Rightarrow> nat list \<Rightarrow> nat list list option" where
  "odo_loop n k idx = (case odo_next n k idx of
     None \<Rightarrow> Some [idx]
   | Some idx' \<Rightarrow> Option.bind (odo_loop n k idx') (\<lambda>out. Some (idx # out)))"

definition combinationIndexes :: "nat \<Rightarrow> int \<Rightarrow> nat list list option" where
  "combinationIndexes n k =
     (if k < 1 \<or> int n < k then Some [] else odo_loop n (nat k) [0..<nat k])"

section \<open>Lexicographic order on lists of one length\<close>

lemma lex_less_split:
  fixes x y :: "nat list"
  shows "length x = length y \<Longrightarrow> x < y \<Longrightarrow> \<exists>p < length x. take p x = take p y \<and> x ! p < y ! p"
proof (induction x y rule: list_induct2)
  case (Cons a x b y)
  show ?case
  proof (cases "a < b")
    case False
    then have "a = b" "x < y" using Cons.prems by (auto simp: Cons_less_Cons)
    with Cons.IH obtain p where "p < length x" "take p x = take p y" "x ! p < y ! p" by blast
    then show ?thesis using \<open>a = b\<close> by (intro exI [of _ "Suc p"]) simp
  qed (auto intro: exI [of _ 0])
qed simp

lemma lex_less_at:
  fixes x y :: "nat list"
  shows "length x = length y \<Longrightarrow> p < length x \<Longrightarrow> take p x = take p y \<Longrightarrow> x ! p < y ! p \<Longrightarrow> x < y"
proof (induction x y arbitrary: p rule: list_induct2)
  case (Cons a x b y)
  then show ?case by (cases p) (auto simp: Cons_less_Cons)
qed simp

lemma lex_le_pointwise:
  fixes x y :: "nat list"
  shows "length x = length y \<Longrightarrow> (\<And>i. i < length x \<Longrightarrow> x ! i \<le> y ! i) \<Longrightarrow> x \<le> y"
proof (induction x y rule: list_induct2)
  case (Cons a x b y)
  have "a \<le> b" using Cons.prems [of 0] by simp
  moreover have "x \<le> y" using Cons.prems [of "Suc i" for i] by (intro Cons.IH) simp
  ultimately show ?case by (auto simp: Cons_le_Cons)
qed simp

lemma lex_le_append:
  fixes x y z :: "nat list"
  shows "x \<le> y \<Longrightarrow> z @ x \<le> z @ y"
  by (induction z) (auto simp: Cons_le_Cons)

section \<open>The index lists\<close>

definition index_lists :: "nat \<Rightarrow> nat \<Rightarrow> nat list set" where
  "index_lists n k = {xs. length xs = k \<and> sorted_wrt (<) xs \<and> set xs \<subseteq> {..<n}}"

lemma index_gap:
  assumes "sorted_wrt (<) xs" "i \<le> j" "j < length xs"
  shows "xs ! i + (j - i) \<le> (xs ! j :: nat)"
  using assms(2,3)
proof (induction j)
  case (Suc j)
  show ?case
  proof (cases "i = Suc j")
    case False
    then have "xs ! i + (j - i) \<le> xs ! j" using Suc by simp
    moreover have "xs ! j < xs ! Suc j" using assms(1) Suc.prems by (simp add: sorted_wrt_iff_nth_less)
    ultimately show ?thesis using False Suc.prems by simp
  qed simp
qed simp

lemma index_ceiling:
  assumes "xs \<in> index_lists n k" "i < k"
  shows "xs ! i \<le> n - k + i" "k \<le> n"
proof -
  have xs: "length xs = k" "sorted_wrt (<) xs" "\<And>j. j < k \<Longrightarrow> xs ! j < n"
    using assms(1) by (auto simp: index_lists_def dest: nth_mem)
  have "xs ! i + (k - 1 - i) \<le> xs ! (k - 1)" using index_gap [OF xs(2), of i "k - 1"] assms(2) xs(1) by simp
  also have "\<dots> < n" using xs(3) assms(2) by simp
  finally have *: "xs ! i + (k - 1 - i) < n" .
  then show "xs ! i \<le> n - k + i" using assms(2) by linarith
  have "xs ! 0 + (k - 1) \<le> xs ! (k - 1)" using index_gap [OF xs(2), of 0 "k - 1"] assms(2) xs(1) by simp
  moreover have "xs ! (k - 1) < n" using xs(3) assms(2) by simp
  ultimately show "k \<le> n" using assms(2) by linarith
qed

lemma finite_index_lists: "finite (index_lists n k)"
  by (rule finite_subset [OF _ finite_lists_length_eq [of "{..<n}" k]]) (auto simp: index_lists_def)

lemma card_index_lists: "card (index_lists n k) = n choose k"
proof -
  have "bij_betw set (index_lists n k) {S. S \<subseteq> {..<n} \<and> card S = k}"
  proof (rule bij_betw_byWitness [where f' = sorted_list_of_set])
    show "\<forall>xs \<in> index_lists n k. sorted_list_of_set (set xs) = xs"
      by (simp add: index_lists_def strict_sorted_iff sorted_list_of_set.idem_if_sorted_distinct)
    show "\<forall>S \<in> {S. S \<subseteq> {..<n} \<and> card S = k}. set (sorted_list_of_set S) = S"
      by (auto simp: finite_subset [of _ "{..<n}"])
    show "set ` index_lists n k \<subseteq> {S. S \<subseteq> {..<n} \<and> card S = k}"
      by (auto simp: index_lists_def strict_sorted_iff distinct_card)
    show "sorted_list_of_set ` {S. S \<subseteq> {..<n} \<and> card S = k} \<subseteq> index_lists n k"
      by (auto simp: index_lists_def finite_subset [of _ "{..<n}"])
  qed
  then show ?thesis by (simp add: bij_betw_same_card n_subsets)
qed

section \<open>One turn is the successor\<close>

lemma odo_scan_spec:
  assumes "m \<le> k"
  shows "(case odo_scan n k idx m of
      0 \<Rightarrow> \<forall>j < m. idx ! j = n - k + j
    | Suc i \<Rightarrow> i < m \<and> idx ! i \<noteq> n - k + i \<and> (\<forall>j. i < j \<and> j < m \<longrightarrow> idx ! j = n - k + j))"
  using assms
proof (induction m)
  case (Suc m)
  show ?case
  proof (cases "idx ! m = n - k + m")
    case True
    then show ?thesis using Suc by (auto simp: less_Suc_eq split: nat.splits)
  qed auto
qed simp

lemma odo_pack_eq:
  assumes "0 < j" "j \<le> k" "length idx = k"
  shows "odo_pack k j idx = take j idx @ [idx ! (j - 1) + 1 ..< idx ! (j - 1) + 1 + (k - j)]"
  using assms
proof (induction k j idx rule: odo_pack.induct)
  case (1 k j idx)
  show ?case
  proof (cases "j < k")
    case True
    define v where "v = idx ! (j - 1) + 1"
    have "odo_pack k j idx = odo_pack k (Suc j) (idx[j := v])"
      using True by (subst odo_pack.simps) (simp add: v_def)
    also have "\<dots> = take (Suc j) (idx[j := v]) @ [v + 1 ..< v + 1 + (k - Suc j)]"
      using 1 True by (simp add: v_def)
    also have "take (Suc j) (idx[j := v]) = take j idx @ [v]"
      using True 1(4) by (simp add: take_Suc_conv_app_nth)
    finally show ?thesis
      using True upt_conv_Cons [of v "v + (k - j)"] by (simp add: v_def Suc_diff_Suc)
  next
    case False
    then show ?thesis using 1 by (subst odo_pack.simps) simp
  qed
qed

lemma odo_next_eq:
  assumes "odo_scan n k idx k = Suc i" "length idx = k" "i < k"
  shows "odo_next n k idx = Some (take i idx @ [idx ! i + 1 ..< idx ! i + 1 + (k - i)])"
proof -
  define v where "v = idx ! i + 1"
  have "odo_pack k (Suc i) (idx[i := v]) = take i idx @ [v] @ [v + 1 ..< v + 1 + (k - Suc i)]"
    using assms(2,3) by (subst odo_pack_eq) (simp_all add: take_Suc_conv_app_nth)
  also have "[v] @ [v + 1 ..< v + 1 + (k - Suc i)] = [v ..< v + (k - i)]"
    using assms(3) upt_conv_Cons [of v "v + (k - i)"] by (simp add: Suc_diff_Suc)
  finally show ?thesis using assms(1) by (simp add: odo_next_def v_def)
qed

lemma odo_next_member:
  assumes "idx \<in> index_lists n k" "odo_next n k idx = Some idx'"
  shows "idx' \<in> index_lists n k" "idx < idx'"
    and "y \<in> index_lists n k \<Longrightarrow> idx < y \<Longrightarrow> idx' \<le> y"
proof -
  have idx: "length idx = k" "sorted_wrt (<) idx" "set idx \<subseteq> {..<n}"
    using assms(1) by (auto simp: index_lists_def)
  obtain i where scan: "odo_scan n k idx k = Suc i"
    using assms(2) by (cases "odo_scan n k idx k") (simp_all add: odo_next_def)
  have i: "i < k" "idx ! i \<noteq> n - k + i" and top: "\<And>j. i < j \<Longrightarrow> j < k \<Longrightarrow> idx ! j = n - k + j"
    using odo_scan_spec [where m = k and k = k and n = n and idx = idx] scan by auto
  define v where "v = idx ! i + 1"
  have idx': "idx' = take i idx @ [v ..< v + (k - i)]"
    using odo_next_eq [OF scan idx(1) i(1)] assms(2) by (simp add: v_def)
  have room: "v + (k - i) \<le> n"
    using index_ceiling [OF assms(1) i(1)] i by (simp add: v_def)
  have below: "x < v" if "x \<in> set (take i idx)" for x
  proof -
    from that obtain j where "j < i" "x = idx ! j" using i idx(1) by (auto simp: in_set_conv_nth)
    then show ?thesis using index_gap [OF idx(2), of j i] i idx(1) by (simp add: v_def)
  qed
  have len: "length idx' = k" using i idx(1) by (simp add: idx')
  have "set idx' \<subseteq> {..<n}"
    using set_take_subset [of i idx] idx(3) room by (fastforce simp: idx')
  moreover have "sorted_wrt (<) idx'"
    using idx(2) by (auto simp: idx' sorted_wrt_append sorted_wrt_take dest!: below)
  ultimately show "idx' \<in> index_lists n k" using len by (simp add: index_lists_def)
  have at_i: "idx' ! i = v" using i idx(1) by (simp add: idx' nth_append)
  have pre: "take i idx' = take i idx" using i idx(1) by (simp add: idx')
  show "idx < idx'"
    using i idx(1) by (intro lex_less_at [of _ _ i]) (simp_all add: len pre at_i v_def)
  assume y: "y \<in> index_lists n k" and less: "idx < y"
  have yk: "length y = k" "sorted_wrt (<) y" using y by (auto simp: index_lists_def)
  obtain p where p: "p < k" "take p idx = take p y" "idx ! p < y ! p"
    using lex_less_split [of idx y] less idx(1) yk(1) by auto
  have "p \<le> i"
  proof (rule ccontr)
    assume "\<not> p \<le> i"
    then show False using top [of p] p(1,3) index_ceiling(1) [OF y p(1)] by simp
  qed
  show "idx' \<le> y"
  proof (cases "p < i")
    case True
    have "idx' ! p = idx ! p" using True i idx(1) by (simp add: idx' nth_append)
    moreover have "take p idx' = take p idx" using True i idx(1) by (simp add: idx' min_def)
    ultimately have "idx' < y" using p len yk by (intro lex_less_at [of _ _ p]) simp_all
    then show ?thesis by simp
  next
    case False
    then have pi: "p = i" using \<open>p \<le> i\<close> by simp
    have "[v ..< v + (k - i)] \<le> drop i y"
    proof (rule lex_le_pointwise)
      show "length [v ..< v + (k - i)] = length (drop i y)" by (simp add: yk)
      fix j assume "j < length [v ..< v + (k - i)]"
      then have j: "i + j < k" by simp
      have "v + j \<le> y ! i + j" using p(3) by (simp add: pi v_def)
      also have "\<dots> \<le> y ! (i + j)" using index_gap [OF yk(2), of i "i + j"] j yk(1) by simp
      finally show "[v ..< v + (k - i)] ! j \<le> drop i y ! j" using j yk(1) by simp
    qed
    then have "take i y @ [v ..< v + (k - i)] \<le> take i y @ drop i y" by (rule lex_le_append)
    then show ?thesis using p(2) by (simp add: idx' pi)
  qed
qed

lemma odo_next_None:
  assumes "odo_next n k idx = None" "idx \<in> index_lists n k" "y \<in> index_lists n k"
  shows "y \<le> idx"
proof -
  have scan: "odo_scan n k idx k = 0"
    using assms(1) by (cases "odo_scan n k idx k") (simp_all add: odo_next_def)
  have "idx ! j = n - k + j" if "j < k" for j
    using odo_scan_spec [where m = k and k = k and n = n and idx = idx] scan that by simp
  then show ?thesis
    using assms(2,3) index_ceiling(1) [OF assms(3)]
    by (intro lex_le_pointwise) (auto simp: index_lists_def)
qed

section \<open>The enumeration\<close>

lemma odo_loop_eq:
  assumes "idx \<in> index_lists n k"
  shows "odo_loop n k idx = Some (sorted_list_of_set {y \<in> index_lists n k. idx \<le> y})"
  using assms
proof (induction "card {y \<in> index_lists n k. idx \<le> y}" arbitrary: idx rule: less_induct)
  case less
  let ?A = "\<lambda>x. {y \<in> index_lists n k. x \<le> y}"
  have fin: "finite (?A x)" for x using finite_index_lists by simp
  show ?case
  proof (cases "odo_next n k idx")
    case None
    then have "?A idx = {idx}" using odo_next_None [OF None] less.prems by (auto intro: antisym)
    then show ?thesis using None by (simp add: odo_loop.simps)
  next
    case (Some idx')
    note succ = odo_next_member [OF less.prems Some]
    have A: "?A idx = insert idx (?A idx')"
    proof (intro equalityI subsetI)
      fix y assume "y \<in> ?A idx"
      then show "y \<in> insert idx (?A idx')" using succ(3) by (cases "y = idx") auto
    next
      fix y assume "y \<in> insert idx (?A idx')"
      then show "y \<in> ?A idx" using succ(2) less.prems by auto
    qed
    have notin: "idx \<notin> ?A idx'" using succ(2) by auto
    then have "card (?A idx') < card (?A idx)" using fin by (simp add: A)
    then have "odo_loop n k idx' = Some (sorted_list_of_set (?A idx'))"
      using less.hyps succ(1) by blast
    moreover have "sorted_list_of_set (?A idx) = idx # sorted_list_of_set (?A idx')"
      unfolding A using fin notin succ(2)
      by (subst sorted_list_of_set.sorted_key_list_of_set_insert_remove) (auto intro!: insort_is_Cons)
    ultimately show ?thesis using Some by (simp add: odo_loop.simps)
  qed
qed

lemma first_index_list: "k \<le> n \<Longrightarrow> [0..<k] \<in> index_lists n k"
  by (auto simp: index_lists_def)

lemma first_is_least: "y \<in> index_lists n k \<Longrightarrow> [0..<k] \<le> y"
  using index_gap [of y 0] by (intro lex_le_pointwise) (fastforce simp: index_lists_def)+

text \<open>The routine returns, and returns exactly the sorted list of the index lists.\<close>

lemma combinationIndexes_eq:
  assumes "1 \<le> k" "k \<le> int n"
  shows "combinationIndexes n k = Some (sorted_list_of_set (index_lists n (nat k)))"
proof -
  have k: "nat k \<le> n" using assms by simp
  have "{y \<in> index_lists n (nat k). [0..<nat k] \<le> y} = index_lists n (nat k)"
    using first_is_least by auto
  then show ?thesis
    using assms odo_loop_eq [OF first_index_list [OF k]] by (simp add: combinationIndexes_def)
qed

lemma combinationIndexes_props:
  assumes "1 \<le> k" "k \<le> int n" "combinationIndexes n k = Some out"
  shows "set out = index_lists n (nat k)" "sorted_wrt (<) out" "length out = n choose nat k"
  using assms(3) finite_index_lists [of n "nat k"] card_index_lists [of n "nat k"]
  by (simp_all add: combinationIndexes_eq [OF assms(1,2)] strict_sorted_iff) auto

end
