(* ===== verification/RoundRobin.thy ===== *)
theory RoundRobin
  imports WagerInvariant Odometer
begin

text \<open>
  The round robin of \<open>internal/domain/wager.go\<close>: its constructor, its expansion into tickets by the
  odometer, and the stake of the whole.
\<close>

definition MaxRoundRobinLegs :: nat where "MaxRoundRobinLegs = 10"

record RoundRobin =
  rr_id :: string
  rr_userID :: string
  rr_legs :: "Leg list"
  rr_sizes :: "int list"
  rr_stake :: money
  rr_placedAt :: time

record RoundRobinParams =
  rrp_ID :: string
  rrp_UserID :: string
  rrp_Legs :: "Leg list"
  rrp_Sizes :: "int list"
  rrp_Stake :: money
  rrp_PlacedAt :: time

definition NewRoundRobin :: "RoundRobinParams \<Rightarrow> RoundRobin res" where
  "NewRoundRobin p =
     bindE (validID (rrp_ID p)) (\<lambda>_.
     bindE (validID (rrp_UserID p)) (\<lambda>_.
     bindE (validateLegSet (rrp_Legs p)) (\<lambda>legs.
     if length legs < 2 then Inl ErrLegCount
     else if MaxRoundRobinLegs < length legs then Inl ErrLegCount
     else let sizes = remdups_adj (sort (rrp_Sizes p)) in
       if length sizes = 0 then Inl ErrCombinationSize
       else if list_ex (\<lambda>k. k < 2 \<or> int (length legs) < k) sizes then Inl ErrCombinationSize
       else if \<not> Money_IsPositive (rrp_Stake p) then Inl ErrStakeNotPositive
       else if time_is_zero (rrp_PlacedAt p) then Inl ErrZeroTime
       else Inr \<lparr> rr_id = rrp_ID p, rr_userID = rrp_UserID p, rr_legs = legs, rr_sizes = sizes,
                  rr_stake = rrp_Stake p, rr_placedAt = time_utc (rrp_PlacedAt p) \<rparr>)))"

fun count_sizes :: "nat \<Rightarrow> int \<Rightarrow> int list \<Rightarrow> int option" where
  "count_sizes n tot [] = Some tot"
| "count_sizes n tot (k # ks) =
     Option.bind (combinationIndexes n k) (\<lambda>xs. count_sizes n (tot + int (length xs)) ks)"

definition CombinationCount :: "RoundRobin \<Rightarrow> int option" where
  "CombinationCount r = count_sizes (length (rr_legs r)) 0 (rr_sizes r)"

fun expand_sizes :: "Leg list \<Rightarrow> Leg list list \<Rightarrow> int list \<Rightarrow> Leg list list option" where
  "expand_sizes legs out [] = Some out"
| "expand_sizes legs out (k # ks) =
     Option.bind (combinationIndexes (length legs) k) (\<lambda>xs.
       expand_sizes legs (out @ map (map (\<lambda>i. legs ! i)) xs) ks)"

definition Combinations :: "RoundRobin \<Rightarrow> Leg list list option" where
  "Combinations r =
     Option.bind (CombinationCount r) (\<lambda>_. expand_sizes (rr_legs r) [] (rr_sizes r))"

definition TotalStake :: "RoundRobin \<Rightarrow> money res option" where
  "TotalStake r =
     Option.bind (CombinationCount r) (\<lambda>c. Some (Money_MulInt (rr_stake r) (word_of_int c)))"

section \<open>The constructor\<close>

definition rr_wf :: "RoundRobin \<Rightarrow> bool" where
  "rr_wf r =
     (validateLegSet (rr_legs r) = Inr (rr_legs r) \<and> 2 \<le> length (rr_legs r) \<and> length (rr_legs r) \<le> 10 \<and>
      sorted_wrt (<) (rr_sizes r) \<and> rr_sizes r \<noteq> [] \<and>
      (\<forall>k \<in> set (rr_sizes r). 2 \<le> k \<and> k \<le> int (length (rr_legs r))) \<and>
      0 < sint (rr_stake r))"

lemma strictly_sorted_remdups_adj:
  fixes xs :: "'a :: linorder list"
  shows "sorted xs \<Longrightarrow> sorted_wrt (<) (remdups_adj xs)"
  by (induction xs rule: remdups_adj.induct) (auto simp: less_le)

lemma NewRoundRobin_wf: "NewRoundRobin p = Inr r \<Longrightarrow> rr_wf r"
  by (auto simp: NewRoundRobin_def rr_wf_def result_simps Let_def MaxRoundRobinLegs_def
      Money_IsPositive_iff list_ex_iff not_less strictly_sorted_remdups_adj validateLegSet_ok split: if_splits)

section \<open>The expansion\<close>

abbreviation "size_lists n ks \<equiv> concat (map (\<lambda>k. sorted_list_of_set (index_lists n (nat k))) ks)"

lemma count_sizes_eq:
  "\<forall>k \<in> set ks. 1 \<le> k \<and> k \<le> int n \<Longrightarrow> count_sizes n t ks = Some (t + int (length (size_lists n ks)))"
  by (induction ks arbitrary: t) (simp_all add: combinationIndexes_eq)

lemma expand_sizes_eq:
  "\<forall>k \<in> set ks. 1 \<le> k \<and> k \<le> int (length legs) \<Longrightarrow>
    expand_sizes legs out ks = Some (out @ map (map (\<lambda>i. legs ! i)) (size_lists (length legs) ks))"
  by (induction ks arbitrary: out) (simp_all add: combinationIndexes_eq)

lemma rr_sizes_pos: "rr_wf r \<Longrightarrow> \<forall>k \<in> set (rr_sizes r). 1 \<le> k \<and> k \<le> int (length (rr_legs r))"
  by (auto simp: rr_wf_def)

lemma CombinationCount_eq:
  "rr_wf r \<Longrightarrow> CombinationCount r = Some (int (length (size_lists (length (rr_legs r)) (rr_sizes r))))"
  by (simp add: CombinationCount_def count_sizes_eq rr_sizes_pos)

lemma Combinations_eq:
  "rr_wf r \<Longrightarrow> Combinations r =
    Some (map (map (\<lambda>i. rr_legs r ! i)) (size_lists (length (rr_legs r)) (rr_sizes r)))"
  by (simp add: Combinations_def CombinationCount_eq expand_sizes_eq rr_sizes_pos)

lemma count_is_choose_sum:
  "int (length (size_lists n ks)) = (\<Sum>k \<leftarrow> ks. int (n choose nat k))"
  by (induction ks) (simp_all add: card_index_lists)

lemma choose_sum_le:
  assumes "sorted_wrt (<) ks" "\<forall>k \<in> set ks. 2 \<le> k \<and> k \<le> int n" "2 \<le> n"
  shows "(\<Sum>k \<leftarrow> ks. int (n choose nat k)) \<le> 2 ^ n - int n - 1"
proof -
  have inj: "inj_on nat (set ks)" using assms(2) by (intro inj_onI) (metis eq_nat_nat_iff order.trans zero_le_numeral)
  have "(\<Sum>k \<leftarrow> ks. int (n choose nat k)) = (\<Sum>k \<in> set ks. int (n choose nat k))"
    using assms(1) by (simp add: strict_sorted_iff sum_list_distinct_conv_sum_set)
  also have "\<dots> = (\<Sum>j \<in> nat ` set ks. int (n choose j))"
    by (simp add: sum.reindex [OF inj])
  also have "\<dots> \<le> (\<Sum>j \<in> {2..n}. int (n choose j))"
    using assms(2) by (intro sum_mono2) (auto simp: nat_le_iff le_nat_iff)
  also have "\<dots> = 2 ^ n - int n - 1"
  proof -
    have "{..n} = insert 0 (insert 1 {2..n})" using assms(3) by auto
    then have "(\<Sum>j \<le> n. int (n choose j)) = 1 + (int n + (\<Sum>j \<in> {2..n}. int (n choose j)))" by simp
    moreover have "(\<Sum>j \<le> n. int (n choose j)) = 2 ^ n"
      using choose_row_sum [of n] by (simp flip: of_nat_sum)
    ultimately show ?thesis by simp
  qed
  finally show ?thesis .
qed

lemma CombinationCount_bound:
  assumes "rr_wf r" "CombinationCount r = Some c"
  shows "1 \<le> c" "c \<le> 1013"
proof -
  define n where "n = length (rr_legs r)"
  have wf: "sorted_wrt (<) (rr_sizes r)" "\<forall>k \<in> set (rr_sizes r). 2 \<le> k \<and> k \<le> int n"
    "2 \<le> n" "n \<le> 10" "rr_sizes r \<noteq> []"
    using assms(1) by (auto simp: rr_wf_def n_def)
  have c: "c = (\<Sum>k \<leftarrow> rr_sizes r. int (n choose nat k))"
    using assms by (simp add: CombinationCount_eq count_is_choose_sum n_def)
  have "int (n choose nat (hd (rr_sizes r))) \<le> c"
    unfolding c using wf(5) by (cases "rr_sizes r") (auto intro!: sum_list_nonneg)
  moreover have "1 \<le> n choose nat (hd (rr_sizes r))"
    using wf(2,5) by (simp add: Suc_le_eq zero_less_binomial_iff nat_le_iff)
  ultimately show "1 \<le> c" by linarith
  have "c \<le> 2 ^ n - int n - 1" unfolding c by (rule choose_sum_le [OF wf(1,2,3)])
  also have "\<dots> \<le> 1013"
  proof -
    have "n \<in> {2, 3, 4, 5, 6, 7, 8, 9, 10}" using wf(3,4) by auto
    then show ?thesis by auto
  qed
  finally show "c \<le> 1013" .
qed

text \<open>Every combination is a ticket the wager constructor takes.\<close>

lemma sublist_legs:
  assumes "xs \<in> index_lists (length legs) k"
  shows "length (map (\<lambda>i. legs ! i) xs) = k" "set (map (\<lambda>i. legs ! i) xs) \<subseteq> set legs"
    "distinct (map f legs) \<Longrightarrow> distinct (map f (map (\<lambda>i. legs ! i) xs))"
proof -
  have xs: "length xs = k" "distinct xs" "set xs \<subseteq> {..<length legs}"
    using assms by (auto simp: index_lists_def strict_sorted_iff)
  show "length (map (\<lambda>i. legs ! i) xs) = k" "set (map (\<lambda>i. legs ! i) xs) \<subseteq> set legs"
    using xs by auto
  assume d: "distinct (map f legs)"
  have "inj_on (\<lambda>i. f (legs ! i)) (set xs)"
    using xs(3) nth_eq_iff_index_eq [OF d] by (intro inj_onI) (auto simp: subset_iff)
  then show "distinct (map f (map (\<lambda>i. legs ! i) xs))"
    using xs(2) by (simp add: distinct_map comp_def)
qed

lemma combination_index:
  assumes "rr_wf r" "Combinations r = Some combos" "combo \<in> set combos"
  obtains k xs where "k \<in> set (rr_sizes r)" "xs \<in> index_lists (length (rr_legs r)) (nat k)"
    "combo = map (\<lambda>i. rr_legs r ! i) xs"
  using assms finite_index_lists by (auto simp: Combinations_eq)

lemma combination_valid:
  assumes "rr_wf r" "Combinations r = Some combos" "combo \<in> set combos"
  shows "validateLegSet combo = Inr combo \<and> validateLegCount WagerKindRoundRobin (length combo) = Inr () \<and>
    int (length combo) \<in> set (rr_sizes r)"
proof -
  obtain k xs where k: "k \<in> set (rr_sizes r)" and xs: "xs \<in> index_lists (length (rr_legs r)) (nat k)"
    and combo: "combo = map (\<lambda>i. rr_legs r ! i) xs"
    by (rule combination_index [OF assms])
  note sub = sublist_legs [OF xs, folded combo]
  have k2: "2 \<le> k" "k \<le> int (length (rr_legs r))" "length (rr_legs r) \<le> 10"
    using assms(1) k by (auto simp: rr_wf_def)
  have "validateLegSet (rr_legs r) = Inr (rr_legs r)" using assms(1) by (simp add: rr_wf_def)
  then have "validateLegSet combo = Inr combo"
    using sub k2 by (auto simp: validateLegSet_ok list_all_iff)
  then show ?thesis using sub(1) k k2 by (auto simp: validateLegCount_ok WagerKind_IsMulti_def)
qed

lemma distinct_size_lists:
  "distinct ks \<Longrightarrow> \<forall>k \<in> set ks. 2 \<le> k \<Longrightarrow> distinct (size_lists n ks)"
proof (induction ks)
  case (Cons k ks)
  have "xs \<notin> index_lists n (nat j)" if "xs \<in> index_lists n (nat k)" "j \<in> set ks" for xs j
  proof -
    have "nat j \<noteq> nat k" using Cons.prems that(2) by (auto simp: eq_nat_nat_iff)
    then show ?thesis using that(1) by (auto simp: index_lists_def)
  qed
  then show ?case using Cons by (auto simp: finite_index_lists)
qed simp

lemma index_lists_below: "xs \<in> index_lists n k \<Longrightarrow> i \<in> set xs \<Longrightarrow> i < n"
  by (auto simp: index_lists_def)

lemma combinations_distinct:
  assumes "rr_wf r" "Combinations r = Some combos"
  shows "distinct combos"
proof -
  let ?n = "length (rr_legs r)"
  have legs: "distinct (map leg_selectionID (rr_legs r))"
    using assms(1) by (auto simp: rr_wf_def validateLegSet_ok)
  have "distinct (rr_sizes r)" "\<forall>k \<in> set (rr_sizes r). 2 \<le> k"
    using assms(1) by (auto simp: rr_wf_def strict_sorted_iff)
  then have "distinct (size_lists ?n (rr_sizes r))" by (rule distinct_size_lists)
  moreover have "inj_on (map (\<lambda>i. rr_legs r ! i)) (set (size_lists ?n (rr_sizes r)))"
  proof (rule inj_onI)
    fix xs ys assume m: "xs \<in> set (size_lists ?n (rr_sizes r))" "ys \<in> set (size_lists ?n (rr_sizes r))"
      "map (\<lambda>i. rr_legs r ! i) xs = map (\<lambda>i. rr_legs r ! i) ys"
    have b: "set xs \<subseteq> {..<?n}" "set ys \<subseteq> {..<?n}"
      using m(1,2) index_lists_below by (auto simp: finite_index_lists)
    have "distinct (rr_legs r)" using legs by (simp add: distinct_map)
    then have "inj_on (\<lambda>i. rr_legs r ! i) (set xs \<union> set ys)"
      using b by (intro inj_on_nth) auto
    then show "xs = ys" using m(3) inj_on_map_eq_map by blast
  qed
  ultimately show ?thesis using assms by (auto simp: Combinations_eq distinct_map)
qed

section \<open>The stake of the whole\<close>

lemma TotalStake_eq:
  assumes "rr_wf r" "Combinations r = Some combos"
  shows "TotalStake r = Some (Money_MulInt (rr_stake r) (word_of_int (int (length combos))))"
    "sint (word_of_int (int (length combos)) :: int64) = int (length combos)"
proof -
  have c: "CombinationCount r = Some (int (length combos))"
    using assms by (auto simp: CombinationCount_eq Combinations_eq)
  then show "TotalStake r = Some (Money_MulInt (rr_stake r) (word_of_int (int (length combos))))"
    by (simp add: TotalStake_def)
  show "sint (word_of_int (int (length combos)) :: int64) = int (length combos)"
    using CombinationCount_bound [OF assms(1) c] by (simp only: sint_of_int64) (rule wrap64_id, simp_all)
qed

lemma TotalStake_sum:
  assumes "rr_wf r" "Combinations r = Some combos"
  shows "TotalStake r = Some (Inr t) \<longleftrightarrow>
    safe_units (units (map (\<lambda>c. rr_stake r) combos)) \<and> sint t = units (map (\<lambda>c. rr_stake r) combos)"
  unfolding TotalStake_eq(1) [OF assms] option.inject Money_MulInt_ok TotalStake_eq(2) [OF assms]
  by (simp add: comp_def sum_list_triv mult.commute)

end
