(* ===== verification/Ledger.thy ===== *)
theory Ledger
  imports WagerInvariant
begin

text \<open>
  \<open>internal/domain/ledger.go\<close>: accounts, entries, balanced transactions, the folds that derive
  balances, and the constructors of the movements the betting rules need.
\<close>

section \<open>Accounts and entry kinds\<close>

datatype AccountKind = AccountKindUnknown | AccountKindUserCash | AccountKindUserEscrow | AccountKindHouse | AccountKindIssuance

fun AccountKind_String :: "AccountKind \<Rightarrow> string" where
  "AccountKind_String AccountKindUserCash = ''user_cash''"
| "AccountKind_String AccountKindUserEscrow = ''user_escrow''"
| "AccountKind_String AccountKindHouse = ''house''"
| "AccountKind_String AccountKindIssuance = ''issuance''"
| "AccountKind_String AccountKindUnknown = ''unknown''"

fun AccountKind_Valid :: "AccountKind \<Rightarrow> bool" where
  "AccountKind_Valid AccountKindUnknown = False"
| "AccountKind_Valid _ = True"

definition ParseAccountKind :: "string \<Rightarrow> AccountKind res" where
  "ParseAccountKind s =
     (if s = ''user_cash'' then Inr AccountKindUserCash
      else if s = ''user_escrow'' then Inr AccountKindUserEscrow
      else if s = ''house'' then Inr AccountKindHouse
      else if s = ''issuance'' then Inr AccountKindIssuance
      else Inl ErrUnknownAccountKind)"

definition AccountKind_MarshalText :: "AccountKind \<Rightarrow> string res" where
  "AccountKind_MarshalText k = (if \<not> AccountKind_Valid k then Inl ErrUnknownAccountKind else Inr (AccountKind_String k))"

definition AccountKind_UnmarshalText :: "string \<Rightarrow> AccountKind res" where
  "AccountKind_UnmarshalText b = ParseAccountKind b"

interpretation account_kind_text: text_enum AccountKind_String ParseAccountKind AccountKind_Valid
  AccountKind_MarshalText AccountKind_UnmarshalText AccountKindUnknown ErrUnknownAccountKind
proof unfold_locales
  show "AccountKind_Valid k \<Longrightarrow> ParseAccountKind (AccountKind_String k) = Inr k" for k
    by (cases k) (simp_all add: ParseAccountKind_def)
  show "\<not> AccountKind_Valid k \<longleftrightarrow> k = AccountKindUnknown" for k by (cases k) simp_all
qed (auto simp: ParseAccountKind_def AccountKind_MarshalText_def AccountKind_UnmarshalText_def split: if_splits)

definition AccountKind_IsUserOwned :: "AccountKind \<Rightarrow> bool" where
  "AccountKind_IsUserOwned k = (k = AccountKindUserCash \<or> k = AccountKindUserEscrow)"

record Account =
  acc_kind :: AccountKind
  acc_owner :: string

definition NewAccount :: "AccountKind \<Rightarrow> string \<Rightarrow> Account res" where
  "NewAccount kind owner =
     (if \<not> AccountKind_Valid kind then Inl ErrUnknownAccountKind
      else if AccountKind_IsUserOwned kind then
        (case validID owner of
           Inl _ \<Rightarrow> Inl ErrAccountOwnerRequired
         | Inr _ \<Rightarrow> Inr \<lparr> acc_kind = kind, acc_owner = owner \<rparr>)
      else if \<not> id_is_zero owner then Inl ErrAccountOwnerNotApplicable
      else Inr \<lparr> acc_kind = kind, acc_owner = [] \<rparr>)"

definition UserCashAccount :: "string \<Rightarrow> Account res" where
  "UserCashAccount u = NewAccount AccountKindUserCash u"

definition UserEscrowAccount :: "string \<Rightarrow> Account res" where
  "UserEscrowAccount u = NewAccount AccountKindUserEscrow u"

definition HouseAccount :: Account where
  "HouseAccount = \<lparr> acc_kind = AccountKindHouse, acc_owner = [] \<rparr>"

definition IssuanceAccount :: Account where
  "IssuanceAccount = \<lparr> acc_kind = AccountKindIssuance, acc_owner = [] \<rparr>"

definition Account_IsZero :: "Account \<Rightarrow> bool" where
  "Account_IsZero a = (acc_kind a = AccountKindUnknown)"

datatype EntryKind = EntryKindUnknown | EntryKindGrant | EntryKindStake | EntryKindPayout | EntryKindLoss | EntryKindRefund | EntryKindCashOut | EntryKindAdjustment

fun EntryKind_String :: "EntryKind \<Rightarrow> string" where
  "EntryKind_String EntryKindGrant = ''grant''"
| "EntryKind_String EntryKindStake = ''stake''"
| "EntryKind_String EntryKindPayout = ''payout''"
| "EntryKind_String EntryKindLoss = ''loss''"
| "EntryKind_String EntryKindRefund = ''refund''"
| "EntryKind_String EntryKindCashOut = ''cash_out''"
| "EntryKind_String EntryKindAdjustment = ''adjustment''"
| "EntryKind_String EntryKindUnknown = ''unknown''"

fun EntryKind_Valid :: "EntryKind \<Rightarrow> bool" where
  "EntryKind_Valid EntryKindUnknown = False"
| "EntryKind_Valid _ = True"

definition ParseEntryKind :: "string \<Rightarrow> EntryKind res" where
  "ParseEntryKind s =
     (if s = ''grant'' then Inr EntryKindGrant
      else if s = ''stake'' then Inr EntryKindStake
      else if s = ''payout'' then Inr EntryKindPayout
      else if s = ''loss'' then Inr EntryKindLoss
      else if s = ''refund'' then Inr EntryKindRefund
      else if s = ''cash_out'' then Inr EntryKindCashOut
      else if s = ''adjustment'' then Inr EntryKindAdjustment
      else Inl ErrUnknownEntryKind)"

definition EntryKind_MarshalText :: "EntryKind \<Rightarrow> string res" where
  "EntryKind_MarshalText k = (if \<not> EntryKind_Valid k then Inl ErrUnknownEntryKind else Inr (EntryKind_String k))"

definition EntryKind_UnmarshalText :: "string \<Rightarrow> EntryKind res" where
  "EntryKind_UnmarshalText b = ParseEntryKind b"

interpretation entry_kind_text: text_enum EntryKind_String ParseEntryKind EntryKind_Valid
  EntryKind_MarshalText EntryKind_UnmarshalText EntryKindUnknown ErrUnknownEntryKind
proof unfold_locales
  show "EntryKind_Valid k \<Longrightarrow> ParseEntryKind (EntryKind_String k) = Inr k" for k
    by (cases k) (simp_all add: ParseEntryKind_def)
  show "\<not> EntryKind_Valid k \<longleftrightarrow> k = EntryKindUnknown" for k by (cases k) simp_all
qed (auto simp: ParseEntryKind_def EntryKind_MarshalText_def EntryKind_UnmarshalText_def split: if_splits)

section \<open>Entries and transactions\<close>

record LedgerEntry =
  entry_account :: Account
  entry_amount :: money
  entry_kind :: EntryKind

definition NewLedgerEntry :: "Account \<Rightarrow> money \<Rightarrow> EntryKind \<Rightarrow> LedgerEntry res" where
  "NewLedgerEntry account amount kind =
     (if Account_IsZero account then Inl ErrUnknownAccountKind
      else if \<not> EntryKind_Valid kind then Inl ErrUnknownEntryKind
      else if Money_IsZero amount then Inl ErrZeroEntryAmount
      else if MaxSafeMoney <s amount \<or> amount <s MinSafeMoney then Inl ErrMoneyOverflow
      else Inr \<lparr> entry_account = account, entry_amount = amount, entry_kind = kind \<rparr>)"

record Transaction =
  txn_id :: string
  txn_kind :: EntryKind
  txn_entries :: "LedgerEntry list"
  txn_wagerID :: string
  txn_hasWager :: bool
  txn_occurredAt :: time

record TransactionParams =
  tp_ID :: string
  tp_Kind :: EntryKind
  tp_Entries :: "LedgerEntry list"
  tp_WagerID :: string
  tp_OccurredAt :: time

text \<open>The loop over the entries, with the amounts it collects.\<close>

fun check_entries :: "EntryKind \<Rightarrow> LedgerEntry list \<Rightarrow> money list res" where
  "check_entries kind [] = Inr []"
| "check_entries kind (e # es) =
     (if Account_IsZero (entry_account e) then Inl ErrUnknownAccountKind
      else if Money_IsZero (entry_amount e) then Inl ErrZeroEntryAmount
      else if entry_kind e \<noteq> kind then Inl ErrMixedEntryKinds
      else bindE (check_entries kind es) (\<lambda>amounts. Inr (entry_amount e # amounts)))"

definition NewTransaction :: "TransactionParams \<Rightarrow> Transaction res" where
  "NewTransaction p =
     bindE (validID (tp_ID p)) (\<lambda>_.
     if \<not> EntryKind_Valid (tp_Kind p) then Inl ErrUnknownEntryKind
     else if length (tp_Entries p) < 2 then Inl ErrTooFewEntries
     else
     bindE (check_entries (tp_Kind p) (tp_Entries p)) (\<lambda>amounts.
     bindE (SumMoney amounts) (\<lambda>sum.
     if \<not> Money_IsZero sum then Inl ErrUnbalancedTransaction
     else let hasWager = \<not> id_is_zero (tp_WagerID p) in
     bindE (if hasWager then validID (tp_WagerID p) else Inr ()) (\<lambda>_.
     if time_is_zero (tp_OccurredAt p) then Inl ErrZeroTime
     else Inr \<lparr> txn_id = tp_ID p, txn_kind = tp_Kind p, txn_entries = tp_Entries p,
                txn_wagerID = tp_WagerID p, txn_hasWager = hasWager,
                txn_occurredAt = time_utc (tp_OccurredAt p) \<rparr>))))"

section \<open>Derived balances\<close>

fun net_from :: "Account \<Rightarrow> money \<Rightarrow> LedgerEntry list \<Rightarrow> money res" where
  "net_from account tot [] = Inr tot"
| "net_from account tot (e # es) =
     (if entry_account e \<noteq> account then net_from account tot es
      else bindE (Money_Add tot (entry_amount e)) (\<lambda>next_tot. net_from account next_tot es))"

definition Transaction_NetFor :: "Transaction \<Rightarrow> Account \<Rightarrow> money res" where
  "Transaction_NetFor t account = net_from account ZeroMoney (txn_entries t)"

fun balance_from :: "Account \<Rightarrow> money \<Rightarrow> Transaction list \<Rightarrow> money res" where
  "balance_from account tot [] = Inr tot"
| "balance_from account tot (t # ts) =
     bindE (Transaction_NetFor t account) (\<lambda>delta.
     bindE (Money_Add tot delta) (\<lambda>next_tot. balance_from account next_tot ts))"

definition Balance :: "Account \<Rightarrow> Transaction list \<Rightarrow> money res" where
  "Balance account txns =
     (if Account_IsZero account then Inl ErrUnknownAccountKind
      else balance_from account ZeroMoney txns)"

text \<open>A Go map read at a missing key gives the zero amount.\<close>

definition balance_at :: "(Account \<rightharpoonup> money) \<Rightarrow> Account \<Rightarrow> money" where
  "balance_at out a = (case out a of None \<Rightarrow> ZeroMoney | Some m \<Rightarrow> m)"

fun balances_entries :: "(Account \<rightharpoonup> money) \<Rightarrow> LedgerEntry list \<Rightarrow> (Account \<rightharpoonup> money) res" where
  "balances_entries out [] = Inr out"
| "balances_entries out (e # es) =
     bindE (Money_Add (balance_at out (entry_account e)) (entry_amount e)) (\<lambda>next_tot.
       balances_entries (out(entry_account e \<mapsto> next_tot)) es)"

fun balances_txns :: "(Account \<rightharpoonup> money) \<Rightarrow> Transaction list \<Rightarrow> (Account \<rightharpoonup> money) res" where
  "balances_txns out [] = Inr out"
| "balances_txns out (t # ts) =
     bindE (balances_entries out (txn_entries t)) (\<lambda>out'. balances_txns out' ts)"

definition Balances :: "Transaction list \<Rightarrow> (Account \<rightharpoonup> money) res" where
  "Balances txns = balances_txns Map.empty txns"

fun ledger_total :: "money \<Rightarrow> Transaction list \<Rightarrow> money res" where
  "ledger_total tot [] = Inr tot"
| "ledger_total tot (t # ts) =
     bindE (SumMoney_from tot (map entry_amount (txn_entries t))) (\<lambda>tot'. ledger_total tot' ts)"

definition LedgerIsBalanced :: "Transaction list \<Rightarrow> unit res" where
  "LedgerIsBalanced txns =
     bindE (ledger_total ZeroMoney txns) (\<lambda>tot.
       if \<not> Money_IsZero tot then Inl ErrUnbalancedTransaction else Inr ())"

section \<open>Movements\<close>

definition transferEntries :: "EntryKind \<Rightarrow> Account \<Rightarrow> Account \<Rightarrow> money \<Rightarrow> LedgerEntry list res" where
  "transferEntries kind src dst amount =
     bindE (Money_Neg amount) (\<lambda>debitAmount.
     bindE (NewLedgerEntry src debitAmount kind) (\<lambda>debit.
     bindE (NewLedgerEntry dst amount kind) (\<lambda>credit.
     Inr [debit, credit])))"

definition NewGrantTransaction :: "string \<Rightarrow> string \<Rightarrow> money \<Rightarrow> time \<Rightarrow> Transaction res" where
  "NewGrantTransaction id0 user amount at_time =
     (if \<not> Money_IsPositive amount then Inl ErrAmountNotPositive else
      bindE (UserCashAccount user) (\<lambda>cash.
      bindE (transferEntries EntryKindGrant IssuanceAccount cash amount) (\<lambda>entries.
      NewTransaction \<lparr> tp_ID = id0, tp_Kind = EntryKindGrant, tp_Entries = entries,
                       tp_WagerID = [], tp_OccurredAt = at_time \<rparr>)))"

definition NewAdjustmentTransaction ::
    "string \<Rightarrow> Account \<Rightarrow> Account \<Rightarrow> money \<Rightarrow> string \<Rightarrow> time \<Rightarrow> Transaction res" where
  "NewAdjustmentTransaction id0 src dst amount wager at_time =
     (if Account_IsZero src \<or> Account_IsZero dst then Inl ErrUnknownAccountKind
      else if src = dst then Inl ErrSameAccountTransfer
      else if \<not> Money_IsPositive amount then Inl ErrAmountNotPositive
      else bindE (transferEntries EntryKindAdjustment src dst amount) (\<lambda>entries.
      NewTransaction \<lparr> tp_ID = id0, tp_Kind = EntryKindAdjustment, tp_Entries = entries,
                       tp_WagerID = wager, tp_OccurredAt = at_time \<rparr>))"

definition NewStakeTransaction :: "string \<Rightarrow> Wager \<Rightarrow> time \<Rightarrow> Transaction res" where
  "NewStakeTransaction id0 w at_time =
     (if id_is_zero (wager_id w) then Inl ErrWagerRequired else
      bindE (UserCashAccount (wager_userID w)) (\<lambda>cash.
      bindE (UserEscrowAccount (wager_userID w)) (\<lambda>escrow.
      bindE (transferEntries EntryKindStake cash escrow (wager_stake w)) (\<lambda>entries.
      NewTransaction \<lparr> tp_ID = id0, tp_Kind = EntryKindStake, tp_Entries = entries,
                       tp_WagerID = wager_id w, tp_OccurredAt = at_time \<rparr>))))"

fun settlementEntryKind :: "WagerStatus \<Rightarrow> EntryKind res" where
  "settlementEntryKind WagerStatusWon = Inr EntryKindPayout"
| "settlementEntryKind WagerStatusLost = Inr EntryKindLoss"
| "settlementEntryKind WagerStatusVoid = Inr EntryKindRefund"
| "settlementEntryKind WagerStatusPush = Inr EntryKindRefund"
| "settlementEntryKind WagerStatusCashedOut = Inr EntryKindCashOut"
| "settlementEntryKind _ = Inl ErrWagerNotSettled"

fun settlement_moves :: "EntryKind \<Rightarrow> (Account \<times> money) list \<Rightarrow> LedgerEntry list res" where
  "settlement_moves kind [] = Inr []"
| "settlement_moves kind ((account, amount) # moves) =
     (if Money_IsZero amount then settlement_moves kind moves
      else bindE (NewLedgerEntry account amount kind) (\<lambda>entry.
           bindE (settlement_moves kind moves) (\<lambda>entries. Inr (entry # entries))))"

definition NewSettlementTransaction :: "string \<Rightarrow> Wager \<Rightarrow> time \<Rightarrow> Transaction res" where
  "NewSettlementTransaction id0 w at_time =
     (if \<not> wager_hasReturned w then Inl ErrWagerNotSettled else
      bindE (settlementEntryKind (wager_status w)) (\<lambda>kind.
      bindE (UserCashAccount (wager_userID w)) (\<lambda>cash.
      bindE (UserEscrowAccount (wager_userID w)) (\<lambda>escrow.
      bindE (Money_Neg (wager_stake w)) (\<lambda>releasedEscrow.
      bindE (Money_Sub (wager_stake w) (wager_returned w)) (\<lambda>houseDelta.
      bindE (settlement_moves kind
               [(escrow, releasedEscrow), (cash, wager_returned w), (HouseAccount, houseDelta)])
        (\<lambda>entries.
      NewTransaction \<lparr> tp_ID = id0, tp_Kind = kind, tp_Entries = entries,
                       tp_WagerID = wager_id w, tp_OccurredAt = at_time \<rparr>)))))))"

section \<open>Balanced by construction\<close>

abbreviation "amounts_of es \<equiv> map entry_amount es"
abbreviation "entries_of ts \<equiv> concat (map txn_entries ts)"

text \<open>The exact effect of a list of entries on an account.\<close>

definition effect :: "Account \<Rightarrow> LedgerEntry list \<Rightarrow> int" where
  "effect a es = units (amounts_of (filter (\<lambda>e. entry_account e = a) es))"

lemma effect_simps [simp]:
  "effect a [] = 0"
  "effect a (e # es) = (if entry_account e = a then sint (entry_amount e) else 0) + effect a es"
  "effect a (es @ fs) = effect a es + effect a fs"
  by (simp_all add: effect_def)

text \<open>What a list of entries moves in all.\<close>

definition moved :: "LedgerEntry list \<Rightarrow> int" where
  "moved es = units (amounts_of es)"

lemma moved_simps [simp]:
  "moved [] = 0" "moved (e # es) = sint (entry_amount e) + moved es" "moved (es @ fs) = moved es + moved fs"
  by (simp_all add: moved_def)

lemma check_entries_ok:
  "check_entries k es = Inr ms \<longleftrightarrow> ms = amounts_of es \<and>
    list_all (\<lambda>e. acc_kind (entry_account e) \<noteq> AccountKindUnknown \<and> sint (entry_amount e) \<noteq> 0 \<and>
       entry_kind e = k) es"
  by (induction k es arbitrary: ms rule: check_entries.induct)
    (auto simp: result_simps Account_IsZero_def money_simps)

definition txn_wf :: "Transaction \<Rightarrow> bool" where
  "txn_wf t =
     (validID (txn_id t) = Inr () \<and> EntryKind_Valid (txn_kind t) \<and> 2 \<le> length (txn_entries t) \<and>
      list_all (\<lambda>e. acc_kind (entry_account e) \<noteq> AccountKindUnknown \<and> sint (entry_amount e) \<noteq> 0 \<and>
        entry_kind e = txn_kind t) (txn_entries t) \<and>
      SumMoney (amounts_of (txn_entries t)) = Inr ZeroMoney \<and>
      (txn_hasWager t \<longleftrightarrow> txn_wagerID t \<noteq> []) \<and> txn_occurredAt t \<noteq> 0)"

lemma NewTransaction_ok:
  "NewTransaction p = Inr t \<longleftrightarrow>
    validID (tp_ID p) = Inr () \<and> EntryKind_Valid (tp_Kind p) \<and> 2 \<le> length (tp_Entries p) \<and>
    check_entries (tp_Kind p) (tp_Entries p) = Inr (amounts_of (tp_Entries p)) \<and>
    SumMoney (amounts_of (tp_Entries p)) = Inr ZeroMoney \<and>
    (tp_WagerID p \<noteq> [] \<longrightarrow> validID (tp_WagerID p) = Inr ()) \<and> tp_OccurredAt p \<noteq> 0 \<and>
    t = \<lparr> txn_id = tp_ID p, txn_kind = tp_Kind p, txn_entries = tp_Entries p,
          txn_wagerID = tp_WagerID p, txn_hasWager = (tp_WagerID p \<noteq> []),
          txn_occurredAt = tp_OccurredAt p \<rparr>"
proof -
  have z: "Money_IsZero s \<longleftrightarrow> s = ZeroMoney" for s by (simp add: Money_IsZero_def ZeroMoney_def)
  have c: "check_entries k es = Inr ms \<Longrightarrow> ms = amounts_of es" for k es ms by (simp add: check_entries_ok)
  show ?thesis
    unfolding NewTransaction_def result_simps Let_def z id_is_zero_def time_defs
    by (auto dest: c simp: result_simps split: if_splits)
qed

lemma NewTransaction_wf: "NewTransaction p = Inr t \<Longrightarrow> txn_wf t"
  by (auto simp: NewTransaction_ok txn_wf_def check_entries_ok)

lemma txn_wf_zero: "txn_wf t \<Longrightarrow> moved (txn_entries t) = 0"
  using SumMoney_ok [of "amounts_of (txn_entries t)" ZeroMoney] by (simp add: txn_wf_def moved_def)

text \<open>An audit of constructed transactions never fails, not even by overflow.\<close>

lemma ledger_total_wf: "list_all txn_wf ts \<Longrightarrow> ledger_total ZeroMoney ts = Inr ZeroMoney"
  by (induction ts) (auto simp: txn_wf_def SumMoney_def)

lemma audit_never_fails: "list_all txn_wf ts \<Longrightarrow> LedgerIsBalanced ts = Inr ()"
  by (simp add: LedgerIsBalanced_def ledger_total_wf Money_IsZero_iff)

section \<open>Derived balances are exact\<close>

lemma net_from_exact: "net_from a t es = Inr s \<Longrightarrow> sint s = sint t + effect a es"
  by (induction a t es rule: net_from.induct) (auto simp: result_simps money_simps split: if_splits)

lemma NetFor_exact: "Transaction_NetFor t a = Inr s \<Longrightarrow> sint s = effect a (txn_entries t)"
  using net_from_exact by (fastforce simp: Transaction_NetFor_def)

lemma balance_from_exact:
  "balance_from a t ts = Inr s \<Longrightarrow> sint s = sint t + effect a (entries_of ts)"
proof (induction a t ts rule: balance_from.induct)
  case (2 a t x ts)
  then obtain d n where d: "Transaction_NetFor x a = Inr d" and n: "Money_Add t d = Inr n"
    and rest: "balance_from a n ts = Inr s"
    by (auto simp: result_simps)
  show ?case using "2.IH" [OF d n rest] n NetFor_exact [OF d] by (simp add: Money_Add_ok)
qed simp

lemma Balance_exact: "Balance a ts = Inr s \<Longrightarrow> sint s = effect a (entries_of ts)"
  using balance_from_exact [of a ZeroMoney ts s] by (auto simp: Balance_def split: if_splits)

lemma balance_at_upd [simp]: "balance_at (out(a \<mapsto> m)) b = (if a = b then m else balance_at out b)"
  by (simp add: balance_at_def)

lemma balances_entries_exact:
  "balances_entries out es = Inr out' \<Longrightarrow>
    sint (balance_at out' a) = sint (balance_at out a) + effect a es \<and>
    dom out' = dom out \<union> entry_account ` set es"
proof (induction out es rule: balances_entries.induct)
  case (2 out e es)
  then obtain n where n: "Money_Add (balance_at out (entry_account e)) (entry_amount e) = Inr n"
    and rest: "balances_entries (out(entry_account e \<mapsto> n)) es = Inr out'"
    by (auto simp: result_simps)
  note ih = "2.IH" [OF n rest]
  have "sint n = sint (balance_at out (entry_account e)) + sint (entry_amount e)"
    using n by (simp add: Money_Add_ok)
  then have "sint (balance_at out' a) = sint (balance_at out a) + effect a (e # es)"
    using conjunct1 [OF ih] unfolding balance_at_upd by simp
  moreover have "dom out' = dom out \<union> entry_account ` set (e # es)"
    using conjunct2 [OF ih] by auto
  ultimately show ?case by blast
qed simp

lemma balances_txns_exact:
  "balances_txns out ts = Inr out' \<Longrightarrow>
    sint (balance_at out' a) = sint (balance_at out a) + effect a (entries_of ts) \<and>
    dom out' = dom out \<union> entry_account ` set (entries_of ts)"
proof (induction out ts rule: balances_txns.induct)
  case (2 out t ts)
  then obtain o1 where o1: "balances_entries out (txn_entries t) = Inr o1"
    and rest: "balances_txns o1 ts = Inr out'"
    by (auto simp: result_simps)
  show ?case using "2.IH" [OF o1 rest] balances_entries_exact [OF o1, of a] by auto
qed simp

lemma Balances_exact:
  assumes "Balances ts = Inr out"
  shows "sint (balance_at out a) = effect a (entries_of ts)"
    "dom out = entry_account ` set (entries_of ts)"
  using balances_txns_exact [OF assms [unfolded Balances_def], of a] by (auto simp: balance_at_def)

lemma sum_effects:
  assumes "finite A" "entry_account ` set es \<subseteq> A"
  shows "(\<Sum>a \<in> A. effect a es) = moved es"
  using assms(2)
proof (induction es)
  case (Cons e es)
  have "(\<Sum>a \<in> A. effect a (e # es)) =
      (\<Sum>a \<in> A. if entry_account e = a then sint (entry_amount e) else 0) + (\<Sum>a \<in> A. effect a es)"
    by (simp add: sum.distrib)
  then show ?case using Cons assms(1) by (simp add: sum.delta')
qed simp

lemma units_entries_of: "list_all txn_wf ts \<Longrightarrow> moved (entries_of ts) = 0"
  by (induction ts) (auto simp: txn_wf_zero)

lemma Balances_sum_zero:
  assumes "list_all txn_wf ts" "Balances ts = Inr out"
  shows "(\<Sum>a \<in> dom out. sint (balance_at out a)) = 0"
proof -
  have "(\<Sum>a \<in> dom out. sint (balance_at out a)) = (\<Sum>a \<in> dom out. effect a (entries_of ts))"
    by (simp add: Balances_exact(1) [OF assms(2)])
  also have "\<dots> = moved (entries_of ts)"
    using Balances_exact(2) [OF assms(2)] by (intro sum_effects) auto
  finally show ?thesis by (simp add: units_entries_of assms(1))
qed

end
