(* ===== verification/Settlement.thy ===== *)
theory Settlement
  imports Ledger
begin

text \<open>
  The movements of a wager's life: the stake transaction at placement and the settlement
  transaction at its close always exist for a well-formed wager, and together they leave the
  escrow empty and move exactly the wager's net return between the customer and the house.
\<close>

abbreviation "cash_of u \<equiv> \<lparr> acc_kind = AccountKindUserCash, acc_owner = u \<rparr>"
abbreviation "escrow_of u \<equiv> \<lparr> acc_kind = AccountKindUserEscrow, acc_owner = u \<rparr>"

lemma UserCashAccount_ok: "validID u = Inr () \<Longrightarrow> UserCashAccount u = Inr (cash_of u)"
  by (simp add: UserCashAccount_def NewAccount_def AccountKind_IsUserOwned_def)

lemma UserEscrowAccount_ok: "validID u = Inr () \<Longrightarrow> UserEscrowAccount u = Inr (escrow_of u)"
  by (simp add: UserEscrowAccount_def NewAccount_def AccountKind_IsUserOwned_def)

lemma user_account_iff:
  "UserCashAccount u = Inr a \<longleftrightarrow> validID u = Inr () \<and> a = cash_of u"
  "UserEscrowAccount u = Inr a \<longleftrightarrow> validID u = Inr () \<and> a = escrow_of u"
  by (auto simp: UserCashAccount_def UserEscrowAccount_def NewAccount_def AccountKind_IsUserOwned_def
      split: sum.splits)

abbreviation "entry a m k \<equiv> \<lparr> entry_account = a, entry_amount = m, entry_kind = k \<rparr>"

lemma NewLedgerEntry_ok:
  "NewLedgerEntry a m k = Inr e \<longleftrightarrow> acc_kind a \<noteq> AccountKindUnknown \<and> EntryKind_Valid k \<and>
    sint m \<noteq> 0 \<and> safe_units (sint m) \<and> e = entry a m k"
  by (auto simp: NewLedgerEntry_def Account_IsZero_def money_simps word_sless_alt)

lemma sint_neg_safe: "safe_units (sint m) \<Longrightarrow> sint (- m) = - sint m" for m :: money
  using Money_Neg_ok [of m "- m"] by (simp add: sint_neg64 wrap64_id abs_le_iff)

lemma Money_Neg_safe: "safe_units (sint m) \<Longrightarrow> Money_Neg m = Inr (- m)"
  by (simp add: Money_Neg_ok sint_neg_safe)

lemma transferEntries_ok:
  "transferEntries k a b m = Inr es \<longleftrightarrow> acc_kind a \<noteq> AccountKindUnknown \<and>
    acc_kind b \<noteq> AccountKindUnknown \<and> EntryKind_Valid k \<and> sint m \<noteq> 0 \<and> safe_units (sint m) \<and>
    es = [entry a (- m) k, entry b m k]"
proof (cases "safe_units (sint m)")
  case True
  then show ?thesis
    by (auto simp: transferEntries_def Money_Neg_safe result_simps NewLedgerEntry_ok sint_neg_safe)
next
  case False
  then show ?thesis by (auto simp: transferEntries_def result_simps NewLedgerEntry_ok)
qed

text \<open>A list of entries that balances makes a transaction under any valid identifier.\<close>

lemma SumMoney_pair: "safe_units (sint m) \<Longrightarrow> SumMoney [- m, m] = Inr ZeroMoney"
  by (simp add: SumMoney_def result_simps Money_Add_ok Money_Add_eq sint_neg_safe ZeroMoney_def)

lemma transfer_transaction:
  assumes "transferEntries k a b m = Inr es"
  shows "NewTransaction \<lparr> tp_ID = i, tp_Kind = k, tp_Entries = es, tp_WagerID = w, tp_OccurredAt = t \<rparr> = Inr x
    \<longleftrightarrow> validID i = Inr () \<and> (w \<noteq> [] \<longrightarrow> validID w = Inr ()) \<and> t \<noteq> 0 \<and>
      x = \<lparr> txn_id = i, txn_kind = k, txn_entries = es, txn_wagerID = w, txn_hasWager = (w \<noteq> []),
            txn_occurredAt = t \<rparr>"
  using assms SumMoney_pair [of m]
  by (auto simp: transferEntries_ok NewTransaction_ok check_entries_ok sint_neg_safe
      simp del: check_entries.simps)

lemma transfer_effect:
  assumes "transferEntries k a b m = Inr es"
  shows "effect c es = (if c = b then sint m else 0) - (if c = a then sint m else 0)"
  using assms by (auto simp: transferEntries_ok sint_neg_safe)

section \<open>Grants and adjustments\<close>

lemma NewGrantTransaction_ok:
  "NewGrantTransaction i u m t = Inr x \<longleftrightarrow>
    0 < sint m \<and> safe_units (sint m) \<and> validID u = Inr () \<and> validID i = Inr () \<and> t \<noteq> 0 \<and>
    x = \<lparr> txn_id = i, txn_kind = EntryKindGrant,
          txn_entries = [entry IssuanceAccount (- m) EntryKindGrant, entry (cash_of u) m EntryKindGrant],
          txn_wagerID = [], txn_hasWager = False, txn_occurredAt = t \<rparr>"
proof (cases "safe_units (sint m) \<and> sint m \<noteq> 0")
  case True
  then have es: "transferEntries EntryKindGrant IssuanceAccount (cash_of u) m =
      Inr [entry IssuanceAccount (- m) EntryKindGrant, entry (cash_of u) m EntryKindGrant]"
    by (simp add: transferEntries_ok IssuanceAccount_def)
  show ?thesis
    using True
    by (auto simp: NewGrantTransaction_def bindE_eq_Inr if_Inl_eq_Inr user_account_iff es
        Money_IsPositive_iff transfer_transaction [OF es])
next
  case False
  then show ?thesis
    by (auto simp: NewGrantTransaction_def bindE_eq_Inr user_account_iff
        Money_IsPositive_iff transferEntries_ok)
qed

lemma NewAdjustmentTransaction_ok:
  assumes "NewAdjustmentTransaction i a b m w t = Inr x"
  shows "txn_wf x" "effect c (txn_entries x) = (if c = b then sint m else 0) - (if c = a then sint m else 0)"
    "0 < sint m" "a \<noteq> b"
proof -
  from assms obtain es where es: "transferEntries EntryKindAdjustment a b m = Inr es"
    and new: "NewTransaction \<lparr> tp_ID = i, tp_Kind = EntryKindAdjustment, tp_Entries = es,
      tp_WagerID = w, tp_OccurredAt = t \<rparr> = Inr x" and "0 < sint m" "a \<noteq> b"
    by (auto simp: NewAdjustmentTransaction_def result_simps money_simps split: if_splits)
  show "0 < sint m" "a \<noteq> b" by fact+
  show "txn_wf x" using new by (rule NewTransaction_wf)
  show "effect c (txn_entries x) = (if c = b then sint m else 0) - (if c = a then sint m else 0)"
    using transfer_effect [OF es] new by (simp add: transfer_transaction [OF es])
qed

section \<open>Stakes\<close>

lemma NewStakeTransaction_total:
  assumes "wager_wf w" "validID i = Inr ()" "t \<noteq> 0"
  shows "\<exists>x. NewStakeTransaction i w t = Inr x \<and> txn_wf x \<and> txn_wagerID x = wager_id w \<and>
    (\<forall>a. effect a (txn_entries x) =
      (if a = escrow_of (wager_userID w) then sint (wager_stake w) else 0) -
      (if a = cash_of (wager_userID w) then sint (wager_stake w) else 0))"
proof -
  have w: "validID (wager_id w) = Inr ()" "validID (wager_userID w) = Inr ()" "0 < sint (wager_stake w)"
    "safe_units (sint (wager_stake w))" "wager_id w \<noteq> []"
    using assms(1) by (auto simp: wager_wf_def ticket_wf_def validID_ok_iff)
  define es where "es = [entry (cash_of (wager_userID w)) (- wager_stake w) EntryKindStake,
    entry (escrow_of (wager_userID w)) (wager_stake w) EntryKindStake]"
  have es: "transferEntries EntryKindStake (cash_of (wager_userID w)) (escrow_of (wager_userID w))
      (wager_stake w) = Inr es"
    using w by (auto simp: transferEntries_ok es_def)
  define x where "x = \<lparr> txn_id = i, txn_kind = EntryKindStake, txn_entries = es,
    txn_wagerID = wager_id w, txn_hasWager = (wager_id w \<noteq> []), txn_occurredAt = t \<rparr>"
  have new: "NewTransaction \<lparr> tp_ID = i, tp_Kind = EntryKindStake, tp_Entries = es,
      tp_WagerID = wager_id w, tp_OccurredAt = t \<rparr> = Inr x"
    using w assms(2,3) by (simp add: transfer_transaction [OF es] x_def)
  have "NewStakeTransaction i w t = Inr x"
    using w es new by (simp add: NewStakeTransaction_def id_is_zero_def UserCashAccount_ok UserEscrowAccount_ok)
  then show ?thesis
    using NewTransaction_wf [OF new] transfer_effect [OF es] by (intro exI [of _ x]) (simp add: x_def)
qed

section \<open>Settlements\<close>

lemma settlement_moves_ok:
  assumes "EntryKind_Valid k" "list_all (\<lambda>(a, m). acc_kind a \<noteq> AccountKindUnknown \<and> safe_units (sint m)) ms"
  shows "settlement_moves k ms = Inr (map (\<lambda>(a, m). entry a m k) (filter (\<lambda>(a, m). sint m \<noteq> 0) ms))"
  using assms
proof (induction k ms rule: settlement_moves.induct)
  case (2 k a m ms)
  then show ?case
    using NewLedgerEntry_ok [of a m k "entry a m k"] by (auto simp: Money_IsZero_iff)
qed simp

lemma effect_moves:
  "effect c (map (\<lambda>(a, m). entry a m k) (filter (\<lambda>(a, m). sint m \<noteq> 0) ms)) =
    sum_list (map (\<lambda>(a, m). if a = c then sint m else 0) ms)"
  by (induction ms) auto

lemma sum_moves:
  "SumMoney_from t (amounts_of (map (\<lambda>(a, m). entry a m k) (filter (\<lambda>(a, m). sint m \<noteq> 0) ms))) = Inr s \<longleftrightarrow>
    SumMoney_from t (map snd ms) = Inr s" if "safe_units (sint t)"
  using that
proof (induction ms arbitrary: t)
  case (Cons am ms)
  obtain a m where am: "am = (a, m)" by (cases am)
  show ?case
  proof (cases "sint m = 0")
    case True
    then have "Money_Add t m = Inr t" using Cons.prems by (simp add: Money_Add_ok)
    then show ?thesis using Cons True by (simp add: am)
  next
    case False
    then show ?thesis using Cons by (auto simp: am result_simps Money_Add_ok)
  qed
qed simp

lemma settlement_kind_valid:
  "WagerStatus_IsTerminal s \<Longrightarrow> \<exists>k. settlementEntryKind s = Inr k \<and> EntryKind_Valid k"
  by (cases s) (auto simp: WagerStatus_IsTerminal_def)

lemma NewSettlementTransaction_total:
  assumes "wager_wf w" "WagerStatus_IsTerminal (wager_status w)" "validID i = Inr ()" "t \<noteq> 0"
  shows "\<exists>x. NewSettlementTransaction i w t = Inr x \<and> txn_wf x \<and> txn_wagerID x = wager_id w \<and>
    (\<forall>a. effect a (txn_entries x) =
      (if a = cash_of (wager_userID w) then sint (wager_returned w) else 0) -
      (if a = escrow_of (wager_userID w) then sint (wager_stake w) else 0) +
      (if a = HouseAccount then sint (wager_stake w) - sint (wager_returned w) else 0))"
proof -
  define S R where "S = wager_stake w" and "R = wager_returned w"
  have w: "validID (wager_id w) = Inr ()" "validID (wager_userID w) = Inr ()" "0 < sint S" "safe_units (sint S)"
    and ret: "wager_hasReturned w" "0 \<le> sint R" "sint R \<le> sint (wager_payout w)"
    and mul: "Money_MulFloat (wager_stake w) (wager_accepted w) (wager_rounding w) = Inr (wager_payout w)"
    using assms(1,2) settled_bounds [OF assms(1,2)]
    by (auto simp: wager_wf_def ticket_wf_def money_wf_def S_def R_def)
  have pay: "safe_units (sint (wager_payout w))" using mul_float_safe [OF mul] by blast
  obtain k where k: "settlementEntryKind (wager_status w) = Inr k" "EntryKind_Valid k"
    using settlement_kind_valid [OF assms(2)] by blast
  have safe: "safe_units (sint R)" "safe_units (sint S - sint R)" using w(3,4) ret pay by auto
  have house: "Money_Sub S R = Inr (S - R)" "sint (S - R) = sint S - sint R"
    using safe(2) by (simp_all add: Money_Sub_eq sint_sub_safe)
  define ms where "ms = [(escrow_of (wager_userID w), - S), (cash_of (wager_userID w), R), (HouseAccount, S - R)]"
  define es where "es = map (\<lambda>(a, m). entry a m k) (filter (\<lambda>(a, m). sint m \<noteq> 0) ms)"
  have moves: "settlement_moves k ms = Inr es"
    unfolding es_def
    by (rule settlement_moves_ok [OF k(2)])
      (use safe house w(4) in \<open>simp add: ms_def HouseAccount_def sint_neg_safe\<close>)
  have "safe_units (sint R - sint S)" using safe(2) by auto
  then have "sint (R - S) = sint R - sint S" by (rule sint_sub_safe)
  then have "SumMoney_from ZeroMoney (map snd ms) = Inr ZeroMoney"
    using w(3,4) safe house
    by (auto simp: ms_def result_simps Money_Add_eq sint_neg_safe sint_add_safe ZeroMoney_def)
  then have sum: "SumMoney (amounts_of es) = Inr ZeroMoney"
    unfolding SumMoney_def es_def by (intro iffD2 [OF sum_moves]) simp_all
  have two: "2 \<le> length es" using w(3,4) house by (auto simp: es_def ms_def sint_neg_safe)
  have chk: "check_entries k es = Inr (amounts_of es)"
    by (auto simp: check_entries_ok list_all_iff es_def ms_def HouseAccount_def
        simp del: check_entries.simps)
  define x where "x = \<lparr> txn_id = i, txn_kind = k, txn_entries = es,
    txn_wagerID = wager_id w, txn_hasWager = (wager_id w \<noteq> []), txn_occurredAt = t \<rparr>"
  have new: "NewTransaction \<lparr> tp_ID = i, tp_Kind = k, tp_Entries = es,
      tp_WagerID = wager_id w, tp_OccurredAt = t \<rparr> = Inr x"
    using w(1) k(2) sum two chk assms(3,4) by (simp add: NewTransaction_ok x_def)
  have "NewSettlementTransaction i w t = Inr x"
    using ret(1) k(1) w house(1) moves new
    by (simp add: NewSettlementTransaction_def UserCashAccount_ok UserEscrowAccount_ok Money_Neg_safe
        ms_def flip: S_def R_def)
  moreover have "effect a es = (if a = cash_of (wager_userID w) then sint R else 0) -
      (if a = escrow_of (wager_userID w) then sint S else 0) +
      (if a = HouseAccount then sint S - sint R else 0)" for a
    unfolding es_def effect_moves using w(4) house by (auto simp: ms_def sint_neg_safe)
  ultimately show ?thesis
    using NewTransaction_wf [OF new] by (intro exI [of _ x]) (simp add: x_def S_def R_def)
qed

section \<open>The whole life of a wager\<close>

lemma stake_then_settle:
  assumes "wager_wf w" "wager_wf v" "wager_ticket v = wager_ticket w"
    and "WagerStatus_IsTerminal (wager_status v)"
    and "NewStakeTransaction i w s = Inr x" "NewSettlementTransaction j v t = Inr y"
  shows "effect a (txn_entries x @ txn_entries y) =
    (if a = cash_of (wager_userID w) then sint (wager_netReturn v) else 0) -
    (if a = HouseAccount then sint (wager_netReturn v) else 0)"
proof -
  have same: "wager_userID v = wager_userID w" "wager_stake v = wager_stake w"
    using assms(3) by (simp_all add: wager_ticket_def)
  have net: "sint (wager_netReturn v) = sint (wager_returned v) - sint (wager_stake v)"
    using assms(2,4) by (simp add: wager_wf_def money_wf_def)
  have ok: "validID i = Inr ()" "s \<noteq> 0" "validID j = Inr ()" "t \<noteq> 0"
    using assms(5,6)
    by (auto simp: NewStakeTransaction_def NewSettlementTransaction_def result_simps NewTransaction_ok
        split: if_splits)
  have x: "effect a (txn_entries x) =
      (if a = escrow_of (wager_userID w) then sint (wager_stake w) else 0) -
      (if a = cash_of (wager_userID w) then sint (wager_stake w) else 0)"
    using NewStakeTransaction_total [OF assms(1) ok(1,2)] assms(5) by auto
  have y: "effect a (txn_entries y) =
      (if a = cash_of (wager_userID v) then sint (wager_returned v) else 0) -
      (if a = escrow_of (wager_userID v) then sint (wager_stake v) else 0) +
      (if a = HouseAccount then sint (wager_stake v) - sint (wager_returned v) else 0)"
    using NewSettlementTransaction_total [OF assms(2,4) ok(3,4)] assms(6) by auto
  show ?thesis
    unfolding effect_simps x y same net by (simp add: HouseAccount_def)
qed

end
