(* ===== verification/Event.thy ===== *)
theory Event
  imports Ids GoInt TextEnum Lifecycle
begin

text \<open>
  \<open>internal/domain/event.go\<close>: the event lifecycle, competitors, score and game clock, and the
  event value with its constructor and its updates.
\<close>

section \<open>Kinds and statuses\<close>

datatype EventKind = EventKindUnknown | EventKindMatch | EventKindOutright

fun EventKind_String :: "EventKind \<Rightarrow> string" where
  "EventKind_String EventKindMatch = ''match''"
| "EventKind_String EventKindOutright = ''outright''"
| "EventKind_String EventKindUnknown = ''unknown''"

fun EventKind_Valid :: "EventKind \<Rightarrow> bool" where
  "EventKind_Valid EventKindUnknown = False"
| "EventKind_Valid _ = True"

definition ParseEventKind :: "string \<Rightarrow> EventKind res" where
  "ParseEventKind s =
     (if s = ''match'' then Inr EventKindMatch
      else if s = ''outright'' then Inr EventKindOutright
      else Inl ErrUnknownEventKind)"

definition EventKind_MarshalText :: "EventKind \<Rightarrow> string res" where
  "EventKind_MarshalText k = (if \<not> EventKind_Valid k then Inl ErrUnknownEventKind else Inr (EventKind_String k))"

definition EventKind_UnmarshalText :: "string \<Rightarrow> EventKind res" where
  "EventKind_UnmarshalText b = ParseEventKind b"

interpretation event_kind: text_enum EventKind_String ParseEventKind EventKind_Valid
  EventKind_MarshalText EventKind_UnmarshalText EventKindUnknown ErrUnknownEventKind
proof unfold_locales
  show "EventKind_Valid k \<Longrightarrow> ParseEventKind (EventKind_String k) = Inr k" for k
    by (cases k) (simp_all add: ParseEventKind_def)
  show "\<not> EventKind_Valid k \<longleftrightarrow> k = EventKindUnknown" for k by (cases k) simp_all
qed (auto simp: ParseEventKind_def EventKind_MarshalText_def EventKind_UnmarshalText_def split: if_splits)

datatype EventStatus = EventStatusUnknown | EventStatusScheduled | EventStatusLive | EventStatusSuspended | EventStatusEnded | EventStatusSettled | EventStatusPostponed | EventStatusCancelled

fun EventStatus_String :: "EventStatus \<Rightarrow> string" where
  "EventStatus_String EventStatusScheduled = ''scheduled''"
| "EventStatus_String EventStatusLive = ''live''"
| "EventStatus_String EventStatusSuspended = ''suspended''"
| "EventStatus_String EventStatusEnded = ''ended''"
| "EventStatus_String EventStatusSettled = ''settled''"
| "EventStatus_String EventStatusPostponed = ''postponed''"
| "EventStatus_String EventStatusCancelled = ''cancelled''"
| "EventStatus_String EventStatusUnknown = ''unknown''"

fun EventStatus_Valid :: "EventStatus \<Rightarrow> bool" where
  "EventStatus_Valid EventStatusUnknown = False"
| "EventStatus_Valid _ = True"

definition ParseEventStatus :: "string \<Rightarrow> EventStatus res" where
  "ParseEventStatus s =
     (if s = ''scheduled'' then Inr EventStatusScheduled
      else if s = ''live'' then Inr EventStatusLive
      else if s = ''suspended'' then Inr EventStatusSuspended
      else if s = ''ended'' then Inr EventStatusEnded
      else if s = ''settled'' then Inr EventStatusSettled
      else if s = ''postponed'' then Inr EventStatusPostponed
      else if s = ''cancelled'' then Inr EventStatusCancelled
      else Inl ErrUnknownEventStatus)"

definition EventStatus_MarshalText :: "EventStatus \<Rightarrow> string res" where
  "EventStatus_MarshalText k = (if \<not> EventStatus_Valid k then Inl ErrUnknownEventStatus else Inr (EventStatus_String k))"

definition EventStatus_UnmarshalText :: "string \<Rightarrow> EventStatus res" where
  "EventStatus_UnmarshalText b = ParseEventStatus b"

interpretation event_status: text_enum EventStatus_String ParseEventStatus EventStatus_Valid
  EventStatus_MarshalText EventStatus_UnmarshalText EventStatusUnknown ErrUnknownEventStatus
proof unfold_locales
  show "EventStatus_Valid k \<Longrightarrow> ParseEventStatus (EventStatus_String k) = Inr k" for k
    by (cases k) (simp_all add: ParseEventStatus_def)
  show "\<not> EventStatus_Valid k \<longleftrightarrow> k = EventStatusUnknown" for k by (cases k) simp_all
qed (auto simp: ParseEventStatus_def EventStatus_MarshalText_def EventStatus_UnmarshalText_def split: if_splits)

definition EventStatus_IsInPlay :: "EventStatus \<Rightarrow> bool" where
  "EventStatus_IsInPlay s = (s = EventStatusLive \<or> s = EventStatusSuspended)"

definition EventStatus_HasStarted :: "EventStatus \<Rightarrow> bool" where
  "EventStatus_HasStarted s =
     (s \<in> {EventStatusLive, EventStatusSuspended, EventStatusEnded, EventStatusSettled, EventStatusCancelled})"

definition EventStatus_IsTerminal :: "EventStatus \<Rightarrow> bool" where
  "EventStatus_IsTerminal s = (s = EventStatusSettled)"

definition EventStatus_AcceptsWagers :: "EventStatus \<Rightarrow> bool" where
  "EventStatus_AcceptsWagers s = (s = EventStatusScheduled \<or> s = EventStatusLive)"

definition EventStatus_CanTransitionTo :: "EventStatus \<Rightarrow> EventStatus \<Rightarrow> bool" where
  "EventStatus_CanTransitionTo s next_status =
     (if \<not> EventStatus_Valid s \<or> \<not> EventStatus_Valid next_status then False
      else if s = next_status then True
      else case s of
        EventStatusScheduled \<Rightarrow>
          next_status = EventStatusLive \<or> next_status = EventStatusPostponed \<or>
          next_status = EventStatusCancelled
      | EventStatusLive \<Rightarrow>
          next_status = EventStatusSuspended \<or> next_status = EventStatusEnded \<or>
          next_status = EventStatusCancelled
      | EventStatusSuspended \<Rightarrow>
          next_status = EventStatusLive \<or> next_status = EventStatusEnded \<or>
          next_status = EventStatusPostponed \<or> next_status = EventStatusCancelled
      | EventStatusEnded \<Rightarrow> next_status = EventStatusSettled
      | EventStatusPostponed \<Rightarrow>
          next_status = EventStatusScheduled \<or> next_status = EventStatusCancelled
      | EventStatusCancelled \<Rightarrow> next_status = EventStatusSettled
      | _ \<Rightarrow> False)"

text \<open>How far an event has got: still to be decided, over, graded.\<close>

fun event_stage :: "EventStatus \<Rightarrow> nat" where
  "event_stage EventStatusEnded = 1"
| "event_stage EventStatusCancelled = 1"
| "event_stage EventStatusSettled = 2"
| "event_stage _ = 0"

section \<open>Competitors, score, clock\<close>

record Competitor =
  comp_id :: string
  comp_name :: string

definition zero_Competitor :: Competitor where
  "zero_Competitor = \<lparr> comp_id = [], comp_name = [] \<rparr>"

definition NewCompetitor :: "string \<Rightarrow> string \<Rightarrow> Competitor res" where
  "NewCompetitor id0 name =
     bindE (if \<not> id_is_zero id0 then validID id0 else Inr ()) (\<lambda>_.
     bindE (validateName name) (\<lambda>n. Inr \<lparr> comp_id = id0, comp_name = n \<rparr>))"

definition Competitor_IsZero :: "Competitor \<Rightarrow> bool" where
  "Competitor_IsZero c = (c = zero_Competitor)"

text \<open>Points are the 64-bit \<open>int\<close> of the target, with its wrap-around.\<close>

record Score =
  score_home :: int64
  score_away :: int64

definition zero_Score :: Score where
  "zero_Score = \<lparr> score_home = 0, score_away = 0 \<rparr>"

definition NewScore :: "int64 \<Rightarrow> int64 \<Rightarrow> Score res" where
  "NewScore home away =
     (if home <s 0 \<or> away <s 0 then Inl ErrNegativeScore
      else Inr \<lparr> score_home = home, score_away = away \<rparr>)"

definition Score_Margin :: "Score \<Rightarrow> int64" where
  "Score_Margin s = score_home s - score_away s"

definition Score_Total :: "Score \<Rightarrow> int64" where
  "Score_Total s = score_home s + score_away s"

definition MaxClockPeriod :: int where "MaxClockPeriod = 50"
definition MaxClockElapsed :: duration where "MaxClockElapsed = 6 * 3600 * 10 ^ 9"

record GameClock =
  clock_period :: int
  clock_elapsed :: duration
  clock_running :: bool

definition zero_GameClock :: GameClock where
  "zero_GameClock = \<lparr> clock_period = 0, clock_elapsed = 0, clock_running = False \<rparr>"

definition NewGameClock :: "int \<Rightarrow> duration \<Rightarrow> bool \<Rightarrow> GameClock res" where
  "NewGameClock period elapsed running =
     (if period < 1 \<or> MaxClockPeriod < period then Inl ErrInvalidPeriod
      else if elapsed < 0 \<or> MaxClockElapsed < elapsed then Inl ErrInvalidElapsed
      else Inr \<lparr> clock_period = period, clock_elapsed = elapsed, clock_running = running \<rparr>)"

definition GameClock_IsZero :: "GameClock \<Rightarrow> bool" where
  "GameClock_IsZero c = (c = zero_GameClock)"

section \<open>Events\<close>

record Event =
  event_id :: string
  event_leagueID :: string
  event_kind :: EventKind
  event_name :: string
  event_home :: Competitor
  event_away :: Competitor
  event_scheduledStart :: time
  event_status :: EventStatus
  event_clock :: GameClock
  event_hasClock :: bool
  event_score :: Score
  event_hasScore :: bool
  event_updatedAt :: time

record EventParams =
  ep_ID :: string
  ep_LeagueID :: string
  ep_Kind :: EventKind
  ep_Name :: string
  ep_Home :: Competitor
  ep_Away :: Competitor
  ep_ScheduledStart :: time
  ep_Status :: EventStatus
  ep_UpdatedAt :: time

definition check_competitors :: "EventParams \<Rightarrow> unit res" where
  "check_competitors p =
     (case ep_Kind p of
        EventKindMatch \<Rightarrow>
          if Competitor_IsZero (ep_Home p) \<or> Competitor_IsZero (ep_Away p)
          then Inl ErrCompetitorsRequired else Inr ()
      | EventKindOutright \<Rightarrow>
          if \<not> Competitor_IsZero (ep_Home p) \<or> \<not> Competitor_IsZero (ep_Away p)
          then Inl ErrCompetitorsNotApplicable else Inr ()
      | EventKindUnknown \<Rightarrow> Inr ())"

definition NewEvent :: "EventParams \<Rightarrow> Event res" where
  "NewEvent p =
     bindE (validID (ep_ID p)) (\<lambda>_.
     bindE (validID (ep_LeagueID p)) (\<lambda>_.
     if \<not> EventKind_Valid (ep_Kind p) then Inl ErrUnknownEventKind
     else if \<not> EventStatus_Valid (ep_Status p) then Inl ErrUnknownEventStatus
     else
     bindE (validateName (ep_Name p)) (\<lambda>name.
     bindE (check_competitors p) (\<lambda>_.
     if time_is_zero (ep_ScheduledStart p) then Inl ErrZeroTime
     else if time_is_zero (ep_UpdatedAt p) then Inl ErrZeroTime
     else Inr \<lparr> event_id = ep_ID p, event_leagueID = ep_LeagueID p, event_kind = ep_Kind p,
                event_name = name, event_home = ep_Home p, event_away = ep_Away p,
                event_scheduledStart = time_utc (ep_ScheduledStart p),
                event_status = ep_Status p,
                event_clock = zero_GameClock, event_hasClock = False,
                event_score = zero_Score, event_hasScore = False,
                event_updatedAt = time_utc (ep_UpdatedAt p) \<rparr>))))"

definition Event_HasStartedBy :: "Event \<Rightarrow> time \<Rightarrow> bool" where
  "Event_HasStartedBy e now = (\<not> time_before now (event_scheduledStart e))"

definition Event_TimeToStart :: "Event \<Rightarrow> time \<Rightarrow> duration" where
  "Event_TimeToStart e now = time_sub (event_scheduledStart e) now"

definition Event_AcceptsWagers :: "Event \<Rightarrow> bool" where
  "Event_AcceptsWagers e = EventStatus_AcceptsWagers (event_status e)"

definition event_stamp :: "Event \<Rightarrow> time \<Rightarrow> Event res" where
  "event_stamp e at_time =
     (if time_is_zero at_time then Inl ErrZeroTime
      else let u = time_utc at_time in
        if time_before u (event_updatedAt e) then Inl ErrStaleUpdate
        else Inr (e \<lparr> event_updatedAt := u \<rparr>))"

definition Event_WithStatus :: "Event \<Rightarrow> EventStatus \<Rightarrow> time \<Rightarrow> Event res" where
  "Event_WithStatus e next_status at_time =
     (if \<not> EventStatus_Valid next_status then Inl ErrUnknownEventStatus
      else if \<not> EventStatus_CanTransitionTo (event_status e) next_status
      then Inl ErrIllegalTransition
      else bindE (event_stamp e at_time) (\<lambda>stamped.
        let stamped = stamped \<lparr> event_status := next_status \<rparr> in
        Inr (if \<not> EventStatus_IsInPlay next_status
             then stamped \<lparr> event_clock := zero_GameClock, event_hasClock := False \<rparr>
             else stamped)))"

definition Event_WithClock :: "Event \<Rightarrow> GameClock \<Rightarrow> time \<Rightarrow> Event res" where
  "Event_WithClock e c at_time =
     (if \<not> EventStatus_IsInPlay (event_status e) then Inl ErrClockNotInPlay
      else if GameClock_IsZero c then Inl ErrInvalidPeriod
      else bindE (event_stamp e at_time) (\<lambda>stamped.
        Inr (stamped \<lparr> event_clock := c, event_hasClock := True \<rparr>)))"

definition Event_WithoutClock :: "Event \<Rightarrow> time \<Rightarrow> Event res" where
  "Event_WithoutClock e at_time =
     bindE (event_stamp e at_time) (\<lambda>stamped.
       Inr (stamped \<lparr> event_clock := zero_GameClock, event_hasClock := False \<rparr>))"

definition Event_WithScore :: "Event \<Rightarrow> Score \<Rightarrow> time \<Rightarrow> Event res" where
  "Event_WithScore e s at_time =
     (if \<not> EventStatus_HasStarted (event_status e) then Inl ErrScoreNotApplicable
      else bindE (event_stamp e at_time) (\<lambda>stamped.
        Inr (stamped \<lparr> event_score := s, event_hasScore := True \<rparr>)))"

text \<open>The updates an event admits, as data.\<close>

datatype event_op =
    EventStatusOp EventStatus time
  | EventClockOp GameClock time
  | EventNoClockOp time
  | EventScoreOp Score time

fun event_step :: "event_op \<Rightarrow> Event \<Rightarrow> Event res" where
  "event_step (EventStatusOp s t) e = Event_WithStatus e s t"
| "event_step (EventClockOp c t) e = Event_WithClock e c t"
| "event_step (EventNoClockOp t) e = Event_WithoutClock e t"
| "event_step (EventScoreOp s t) e = Event_WithScore e s t"

fun event_op_time :: "event_op \<Rightarrow> time" where
  "event_op_time (EventStatusOp s t) = t"
| "event_op_time (EventClockOp c t) = t"
| "event_op_time (EventNoClockOp t) = t"
| "event_op_time (EventScoreOp s t) = t"

section \<open>What the updates do\<close>

lemma event_stamp_ok [result_simps]:
  "event_stamp e t = Inr f \<longleftrightarrow> t \<noteq> 0 \<and> event_updatedAt e \<le> t \<and> f = e \<lparr> event_updatedAt := t \<rparr>"
  by (auto simp: event_stamp_def time_defs Let_def)

lemma can_event_valid: "EventStatus_CanTransitionTo s t \<Longrightarrow> EventStatus_Valid s \<and> EventStatus_Valid t"
  by (simp add: EventStatus_CanTransitionTo_def split: if_splits)

lemma can_event_self_iff: "EventStatus_CanTransitionTo s s \<longleftrightarrow> EventStatus_Valid s"
  by (simp add: EventStatus_CanTransitionTo_def)

lemma Event_WithStatus_ok [result_simps]:
  "Event_WithStatus e s t = Inr f \<longleftrightarrow>
    EventStatus_CanTransitionTo (event_status e) s \<and> t \<noteq> 0 \<and> event_updatedAt e \<le> t \<and>
    f = (if EventStatus_IsInPlay s then e \<lparr> event_updatedAt := t, event_status := s \<rparr>
         else e \<lparr> event_updatedAt := t, event_status := s,
                  event_clock := zero_GameClock, event_hasClock := False \<rparr>)"
  by (auto simp: Event_WithStatus_def result_simps Let_def dest: can_event_valid)

lemma Event_WithClock_ok [result_simps]:
  "Event_WithClock e c t = Inr f \<longleftrightarrow>
    EventStatus_IsInPlay (event_status e) \<and> c \<noteq> zero_GameClock \<and> t \<noteq> 0 \<and> event_updatedAt e \<le> t \<and>
    f = e \<lparr> event_updatedAt := t, event_clock := c, event_hasClock := True \<rparr>"
  by (auto simp: Event_WithClock_def result_simps GameClock_IsZero_def)

lemma Event_WithoutClock_ok [result_simps]:
  "Event_WithoutClock e t = Inr f \<longleftrightarrow> t \<noteq> 0 \<and> event_updatedAt e \<le> t \<and>
    f = e \<lparr> event_updatedAt := t, event_clock := zero_GameClock, event_hasClock := False \<rparr>"
  by (auto simp: Event_WithoutClock_def result_simps)

lemma Event_WithScore_ok [result_simps]:
  "Event_WithScore e s t = Inr f \<longleftrightarrow>
    EventStatus_HasStarted (event_status e) \<and> t \<noteq> 0 \<and> event_updatedAt e \<le> t \<and>
    f = e \<lparr> event_updatedAt := t, event_score := s, event_hasScore := True \<rparr>"
  by (auto simp: Event_WithScore_def result_simps)

interpretation events: entity EventStatus_Valid EventStatus_CanTransitionTo
  EventStatus_IsTerminal event_stage event_step event_op_time event_updatedAt event_status
proof unfold_locales
  fix s t assume "EventStatus_CanTransitionTo s t"
  then show "EventStatus_Valid s \<and> EventStatus_Valid t" by (rule can_event_valid)
next
  fix s t assume "EventStatus_CanTransitionTo s t"
  then show "event_stage s \<le> event_stage t"
    by (cases s) (auto simp: EventStatus_CanTransitionTo_def split: if_splits)
next
  fix s assume "EventStatus_Valid s"
  then show "EventStatus_CanTransitionTo s s" by (simp add: can_event_self_iff)
next
  fix s assume v: "EventStatus_Valid s"
  have "\<not> EventStatus_IsTerminal s \<Longrightarrow> \<exists>t. EventStatus_CanTransitionTo s t \<and> t \<noteq> s"
  proof (cases "event_stage s = 0 \<and> s \<noteq> EventStatusCancelled")
    case True
    then have "EventStatus_CanTransitionTo s EventStatusCancelled \<and> EventStatusCancelled \<noteq> s"
      using v by (cases s) (simp_all add: EventStatus_CanTransitionTo_def)
    then show ?thesis by blast
  next
    case False
    moreover assume "\<not> EventStatus_IsTerminal s"
    ultimately have "EventStatus_CanTransitionTo s EventStatusSettled \<and> EventStatusSettled \<noteq> s"
      using v by (cases s) (simp_all add: EventStatus_CanTransitionTo_def EventStatus_IsTerminal_def)
    then show ?thesis by blast
  qed
  moreover have "EventStatus_IsTerminal s \<Longrightarrow> EventStatus_CanTransitionTo s t \<Longrightarrow> t = s" for t
    by (auto simp: EventStatus_CanTransitionTo_def EventStatus_IsTerminal_def split: if_splits)
  ultimately show "EventStatus_IsTerminal s \<longleftrightarrow> (\<forall>t. EventStatus_CanTransitionTo s t \<longrightarrow> t = s)"
    by blast
next
  fix op x y assume "event_step op x = Inr y"
  then show "event_updatedAt y = event_op_time op \<and> event_updatedAt x \<le> event_op_time op"
    by (cases op) (auto simp: result_simps)
next
  fix op x y assume "event_step op x = Inr y" "EventStatus_Valid (event_status x)"
  then show "EventStatus_CanTransitionTo (event_status x) (event_status y)"
    by (cases op) (auto simp: result_simps can_event_self_iff)
qed

section \<open>Every event that can exist\<close>

fun event_op_built :: "event_op \<Rightarrow> bool" where
  "event_op_built (EventClockOp c t) =
     (c = zero_GameClock \<or> NewGameClock (clock_period c) (clock_elapsed c) (clock_running c) = Inr c)"
| "event_op_built (EventScoreOp s t) = (NewScore (score_home s) (score_away s) = Inr s)"
| "event_op_built _ = True"

inductive event_reachable :: "Event \<Rightarrow> bool" where
  new_event: "NewEvent p = Inr e \<Longrightarrow> event_reachable e"
| update_event: "event_reachable e \<Longrightarrow> event_step op e = Inr f \<Longrightarrow> event_op_built op \<Longrightarrow> event_reachable f"

definition event_wf :: "Event \<Rightarrow> bool" where
  "event_wf e =
     (validID (event_id e) = Inr () \<and> validID (event_leagueID e) = Inr () \<and>
      EventKind_Valid (event_kind e) \<and> EventStatus_Valid (event_status e) \<and>
      (event_kind e = EventKindMatch \<longleftrightarrow> event_home e \<noteq> zero_Competitor) \<and>
      (event_kind e = EventKindMatch \<longleftrightarrow> event_away e \<noteq> zero_Competitor) \<and>
      (event_hasClock e \<longrightarrow> EventStatus_IsInPlay (event_status e) \<and>
         1 \<le> clock_period (event_clock e) \<and> clock_period (event_clock e) \<le> 50 \<and>
         0 \<le> clock_elapsed (event_clock e) \<and> clock_elapsed (event_clock e) \<le> MaxClockElapsed) \<and>
      (\<not> event_hasClock e \<longrightarrow> event_clock e = zero_GameClock) \<and>
      0 \<le> sint (score_home (event_score e)) \<and> 0 \<le> sint (score_away (event_score e)) \<and>
      (\<not> event_hasScore e \<longrightarrow> event_score e = zero_Score) \<and>
      event_scheduledStart e \<noteq> 0 \<and> event_updatedAt e \<noteq> 0)"

lemma NewScore_ok: "NewScore h a = Inr s \<longleftrightarrow>
    0 \<le> sint h \<and> 0 \<le> sint a \<and> s = \<lparr> score_home = h, score_away = a \<rparr>"
  by (auto simp: NewScore_def word_sless_alt)

lemma NewGameClock_ok: "NewGameClock p t r = Inr c \<longleftrightarrow>
    1 \<le> p \<and> p \<le> 50 \<and> 0 \<le> t \<and> t \<le> MaxClockElapsed \<and>
    c = \<lparr> clock_period = p, clock_elapsed = t, clock_running = r \<rparr>"
  by (auto simp: NewGameClock_def MaxClockPeriod_def)

lemma check_competitors_ok: "check_competitors p = Inr () \<Longrightarrow> EventKind_Valid (ep_Kind p) \<Longrightarrow>
    (ep_Kind p = EventKindMatch \<longleftrightarrow> ep_Home p \<noteq> zero_Competitor) \<and>
    (ep_Kind p = EventKindMatch \<longleftrightarrow> ep_Away p \<noteq> zero_Competitor)"
  by (cases "ep_Kind p") (auto simp: check_competitors_def Competitor_IsZero_def split: if_splits)

lemma NewEvent_wf: "NewEvent p = Inr e \<Longrightarrow> event_wf e"
  using check_competitors_ok [of p]
  by (auto simp: NewEvent_def event_wf_def result_simps time_defs zero_Score_def)

lemma event_step_wf:
  "event_step op e = Inr f \<Longrightarrow> event_op_built op \<Longrightarrow> event_wf e \<Longrightarrow> event_wf f"
  by (cases op)
    (auto simp: result_simps event_wf_def NewScore_ok NewGameClock_ok split: if_splits
      dest: can_event_valid)

lemma event_reachable_wf: "event_reachable e \<Longrightarrow> event_wf e"
  by (induction rule: event_reachable.induct) (auto intro: NewEvent_wf event_step_wf)

text \<open>An event that is over accepts no wager again, whatever updates arrive.\<close>

lemma over_stays_over:
  assumes "EventStatus_Valid (event_status e)" "1 \<le> event_stage (event_status e)"
  shows "\<not> Event_AcceptsWagers (run event_step ops e) \<and>
    \<not> EventStatus_IsInPlay (event_status (run event_step ops e))"
proof -
  have "1 \<le> event_stage (event_status (run event_step ops e))"
    using events.run_stage [OF assms(1), of ops] assms(2) by simp
  then show ?thesis
    by (auto simp: Event_AcceptsWagers_def EventStatus_AcceptsWagers_def EventStatus_IsInPlay_def)
qed

text \<open>The margin of a score that was built never wraps.\<close>

lemma Score_Margin_exact:
  assumes "NewScore h a = Inr s"
  shows "sint (Score_Margin s) = sint h - sint a"
  using assms sint64_bounds [of h] sint64_bounds [of a]
  by (auto simp: NewScore_ok Score_Margin_def sint_sub64 wrap64_id)

end
