(* ===== verification/Samples.thy ===== *)
theory Samples
  imports WagerLimits RoundRobin Settlement Event
begin

text \<open>
  Concrete quotes, legs and tickets, with the facts that place them in the model. The properties
  are instantiated on them.
\<close>

lemma fround_numeral [simp]:
  "(numeral n :: int) < 2 ^ 53 \<Longrightarrow> fround (numeral n) = Fin (numeral n)"
  "(numeral n :: int) < 2 ^ 53 \<Longrightarrow> fround (- numeral n) = Fin (- numeral n)"
  "fround 1 = Fin 1" "fround (- 1) = Fin (- 1)" "fround 0 = Fin 0"
  using fround_int [of "numeral n"] fround_int [of "- numeral n"] fround_int [of 1] fround_int [of "- 1"]
    fround_int [of 0]
  by simp_all

lemma round_by_numeral [simp]: "round_by r (numeral n) = numeral n"
  using round_by_int [of r "numeral n"] by simp

lemma fround_not_below: "0 < q \<Longrightarrow> \<not> flt (fround q) (Fin 0)"
  using rmag_nonneg [of q] by (auto simp: fround_def Let_def flt_def fsigned_def)

lemma straight_price:
  assumes "1 < q" "q \<le> 1000000000" "price_decimal (leg_price l) = Fin q"
  shows "validateTicketPrice WagerKindStraight (Fin q) [l] = Inr ()"
proof -
  have "fsub (Fin q) (Fin q) = Fin 0" by (simp add: fsub_def fneg_def fadd_def)
  then show ?thesis
    using assms fround_not_below [of "1 / 10 ^ 12"]
    by (auto simp: validateTicketPrice_def fle_def flt_def feq_def MinDecimalOdds_def MaxWagerDecimal_def
        Leg_QuotedDecimal_def fabs_def fdiv_def fmax_def Let_def fsigned_def ticketPriceTolerance_def split: if_splits)
qed

text \<open>A stake at odds for which the payout is a whole number of cents.\<close>

lemma MulFloat_whole:
  assumes "Rounding_Valid r" "safe_units (sint m)" "safe_units (sint k)"
    and q: "of_int (sint m) * q = of_int (sint k)" "sint k \<noteq> 0"
  shows "Money_MulFloat m (Fin q) r = Inr k"
proof -
  have "fround (of_int (sint k)) = Fin (of_int (sint k))"
    using assms(3) by (intro fround_int) simp
  then have p: "fproduct m (Fin q) = Fin (of_int (sint k))"
    using assms(2) q by (auto simp add: fproduct_safe is_finite_def simp del: of_int_sint)
  show ?thesis
    using assms(1,2,3) unfolding Money_MulFloat_ok mul_float_defined_def p
    by (simp add: is_finite_def del: of_int_sint)
qed

section \<open>Quotes and legs\<close>

text \<open>A moneyline quote of 5/2 on the selection \<open>s\<close>, and the leg \<open>i\<close> of a ticket at that quote.\<close>

definition sample_price :: "string \<Rightarrow> Price" where
  "sample_price s = \<lparr> price_selectionID = s, price_bookID = ''b1'', price_decimal = Fin (5 / 2),
     price_line = NoLine, price_observedAt = 5 \<rparr>"

definition sample_leg :: "string \<Rightarrow> string \<Rightarrow> string \<Rightarrow> Leg" where
  "sample_leg i m s = \<lparr> leg_id = i, leg_eventID = ''e1'', leg_marketID = m,
     leg_marketType = MarketTypeMoneyline, leg_selectionID = s, leg_role = SelectionRoleHome,
     leg_price = sample_price s, leg_teasedLine = NoLine, leg_status = LegStatusPending,
     leg_gradedAt = 0, leg_hasGradedAt = False \<rparr>"

lemma plain_id:
  "validID ''w1'' = Inr ()" "validID ''u1'' = Inr ()" "validID ''e1'' = Inr ()" "validID ''b1'' = Inr ()"
  "validID ''m1'' = Inr ()" "validID ''m2'' = Inr ()" "validID ''m3'' = Inr ()"
  "validID ''s1'' = Inr ()" "validID ''s2'' = Inr ()" "validID ''s3'' = Inr ()"
  "validID ''l1'' = Inr ()" "validID ''l2'' = Inr ()" "validID ''l3'' = Inr ()"
  "validID ''t1'' = Inr ()" "validID ''t2'' = Inr ()" "validID ''r1'' = Inr ()"
  by (simp_all add: validID_ok_iff id_char_def between_def byte_def)

lemma sample_price_built: "validID s = Inr () \<Longrightarrow> price_built (sample_price s)"
  by (simp add: price_built_def NewPrice_ok sample_price_def plain_id decimal_ok_def
      is_finite_def line_built_def NoLine_def)

lemma sample_leg_wf:
  "validID i = Inr () \<Longrightarrow> validID m = Inr () \<Longrightarrow> validID s = Inr () \<Longrightarrow> leg_wf (sample_leg i m s)"
  using sample_price_built
  by (simp add: leg_wf_def sample_leg_def plain_id AllowsRole_def NoLine_def LegStatus_IsTerminal_def)
    (simp add: sample_price_def)

section \<open>Tickets\<close>

definition sample_straight :: WagerParams where
  "sample_straight = \<lparr> wp_ID = ''w1'', wp_UserID = ''u1'', wp_Kind = WagerKindStraight,
     wp_Legs = [sample_leg ''l1'' ''m1'' ''s1''], wp_Stake = 1000, wp_AcceptedDecimal = Fin (5 / 2),
     wp_Rounding = RoundHalfToEven, wp_TeaserPoints = Fin 0, wp_RoundRobinID = [], wp_PlacedAt = 10 \<rparr>"

definition sample_ticket :: Wager where
  "sample_ticket = \<lparr> wager_id = ''w1'', wager_userID = ''u1'', wager_kind = WagerKindStraight,
     wager_legs = [sample_leg ''l1'' ''m1'' ''s1''], wager_stake = 1000,
     wager_accepted = Fin (5 / 2), wager_rounding = RoundHalfToEven, wager_payout = 2500,
     wager_profit = 1500, wager_teaserPoints = Fin 0, wager_hasTeaser = False,
     wager_roundRobinID = [], wager_status = WagerStatusPlaced, wager_returned = 0,
     wager_netReturn = 0, wager_hasReturned = False, wager_placedAt = 10, wager_updatedAt = 10 \<rparr>"

lemma sample_mul: "Money_MulFloat 1000 (Fin (5 / 2)) RoundHalfToEven = Inr 2500"
  by (rule MulFloat_whole) simp_all

lemma sample_placed: "NewWager sample_straight = Inr sample_ticket"
  by (simp add: NewWager_ok sample_straight_def sample_ticket_def plain_id validateLegSet_ok
      validateLegCount_ok sample_leg_def WagerKind_IsMulti_def validateTeaser_def feq_def NoLine_def
      validateRoundRobinParent_def id_is_zero_def sample_mul straight_price sample_price_def)

lemma sample_ticket_wf: "wager_wf sample_ticket"
  using NewWager_wf [OF sample_placed] sample_leg_wf by (simp add: sample_straight_def plain_id)

lemma sample_leg_reachable:
  assumes "validID i = Inr ()" "validID m = Inr ()" "validID s = Inr ()"
  shows "leg_reachable (sample_leg i m s)"
proof (rule leg_reachable.new_leg)
  let ?p = "\<lparr> lgp_ID = i, lgp_EventID = ''e1'', lgp_MarketID = m, lgp_MarketType = MarketTypeMoneyline,
    lgp_Role = SelectionRoleHome, lgp_SelectionID = s, lgp_Price = sample_price s, lgp_TeasedLine = NoLine \<rparr>"
  have "s \<noteq> []" using assms(3) by (simp add: validID_ok_iff)
  then show "NewLeg ?p = Inr (sample_leg i m s)"
    using assms
    by (simp add: NewLeg_def plain_id AllowsRole_def Price_IsZero_def id_is_zero_def NoLine_def sample_leg_def)
      (simp add: sample_price_def)
  show "price_built (lgp_Price ?p)" using sample_price_built assms(3) by simp
  show "line_built (lgp_TeasedLine ?p)" by (simp add: line_built_def)
qed

lemma sample_reachable: "wager_reachable sample_ticket"
  by (rule place_wager [OF sample_placed])
    (simp add: sample_straight_def sample_leg_reachable plain_id)

text \<open>The ticket after it won, was voided and lost.\<close>

definition sample_closed :: "WagerStatus \<Rightarrow> money \<Rightarrow> Wager" where
  "sample_closed s m = sample_ticket \<lparr> wager_updatedAt := 20, wager_status := s, wager_returned := m,
     wager_netReturn := m - 1000, wager_hasReturned := True \<rparr>"

lemma sample_settled:
  "wager_step (SettleOp WagerStatusWon 2500 20) sample_ticket = Inr (sample_closed WagerStatusWon 2500)"
  "wager_step (SettleOp WagerStatusVoid 1000 20) sample_ticket = Inr (sample_closed WagerStatusVoid 1000)"
  "wager_step (SettleOp WagerStatusLost 0 20) sample_ticket = Inr (sample_closed WagerStatusLost 0)"
  by (simp_all add: wager_step_ok sample_ticket_def sample_closed_def WagerStatus_IsGraded_def
      WagerStatus_CanTransitionTo_def WagerStatus_IsTerminal_def outcome_amount_def)

lemmas sample_won_reachable = change_wager [OF sample_reachable sample_settled(1)]
lemmas sample_won_wf = wager_reachable_wf [OF sample_won_reachable]
lemmas sample_void_wf = wager_reachable_wf [OF change_wager [OF sample_reachable sample_settled(2)]]

text \<open>A parlay of two legs that carry the same identifier, on different markets.\<close>

definition sample_parlay :: WagerParams where
  "sample_parlay = \<lparr> wp_ID = ''w1'', wp_UserID = ''u1'', wp_Kind = WagerKindParlay,
     wp_Legs = [sample_leg ''l1'' ''m1'' ''s1'', sample_leg ''l1'' ''m2'' ''s2''], wp_Stake = 1000,
     wp_AcceptedDecimal = Fin (5 / 2), wp_Rounding = RoundHalfToEven, wp_TeaserPoints = Fin 0,
     wp_RoundRobinID = [], wp_PlacedAt = 10 \<rparr>"

definition sample_parlay_ticket :: Wager where
  "sample_parlay_ticket = sample_ticket \<lparr> wager_kind := WagerKindParlay,
     wager_legs := [sample_leg ''l1'' ''m1'' ''s1'', sample_leg ''l1'' ''m2'' ''s2''] \<rparr>"

lemma sample_parlay_placed: "NewWager sample_parlay = Inr sample_parlay_ticket"
  by (simp add: NewWager_ok sample_parlay_def sample_parlay_ticket_def sample_ticket_def plain_id
      validateLegSet_ok validateLegCount_ok sample_leg_def WagerKind_IsMulti_def validateTeaser_def
      feq_def NoLine_def validateRoundRobinParent_def id_is_zero_def sample_mul validateTicketPrice_def
      fle_def flt_def MinDecimalOdds_def MaxWagerDecimal_def)

text \<open>
  An over of 46.5 teased by six points the wrong way, to 52.5, and the right way, to 40.5: the
  check of the ticket passes both.
\<close>

definition sample_teased :: "rat \<Rightarrow> Leg" where
  "sample_teased a = (sample_leg ''l1'' ''m1'' ''s1'') \<lparr> leg_marketType := MarketTypeTotal,
     leg_role := SelectionRoleOver,
     leg_price := (sample_price ''s1'') \<lparr> price_line := \<lparr> line_value = Fin (93 / 2), line_present = True \<rparr> \<rparr>,
     leg_teasedLine := \<lparr> line_value = Fin a, line_present = True \<rparr> \<rparr>"

lemma teased_both_ways:
  "check_teased (Fin 6) (sample_teased (105 / 2)) = Inr ()"
  "check_teased (Fin 6) (sample_teased (81 / 2)) = Inr ()"
proof -
  have tol: "0 \<le> fval teaserLineTolerance"
    using fround_not_below [of "1 / 10 ^ 9"] tolerance_finite
    by (auto simp: teaserLineTolerance_def flt_def is_finite_def)
  show "check_teased (Fin 6) (sample_teased (105 / 2)) = Inr ()"
    using check_teased_exact [of "sample_teased (105 / 2)" "105 / 2" "93 / 2" 6] tol
    by (simp add: sample_teased_def)
  show "check_teased (Fin 6) (sample_teased (81 / 2)) = Inr ()"
    using check_teased_exact [of "sample_teased (81 / 2)" "81 / 2" "93 / 2" 6] tol
    by (simp add: sample_teased_def)
qed

end
