(* ===== verification/WagerProperties.thy ===== *)
theory WagerProperties
  imports Samples
begin

text \<open>The properties of tickets (\<open>internal/domain/wager.go\<close>, \<open>leg.go\<close>) and of round robins.\<close>

text \<open>C1: Every ticket the code can produce is well formed. From its placement and after any
  sequence of accepted transitions it has the leg count of its kind, distinct selections and
  markets, legs that are themselves well formed, a stake and a payout that are representable and
  consistent with the accepted odds, and exactly when it is closed a returned amount that its
  outcome admits with the net return computed from it.\<close>

theorem every_ticket_wf: "wager_reachable w \<Longrightarrow> wager_wf w"
  by (rule wager_reachable_wf)

theorem every_ticket_wf_witness: "wager_wf (sample_closed WagerStatusWon 2500)"
  by (rule every_ticket_wf [OF sample_won_reachable])

text \<open>The return of a closed ticket is never negative and never above the payout quoted at
  placement, so the net return lies between losing the stake and winning the quoted profit.\<close>

theorem settlement_bounds:
  assumes "wager_reachable w" "WagerStatus_IsTerminal (wager_status w)"
  shows "0 \<le> sint (wager_returned w) \<and> sint (wager_returned w) \<le> sint (wager_payout w) \<and>
    - sint (wager_stake w) \<le> sint (wager_netReturn w) \<and> sint (wager_netReturn w) \<le> sint (wager_profit w)"
  using settled_bounds [OF wager_reachable_wf] assms by blast

theorem settlement_bounds_witness:
  "sint (wager_returned (sample_closed WagerStatusWon 2500)) \<le> sint (wager_payout (sample_closed WagerStatusWon 2500))"
  using settlement_bounds [OF sample_won_reachable]
  by (simp add: sample_closed_def WagerStatus_IsTerminal_def)

text \<open>What a ticket was sold as is frozen. No transition, refused or accepted, changes its
  identity, its owner, its stake, its accepted odds and rounding, its quoted payout and profit, its
  teaser points, its parent, its placement time or what any of its legs was booked at.\<close>

theorem ticket_frozen: "wager_ticket (run wager_step ops w) = wager_ticket w"
  by (rule run_ticket)

text \<open>C16: A closed ticket stays closed: after any sequence of transitions its status and its
  graded legs are the ones it closed with.\<close>

theorem closed_ticket_final:
  assumes "WagerStatus_IsTerminal (wager_status w)"
  shows "wager_status (run wager_step ops w) = wager_status w \<and>
    wager_legs (run wager_step ops w) = wager_legs w"
proof -
  have "wager_status (run wager_step ops w) = wager_status w \<and> wager_legs (run wager_step ops w) = wager_legs w"
    by (rule run_invariant [where P = "\<lambda>v. wager_status v = wager_status w \<and> wager_legs v = wager_legs w"])
      (use assms closed_step in auto)
  then show ?thesis .
qed

theorem closed_ticket_final_witness:
  "wager_status (run wager_step [OpenOp 30, SettleOp WagerStatusLost 0 40] (sample_closed WagerStatusWon 2500)) =
    WagerStatusWon"
  using closed_ticket_final [of "sample_closed WagerStatusWon 2500"
      "[OpenOp 30, SettleOp WagerStatusLost 0 40]"]
  by (simp add: sample_closed_def WagerStatus_IsTerminal_def)

text \<open>The amount returned on a lost, void or pushed ticket is final: no later sequence of
  transitions changes it.\<close>

theorem fixed_return_final:
  assumes "wager_reachable w" "wager_status w \<in> {WagerStatusLost, WagerStatusVoid, WagerStatusPush}"
  shows "wager_returned (run wager_step ops w) = wager_returned w"
  using fixed_amount_final wager_reachable_wf assms by blast

theorem fixed_return_final_witness:
  "wager_returned (run wager_step [SettleOp WagerStatusWon 2500 30] (sample_closed WagerStatusVoid 1000)) = 1000"
  using fixed_return_final [OF change_wager [OF sample_reachable sample_settled(2)],
      of "[SettleOp WagerStatusWon 2500 30]"]
  by (simp add: sample_closed_def del: run.simps)

text \<open>C38: A won ticket does accept a second settlement at a different amount: settling it again as
  won succeeds, and replaces the amount returned, for every amount between the stake and the quoted
  payout and every time not before the last update. The comment on \<open>Settle\<close> says that a settled
  ticket cannot be settled at another amount.\<close>

theorem won_ticket_resettles:
  assumes "wager_reachable w" "wager_status w = WagerStatusWon"
  shows "(\<exists>v. Wager_Settle w WagerStatusWon m t = Inr v \<and> wager_returned v = m) \<longleftrightarrow>
    sint (wager_stake w) \<le> sint m \<and> sint m \<le> sint (wager_payout w) \<and> t \<noteq> 0 \<and> wager_updatedAt w \<le> t"
  using won_resettles wager_reachable_wf assms by blast

theorem won_ticket_resettles_witness:
  "\<exists>v. Wager_Settle (sample_closed WagerStatusWon 2500) WagerStatusWon 1200 30 = Inr v \<and> wager_returned v = 1200"
  using won_ticket_resettles [OF sample_won_reachable, of 1200 30]
  by (simp add: sample_closed_def sample_ticket_def)

text \<open>A leg that stands behind another leg with the same identifier can never be graded:
  whatever sequence of transitions is attempted, it stays as it was booked. \<open>NewWager\<close> admits such
  a ticket, since it checks selections and markets for duplicates and not leg identifiers.\<close>

theorem shadowed_leg_never_graded:
  assumes "leg_index (leg_id (wager_legs w ! j)) (wager_legs w) \<noteq> Some j"
  shows "wager_legs (run wager_step ops w) ! j = wager_legs w ! j"
  using assms by (rule shadowed_run)

theorem shadowed_leg_never_graded_witness:
  "NewWager sample_parlay = Inr sample_parlay_ticket \<and>
    leg_status (wager_legs (run wager_step
      [GradeLegOp ''l1'' LegStatusWon 20, GradeLegOp ''l1'' LegStatusWon 30] sample_parlay_ticket) ! 1) =
    LegStatusPending"
  using sample_parlay_placed shadowed_leg_never_graded [of sample_parlay_ticket 1
      "[GradeLegOp ''l1'' LegStatusWon 20, GradeLegOp ''l1'' LegStatusWon 30]"]
  by (simp add: sample_parlay_ticket_def sample_leg_def)

text \<open>The last guard of \<open>NewWager\<close> never fires: at odds the earlier checks let through, a
  positive stake is never rounded to a payout below it, under any of the rounding modes.\<close>

theorem payout_never_below_stake: "NewWager p \<noteq> Inl ErrPayoutBelowStake"
  by (rule guard_never_fires)

end
