(* ===== verification/LedgerProperties.thy ===== *)
theory LedgerProperties
  imports Samples
begin

text \<open>The properties of the double-entry ledger (\<open>internal/domain/ledger.go\<close>).\<close>

section \<open>A sample transaction\<close>

definition sample_grant_params :: TransactionParams where
  "sample_grant_params = \<lparr> tp_ID = ''t1'', tp_Kind = EntryKindGrant,
     tp_Entries = [entry IssuanceAccount (- 5000) EntryKindGrant, entry (cash_of ''u1'') 5000 EntryKindGrant],
     tp_WagerID = [], tp_OccurredAt = 5 \<rparr>"

definition sample_grant :: Transaction where
  "sample_grant = \<lparr> txn_id = ''t1'', txn_kind = EntryKindGrant,
     txn_entries = [entry IssuanceAccount (- 5000) EntryKindGrant, entry (cash_of ''u1'') 5000 EntryKindGrant],
     txn_wagerID = [], txn_hasWager = False, txn_occurredAt = 5 \<rparr>"

lemma sample_granted: "NewTransaction sample_grant_params = Inr sample_grant"
proof -
  have "transferEntries EntryKindGrant IssuanceAccount (cash_of ''u1'') 5000 = Inr (tp_Entries sample_grant_params)"
    by (simp add: transferEntries_ok IssuanceAccount_def sample_grant_params_def)
  from transfer_transaction [OF this, of "''t1''" "[]" 5 sample_grant] show ?thesis
    by (simp add: sample_grant_params_def sample_grant_def plain_id)
qed

section \<open>Properties\<close>

text \<open>C2: A transaction exists only if it balances: \<open>NewTransaction\<close> succeeds exactly on a valid
  identifier, kind, time and optional ticket reference and on at least two entries, each of a known
  account, of the transaction's kind and of a non-zero amount, whose running sum stays representable
  and ends at zero. The exact sum of the amounts of a transaction is then zero.\<close>

theorem transactions_balance:
  assumes "NewTransaction p = Inr t"
  shows "(\<Sum>e \<leftarrow> txn_entries t. sint (entry_amount e)) = 0 \<and> 2 \<le> length (txn_entries t) \<and>
    list_all (\<lambda>e. entry_kind e = txn_kind t \<and> sint (entry_amount e) \<noteq> 0 \<and>
      acc_kind (entry_account e) \<noteq> AccountKindUnknown) (txn_entries t) \<and>
    txn_entries t = tp_Entries p"
proof -
  have "units (amounts_of (tp_Entries p)) = 0"
    using assms SumMoney_ok [of "amounts_of (tp_Entries p)" ZeroMoney]
    by (simp add: NewTransaction_ok)
  then show ?thesis
    using assms by (simp add: NewTransaction_ok check_entries_ok comp_def list_all_iff del: check_entries.simps)
qed

theorem transactions_balance_witness:
  "(\<Sum>e \<leftarrow> txn_entries sample_grant. sint (entry_amount e)) = 0"
  using transactions_balance [OF sample_granted] by (rule conjunct1)

text \<open>The audit over a ledger of constructed transactions never fails, neither with an
  imbalance nor with an overflow: the running total is back at zero after every transaction and
  stays representable inside each.\<close>

theorem audit_succeeds:
  assumes "\<forall>t \<in> set ts. \<exists>p. NewTransaction p = Inr t"
  shows "LedgerIsBalanced ts = Inr ()"
  using assms by (intro audit_never_fails) (auto simp: list_all_iff dest: NewTransaction_wf)

theorem audit_succeeds_witness: "LedgerIsBalanced [sample_grant, sample_grant] = Inr ()"
  by (rule audit_succeeds) (use sample_granted in auto)

text \<open>The balances computed over a ledger of constructed transactions sum to zero exactly: no
  money is created or destroyed, whatever the accounts.\<close>

theorem balances_conserve:
  assumes "\<forall>t \<in> set ts. \<exists>p. NewTransaction p = Inr t" "Balances ts = Inr out"
  shows "(\<Sum>a \<in> dom out. sint (balance_at out a)) = 0"
  using assms by (intro Balances_sum_zero) (auto simp: list_all_iff dest: NewTransaction_wf)

theorem balances_conserve_witness:
  "\<exists>out. Balances [sample_grant] = Inr out \<and> (\<Sum>a \<in> dom out. sint (balance_at out a)) = 0"
proof -
  obtain out where "Balances [sample_grant] = Inr out"
    by (simp add: Balances_def sample_grant_def Money_Add_eq ZeroMoney_def balance_at_def IssuanceAccount_def)
  with balances_conserve [of "[sample_grant]"] sample_granted show ?thesis by auto
qed

text \<open>The two ways to read a balance agree: where both the fold for one account and the fold for
  all accounts succeed, they give the same amount.\<close>

theorem balance_agrees:
  assumes "Balance a ts = Inr m" "Balances ts = Inr out"
  shows "balance_at out a = m"
  using Balance_exact [OF assms(1)] Balances_exact(1) [OF assms(2), of a] by (simp flip: sint_eq_iff)

theorem balance_agrees_witness:
  "\<exists>out. Balances [sample_grant] = Inr out \<and> balance_at out (cash_of ''u1'') = 5000"
proof -
  obtain out where out: "Balances [sample_grant] = Inr out"
    by (simp add: Balances_def sample_grant_def Money_Add_eq ZeroMoney_def balance_at_def IssuanceAccount_def)
  have "Balance (cash_of ''u1'') [sample_grant] = Inr 5000"
    by (simp add: Balance_def Transaction_NetFor_def sample_grant_def Account_IsZero_def Money_Add_eq
        ZeroMoney_def IssuanceAccount_def)
  from balance_agrees [OF this out] out show ?thesis by auto
qed

text \<open>Placing a ticket can always be booked: for every ticket the code can produce the stake
  transaction exists, balances, names the ticket, and moves exactly the stake from the customer's
  cash to the customer's escrow.\<close>

theorem stake_books:
  assumes "wager_reachable w" "validID i = Inr ()" "t \<noteq> 0"
  shows "\<exists>x. NewStakeTransaction i w t = Inr x \<and> txn_wf x \<and> txn_wagerID x = wager_id w \<and>
    (\<forall>a. effect a (txn_entries x) =
      (if a = escrow_of (wager_userID w) then sint (wager_stake w) else 0) -
      (if a = cash_of (wager_userID w) then sint (wager_stake w) else 0))"
  using NewStakeTransaction_total wager_reachable_wf assms by blast

theorem stake_books_witness: "\<exists>x. NewStakeTransaction ''t1'' sample_ticket 11 = Inr x \<and> txn_wf x"
  using stake_books [OF sample_reachable plain_id(14), of 11] by auto

text \<open>C24: Closing a ticket can always be booked: for every closed ticket the settlement transaction
  exists, balances, releases the stake from escrow, pays the returned amount to the customer's cash
  and leaves the difference with the house. It is well defined at an amount of zero on any side.\<close>

theorem settlement_books:
  assumes "wager_reachable w" "WagerStatus_IsTerminal (wager_status w)" "validID i = Inr ()" "t \<noteq> 0"
  shows "\<exists>x. NewSettlementTransaction i w t = Inr x \<and> txn_wf x \<and> txn_wagerID x = wager_id w \<and>
    (\<forall>a. effect a (txn_entries x) =
      (if a = cash_of (wager_userID w) then sint (wager_returned w) else 0) -
      (if a = escrow_of (wager_userID w) then sint (wager_stake w) else 0) +
      (if a = HouseAccount then sint (wager_stake w) - sint (wager_returned w) else 0))"
  using NewSettlementTransaction_total wager_reachable_wf assms by blast

theorem settlement_books_witness:
  "\<exists>x. NewSettlementTransaction ''t2'' (sample_closed WagerStatusWon 2500) 21 = Inr x \<and> txn_wf x"
  using settlement_books [OF sample_won_reachable _ plain_id(15), of 21]
  by (auto simp: sample_closed_def WagerStatus_IsTerminal_def)

text \<open>C10: Over the life of a ticket the two transactions cancel in escrow and move exactly the net
  return between the customer's cash and the house, whatever the transitions in between.\<close>

theorem ticket_life_nets_out:
  assumes "wager_reachable w" "run wager_step ops w = v"
    and "WagerStatus_IsTerminal (wager_status v)"
    and "NewStakeTransaction i w s = Inr x" "NewSettlementTransaction j v t = Inr y"
  shows "effect a (txn_entries x @ txn_entries y) =
    (if a = cash_of (wager_userID w) then sint (wager_netReturn v) else 0) -
    (if a = HouseAccount then sint (wager_netReturn v) else 0)"
proof (rule stake_then_settle [OF _ _ _ assms(3,4,5)])
  have "wager_reachable (run wager_step ops w)"
    by (rule run_invariant [where P = wager_reachable]) (use assms(1) change_wager in auto)
  then show "wager_wf w" "wager_wf v" using assms(1,2) wager_reachable_wf by auto
  show "wager_ticket v = wager_ticket w" using run_ticket [of ops w] by (simp only: assms(2))
qed

theorem ticket_life_nets_out_witness:
  "\<exists>x y. NewStakeTransaction ''t1'' sample_ticket 11 = Inr x \<and>
    NewSettlementTransaction ''t2'' (sample_closed WagerStatusWon 2500) 21 = Inr y \<and>
    effect (cash_of ''u1'') (txn_entries x @ txn_entries y) = 1500"
proof -
  let ?v = "sample_closed WagerStatusWon 2500"
  have v: "run wager_step [SettleOp WagerStatusWon 2500 20] sample_ticket = ?v"
    using sample_settled(1) by (simp del: wager_step.simps)
  have t: "WagerStatus_IsTerminal (wager_status ?v)"
    by (simp add: sample_closed_def WagerStatus_IsTerminal_def)
  obtain x y where xy: "NewStakeTransaction ''t1'' sample_ticket 11 = Inr x"
      "NewSettlementTransaction ''t2'' ?v 21 = Inr y"
    using NewStakeTransaction_total [OF sample_ticket_wf plain_id(14), of 11]
      NewSettlementTransaction_total [OF sample_won_wf t plain_id(15), of 21] by auto
  have "effect (cash_of ''u1'') (txn_entries x @ txn_entries y) = 1500"
    using ticket_life_nets_out [OF sample_reachable v t xy, of "cash_of ''u1''"]
    by (simp add: sample_ticket_def sample_closed_def HouseAccount_def)
  with xy show ?thesis by blast
qed

end
