(* ===== verification/RoundRobinProperties.thy ===== *)
theory RoundRobinProperties
  imports Samples
begin

text \<open>The properties of round robins (\<open>internal/domain/wager.go\<close>).\<close>

section \<open>A sample round robin\<close>

definition sample_rr_params :: RoundRobinParams where
  "sample_rr_params = \<lparr> rrp_ID = ''r1'', rrp_UserID = ''u1'',
     rrp_Legs = [sample_leg ''l1'' ''m1'' ''s1'', sample_leg ''l2'' ''m2'' ''s2'', sample_leg ''l3'' ''m3'' ''s3''],
     rrp_Sizes = [3, 2, 2], rrp_Stake = 500, rrp_PlacedAt = 10 \<rparr>"

definition sample_rr :: RoundRobin where
  "sample_rr = \<lparr> rr_id = ''r1'', rr_userID = ''u1'',
     rr_legs = [sample_leg ''l1'' ''m1'' ''s1'', sample_leg ''l2'' ''m2'' ''s2'', sample_leg ''l3'' ''m3'' ''s3''],
     rr_sizes = [2, 3], rr_stake = 500, rr_placedAt = 10 \<rparr>"

lemma sample_rr_new: "NewRoundRobin sample_rr_params = Inr sample_rr"
proof -
  have "validateLegSet (rrp_Legs sample_rr_params) = Inr (rrp_Legs sample_rr_params)"
    by (simp add: validateLegSet_ok sample_rr_params_def sample_leg_def)
  then show ?thesis
    by (simp add: NewRoundRobin_def sample_rr_params_def sample_rr_def plain_id MaxRoundRobinLegs_def
        Money_IsPositive_iff time_defs)
qed

section \<open>Properties\<close>

text \<open>C15: The odometer loop terminates and enumerates combinations correctly: for every admissible
  size it returns all strictly increasing index lists of that size below the number of legs, each
  once, in lexicographic order, so their number is the binomial coefficient.\<close>

theorem combinations_enumerated:
  assumes "1 \<le> k" "k \<le> int n"
  shows "\<exists>out. combinationIndexes n k = Some out \<and>
    set out = {xs. length xs = nat k \<and> sorted_wrt (<) xs \<and> set xs \<subseteq> {..<n}} \<and>
    sorted_wrt (<) out \<and> length out = n choose nat k"
proof -
  obtain out where out: "combinationIndexes n k = Some out" using combinationIndexes_eq [OF assms] by blast
  have "index_lists n (nat k) = {xs. length xs = nat k \<and> sorted_wrt (<) xs \<and> set xs \<subseteq> {..<n}}"
    by (auto simp: index_lists_def)
  with combinationIndexes_props [OF assms out] out show ?thesis by simp
qed

theorem combinations_enumerated_witness:
  "\<exists>out. combinationIndexes 4 2 = Some out \<and> length out = 6"
  using combinations_enumerated [of 2 4] by (auto simp: numeral_eq_Suc)

text \<open>The ticket of a combination.\<close>

definition ticket_of :: "RoundRobin \<Rightarrow> Leg list \<Rightarrow> string \<Rightarrow> f64 \<Rightarrow> Rounding \<Rightarrow> WagerParams" where
  "ticket_of r combo tid quoted rounding =
     \<lparr> wp_ID = tid, wp_UserID = rr_userID r, wp_Kind = WagerKindRoundRobin, wp_Legs = combo, wp_Stake = rr_stake r,
       wp_AcceptedDecimal = quoted, wp_Rounding = rounding, wp_TeaserPoints = Fin 0, wp_RoundRobinID = rr_id r,
       wp_PlacedAt = rr_placedAt r \<rparr>"

abbreviation teased :: "Leg \<Rightarrow> bool" where "teased leg \<equiv> line_present (leg_teasedLine leg)"

lemma NewRoundRobin_fields:
  assumes "NewRoundRobin p = Inr r"
  shows "validID (rr_id r) = Inr ()" "validID (rr_userID r) = Inr ()" "\<not> time_is_zero (rr_placedAt r)" "Money_IsPositive (rr_stake r)"
  using assms by (auto simp: NewRoundRobin_def result_simps Let_def time_defs split: if_splits)

text \<open>A combination passes every check of \<open>NewWager\<close> on its legs but that on teased lines.\<close>

lemma combination_ticket:
  assumes "NewRoundRobin p = Inr r" "Combinations r = Some combos" "combo \<in> set combos" "validID tid = Inr ()"
    "validateTicketPrice WagerKindRoundRobin quoted combo = Inr ()" "Rounding_Valid rounding"
    "Money_MulFloat (rr_stake r) quoted rounding = Inr payout" "\<not> Money_Compare payout (rr_stake r) < 0"
    "Money_Sub payout (rr_stake r) = Inr profit"
  shows "if list_ex teased combo then NewWager (ticket_of r combo tid quoted rounding) = Inl ErrTeasedLegNotApplicable
    else \<exists>w. NewWager (ticket_of r combo tid quoted rounding) = Inr w \<and> wager_legs w = combo \<and>
      wager_stake w = rr_stake r \<and> wager_roundRobinID w = rr_id r \<and> wager_kind w = WagerKindRoundRobin"
proof -
  note f = NewRoundRobin_fields [OF assms(1)]
  note v = combination_valid [OF NewRoundRobin_wf [OF assms(1)] assms(2,3)]
  have "WagerKind_Valid WagerKindRoundRobin" by simp
  moreover have "validateRoundRobinParent WagerKindRoundRobin (rr_id r) = Inr ()" using f(1) by (simp add: validateRoundRobinParent_def)
  moreover have "validateTeaser WagerKindRoundRobin (Fin 0) combo =
      (if list_ex teased combo then Inl ErrTeasedLegNotApplicable else Inr ())"
    by (simp add: validateTeaser_def feq_def)
  ultimately show ?thesis using f v assms(4-9) by (simp add: NewWager_def ticket_of_def)
qed

text \<open>C36: A round robin expands to distinct combinations of the sizes asked for; the announced count is their
  number, and it lies between 1 and 1013. At a price, rounding and identifier that a ticket may have and a payout in range, the
  ticket of a combination is accepted by \<open>NewWager\<close>, with exactly these legs and this stake, when no leg of it is teased; when one
  is, it is refused for that.\<close>

theorem round_robin_expands:
  assumes "NewRoundRobin p = Inr r"
  shows "\<exists>combos. Combinations r = Some combos \<and> CombinationCount r = Some (int (length combos)) \<and>
    distinct combos \<and> 1 \<le> length combos \<and> length combos \<le> 1013 \<and>
    (\<forall>combo \<in> set combos. int (length combo) \<in> set (rr_sizes r) \<and>
      (\<forall>tid quoted rounding payout profit. validID tid = Inr () \<longrightarrow> Rounding_Valid rounding \<longrightarrow>
        validateTicketPrice WagerKindRoundRobin quoted combo = Inr () \<longrightarrow>
        Money_MulFloat (rr_stake r) quoted rounding = Inr payout \<longrightarrow> \<not> Money_Compare payout (rr_stake r) < 0 \<longrightarrow>
        Money_Sub payout (rr_stake r) = Inr profit \<longrightarrow>
        (if list_ex teased combo then NewWager (ticket_of r combo tid quoted rounding) = Inl ErrTeasedLegNotApplicable
         else \<exists>w. NewWager (ticket_of r combo tid quoted rounding) = Inr w \<and> wager_legs w = combo \<and>
           wager_stake w = rr_stake r \<and> wager_roundRobinID w = rr_id r \<and> wager_kind w = WagerKindRoundRobin)))"
proof -
  have wf: "rr_wf r" using assms by (rule NewRoundRobin_wf)
  obtain combos where c: "Combinations r = Some combos" using Combinations_eq [OF wf] by blast
  then have n: "CombinationCount r = Some (int (length combos))"
    using wf by (auto simp: CombinationCount_eq Combinations_eq)
  have "1 \<le> length combos" "length combos \<le> 1013" using CombinationCount_bound [OF wf n] by simp_all
  moreover have "\<forall>combo \<in> set combos. int (length combo) \<in> set (rr_sizes r)" using combination_valid [OF wf c] by blast
  ultimately show ?thesis
    using c n combinations_distinct [OF wf c] combination_ticket [OF assms c] by blast
qed

theorem round_robin_expands_witness:
  "\<exists>combos. Combinations sample_rr = Some combos \<and> distinct combos \<and> 1 \<le> length combos"
  using round_robin_expands [OF sample_rr_new] by blast

text \<open>The total stake of a round robin is the exact sum of the stakes of its tickets, and it is
  refused exactly when that sum is not representable.\<close>

theorem round_robin_stake:
  assumes "NewRoundRobin p = Inr r" "Combinations r = Some combos"
  shows "TotalStake r = Some (Inr t) \<longleftrightarrow>
    \<bar>(\<Sum>c \<leftarrow> combos. sint (rr_stake r))\<bar> \<le> sint MaxSafeMoney \<and> sint t = (\<Sum>c \<leftarrow> combos. sint (rr_stake r))"
  using TotalStake_sum [OF NewRoundRobin_wf [OF assms(1)] assms(2), of t] by (simp add: comp_def)

theorem round_robin_stake_witness: "\<exists>t. TotalStake sample_rr = Some (Inr t) \<and> 0 < sint t"
proof -
  obtain combos where c: "Combinations sample_rr = Some combos" "1 \<le> length combos" "length combos \<le> 1013"
    using round_robin_expands [OF sample_rr_new] by blast
  have "(\<Sum>c \<leftarrow> combos. sint (rr_stake sample_rr)) = 500 * int (length combos)"
    by (simp add: sample_rr_def sum_list_triv)
  moreover define t :: money where "t = word_of_int (500 * int (length combos))"
  moreover have "sint t = 500 * int (length combos)"
    using c unfolding t_def by (simp only: sint_of_int64) (rule wrap64_id, simp_all)
  ultimately have "TotalStake sample_rr = Some (Inr t)"
    using c round_robin_stake [OF sample_rr_new c(1), of t] by simp
  with \<open>sint t = _\<close> c(2) show ?thesis by auto
qed

end
