(* ===== verification/MoneyText.thy ===== *)
theory MoneyText
  imports Money
begin

text \<open>
  \<open>Money.String\<close> and \<open>ParseMoney\<close>. The parser is translated loop by loop, with its 64-bit
  accumulators and overflow checks, and is shown to accept exactly the narrow grammar its
  documentation gives, with the value that grammar denotes.
\<close>

section \<open>Rendering\<close>

definition FormatInt :: "int64 \<Rightarrow> string" where
  "FormatInt n =
     (if n <s 0 then CHR ''-'' # format_nat (nat (- sint n)) else format_nat (nat (sint n)))"

definition twoDigits :: "int64 \<Rightarrow> string" where
  "twoDigits n = (if n <s 10 then ''0'' @ FormatInt n else FormatInt n)"

definition Money_String :: "money \<Rightarrow> string" where
  "Money_String m =
     (case Money_Split m of (major, minor, sign) \<Rightarrow>
        if sign < 0 then ''-'' @ FormatInt major @ ''.'' @ twoDigits minor
        else FormatInt major @ ''.'' @ twoDigits minor)"

section \<open>Parsing\<close>

definition MaxUint64 :: uint64 where "MaxUint64 = 18446744073709551615"

text \<open>The integer-digit loop: magnitude so far, digits read, rest of the input.\<close>

fun parse_int_digits :: "uint64 \<Rightarrow> nat \<Rightarrow> string \<Rightarrow> (uint64 \<times> nat \<times> string) res" where
  "parse_int_digits mag intDigits [] = Inr (mag, intDigits, [])"
| "parse_int_digits mag intDigits (c # cs) =
     (if is_digit c then
        let d = word_of_nat (digit_val c) in
        if MaxUint64 div 10 < mag \<or> (mag = MaxUint64 div 10 \<and> MaxUint64 mod 10 < d)
        then Inl ErrMoneyOverflow
        else parse_int_digits (mag * 10 + d) (Suc intDigits) cs
      else Inr (mag, intDigits, c # cs))"

text \<open>The fraction-digit loop.\<close>

fun parse_frac_digits :: "int64 \<Rightarrow> nat \<Rightarrow> string \<Rightarrow> (int64 \<times> nat \<times> string) res" where
  "parse_frac_digits frc fracDigits [] = Inr (frc, fracDigits, [])"
| "parse_frac_digits frc fracDigits (c # cs) =
     (if is_digit c then
        if fracDigits = 2 then Inl ErrMoneyPrecision
        else parse_frac_digits (frc * 10 + word_of_nat (digit_val c)) (Suc fracDigits) cs
      else Inr (frc, fracDigits, c # cs))"

definition parse_sign :: "string \<Rightarrow> bool \<times> string" where
  "parse_sign s = (case s of
     c # cs \<Rightarrow> if c = CHR ''+'' \<or> c = CHR ''-'' then (c = CHR ''-'', cs) else (False, s)
   | [] \<Rightarrow> (False, s))"

definition parse_fraction :: "string \<Rightarrow> (int64 \<times> nat \<times> string) res" where
  "parse_fraction s = (case s of
     c # cs \<Rightarrow>
       if c = CHR ''.'' then
         bindE (parse_frac_digits 0 0 cs) (\<lambda>(frc, fracDigits, rest).
           if fracDigits = 0 then Inl ErrMoneySyntax else Inr (frc, fracDigits, rest))
       else Inr (0, 0, s)
   | [] \<Rightarrow> Inr (0, 0, s))"

definition ParseMoney :: "string \<Rightarrow> money res" where
  "ParseMoney s =
     (case parse_sign s of (neg, s1) \<Rightarrow>
      bindE (parse_int_digits 0 0 s1) (\<lambda>(mag, intDigits, s2).
      if intDigits = 0 then Inl ErrMoneySyntax else
      bindE (parse_fraction s2) (\<lambda>(frac0, fracDigits, s3).
      if s3 \<noteq> [] then Inl ErrMoneySyntax else
      let frc = (if fracDigits = 1 then frac0 * 10 else frac0) in
      if MaxUint64 div MinorUnitsPerMajor < mag then Inl ErrMoneyOverflow else
      let hundred = mag * MinorUnitsPerMajor in
      if MaxUint64 - frc < hundred then Inl ErrMoneyOverflow else
      let units = hundred + frc in
      if MaxSafeMoney < units then Inl ErrMoneyOverflow
      else if neg then Inr (- units) else Inr units)))"

section \<open>The loops\<close>

lemma unat_lt64: "unat (w :: uint64) < 2 ^ 64"
  using unsigned_less [of w, where 'a = nat] by simp

lemma unat_digit: "is_digit c \<Longrightarrow> unat (word_of_nat (digit_val c) :: uint64) = digit_val c"
  using digit_val_less [of c] by (simp add: unat_of_nat)

lemma parse_int_step:
  fixes mag d :: uint64
  assumes "unat d < 10"
  shows "MaxUint64 div 10 < mag \<or> (mag = MaxUint64 div 10 \<and> MaxUint64 mod 10 < d) \<longleftrightarrow>
      2 ^ 64 \<le> 10 * unat mag + unat d"
    and "10 * unat mag + unat d < 2 ^ 64 \<Longrightarrow> unat (mag * 10 + d) = 10 * unat mag + unat d"
proof -
  have q: "unat (MaxUint64 div 10) = 1844674407370955161" "unat (MaxUint64 mod 10) = 5"
    by (simp_all add: MaxUint64_def unat_div unat_mod)
  show "MaxUint64 div 10 < mag \<or> (mag = MaxUint64 div 10 \<and> MaxUint64 mod 10 < d) \<longleftrightarrow>
      2 ^ 64 \<le> 10 * unat mag + unat d"
    using assms by (simp add: word_less_nat_alt word_unat_eq_iff q) linarith
  assume "10 * unat mag + unat d < 2 ^ 64"
  then show "unat (mag * 10 + d) = 10 * unat mag + unat d"
    by (simp add: unat_word_ariths)
qed

text \<open>A maximal run of digits.\<close>

definition digit_split :: "string \<Rightarrow> string \<Rightarrow> string \<Rightarrow> bool" where
  "digit_split s ds rest =
     (s = ds @ rest \<and> list_all is_digit ds \<and> (case rest of [] \<Rightarrow> True | c # _ \<Rightarrow> \<not> is_digit c))"

lemma digit_split_Nil [simp]: "digit_split [] ds rest \<longleftrightarrow> ds = [] \<and> rest = []"
  by (auto simp: digit_split_def)

lemma digit_split_Cons:
  "digit_split (c # cs) ds rest \<longleftrightarrow>
    (if is_digit c then \<exists>ds'. ds = c # ds' \<and> digit_split cs ds' rest else ds = [] \<and> rest = c # cs)"
  by (cases ds) (auto simp: digit_split_def)

lemma parse_int_digits_ok:
  "parse_int_digits mag k s = Inr (mag', k', rest) \<longleftrightarrow>
    (\<exists>ds. digit_split s ds rest \<and> read_digits (unat mag) ds < 2 ^ 64 \<and>
          unat mag' = read_digits (unat mag) ds \<and> k' = k + length ds)"
proof (induction mag k s rule: parse_int_digits.induct)
  case (1 mag k)
  then show ?case using unat_lt64 [of mag'] by (auto simp: word_unat_eq_iff)
next
  case (2 mag k c cs)
  show ?case
  proof (cases "is_digit c")
    case False
    then show ?thesis
      using unat_lt64 [of mag'] by (auto simp: digit_split_Cons word_unat_eq_iff)
  next
    case True
    define d where "d = (word_of_nat (digit_val c) :: uint64)"
    have d: "unat d = digit_val c" "unat d < 10"
      using True by (simp_all add: d_def unat_digit digit_val_less)
    note step = parse_int_step [OF d(2), of mag, unfolded d(1)]
    show ?thesis
    proof (cases "2 ^ 64 \<le> 10 * unat mag + digit_val c")
      case over: True
      have "\<not> read_digits (10 * unat mag + digit_val c) ds < 2 ^ 64" for ds
        using read_digits_ge [of "10 * unat mag + digit_val c" ds] over by linarith
      then show ?thesis using True step(1) over by (auto simp: digit_split_Cons Let_def simp flip: d_def)
    next
      case fits: False
      then have "unat (mag * 10 + d) = 10 * unat mag + digit_val c" by (intro step(2)) simp
      then show ?thesis
        using True step(1) fits "2.IH" [OF True, of d]
        by (auto simp: digit_split_Cons Let_def simp flip: d_def)
    qed
  qed
qed

lemma parse_frac_step:
  fixes frc :: int64
  assumes "is_digit c" "unat frc < 10 ^ k" "k < 2"
  shows "unat (frc * 10 + word_of_nat (digit_val c)) = 10 * unat frc + digit_val c"
    "10 * unat frc + digit_val c < 10 ^ Suc k"
proof -
  have c: "digit_val c < 10" using assms(1) by (rule digit_val_less)
  then show "10 * unat frc + digit_val c < 10 ^ Suc k" using assms(2) by simp
  have "10 ^ k \<le> (10::nat)" using assms(3) by (cases k) simp_all
  then have "unat frc < 10" using assms(2) by linarith
  then show "unat (frc * 10 + word_of_nat (digit_val c)) = 10 * unat frc + digit_val c"
    using c assms(1) by (simp add: unat_word_ariths unat_digit)
qed

lemma parse_frac_digits_iff:
  "unat frc < 10 ^ k \<Longrightarrow> k \<le> 2 \<Longrightarrow>
    parse_frac_digits frc k s = Inr (frc', k', rest) \<longleftrightarrow>
    (\<exists>ds. digit_split s ds rest \<and> k' = k + length ds \<and> k' \<le> 2 \<and>
          unat frc' = read_digits (unat frc) ds)"
proof (induction frc k s rule: parse_frac_digits.induct)
  case (1 frc k)
  then show ?case by (auto simp: word_unat_eq_iff)
next
  case (2 frc k c cs)
  show ?case
  proof (cases "is_digit c")
    case False
    then show ?thesis using "2.prems" by (auto simp: digit_split_Cons word_unat_eq_iff)
  next
    case True
    show ?thesis
    proof (cases "k = 2")
      case k2: True
      then show ?thesis using True by (auto simp: digit_split_Cons)
    next
      case k2: False
      then have "k < 2" using "2.prems"(2) by simp
      note step = parse_frac_step [OF True "2.prems"(1) this]
      show ?thesis
        using True k2 "2.IH" [OF True k2] step "2.prems"(2)
        by (auto simp: digit_split_Cons)
    qed
  qed
qed

lemma read_digits_bound: "list_all is_digit ds \<Longrightarrow> read_digits a ds < (a + 1) * 10 ^ length ds"
proof (induction ds arbitrary: a)
  case (Cons c ds)
  have "read_digits (10 * a + digit_val c) ds < (10 * a + digit_val c + 1) * 10 ^ length ds"
    using Cons by simp
  also have "\<dots> \<le> (10 * (a + 1)) * 10 ^ length ds"
    using Cons.prems digit_val_less [of c] by (intro mult_right_mono) simp_all
  finally show ?case by (simp add: algebra_simps)
qed simp

section \<open>The grammar\<close>

text \<open>
  \<open>money := sign? digits ('.' frac)?\<close> with one or two fraction digits; the fraction counts
  minor units, a single digit tens of them.
\<close>

definition cents :: "string \<Rightarrow> nat" where
  "cents fs = (if length fs = 1 then 10 * read_digits 0 fs else read_digits 0 fs)"

definition literal :: "string \<Rightarrow> string \<Rightarrow> string \<Rightarrow> string" where
  "literal sg ds fs = sg @ ds @ (if fs = [] then [] else CHR ''.'' # fs)"

definition literal_ok :: "string \<Rightarrow> string \<Rightarrow> string \<Rightarrow> bool" where
  "literal_ok sg ds fs =
     (sg \<in> {[], ''+'', ''-''} \<and> ds \<noteq> [] \<and> list_all is_digit ds \<and> list_all is_digit fs \<and> length fs \<le> 2)"

definition literal_units :: "string \<Rightarrow> string \<Rightarrow> string \<Rightarrow> int" where
  "literal_units sg ds fs =
     (let u = int (100 * read_digits 0 ds + cents fs) in if sg = ''-'' then - u else u)"

lemma parse_fraction_iff:
  "parse_fraction s = Inr (frc, k, []) \<longleftrightarrow>
    (\<exists>fs. s = (if fs = [] then [] else CHR ''.'' # fs) \<and> list_all is_digit fs \<and> length fs \<le> 2 \<and>
          k = length fs \<and> unat frc = read_digits 0 fs)"
proof (cases s)
  case Nil
  then show ?thesis by (auto simp: parse_fraction_def word_unat_eq_iff)
next
  case (Cons c cs)
  show ?thesis
  proof (cases "c = CHR ''.''")
    case False
    then show ?thesis by (auto simp: parse_fraction_def Cons)
  next
    case True
    have "parse_frac_digits 0 0 cs = Inr (frc, k, []) \<longleftrightarrow>
        list_all is_digit cs \<and> k = length cs \<and> k \<le> 2 \<and> unat frc = read_digits 0 cs"
      by (subst parse_frac_digits_iff) (auto simp: digit_split_def)
    then show ?thesis
      by (auto simp: parse_fraction_def Cons True result_simps split: prod.splits)
  qed
qed

lemma cents_bound: "list_all is_digit fs \<Longrightarrow> length fs \<le> 2 \<Longrightarrow> cents fs < 100"
proof -
  assume fs: "list_all is_digit fs" "length fs \<le> 2"
  have "read_digits 0 fs < 10 ^ length fs" using read_digits_bound [OF fs(1), of 0] by simp
  with fs(2) show ?thesis
    by (cases "length fs = 2"; cases "length fs = 1"; cases "length fs = 0") (auto simp: cents_def)
qed

text \<open>The tail of the parser: from the parsed parts to the amount.\<close>

definition assemble :: "bool \<Rightarrow> uint64 \<Rightarrow> int64 \<Rightarrow> money res" where
  "assemble neg mag frc =
     (if MaxUint64 div MinorUnitsPerMajor < mag then Inl ErrMoneyOverflow else
      let hundred = mag * MinorUnitsPerMajor in
      if MaxUint64 - frc < hundred then Inl ErrMoneyOverflow else
      let units = hundred + frc in
      if MaxSafeMoney < units then Inl ErrMoneyOverflow
      else if neg then Inr (- units) else Inr units)"

lemma assemble_ok:
  assumes "unat frc < 100"
  shows "assemble neg mag frc = Inr m \<longleftrightarrow>
    100 * unat mag + unat frc \<le> 9007199254740991 \<and>
    sint m = (if neg then - 1 else 1) * int (100 * unat mag + unat frc)"
proof -
  have q: "unat (MaxUint64 div MinorUnitsPerMajor) = 184467440737095516"
    "unat MaxUint64 = 18446744073709551615" "unat MinorUnitsPerMajor = 100"
    "unat MaxSafeMoney = 9007199254740991"
    by (simp_all add: MaxUint64_def MinorUnitsPerMajor_def unat_div MaxSafeMoney_def)
  have sub: "unat (MaxUint64 - frc) = 18446744073709551615 - unat frc"
    using assms q(2) by (subst unat_sub) (simp_all add: word_le_nat_alt)
  show ?thesis
  proof (cases "100 * unat mag + unat frc < 2 ^ 64")
    case False
    have "assemble neg mag frc = Inl ErrMoneyOverflow"
    proof (cases "184467440737095516 < unat mag")
      case le: False
      then have "unat (mag * MinorUnitsPerMajor) = 100 * unat mag"
        by (simp add: unat_word_ariths q)
      moreover from False have "18446744073709551616 \<le> 100 * unat mag + unat frc" using False by simp
      then have "18446744073709551615 - unat frc < 100 * unat mag" using assms by linarith
      ultimately show ?thesis
        using le by (simp add: assemble_def word_less_nat_alt q sub Let_def)
    qed (simp add: assemble_def word_less_nat_alt q)
    with False show ?thesis by simp
  next
    case True
    then have "unat mag \<le> 184467440737095516" by simp
    moreover have h: "unat (mag * MinorUnitsPerMajor) = 100 * unat mag"
      using True by (simp add: unat_word_ariths q)
    moreover have u: "unat (mag * MinorUnitsPerMajor + frc) = 100 * unat mag + unat frc"
      using True by (simp add: unat_word_ariths(1) h)
    moreover define v where "v = mag * MinorUnitsPerMajor + frc"
    moreover define n where "n = 100 * unat mag + unat frc"
    moreover have "\<not> 18446744073709551615 - unat frc < 100 * unat mag" using True by simp
    ultimately have v: "unat v = n" and
      asm: "assemble neg mag frc =
        (if 9007199254740991 < n then Inl ErrMoneyOverflow else if neg then Inr (- v) else Inr v)"
      using True by (simp_all add: assemble_def word_less_nat_alt q sub Let_def)
    have "n \<le> 9007199254740991 \<Longrightarrow> sint v = int n \<and> sint (- v) = - int n"
      using sint_of_small [of v] by (simp add: v sint_neg64 wrap64_id)
    then show ?thesis
      unfolding n_def [symmetric] asm by (auto simp flip: sint_eq_iff)
  qed
qed

section \<open>What the parser accepts\<close>

lemma ParseMoney_assemble:
  "ParseMoney s = Inr m \<longleftrightarrow>
    (\<exists>neg s1 mag k s2 frac0 fk. parse_sign s = (neg, s1) \<and> parse_int_digits 0 0 s1 = Inr (mag, k, s2) \<and>
      k \<noteq> 0 \<and> parse_fraction s2 = Inr (frac0, fk, []) \<and>
      assemble neg mag (if fk = 1 then frac0 * 10 else frac0) = Inr m)"
  by (auto simp: ParseMoney_def assemble_def result_simps Let_def split: prod.splits)

lemma parse_sign_sound:
  "parse_sign s = (neg, s1) \<Longrightarrow> \<exists>sg \<in> {[], ''+'', ''-''}. s = sg @ s1 \<and> neg = (sg = ''-'')"
  by (cases s) (auto simp: parse_sign_def split: if_splits)

lemma parse_sign_digit:
  "sg \<in> {[], ''+'', ''-''} \<Longrightarrow> is_digit c \<Longrightarrow> parse_sign (sg @ c # cs) = (sg = ''-'', c # cs)"
  by (auto simp: parse_sign_def)

lemma digit_split_literal:
  "list_all is_digit ds \<Longrightarrow> digit_split (ds @ (if fs = [] then [] else CHR ''.'' # fs)) ds
    (if fs = [] then [] else CHR ''.'' # fs)"
  by (simp add: digit_split_def)

lemma cents_word:
  fixes frac0 :: int64
  assumes "list_all is_digit fs" "length fs \<le> 2" "unat frac0 = read_digits 0 fs"
  shows "unat (if length fs = 1 then frac0 * 10 else frac0) = cents fs"
proof -
  have "length fs = 1 \<Longrightarrow> read_digits 0 fs < 10" using read_digits_bound [OF assms(1), of 0] by simp
  then show ?thesis using assms(3) by (auto simp: cents_def unat_word_ariths)
qed

lemma assemble_literal:
  fixes frac0 :: int64
  assumes "literal_ok sg ds fs" "unat mag = read_digits 0 ds" "unat frac0 = read_digits 0 fs"
  shows "assemble (sg = ''-'') mag (if length fs = 1 then frac0 * 10 else frac0) = Inr m \<longleftrightarrow>
    safe_units (literal_units sg ds fs) \<and> sint m = literal_units sg ds fs"
proof -
  have fs: "list_all is_digit fs" "length fs \<le> 2" using assms(1) by (simp_all add: literal_ok_def)
  note w = cents_word [OF fs assms(3)]
  have "unat (if length fs = 1 then frac0 * 10 else frac0) < 100"
    unfolding w by (rule cents_bound [OF fs])
  from assemble_ok [OF this, of "sg = ''-''" mag m] show ?thesis
    unfolding w assms(2) by (auto simp: literal_units_def Let_def)
qed

lemma ParseMoney_complete:
  assumes "literal_ok sg ds fs" "safe_units (literal_units sg ds fs)" "sint m = literal_units sg ds fs"
  shows "ParseMoney (literal sg ds fs) = Inr m"
proof -
  define tail where "tail = (if fs = [] then [] else CHR ''.'' # fs)"
  have sg: "sg \<in> {[], ''+'', ''-''}" and ds: "ds \<noteq> []" "list_all is_digit ds"
    and fs: "list_all is_digit fs" "length fs \<le> 2"
    using assms(1) by (simp_all add: literal_ok_def)
  obtain c cs where c: "ds = c # cs" "is_digit c" using ds by (cases ds) auto
  have "parse_sign (literal sg ds fs) = (sg = ''-'', ds @ tail)"
    using parse_sign_digit [OF sg c(2), of "cs @ tail"] by (simp add: literal_def c(1) tail_def)
  moreover have bounds: "read_digits 0 ds < 2 ^ 64" "read_digits 0 fs < 100"
    using assms(2) read_digits_bound [OF fs(1), of 0] power_increasing [OF fs(2), of "10 :: nat"]
    by (auto simp: literal_units_def Let_def split: if_splits)
  define mag where "mag = (of_nat (read_digits 0 ds) :: uint64)"
  define frac0 where "frac0 = (of_nat (read_digits 0 fs) :: int64)"
  have w: "unat mag = read_digits 0 ds" "unat frac0 = read_digits 0 fs"
    using bounds by (simp_all add: mag_def frac0_def unat_of_nat)
  moreover have "parse_int_digits 0 0 (ds @ tail) = Inr (mag, length ds, tail)"
    using digit_split_literal [OF ds(2), of fs] bounds(1) w(1)
    by (auto simp: parse_int_digits_ok tail_def intro!: exI [of _ ds])
  moreover have "parse_fraction tail = Inr (frac0, length fs, [])"
    using fs w(2) by (auto simp: parse_fraction_iff tail_def)
  ultimately show ?thesis
    using ds(1) assemble_literal [OF assms(1) w, of m] assms(2,3)
    by (auto simp: ParseMoney_assemble)
qed

lemma ParseMoney_sound:
  assumes "ParseMoney s = Inr m"
  shows "\<exists>sg ds fs. s = literal sg ds fs \<and> literal_ok sg ds fs \<and>
    safe_units (literal_units sg ds fs) \<and> sint m = literal_units sg ds fs"
proof -
  from assms obtain neg s1 mag k s2 frac0 fk
    where sign: "parse_sign s = (neg, s1)" and digits: "parse_int_digits 0 0 s1 = Inr (mag, k, s2)"
      and k: "k \<noteq> 0" and frc: "parse_fraction s2 = Inr (frac0, fk, [])"
      and asm: "assemble neg mag (if fk = 1 then frac0 * 10 else frac0) = Inr m"
    unfolding ParseMoney_assemble by blast
  obtain sg where sg: "sg \<in> {[], ''+'', ''-''}" "s = sg @ s1" "neg = (sg = ''-'')"
    using parse_sign_sound [OF sign] by blast
  obtain ds where ds: "digit_split s1 ds s2" "unat mag = read_digits 0 ds" "k = length ds"
    using digits by (auto simp: parse_int_digits_ok)
  obtain fs where fs: "s2 = (if fs = [] then [] else CHR ''.'' # fs)" "list_all is_digit fs"
      "length fs \<le> 2" "fk = length fs" "unat frac0 = read_digits 0 fs"
    using frc unfolding parse_fraction_iff by blast
  have ok: "literal_ok sg ds fs"
    using sg(1) ds k fs(2,3) by (auto simp: literal_ok_def digit_split_def)
  moreover have "s = literal sg ds fs"
    using sg(2) ds(1) fs(1) by (simp add: literal_def digit_split_def)
  ultimately show ?thesis
    using asm assemble_literal [OF ok ds(2) fs(5), of m] unfolding sg(3) fs(4) by blast
qed

section \<open>Rendering and reading back\<close>

lemma format_nat_small: "n < 10 \<Longrightarrow> format_nat n = [digit_char n]"
  by (simp add: format_nat.simps)

lemma format_nat_two: "10 \<le> n \<Longrightarrow> n < 100 \<Longrightarrow> format_nat n = [digit_char (n div 10), digit_char (n mod 10)]"
  by (simp add: format_nat.simps [of n] format_nat_small)

lemma unat_magnitude: "unat (magnitude m) = nat \<bar>sint m\<bar>"
  by (simp only: unat_eq_nat_uint uint_magnitude)

lemma sint_major: "sint (magnitude m div MinorUnitsPerMajor) = \<bar>sint m\<bar> div 100"
proof -
  have u: "unat (magnitude m div MinorUnitsPerMajor) = nat \<bar>sint m\<bar> div 100"
    by (simp add: unat_div unat_magnitude MinorUnitsPerMajor_def)
  have "\<bar>sint m\<bar> \<le> 2 ^ 63" using sint64_bounds [of m] by auto
  then have "nat \<bar>sint m\<bar> div 100 < 2 ^ 63" by (simp add: div_less_iff_less_mult nat_less_iff)
  then have "sint (magnitude m div MinorUnitsPerMajor) = int (nat \<bar>sint m\<bar> div 100)"
    using sint_of_small [of "magnitude m div MinorUnitsPerMajor"] by (simp only: u)
  then show ?thesis by (simp add: zdiv_int)
qed

lemma sint_minor: "sint (magnitude m mod MinorUnitsPerMajor) = \<bar>sint m\<bar> mod 100"
proof -
  have u: "unat (magnitude m mod MinorUnitsPerMajor) = nat \<bar>sint m\<bar> mod 100"
    by (simp add: unat_mod unat_magnitude MinorUnitsPerMajor_def)
  have "nat \<bar>sint m\<bar> mod 100 < 100" by simp
  then have "nat \<bar>sint m\<bar> mod 100 < 2 ^ 63" by (rule less_trans) simp
  then have "sint (magnitude m mod MinorUnitsPerMajor) = int (nat \<bar>sint m\<bar> mod 100)"
    using sint_of_small [of "magnitude m mod MinorUnitsPerMajor"] by (simp only: u)
  then show ?thesis by (simp add: zmod_int)
qed

lemma FormatInt_nonneg: "0 \<le> sint n \<Longrightarrow> FormatInt n = format_nat (nat (sint n))"
  by (simp add: FormatInt_def word_sless_alt)

lemma twoDigits_small:
  assumes "sint n = int k" "k < 100"
  shows "twoDigits n = [digit_char (k div 10), digit_char (k mod 10)]"
proof (cases "k < 10")
  case True
  moreover have "CHR ''0'' = digit_char 0" by (rule iffD1 [OF byte_inj]) (simp add: byte_digit_char)
  ultimately show ?thesis
    using assms by (simp add: twoDigits_def word_sless_alt FormatInt_nonneg format_nat_small)
next
  case False
  then show ?thesis
    using assms by (simp add: twoDigits_def word_sless_alt FormatInt_nonneg format_nat_two)
qed

text \<open>What \<open>String\<close> writes is a literal of the grammar, with exactly two fraction digits.\<close>

lemma Money_String_literal:
  fixes m
  defines "u \<equiv> nat \<bar>sint m\<bar>"
  shows "Money_String m =
    literal (if sint m < 0 then ''-'' else []) (format_nat (u div 100))
      [digit_char (u mod 100 div 10), digit_char (u mod 10)]"
proof -
  have maj: "FormatInt (magnitude m div MinorUnitsPerMajor) = format_nat (u div 100)"
    by (simp add: FormatInt_nonneg sint_major u_def nat_div_distrib)
  have "sint (magnitude m mod MinorUnitsPerMajor) = int (u mod 100)"
    by (simp add: sint_minor u_def zmod_int)
  then have "twoDigits (magnitude m mod MinorUnitsPerMajor) =
      [digit_char (u mod 100 div 10), digit_char (u mod 100 mod 10)]"
    by (rule twoDigits_small) simp
  moreover have "u mod 100 mod 10 = u mod 10" by (simp add: mod_mod_cancel)
  ultimately show ?thesis
    by (simp add: Money_String_def Money_Split_def Let_def maj literal_def word_sless_alt)
qed

lemma literal_units_canonical:
  "literal_units sg (format_nat (u div 100)) [digit_char (u mod 100 div 10), digit_char (u mod 10)] =
    (if sg = ''-'' then - int u else int u)"
proof -
  have two: "u mod 10 = u mod 100 mod 10" by (simp add: mod_mod_cancel)
  have "10 * (u mod 100 div 10) + u mod 10 = u mod 100" unfolding two by simp
  then have "100 * (u div 100) + cents [digit_char (u mod 100 div 10), digit_char (u mod 10)] = u"
    by (simp add: cents_def less_mult_imp_div_less)
  then show ?thesis unfolding literal_units_def read_format_nat by simp
qed

lemma parse_string_safe: "safe_units (sint m) \<Longrightarrow> ParseMoney (Money_String m) = Inr m"
proof -
  assume safe: "safe_units (sint m)"
  define u where "u = nat \<bar>sint m\<bar>"
  define sg where "sg = (if sint m < 0 then ''-'' else [])"
  define fs where "fs = [digit_char (u mod 100 div 10), digit_char (u mod 10)]"
  have val: "literal_units sg (format_nat (u div 100)) fs = sint m"
    unfolding fs_def literal_units_canonical by (simp add: sg_def u_def)
  have "literal_ok sg (format_nat (u div 100)) fs"
    by (simp add: literal_ok_def sg_def fs_def format_nat_digits less_mult_imp_div_less)
  then show ?thesis
    unfolding Money_String_literal u_def [symmetric] sg_def [symmetric] fs_def [symmetric]
    using safe by (intro ParseMoney_complete) (simp_all add: val)
qed

end
