(* ===== verification/MoneyProperties.thy ===== *)
theory MoneyProperties
  imports MoneyText MoneyFloat
begin

text \<open>The properties of amounts (\<open>internal/domain/money.go\<close>).\<close>

text \<open>C23: Addition, subtraction, negation and multiplication by an integer are exact or refused: each
  returns the mathematical result when it is representable (at most 2^53 - 1 in magnitude), and
  fails when it is not, for every pair of 64-bit operands. No wrapped value is ever returned.\<close>

theorem money_arithmetic_exact:
  "(Money_Add m n = Inr s \<longleftrightarrow> safe_units (sint m + sint n) \<and> sint s = sint m + sint n) \<and>
   (Money_Sub m n = Inr s \<longleftrightarrow> safe_units (sint m - sint n) \<and> sint s = sint m - sint n) \<and>
   (Money_MulInt m n = Inr s \<longleftrightarrow> safe_units (sint m * sint n) \<and> sint s = sint m * sint n) \<and>
   (Money_Neg m = Inr s \<longleftrightarrow> safe_units (sint m) \<and> sint s = - sint m) \<and>
   (Money_Abs m = Inr s \<longleftrightarrow> safe_units (sint m) \<and> sint s = \<bar>sint m\<bar>)"
  by (simp add: Money_Add_ok Money_Sub_ok Money_MulInt_ok Money_Neg_ok Money_Abs_ok)

text \<open>Splitting an amount loses nothing: quotient times divisor plus remainder is the amount, the
  remainder is smaller in magnitude than the divisor and has the sign of the amount.\<close>

theorem divmod_exact:
  assumes "Money_DivMod m k = Inr (q, r)"
  shows "sint q * sint k + sint r = sint m \<and> \<bar>sint r\<bar> < \<bar>sint k\<bar> \<and> 0 \<le> sint r * sint m"
  using Money_DivMod_ok [OF assms] by blast

theorem divmod_exact_witness:
  "\<exists>q r. Money_DivMod (- 1001) 3 = Inr (q, r) \<and> sint q * 3 + sint r = - 1001 \<and> \<bar>sint r\<bar> < 3"
proof -
  obtain q r where qr: "Money_DivMod (- 1001) 3 = Inr (q, r)"
    by (simp add: Money_DivMod_def)
  from divmod_exact [OF qr] qr show ?thesis by auto
qed

text \<open>The sum of a list of amounts succeeds exactly when every prefix sum is representable, and
  then it is the exact sum. A sum whose total is representable is refused when an intermediate total
  is not.\<close>

theorem sum_exact:
  "SumMoney vs = Inr s \<longleftrightarrow>
    (\<forall>i < length vs. safe_units (\<Sum>v \<leftarrow> take (Suc i) vs. sint v)) \<and> sint s = (\<Sum>v \<leftarrow> vs. sint v)"
  using SumMoney_from_iff [of 0 vs s] by (simp add: SumMoney_def ZeroMoney_def)

theorem sum_exact_witness: "SumMoney [250, - 100, 50] = Inr 200"
  using sum_exact [of "[250, - 100, 50]" 200] by (simp add: All_less_Suc)

text \<open>The product with a floating-point factor is within one and a half cents of the exact product
  under every rounding mode, over the whole representable range: at most half a cent is lost in the
  binary64 product and less than one in the rounding.\<close>

theorem float_product_error:
  assumes "Money_MulFloat m f r = Inr n"
  shows "\<bar>of_int (sint n) - of_int (sint m) * fval f\<bar> < 3 / 2"
  using assms by (rule Money_MulFloat_error)

theorem float_product_error_witness:
  "Money_MulFloat 1000 (Fin 2) RoundHalfToEven = Inr 2000 \<and> \<bar>(2000 :: rat) - 1000 * 2\<bar> < 3 / 2"
proof -
  have "fround 2000 = Fin (of_int 2000)" using fround_int [of 2000] by simp
  then have p: "fproduct 1000 (Fin 2) = Fin (of_int 2000)" by (simp add: fproduct_safe is_finite_def)
  have "Money_MulFloat 1000 (Fin 2) RoundHalfToEven = Inr 2000"
    unfolding Money_MulFloat_ok mul_float_defined_def p fval.simps round_by_int by (simp add: is_finite_def)
  with float_product_error [OF this] show ?thesis by simp
qed

text \<open>C22: The parser of amounts accepts exactly the decimal literals: an optional sign, at least one
  digit, and optionally a point with at most two digits, whose value in cents is representable. It
  returns that value, for strings of any length.\<close>

theorem parse_money_grammar:
  "ParseMoney s = Inr m \<longleftrightarrow>
    (\<exists>sg ds fs. s = literal sg ds fs \<and> literal_ok sg ds fs \<and> safe_units (literal_units sg ds fs) \<and>
      sint m = literal_units sg ds fs)"
  using ParseMoney_sound ParseMoney_complete by blast

text \<open>C39: Every representable amount prints to a literal that parses back to it.\<close>

theorem money_text_roundtrip:
  assumes "safe_units (sint m)"
  shows "ParseMoney (Money_String m) = Inr m"
  using assms by (rule parse_string_safe)

theorem money_text_roundtrip_witness: "ParseMoney (Money_String (- 5)) = Inr (- 5)"
  by (rule money_text_roundtrip) simp

end
