(* ===== verification/Catalogue.thy ===== *)
theory Catalogue
  imports Ids TextEnum
begin

text \<open>
  \<open>internal/domain/sport.go\<close>, \<open>league.go\<close> and \<open>book.go\<close>: the roots of the catalogue, each a
  record its constructor validates.
\<close>

section \<open>Sports and leagues\<close>

record Sport =
  sport_id :: string
  sport_slug :: string
  sport_name :: string

definition zero_Sport :: Sport where
  "zero_Sport = \<lparr> sport_id = [], sport_slug = [], sport_name = [] \<rparr>"

record SportParams =
  sp_ID :: string
  sp_Slug :: string
  sp_Name :: string

definition NewSport :: "SportParams \<Rightarrow> Sport res" where
  "NewSport p =
     bindE (validID (sp_ID p)) (\<lambda>_.
     bindE (NewSlug (sp_Slug p)) (\<lambda>_.
     bindE (validateName (sp_Name p)) (\<lambda>name.
     Inr \<lparr> sport_id = sp_ID p, sport_slug = sp_Slug p, sport_name = name \<rparr>)))"

definition Sport_IsZero :: "Sport \<Rightarrow> bool" where
  "Sport_IsZero s = (s = zero_Sport)"

record League =
  league_id :: string
  league_sportID :: string
  league_slug :: string
  league_name :: string

record LeagueParams =
  lp_ID :: string
  lp_SportID :: string
  lp_Slug :: string
  lp_Name :: string

definition NewLeague :: "LeagueParams \<Rightarrow> League res" where
  "NewLeague p =
     bindE (validID (lp_ID p)) (\<lambda>_.
     bindE (validID (lp_SportID p)) (\<lambda>_.
     bindE (NewSlug (lp_Slug p)) (\<lambda>_.
     bindE (validateName (lp_Name p)) (\<lambda>name.
     Inr \<lparr> league_id = lp_ID p, league_sportID = lp_SportID p, league_slug = lp_Slug p,
           league_name = name \<rparr>))))"

definition League_BelongsTo :: "League \<Rightarrow> Sport \<Rightarrow> bool" where
  "League_BelongsTo l s = (\<not> id_is_zero (league_sportID l) \<and> league_sportID l = sport_id s)"

section \<open>Books\<close>

datatype BookKind = BookKindUnknown | BookKindExternal | BookKindSynthetic

fun BookKind_String :: "BookKind \<Rightarrow> string" where
  "BookKind_String BookKindExternal = ''external''"
| "BookKind_String BookKindSynthetic = ''synthetic''"
| "BookKind_String BookKindUnknown = ''unknown''"

fun BookKind_Valid :: "BookKind \<Rightarrow> bool" where
  "BookKind_Valid BookKindUnknown = False"
| "BookKind_Valid _ = True"

definition ParseBookKind :: "string \<Rightarrow> BookKind res" where
  "ParseBookKind s =
     (if s = ''external'' then Inr BookKindExternal
      else if s = ''synthetic'' then Inr BookKindSynthetic
      else Inl ErrUnknownBookKind)"

definition BookKind_MarshalText :: "BookKind \<Rightarrow> string res" where
  "BookKind_MarshalText k = (if \<not> BookKind_Valid k then Inl ErrUnknownBookKind else Inr (BookKind_String k))"

definition BookKind_UnmarshalText :: "string \<Rightarrow> BookKind res" where
  "BookKind_UnmarshalText b = ParseBookKind b"

interpretation book_kind: text_enum BookKind_String ParseBookKind BookKind_Valid
  BookKind_MarshalText BookKind_UnmarshalText BookKindUnknown ErrUnknownBookKind
proof unfold_locales
  show "BookKind_Valid k \<Longrightarrow> ParseBookKind (BookKind_String k) = Inr k" for k
    by (cases k) (simp_all add: ParseBookKind_def)
  show "\<not> BookKind_Valid k \<longleftrightarrow> k = BookKindUnknown" for k by (cases k) simp_all
qed (auto simp: ParseBookKind_def BookKind_MarshalText_def BookKind_UnmarshalText_def split: if_splits)

definition SyntheticBookSlug :: string where "SyntheticBookSlug = ''sharpline''"

record Book =
  book_id :: string
  book_slug :: string
  book_name :: string
  book_kind :: BookKind
  book_reference :: bool

record BookParams =
  bp_ID :: string
  bp_Slug :: string
  bp_Name :: string
  bp_Kind :: BookKind
  bp_Reference :: bool

definition NewBook :: "BookParams \<Rightarrow> Book res" where
  "NewBook p =
     bindE (validID (bp_ID p)) (\<lambda>_.
     bindE (NewSlug (bp_Slug p)) (\<lambda>_.
     if \<not> BookKind_Valid (bp_Kind p) then Inl ErrUnknownBookKind
     else
     bindE (validateName (bp_Name p)) (\<lambda>name.
     Inr \<lparr> book_id = bp_ID p, book_slug = bp_Slug p, book_name = name, book_kind = bp_Kind p,
           book_reference = bp_Reference p \<rparr>)))"

definition NewSyntheticBook :: "string \<Rightarrow> bool \<Rightarrow> Book res" where
  "NewSyntheticBook id0 reference =
     NewBook \<lparr> bp_ID = id0, bp_Slug = SyntheticBookSlug, bp_Name = ''Sharpline Synthetic'',
               bp_Kind = BookKindSynthetic, bp_Reference = reference \<rparr>"

definition Book_IsSynthetic :: "Book \<Rightarrow> bool" where
  "Book_IsSynthetic b = (book_kind b = BookKindSynthetic)"

lemma validateName_synthetic: "validateName ''Sharpline Synthetic'' = Inr ''Sharpline Synthetic''"
  by (rule validateName_plain) (simp add: plain_name_def byte_def)

lemma NewSlug_synthetic: "NewSlug SyntheticBookSlug = Inr SyntheticBookSlug"
  by code_simp

text \<open>The fixed fields of the synthetic book are valid: only the identifier can be refused.\<close>

lemma NewSyntheticBook_iff:
  "NewSyntheticBook i r = Inr b \<longleftrightarrow> validID i = Inr () \<and>
    b = \<lparr> book_id = i, book_slug = SyntheticBookSlug, book_name = ''Sharpline Synthetic'',
          book_kind = BookKindSynthetic, book_reference = r \<rparr>"
  by (auto simp: NewSyntheticBook_def NewBook_def result_simps NewSlug_synthetic validateName_synthetic)

end
