(* ===== verification/CatalogueProperties.thy ===== *)
theory CatalogueProperties
  imports Samples Catalogue
begin

text \<open>
  The properties of markets, events, selections, quotes and legs, and of the enumerations
  (\<open>internal/domain\<close>).
\<close>

section \<open>Sample values\<close>

definition sample_spread_params :: MarketParams where
  "sample_spread_params = \<lparr> mp_ID = ''m1'', mp_EventID = ''e1'', mp_Type = MarketTypeSpread,
     mp_Line = \<lparr> line_value = Fin (- 7 / 2), line_present = True \<rparr>, mp_Subject = [],
     mp_Status = MarketStatusOpen, mp_UpdatedAt = 5 \<rparr>"

definition sample_spread :: Market where
  "sample_spread = \<lparr> market_id = ''m1'', market_eventID = ''e1'', market_typ = MarketTypeSpread,
     market_line = \<lparr> line_value = Fin (- 7 / 2), line_present = True \<rparr>, market_subject = [],
     market_status = MarketStatusOpen, market_updatedAt = 5 \<rparr>"

lemma sample_line_built: "line_built \<lparr> line_value = Fin q, line_present = True \<rparr>"
  by (simp add: line_built_def NewLine_finite is_finite_def)

lemma sample_spread_new: "NewMarket sample_spread_params = Inr sample_spread"
  by (simp add: NewMarket_def sample_spread_params_def sample_spread_def plain_id validateLine_def
      NeedsSubject_def time_defs Line_Value_def)

lemma sample_spread_reachable: "market_reachable sample_spread"
  by (rule new_market [OF sample_spread_new]) (simp add: sample_spread_params_def sample_line_built)

definition sample_side :: "string \<Rightarrow> SelectionRole \<Rightarrow> Selection" where
  "sample_side i r = \<lparr> sel_id = i, sel_marketID = ''m1'', sel_role = r, sel_name = ''Side'' \<rparr>"

definition sample_side_price :: "string \<Rightarrow> rat \<Rightarrow> Price" where
  "sample_side_price i q = \<lparr> price_selectionID = i, price_bookID = ''b1'', price_decimal = Fin 2,
     price_line = \<lparr> line_value = Fin q, line_present = True \<rparr>, price_observedAt = 5 \<rparr>"

definition sample_event :: Event where
  "sample_event = \<lparr> event_id = ''e1'', event_leagueID = ''l1'', event_kind = EventKindOutright,
     event_name = ''Cup'', event_home = zero_Competitor, event_away = zero_Competitor,
     event_scheduledStart = 100, event_status = EventStatusLive, event_clock = zero_GameClock,
     event_hasClock = False, event_score = zero_Score, event_hasScore = False, event_updatedAt = 5 \<rparr>"

definition sample_event_params :: EventParams where
  "sample_event_params = \<lparr> ep_ID = ''e1'', ep_LeagueID = ''l1'', ep_Kind = EventKindOutright,
     ep_Name = ''Cup'', ep_Home = zero_Competitor, ep_Away = zero_Competitor,
     ep_ScheduledStart = 100, ep_Status = EventStatusLive, ep_UpdatedAt = 5 \<rparr>"

lemma sample_event_new: "NewEvent sample_event_params = Inr sample_event"
proof -
  have "plain_name ''Cup''" by (simp add: plain_name_def byte_def)
  then show ?thesis
    by (simp add: NewEvent_def sample_event_params_def sample_event_def plain_id validateName_plain
        check_competitors_def Competitor_IsZero_def zero_Competitor_def id_is_zero_def time_defs)
qed

section \<open>Markets and events\<close>

text \<open>Every market the code can produce is well formed: valid identifiers, a line exactly where
  its type needs one and nowhere it may not have one, positive for a total, finite always, a subject
  exactly for a player proposition, and a real update time.\<close>

theorem every_market_wf: "market_reachable m \<Longrightarrow> market_wf m"
  by (rule market_reachable_wf)

theorem every_market_wf_witness: "market_wf sample_spread"
  by (rule every_market_wf [OF sample_spread_reachable])

text \<open>C35: A market that has closed never takes bets again: once it is closed, settled or voided, no
  sequence of updates, in any order, makes it accept a wager.\<close>

theorem market_never_reopens:
  assumes "market_reachable m"
    and "market_status m \<in> {MarketStatusClosed, MarketStatusSettled, MarketStatusVoided}"
  shows "\<not> Market_AcceptsWagers (run market_step ops m)"
  using assms market_reachable_wf [OF assms(1)]
  by (intro closed_stays_closed) (auto simp: market_wf_def)

theorem market_never_reopens_witness:
  "\<not> Market_AcceptsWagers (run market_step [MarketStatusOp MarketStatusOpen 9]
    (sample_spread \<lparr> market_updatedAt := 8, market_status := MarketStatusClosed \<rparr>))"
proof -
  have "market_step (MarketStatusOp MarketStatusClosed 8) sample_spread =
      Inr (sample_spread \<lparr> market_updatedAt := 8, market_status := MarketStatusClosed \<rparr>)"
    by (simp add: Market_WithStatus_ok sample_spread_def MarketStatus_CanTransitionTo_def)
  then have "market_reachable (sample_spread \<lparr> market_updatedAt := 8, market_status := MarketStatusClosed \<rparr>)"
    by (rule update_market [OF sample_spread_reachable]) simp
  then show ?thesis by (rule market_never_reopens) simp
qed

text \<open>Every event the code can produce is well formed: competitors exactly on a match, a running
  clock only while it is in play and within the sport's bounds, a score that is never negative and
  is zero until one is set.\<close>

theorem every_event_wf: "event_reachable e \<Longrightarrow> event_wf e"
  by (rule event_reachable_wf)

theorem every_event_wf_witness: "event_wf sample_event"
  by (rule every_event_wf [OF new_event [OF sample_event_new]])

text \<open>An event that is over stays over: once it is ended, settled or cancelled no sequence of
  updates puts it back in play or makes it accept a wager.\<close>

theorem event_never_resumes:
  assumes "event_reachable e" "1 \<le> event_stage (event_status e)"
  shows "\<not> Event_AcceptsWagers (run event_step ops e) \<and>
    \<not> EventStatus_IsInPlay (event_status (run event_step ops e))"
  using assms event_reachable_wf [OF assms(1)] by (intro over_stays_over) (auto simp: event_wf_def)

theorem event_never_resumes_witness:
  "\<not> Event_AcceptsWagers (run event_step [EventStatusOp EventStatusLive 9]
    (sample_event \<lparr> event_updatedAt := 8, event_status := EventStatusEnded \<rparr>))"
proof -
  let ?e = "sample_event \<lparr> event_updatedAt := 8, event_status := EventStatusEnded \<rparr>"
  have "event_step (EventStatusOp EventStatusEnded 8) sample_event = Inr ?e"
    by (simp add: Event_WithStatus_ok sample_event_def EventStatus_CanTransitionTo_def EventStatus_IsInPlay_def)
  then have "event_reachable ?e" by (rule update_event [OF new_event [OF sample_event_new]]) simp
  from event_never_resumes [OF this, of "[EventStatusOp EventStatusLive 9]"]
  show ?thesis by (simp del: run.simps)
qed

text \<open>Updates may arrive in any order: of any sequence applied to an event, a market or a ticket,
  the accepted ones have non-decreasing times that never precede the value's own, and replaying just
  the accepted ones gives the same value.\<close>

theorem late_updates_refused:
  "sorted (event_updatedAt e # map event_op_time (accepted event_step eops e)) \<and>
   run event_step (accepted event_step eops e) e = run event_step eops e \<and>
   sorted (market_updatedAt m # map market_op_time (accepted market_step mops m)) \<and>
   run market_step (accepted market_step mops m) m = run market_step mops m \<and>
   sorted (wager_updatedAt w # map wager_op_time (accepted wager_step wops w)) \<and>
   run wager_step (accepted wager_step wops w) w = run wager_step wops w"
  using events.accepted_sorted markets.accepted_sorted wagers.accepted_sorted
  by (simp add: run_accepted del: sorted_simps)

section \<open>Selections, quotes and legs\<close>

text \<open>The two sides of a line are mirrored: for two selections of opposite roles on a market the
  effective lines are negations of each other on a spread and equal on every other type.\<close>

theorem opposite_sides_mirrored:
  assumes "market_reachable m" "EffectiveLine m s = Inr l" "EffectiveLine m t = Inr k"
    and "SelectionRole_Opposite (sel_role s) = (sel_role t, True)" "line_built (market_line m)"
  shows "Line_Equal k (if market_typ m = MarketTypeSpread then Line_Invert l else l)"
  using EffectiveLine_opposite assms(2-5) .

theorem opposite_sides_mirrored_witness:
  "EffectiveLine sample_spread (sample_side ''s1'' SelectionRoleHome) =
      Inr \<lparr> line_value = Fin (- 7 / 2), line_present = True \<rparr> \<and>
    (\<exists>k. EffectiveLine sample_spread (sample_side ''s2'' SelectionRoleAway) = Inr k \<and>
      Line_Equal k (Line_Invert \<lparr> line_value = Fin (- 7 / 2), line_present = True \<rparr>))"
proof -
  let ?l = "\<lparr> line_value = Fin (- 7 / 2), line_present = True \<rparr>"
  have h: "EffectiveLine sample_spread (sample_side ''s1'' SelectionRoleHome) = Inr ?l"
    and a: "EffectiveLine sample_spread (sample_side ''s2'' SelectionRoleAway) = Inr (Line_Invert ?l)"
    by (simp_all add: EffectiveLine_ok sample_spread_def sample_side_def AllowsRole_def)
  have "Line_Equal (Line_Invert ?l) (if market_typ sample_spread = MarketTypeSpread then Line_Invert ?l else ?l)"
    by (rule opposite_sides_mirrored [OF sample_spread_reachable h a])
      (simp_all add: sample_side_def sample_spread_def sample_line_built)
  with h a show ?thesis by (simp add: sample_spread_def)
qed

text \<open>A payout at a valid quote is never below a positive stake, and the profit never negative,
  under every rounding mode.\<close>

theorem quote_pays_stake:
  assumes "NewPrice p = Inr q" "0 < sint stake"
    and "Price_PayoutFor q stake r = Inr payout" "Price_ProfitFor q stake r = Inr profit"
  shows "sint stake \<le> sint payout \<and> 0 \<le> sint profit"
  using payout_ge_stake profit_nonneg NewPrice_decimal assms by blast

theorem quote_pays_stake_witness:
  "Price_PayoutFor (sample_price ''s1'') 1000 RoundHalfToEven = Inr 2500 \<and> sint (1000 :: money) \<le> sint (2500 :: money)"
proof -
  let ?p = "\<lparr> pp_SelectionID = ''s1'', pp_BookID = ''b1'', pp_Decimal = Fin (5 / 2), pp_Line = NoLine,
    pp_ObservedAt = 5 \<rparr>"
  have new: "NewPrice ?p = Inr (sample_price ''s1'')"
    by (simp add: NewPrice_ok sample_price_def plain_id decimal_ok_def is_finite_def)
  have pay: "Price_PayoutFor (sample_price ''s1'') 1000 RoundHalfToEven = Inr 2500"
    by (simp add: Price_PayoutFor_def sample_price_def sample_mul)
  then have "Price_ProfitFor (sample_price ''s1'') 1000 RoundHalfToEven = Inr 1500"
    by (simp add: Price_ProfitFor_def Money_Sub_eq)
  from quote_pays_stake [OF new _ pay this] pay show ?thesis by simp
qed

text \<open>A leg booked from a live market, selection and quote is graded at the line its selection
  trades at, the away side of a spread included, and keeps the quote it was booked at.\<close>

theorem booked_leg_line:
  assumes "NewLegFrom i m s p = Inr l"
  shows "\<exists>eff. EffectiveLine m s = Inr eff \<and> Line_Equal (Leg_GradingLine l) eff \<and> leg_price l = p \<and>
    leg_selectionID l = sel_id s \<and> leg_marketID l = market_id m"
  using assms by (rule NewLegFrom_line) blast

theorem booked_leg_line_witness:
  "\<exists>l. NewLegFrom ''l1'' sample_spread (sample_side ''s2'' SelectionRoleAway) (sample_side_price ''s2'' (7 / 2)) = Inr l \<and>
    leg_price l = sample_side_price ''s2'' (7 / 2)"
proof -
  obtain l where l: "NewLegFrom ''l1'' sample_spread (sample_side ''s2'' SelectionRoleAway)
      (sample_side_price ''s2'' (7 / 2)) = Inr l"
    by (simp add: NewLegFrom_def ValidatePriceForSelection_def EffectiveLine_def
        ValidateSelectionForMarket_def Selection_BelongsTo_def sample_spread_def sample_side_def
        sample_side_price_def AllowsRole_def id_is_zero_def Line_Invert_def feq_def fneg_def Line_Equal_def
        NewLeg_def plain_id Price_IsZero_def NoLine_def)
  from booked_leg_line [OF l] l show ?thesis by blast
qed

text \<open>Grading a leg is idempotent: a redelivered outcome, at whatever later time, returns the
  leg exactly as the first delivery left it, with the time of the first grading; a different outcome
  for a graded leg is refused.\<close>

theorem grading_idempotent:
  assumes "Leg_WithStatus l s t = Inr m" "t' \<noteq> 0" "LegStatus_IsTerminal s"
  shows "Leg_WithStatus m s' t' = (if s' = s then Inr m
    else if LegStatus_Valid s' then Inl ErrIllegalTransition else Inl ErrUnknownLegStatus)"
proof -
  have "leg_status m = s" using assms(1) by (simp add: Leg_WithStatus_ok split: if_splits)
  moreover have "LegStatus_Valid s \<and> s \<noteq> LegStatusPending"
    using assms(3) by (auto simp: LegStatus_IsTerminal_def)
  ultimately show ?thesis
    using assms(2) by (simp add: Leg_WithStatus_def LegStatus_CanTransitionTo_def time_defs)
qed

theorem grading_idempotent_witness:
  "\<exists>m. Leg_WithStatus (sample_leg ''l1'' ''m1'' ''s1'') LegStatusWon 20 = Inr m \<and>
    Leg_WithStatus m LegStatusWon 30 = Inr m \<and> Leg_WithStatus m LegStatusLost 30 = Inl ErrIllegalTransition"
proof -
  obtain m where m: "Leg_WithStatus (sample_leg ''l1'' ''m1'' ''s1'') LegStatusWon 20 = Inr m"
    by (simp add: Leg_WithStatus_def sample_leg_def LegStatus_CanTransitionTo_def LegStatus_IsTerminal_def time_defs)
  from grading_idempotent [OF m, of 30] m show ?thesis by (simp add: LegStatus_IsTerminal_def)
qed

section \<open>Enumerations\<close>

text \<open>Every enumeration of the domain package has a lossless wire form: the undefined value is
  the only one that does not marshal, and every other value marshals to text that unmarshals to it.\<close>

theorem enumerations_roundtrip:
  "((\<exists>b. MarketType_MarshalText mt = Inr b \<and> MarketType_UnmarshalText b = Inr mt) \<longleftrightarrow> mt \<noteq> MarketTypeUnknown) \<and>
   ((\<exists>b. MarketStatus_MarshalText ms = Inr b \<and> MarketStatus_UnmarshalText b = Inr ms) \<longleftrightarrow> ms \<noteq> MarketStatusUnknown) \<and>
   ((\<exists>b. EventKind_MarshalText ek = Inr b \<and> EventKind_UnmarshalText b = Inr ek) \<longleftrightarrow> ek \<noteq> EventKindUnknown) \<and>
   ((\<exists>b. EventStatus_MarshalText es = Inr b \<and> EventStatus_UnmarshalText b = Inr es) \<longleftrightarrow> es \<noteq> EventStatusUnknown) \<and>
   ((\<exists>b. SelectionRole_MarshalText sr = Inr b \<and> SelectionRole_UnmarshalText b = Inr sr) \<longleftrightarrow> sr \<noteq> SelectionRoleUnknown) \<and>
   ((\<exists>b. BookKind_MarshalText bk = Inr b \<and> BookKind_UnmarshalText b = Inr bk) \<longleftrightarrow> bk \<noteq> BookKindUnknown) \<and>
   ((\<exists>b. LegStatus_MarshalText ls = Inr b \<and> LegStatus_UnmarshalText b = Inr ls) \<longleftrightarrow> ls \<noteq> LegStatusUnknown) \<and>
   ((\<exists>b. WagerKind_MarshalText wk = Inr b \<and> WagerKind_UnmarshalText b = Inr wk) \<longleftrightarrow> wk \<noteq> WagerKindUnknown) \<and>
   ((\<exists>b. WagerStatus_MarshalText ws = Inr b \<and> WagerStatus_UnmarshalText b = Inr ws) \<longleftrightarrow> ws \<noteq> WagerStatusUnknown) \<and>
   ((\<exists>b. AccountKind_MarshalText ak = Inr b \<and> AccountKind_UnmarshalText b = Inr ak) \<longleftrightarrow> ak \<noteq> AccountKindUnknown) \<and>
   ((\<exists>b. EntryKind_MarshalText nk = Inr b \<and> EntryKind_UnmarshalText b = Inr nk) \<longleftrightarrow> nk \<noteq> EntryKindUnknown) \<and>
   ((\<exists>b. Rounding_MarshalText rd = Inr b \<and> Rounding_UnmarshalText b = Inr rd) \<longleftrightarrow> rd \<noteq> RoundingUnknown)"
  by (intro conjI market_type.wire market_status.wire event_kind.wire event_status.wire
      selection_role.wire book_kind.wire leg_status_text.wire wager_kind_text.wire
      wager_status_text.wire account_kind_text.wire entry_kind_text.wire rounding.wire)

section \<open>What an update leaves behind\<close>

text \<open>A score set in play survives a return to scheduled, with the event waiting to start.\<close>

lemma score_survives_postponement:
  "let e = run event_step
      [EventScoreOp \<lparr> score_home = 1, score_away = 0 \<rparr> 10, EventStatusOp EventStatusSuspended 11,
       EventStatusOp EventStatusPostponed 12, EventStatusOp EventStatusScheduled 13] sample_event
   in event_status e = EventStatusScheduled \<and> event_hasScore e"
  by (simp add: sample_event_def Event_WithScore_def Event_WithStatus_def EventStatus_HasStarted_def
        EventStatus_CanTransitionTo_def EventStatus_IsInPlay_def event_stamp_def time_defs Let_def)

end
