(* ===== verification/Bus.thy ===== *)
theory Bus
  imports Ids
begin

text \<open>
  \<open>internal/platform/kafka\<close>: the topic registry (topics.go) and what a consumed record says about
  itself (envelope.go). Parsing a timestamp header is a parameter: \<open>time.Parse\<close> with the
  RFC 3339 layout.
\<close>

datatype bus_error = ErrInvalidProvider | ErrWrongKeyKind | ErrInvalidKey derr | ErrMalformedEnvelope

section \<open>Topics\<close>

datatype Retention = RetentionUnknown | RetentionDelete | RetentionCompact

datatype KeyKind = KeyKindUnknown | KeyKindMarketID | KeyKindEventID | KeyKindWagerID

record Topic =
  topic_name :: string
  topic_retention :: Retention
  topic_key :: KeyKind

definition TopicOddsNormalized :: string where "TopicOddsNormalized = ''odds.normalized''"
definition TopicPriceComputed :: string where "TopicPriceComputed = ''price.computed''"
definition TopicWagerEvents :: string where "TopicWagerEvents = ''wager.events''"
definition TopicOddsRawPrefix :: string where "TopicOddsRawPrefix = ''odds.raw.''"
definition maxTopicNameLen :: nat where "maxTopicNameLen = 249"

definition OddsNormalized :: Topic where
  "OddsNormalized =
     \<lparr> topic_name = TopicOddsNormalized, topic_retention = RetentionCompact, topic_key = KeyKindMarketID \<rparr>"

definition PriceComputed :: Topic where
  "PriceComputed =
     \<lparr> topic_name = TopicPriceComputed, topic_retention = RetentionCompact, topic_key = KeyKindMarketID \<rparr>"

definition WagerEvents :: Topic where
  "WagerEvents =
     \<lparr> topic_name = TopicWagerEvents, topic_retention = RetentionDelete, topic_key = KeyKindWagerID \<rparr>"

definition Topic_Compacted :: "Topic \<Rightarrow> bool" where
  "Topic_Compacted t = (topic_retention t = RetentionCompact)"

text \<open>The loop of \<open>NewProvider\<close> over the bytes of the slug, at index \<open>i\<close> of \<open>n\<close>.\<close>

fun provider_chars :: "nat \<Rightarrow> nat \<Rightarrow> string \<Rightarrow> bool" where
  "provider_chars n i [] = True"
| "provider_chars n i (c # cs) =
     (if slug_alnum c then provider_chars n (Suc i) cs
      else if c = CHR ''-'' \<and> 0 < i \<and> i < n - 1 then provider_chars n (Suc i) cs
      else False)"

definition NewProvider :: "string \<Rightarrow> bus_error + string" where
  "NewProvider s =
     (if s = [] then Inl ErrInvalidProvider
      else if maxTopicNameLen < length s + length TopicOddsRawPrefix then Inl ErrInvalidProvider
      else if \<not> provider_chars (length s) 0 s then Inl ErrInvalidProvider
      else Inr s)"

definition OddsRaw :: "string \<Rightarrow> bus_error + Topic" where
  "OddsRaw provider =
     bindE (NewProvider provider) (\<lambda>p.
       Inr \<lparr> topic_name = TopicOddsRawPrefix @ p, topic_retention = RetentionDelete,
             topic_key = KeyKindEventID \<rparr>)"

text \<open>\<open>strings.CutPrefix\<close>\<close>

definition cut_prefix :: "string \<Rightarrow> string \<Rightarrow> string option" where
  "cut_prefix p s = (if take (length p) s = p then Some (drop (length p) s) else None)"

definition LookupTopic :: "string \<Rightarrow> Topic option" where
  "LookupTopic name =
     (if name = TopicOddsNormalized then Some OddsNormalized
      else if name = TopicPriceComputed then Some PriceComputed
      else if name = TopicWagerEvents then Some WagerEvents
      else case cut_prefix TopicOddsRawPrefix name of
        Some suffix \<Rightarrow> (case OddsRaw suffix of Inl _ \<Rightarrow> None | Inr t \<Rightarrow> Some t)
      | None \<Rightarrow> None)"

lemmas topic_defs = OddsNormalized_def PriceComputed_def WagerEvents_def
lemmas topic_names = TopicOddsNormalized_def TopicPriceComputed_def TopicWagerEvents_def
  TopicOddsRawPrefix_def

lemma cut_prefix_iff: "cut_prefix p s = Some r \<longleftrightarrow> s = p @ r"
  by (auto simp: cut_prefix_def) (metis append_take_drop_id)

lemma OddsRaw_ok:
  "OddsRaw p = Inr t \<longleftrightarrow> NewProvider p = Inr p \<and>
    t = \<lparr> topic_name = TopicOddsRawPrefix @ p, topic_retention = RetentionDelete,
          topic_key = KeyKindEventID \<rparr>"
  by (auto simp: OddsRaw_def bindE_eq_Inr NewProvider_def)

text \<open>The registry is keyed by the name of the topic it gives back, and knows every topic it makes.\<close>

lemma lookup_name: "LookupTopic name = Some t \<Longrightarrow> topic_name t = name"
  by (auto simp: LookupTopic_def topic_defs cut_prefix_iff OddsRaw_ok
      split: if_splits option.splits sum.splits)

lemma lookup_raw:
  assumes "OddsRaw p = Inr t"
  shows "LookupTopic (topic_name t) = Some t"
proof -
  have name: "topic_name t = TopicOddsRawPrefix @ p" using assms by (simp add: OddsRaw_ok)
  then have "cut_prefix TopicOddsRawPrefix (topic_name t) = Some p" by (simp add: cut_prefix_def)
  moreover have "topic_name t \<notin> {TopicOddsNormalized, TopicPriceComputed, TopicWagerEvents}"
    by (simp add: name topic_names)
  ultimately show ?thesis using assms by (simp add: LookupTopic_def)
qed

lemma lookup_fixed: "t \<in> {OddsNormalized, PriceComputed, WagerEvents} \<Longrightarrow> LookupTopic (topic_name t) = Some t"
  by (auto simp: LookupTopic_def topic_defs topic_names)

lemma lookup_compacted:
  "LookupTopic name = Some t \<Longrightarrow> Topic_Compacted t \<longleftrightarrow> topic_key t = KeyKindMarketID"
  by (auto simp: LookupTopic_def topic_defs Topic_Compacted_def OddsRaw_ok
      split: if_splits option.splits sum.splits)

section \<open>Deliveries\<close>

record Delivery =
  dlv_topic :: string
  dlv_key :: string
  dlv_tombstone :: bool
  dlv_type :: string
  dlv_data :: string
  dlv_envelope_observed :: time
  dlv_headers :: "string \<rightharpoonup> string"

definition HeaderObservedAt :: string where "HeaderObservedAt = ''sharpline-observed-at''"

definition requireKeyKind :: "Delivery \<Rightarrow> KeyKind \<Rightarrow> bus_error + unit" where
  "requireKeyKind d want =
     (case LookupTopic (dlv_topic d) of
        None \<Rightarrow> Inr ()
      | Some t \<Rightarrow>
          if topic_key t = KeyKindUnknown then Inr ()
          else if topic_key t \<noteq> want then Inl ErrWrongKeyKind
          else Inr ())"

definition delivery_id :: "KeyKind \<Rightarrow> Delivery \<Rightarrow> bus_error + string" where
  "delivery_id want d =
     bindE (requireKeyKind d want) (\<lambda>_.
       case new_id (dlv_key d) of Inl e \<Rightarrow> Inl (ErrInvalidKey e) | Inr i \<Rightarrow> Inr i)"

definition Delivery_MarketID :: "Delivery \<Rightarrow> bus_error + string" where
  "Delivery_MarketID d = delivery_id KeyKindMarketID d"

definition Delivery_EventID :: "Delivery \<Rightarrow> bus_error + string" where
  "Delivery_EventID d = delivery_id KeyKindEventID d"

definition Delivery_WagerID :: "Delivery \<Rightarrow> bus_error + string" where
  "Delivery_WagerID d = delivery_id KeyKindWagerID d"

text \<open>\<open>parse_time\<close> is \<open>time.Parse(time.RFC3339Nano, _)\<close>.\<close>

definition Delivery_ObservedAt :: "(string \<Rightarrow> time option) \<Rightarrow> Delivery \<Rightarrow> time \<times> bool" where
  "Delivery_ObservedAt parse_time d =
     (if \<not> dlv_tombstone d \<and> \<not> time_is_zero (dlv_envelope_observed d)
      then (dlv_envelope_observed d, True)
      else case dlv_headers d HeaderObservedAt of
        None \<Rightarrow> (0, False)
      | Some raw \<Rightarrow>
          if raw = [] then (0, False)
          else case parse_time raw of
            None \<Rightarrow> (0, False)
          | Some t \<Rightarrow> if time_is_zero t then (0, False) else (t, True))"

text \<open>\<open>decode\<close> is \<open>json.Unmarshal\<close> into the document type.\<close>

definition Delivery_Unmarshal :: "(string \<Rightarrow> 'a option) \<Rightarrow> Delivery \<Rightarrow> bus_error + 'a" where
  "Delivery_Unmarshal decode d =
     (if dlv_tombstone d then Inl ErrMalformedEnvelope
      else case decode (dlv_data d) of None \<Rightarrow> Inl ErrMalformedEnvelope | Some v \<Rightarrow> Inr v)"

lemma delivery_id_ok:
  "delivery_id k d = Inr i \<longleftrightarrow> requireKeyKind d k = Inr () \<and> validID (dlv_key d) = Inr () \<and> i = dlv_key d"
  by (auto simp: delivery_id_def bindE_eq_Inr new_id_def split: sum.splits)

text \<open>
  A record of a registered topic gives its key back as one kind of identifier only: the kind the
  topic is keyed by.
\<close>

lemma requireKeyKind_known:
  "LookupTopic (dlv_topic d) = Some t \<Longrightarrow> requireKeyKind d k = Inr () \<longleftrightarrow> topic_key t = k \<or> topic_key t = KeyKindUnknown"
  by (auto simp: requireKeyKind_def)

lemma registered_key_known: "LookupTopic n = Some t \<Longrightarrow> topic_key t \<noteq> KeyKindUnknown"
  by (auto simp: LookupTopic_def topic_defs OddsRaw_ok split: if_splits option.splits sum.splits)

lemma one_identifier_kind:
  assumes "LookupTopic (dlv_topic d) = Some t" "delivery_id k d = Inr i"
  shows "k = topic_key t"
  using assms registered_key_known requireKeyKind_known by (auto simp: delivery_id_ok)

end
