(* ===== verification/Channel.thy ===== *)
theory Channel
  imports Ids
begin

text \<open>
  \<open>internal/wsgw/channel.go\<close>: the grammar of subscription names and the channels a computed market
  is published on. Every failure of the parser wraps \<open>ErrInvalidChannel\<close>; the identifier error it
  wraps besides is kept.
\<close>

type_synonym ChannelKind = string

definition ChannelEvent :: ChannelKind where "ChannelEvent = ''event''"
definition ChannelMarket :: ChannelKind where "ChannelMarket = ''market''"
definition ChannelLeague :: ChannelKind where "ChannelLeague = ''league''"

lemmas channel_kinds = ChannelEvent_def ChannelMarket_def ChannelLeague_def

definition ChannelKind_Valid :: "ChannelKind \<Rightarrow> bool" where
  "ChannelKind_Valid k = (k = ChannelEvent \<or> k = ChannelMarket \<or> k = ChannelLeague)"

datatype ws_error =
    ErrInvalidOptions
  | ErrInvalidChannel "derr option"
  | ErrMalformedFrame
  | ErrUnknownFrameType
  | ErrFrameTooLarge
  | ErrChannelLimit
  | ErrInvalidCredential
  | ErrTokenInQuery
  | ErrProtocolNotOffered
  | ErrRecordRejected
  | ErrUnsupportedMessage
  | ErrInvalidFrame

definition MaxChannelLen :: nat where
  "MaxChannelLen = length ''market'' + 1 + MaxIDLen"

record Channel =
  chan_kind :: ChannelKind
  chan_id :: string

abbreviation "chan k i \<equiv> \<lparr> chan_kind = k, chan_id = i \<rparr>"

definition Channel_IsZero :: "Channel \<Rightarrow> bool" where
  "Channel_IsZero c = (chan_kind c = [] \<or> chan_id c = [])"

definition Channel_String :: "Channel \<Rightarrow> string" where
  "Channel_String c = (if Channel_IsZero c then [] else chan_kind c @ '':'' @ chan_id c)"

definition Channel_MarshalText :: "Channel \<Rightarrow> ws_error + string" where
  "Channel_MarshalText c = (if Channel_IsZero c then Inl ErrInvalidFrame else Inr (Channel_String c))"

text \<open>An identifier constructor's failure, wrapped.\<close>

definition invalid_channel :: "'a res \<Rightarrow> ws_error + 'a" where
  "invalid_channel r = (case r of Inl e \<Rightarrow> Inl (ErrInvalidChannel (Some e)) | Inr x \<Rightarrow> Inr x)"

definition EventChannel :: "string \<Rightarrow> ws_error + Channel" where
  "EventChannel i = bindE (invalid_channel (new_id i)) (\<lambda>_. Inr (chan ChannelEvent i))"

definition MarketChannel :: "string \<Rightarrow> ws_error + Channel" where
  "MarketChannel i = bindE (invalid_channel (new_id i)) (\<lambda>_. Inr (chan ChannelMarket i))"

definition LeagueChannel :: "string \<Rightarrow> ws_error + Channel" where
  "LeagueChannel slug = bindE (invalid_channel (NewSlug slug)) (\<lambda>_. Inr (chan ChannelLeague slug))"

definition ParseChannel :: "string \<Rightarrow> ws_error + Channel" where
  "ParseChannel s =
     (if s = [] then Inl (ErrInvalidChannel None)
      else if MaxChannelLen < length s then Inl (ErrInvalidChannel None)
      else case cut_at CHR '':'' s of
        None \<Rightarrow> Inl (ErrInvalidChannel None)
      | Some (kind, i) \<Rightarrow>
          if kind = ChannelEvent then
            bindE (invalid_channel (new_id i)) (\<lambda>eventID. Inr (chan ChannelEvent eventID))
          else if kind = ChannelMarket then
            bindE (invalid_channel (new_id i)) (\<lambda>marketID. Inr (chan ChannelMarket marketID))
          else if kind = ChannelLeague then
            bindE (invalid_channel (NewSlug i)) (\<lambda>slug. Inr (chan ChannelLeague slug))
          else Inl (ErrInvalidChannel None))"

definition Channel_UnmarshalText :: "string \<Rightarrow> ws_error + Channel" where
  "Channel_UnmarshalText b = ParseChannel b"

datatype RejectReason =
    RejectMalformed | RejectUnknownKind | RejectInvalidID | RejectTooLong | RejectLimitReached | RejectDuplicate

definition ChannelRejectReason :: "string \<Rightarrow> RejectReason" where
  "ChannelRejectReason raw =
     (if MaxChannelLen < length raw then RejectTooLong
      else case cut_at CHR '':'' raw of
        None \<Rightarrow> RejectMalformed
      | Some (kind, _) \<Rightarrow>
          if \<not> ChannelKind_Valid kind then RejectUnknownKind else RejectInvalidID)"

section \<open>The channels that can exist\<close>

text \<open>A channel of the routing table: a kind of the three and an identifier of that kind.\<close>

definition channel_ok :: "Channel \<Rightarrow> bool" where
  "channel_ok c =
     ((chan_kind c \<in> {ChannelEvent, ChannelMarket} \<and> validID (chan_id c) = Inr ()) \<or>
      (chan_kind c = ChannelLeague \<and> is_ok (NewSlug (chan_id c))))"

lemma invalid_channel_ok [simp]: "invalid_channel r = Inr x \<longleftrightarrow> r = Inr x" "invalid_channel (Inr x) = Inr x"
  by (cases r) (simp_all add: invalid_channel_def)

lemma kinds_distinct [simp]:
  "ChannelEvent \<noteq> ChannelMarket" "ChannelMarket \<noteq> ChannelEvent" "ChannelEvent \<noteq> ChannelLeague"
  "ChannelLeague \<noteq> ChannelEvent" "ChannelMarket \<noteq> ChannelLeague" "ChannelLeague \<noteq> ChannelMarket"
  by (simp_all add: channel_kinds)

lemma NewSlug_eq: "NewSlug s = Inr t \<longleftrightarrow> t = s \<and> is_ok (NewSlug s)"
  using NewSlug_validID by (cases "NewSlug s") auto

lemma constructors_ok:
  "EventChannel i = Inr c \<longleftrightarrow> validID i = Inr () \<and> c = chan ChannelEvent i"
  "MarketChannel i = Inr c \<longleftrightarrow> validID i = Inr () \<and> c = chan ChannelMarket i"
  "LeagueChannel i = Inr c \<longleftrightarrow> is_ok (NewSlug i) \<and> c = chan ChannelLeague i"
  by (auto simp: EventChannel_def MarketChannel_def LeagueChannel_def
      bindE_eq_Inr new_id_ok_iff is_ok_iff)

lemma channel_ok_id: "channel_ok c \<Longrightarrow> validID (chan_id c) = Inr ()"
  using NewSlug_validID by (auto simp: channel_ok_def is_ok_iff)

lemma channel_ok_kind: "channel_ok c \<Longrightarrow> ChannelKind_Valid (chan_kind c)"
  by (auto simp: channel_ok_def ChannelKind_Valid_def)

lemma channel_ok_nonzero: "channel_ok c \<Longrightarrow> \<not> Channel_IsZero c"
  using channel_ok_id [of c] channel_ok_kind [of c]
  by (auto simp: Channel_IsZero_def validID_ok_iff ChannelKind_Valid_def channel_kinds)

lemma kind_no_colon: "ChannelKind_Valid k \<Longrightarrow> CHR '':'' \<notin> set k \<and> length k \<le> 6"
  by (auto simp: ChannelKind_Valid_def channel_kinds)

text \<open>The wire form of a channel reads back as that channel.\<close>

lemma parse_string:
  assumes "channel_ok c"
  shows "ParseChannel (Channel_String c) = Inr c"
proof -
  obtain k i where c: "c = chan k i" by (cases c)
  have k: "CHR '':'' \<notin> set k" "length k \<le> 6"
    using kind_no_colon [OF channel_ok_kind [OF assms]] by (auto simp: c)
  have i: "validID i = Inr ()" "length i \<le> 128"
    using channel_ok_id [OF assms] by (auto simp: c validID_ok_iff)
  have s: "Channel_String c = k @ CHR '':'' # i"
    using channel_ok_nonzero [OF assms] by (simp add: Channel_String_def c)
  have "new_id i = Inr i" using i(1) by (simp add: new_id_ok_iff)
  then show ?thesis
    using assms k(2) i(2) unfolding s
    by (auto simp: c ParseChannel_def cut_at_append [OF k(1)] MaxChannelLen_def MaxIDLen_def
        channel_ok_def NewSlug_eq bindE_eq_Inr)
qed

text \<open>And the parser accepts nothing but wire forms.\<close>

lemma parse_channel_sound:
  assumes "ParseChannel s = Inr c"
  shows "channel_ok c \<and> Channel_String c = s"
proof -
  obtain k i where cut: "cut_at CHR '':'' s = Some (k, i)"
    using assms by (auto simp: ParseChannel_def split: if_splits option.splits)
  have s: "s = k @ CHR '':'' # i" using cut_at_SomeD [OF cut] by simp
  have "channel_ok c \<and> chan_kind c = k \<and> chan_id c = i"
    using assms
    by (auto simp: ParseChannel_def cut bindE_eq_Inr new_id_ok_iff channel_ok_def
        NewSlug_eq split: if_splits)
  then show ?thesis
    using channel_ok_nonzero [of c] by (auto simp: Channel_String_def s)
qed

lemma ParseChannel_iff: "ParseChannel s = Inr c \<longleftrightarrow> channel_ok c \<and> Channel_String c = s"
  using parse_string parse_channel_sound by blast

lemma channel_string_inj:
  "channel_ok c \<Longrightarrow> channel_ok d \<Longrightarrow> Channel_String c = Channel_String d \<Longrightarrow> c = d"
  using parse_string by (metis sum.inject(2))

text \<open>The classification of a failure agrees with the parser.\<close>

lemma reject_reason_sound:
  assumes "ParseChannel s = Inl e"
  shows "(ChannelRejectReason s = RejectInvalidID \<longleftrightarrow> (\<exists>d. e = ErrInvalidChannel (Some d))) \<and>
    (ChannelRejectReason s = RejectTooLong \<longleftrightarrow> MaxChannelLen < length s) \<and>
    (\<exists>d. e = ErrInvalidChannel d)"
  using assms
  by (cases "cut_at CHR '':'' s")
    (auto simp: ParseChannel_def ChannelRejectReason_def ChannelKind_Valid_def invalid_channel_def
      bindE_def split: if_splits sum.splits)

end
