(* ===== verification/Slate.thy ===== *)
theory Slate
  imports Bus Channel
begin

text \<open>
  \<open>internal/wsgw/state.go\<close>: the slate, a replica's fold of the compacted price topic, with the part
  of the document it reads (\<open>internal/pricing/payload.go\<close>, \<open>reference.go\<close>) and the routing of a
  market (\<open>ChannelsFor\<close> of channel.go). The mutex makes \<open>Fold\<close>, \<open>Attach\<close> and \<open>Snapshot\<close> one
  atomic step each, so a step is a function of the store. JSON decoding of a document and parsing of
  a timestamp header are parameters. The fields of a document that the fold copies and never reads
  are left out of \<open>Computed\<close>: they travel in the payload bytes. A map of sets is a map to sets.
\<close>

section \<open>The computed document\<close>

datatype ReferenceSource = ReferenceSourceUnknown | ReferenceSourceCatalogue | ReferenceSourceConfigured

datatype DevigMethod = MethodUnknown | MethodMultiplicative | MethodAdditive | MethodPower | MethodShin

definition ReferenceSource_Valid :: "ReferenceSource \<Rightarrow> bool" where
  "ReferenceSource_Valid s = (s = ReferenceSourceCatalogue \<or> s = ReferenceSourceConfigured)"

definition DevigMethod_Valid :: "DevigMethod \<Rightarrow> bool" where
  "DevigMethod_Valid m = (case m of
      MethodMultiplicative \<Rightarrow> True | MethodAdditive \<Rightarrow> True | MethodPower \<Rightarrow> True | MethodShin \<Rightarrow> True
    | MethodUnknown \<Rightarrow> False)"

definition SchemaVersion :: int where "SchemaVersion = 1"
definition MessageType :: string where "MessageType = ''price.computed.v1''"
definition MinMarketSelections :: int where "MinMarketSelections = 2"

text \<open>\<open>cm_selections\<close> is the number of fair selections.\<close>

record Computed =
  cm_schema_version :: int
  cm_market_id :: string
  cm_event_id :: string
  cm_league_slug :: string
  cm_source :: ReferenceSource
  cm_method :: DevigMethod
  cm_selections :: int
  cm_observed_at :: time

datatype pricing_error =
    BadSchemaVersion
  | BadMarketID derr
  | NoReferenceSource
  | NoDevigMethod
  | ErrMarketNotPriceable

definition Computed_MarketID :: "Computed \<Rightarrow> string res" where
  "Computed_MarketID c = new_id (cm_market_id c)"

definition Computed_Validate :: "Computed \<Rightarrow> pricing_error + unit" where
  "Computed_Validate c =
     (if cm_schema_version c \<noteq> SchemaVersion then Inl BadSchemaVersion
      else case Computed_MarketID c of
        Inl e \<Rightarrow> Inl (BadMarketID e)
      | Inr _ \<Rightarrow>
          if \<not> ReferenceSource_Valid (cm_source c) then Inl NoReferenceSource
          else if \<not> DevigMethod_Valid (cm_method c) then Inl NoDevigMethod
          else if cm_selections c < MinMarketSelections then Inl ErrMarketNotPriceable
          else Inr ())"

definition ChannelsFor :: "Computed \<Rightarrow> ws_error + Channel list" where
  "ChannelsFor c =
     bindE (invalid_channel (Computed_MarketID c)) (\<lambda>marketID.
     bindE (MarketChannel marketID) (\<lambda>market.
     bindE (invalid_channel (new_id (cm_event_id c))) (\<lambda>eventID.
     bindE (EventChannel eventID) (\<lambda>event.
     bindE (invalid_channel (NewSlug (cm_league_slug c))) (\<lambda>slug.
     bindE (LeagueChannel slug) (\<lambda>league.
       Inr [market, event, league]))))))"

text \<open>The routing set names the three audiences of a document, when its identifiers validate.\<close>

lemma ChannelsFor_eq:
  "ChannelsFor c = Inr chs \<longleftrightarrow>
    validID (cm_market_id c) = Inr () \<and> validID (cm_event_id c) = Inr () \<and>
    is_ok (NewSlug (cm_league_slug c)) \<and>
    chs = [chan ChannelMarket (cm_market_id c), chan ChannelEvent (cm_event_id c),
           chan ChannelLeague (cm_league_slug c)]"
  by (auto simp: ChannelsFor_def Computed_MarketID_def bindE_eq_Inr new_id_ok_iff constructors_ok
      NewSlug_eq [of "cm_league_slug c"])

section \<open>The store\<close>

record SMarket =
  sm_ID :: string
  sm_Payload :: string
  sm_Computed :: Computed
  sm_Channels :: "Channel list"
  sm_ObservedAt :: time

datatype ApplyOutcome = ApplyStored | ApplyRemoved | ApplyStale | ApplyRejected | ApplyUnsupported

text \<open>The \<open>Market\<close> field is populated for \<open>ApplyStored\<close> only; the zero market is \<open>None\<close>.\<close>

record ApplyResult =
  ar_Outcome :: ApplyOutcome
  ar_MarketID :: string
  ar_Market :: "SMarket option"
  ar_Channels :: "Channel list"

abbreviation "applied oc i m chs \<equiv>
  \<lparr> ar_Outcome = oc, ar_MarketID = i, ar_Market = m, ar_Channels = chs \<rparr>"

type_synonym buckets = "string \<rightharpoonup> string set"

record Store =
  st_markets :: "string \<rightharpoonup> SMarket"
  st_byEvent :: buckets
  st_byLeague :: buckets

definition NewStore :: Store where
  "NewStore = \<lparr> st_markets = Map.empty, st_byEvent = Map.empty, st_byLeague = Map.empty \<rparr>"

text \<open>Adding to and removing from a map of sets, as both indexes do it.\<close>

definition bucket_add :: "string \<Rightarrow> string \<Rightarrow> buckets \<Rightarrow> buckets" where
  "bucket_add k i b = (case b k of None \<Rightarrow> b(k \<mapsto> {i}) | Some s \<Rightarrow> b(k \<mapsto> insert i s))"

definition bucket_del :: "string \<Rightarrow> string \<Rightarrow> buckets \<Rightarrow> buckets" where
  "bucket_del k i b = (case b k of
      None \<Rightarrow> b
    | Some s \<Rightarrow> let s' = s - {i} in if s' = {} then b(k := None) else b(k \<mapsto> s'))"

definition bucket_ids :: "buckets \<Rightarrow> string \<Rightarrow> string set" where
  "bucket_ids b k = (case b k of None \<Rightarrow> {} | Some s \<Rightarrow> s)"

definition index_channel :: "SMarket \<Rightarrow> Channel \<Rightarrow> Store \<Rightarrow> Store" where
  "index_channel m ch s =
     (if chan_kind ch = ChannelEvent then
        s\<lparr> st_byEvent := bucket_add (chan_id ch) (sm_ID m) (st_byEvent s) \<rparr>
      else if chan_kind ch = ChannelLeague then
        s\<lparr> st_byLeague := bucket_add (chan_id ch) (sm_ID m) (st_byLeague s) \<rparr>
      else s)"

definition indexLocked :: "SMarket \<Rightarrow> Store \<Rightarrow> Store" where
  "indexLocked m s = fold (index_channel m) (sm_Channels m) s"

definition deindex_channel :: "SMarket \<Rightarrow> Channel \<Rightarrow> Store \<Rightarrow> Store" where
  "deindex_channel m ch s =
     (if chan_kind ch = ChannelEvent then
        s\<lparr> st_byEvent := bucket_del (chan_id ch) (sm_ID m) (st_byEvent s) \<rparr>
      else if chan_kind ch = ChannelLeague then
        s\<lparr> st_byLeague := bucket_del (chan_id ch) (sm_ID m) (st_byLeague s) \<rparr>
      else s)"

definition deindexLocked :: "SMarket \<Rightarrow> Store \<Rightarrow> Store" where
  "deindexLocked m s = fold (deindex_channel m) (sm_Channels m) s"

definition removeLocked :: "string \<Rightarrow> time \<Rightarrow> Store \<Rightarrow> Store \<times> ApplyResult" where
  "removeLocked key observedAt s = (case st_markets s key of
      None \<Rightarrow> (s, applied ApplyRemoved key None [])
    | Some prev \<Rightarrow>
        if \<not> time_is_zero observedAt \<and> time_before observedAt (sm_ObservedAt prev)
        then (s, applied ApplyStale key None (sm_Channels prev))
        else let s' = deindexLocked prev s in
          (s'\<lparr> st_markets := (st_markets s')(key := None) \<rparr>,
           applied ApplyRemoved key None (sm_Channels prev)))"

text \<open>
  The value path of \<open>applyLocked\<close>, once the document is decoded, validated and routed: the
  monotonicity guard, the teardown of the old indexes, the installation of the new ones.
\<close>

definition storeLocked ::
  "string \<Rightarrow> string \<Rightarrow> Computed \<Rightarrow> Channel list \<Rightarrow> time \<Rightarrow> Store \<Rightarrow> Store \<times> ApplyResult" where
  "storeLocked key data computed channels observedAt s =
     (let market = \<lparr> sm_ID = key, sm_Payload = data, sm_Computed = computed,
                     sm_Channels = channels, sm_ObservedAt = observedAt \<rparr>;
          install = \<lambda>s'. (indexLocked market (s'\<lparr> st_markets := (st_markets s')(key \<mapsto> market) \<rparr>),
                          applied ApplyStored key (Some market) channels)
      in case st_markets s key of
        None \<Rightarrow> install s
      | Some prev \<Rightarrow>
          if time_before observedAt (sm_ObservedAt prev)
          then (s, applied ApplyStale key None (sm_Channels prev))
          else install (deindexLocked prev s))"

text \<open>A refused record leaves the store alone and reports which error it wraps.\<close>

definition refuse :: "Store \<Rightarrow> ApplyOutcome \<Rightarrow> string \<Rightarrow> ws_error \<Rightarrow> Store \<times> ApplyResult \<times> ws_error option" where
  "refuse s oc key e = (s, applied oc key None [], Some e)"

definition accept :: "Store \<times> ApplyResult \<Rightarrow> Store \<times> ApplyResult \<times> ws_error option" where
  "accept sr = (fst sr, snd sr, None)"

definition applyLocked ::
  "(string \<Rightarrow> Computed option) \<Rightarrow> (string \<Rightarrow> time option) \<Rightarrow> Delivery option \<Rightarrow> Store \<Rightarrow>
    Store \<times> ApplyResult \<times> ws_error option" where
  "applyLocked decode parse_time d s = (case d of
      None \<Rightarrow> refuse s ApplyRejected [] ErrRecordRejected
    | Some d \<Rightarrow> (case Delivery_MarketID d of
        Inl _ \<Rightarrow> refuse s ApplyRejected [] ErrRecordRejected
      | Inr key \<Rightarrow>
          (let observedAt = fst (Delivery_ObservedAt parse_time d) in
           if dlv_tombstone d then accept (removeLocked key observedAt s)
           else if dlv_type d \<noteq> MessageType then refuse s ApplyUnsupported key ErrUnsupportedMessage
           else case Delivery_Unmarshal decode d of
             Inl _ \<Rightarrow> refuse s ApplyRejected key ErrRecordRejected
           | Inr computed \<Rightarrow> (case Computed_Validate computed of
               Inl _ \<Rightarrow> refuse s ApplyRejected key ErrRecordRejected
             | Inr _ \<Rightarrow> (case Computed_MarketID computed of
                 Inl _ \<Rightarrow> refuse s ApplyRejected key ErrRecordRejected
               | Inr payloadID \<Rightarrow>
                   if payloadID \<noteq> key then refuse s ApplyRejected key ErrRecordRejected
                   else case ChannelsFor computed of
                     Inl _ \<Rightarrow> refuse s ApplyRejected key ErrRecordRejected
                   | Inr channels \<Rightarrow>
                       (let observedAt = (if time_is_zero observedAt then cm_observed_at computed
                                          else observedAt) in
                        accept (storeLocked key (dlv_data d) computed channels observedAt s)))))))"

text \<open>
  \<open>Fold\<close> with a callback: besides the store and what the call returns, the result handed to
  \<open>publish\<close>, if it was called.
\<close>

definition changed :: "ApplyResult \<Rightarrow> bool" where
  "changed r = (ar_Outcome r = ApplyStored \<or> (ar_Outcome r = ApplyRemoved \<and> ar_Channels r \<noteq> []))"

definition Fold ::
  "(string \<Rightarrow> Computed option) \<Rightarrow> (string \<Rightarrow> time option) \<Rightarrow> Delivery option \<Rightarrow> Store \<Rightarrow>
    Store \<times> (ApplyResult \<times> ws_error option) \<times> ApplyResult option" where
  "Fold decode parse_time d s =
     (case applyLocked decode parse_time d s of (s', r, e) \<Rightarrow>
        (s', (r, e), if e = None \<and> changed r then Some r else None))"

definition collectLocked :: "Store \<Rightarrow> string set \<Rightarrow> SMarket list" where
  "collectLocked s ids = sort_key sm_ID (List.map_filter (st_markets s) (sorted_list_of_set ids))"

definition snapshotLocked :: "Store \<Rightarrow> Channel \<Rightarrow> SMarket list" where
  "snapshotLocked s ch =
     (if chan_kind ch = ChannelMarket then
        (case st_markets s (chan_id ch) of None \<Rightarrow> [] | Some m \<Rightarrow> [m])
      else if chan_kind ch = ChannelEvent then collectLocked s (bucket_ids (st_byEvent s) (chan_id ch))
      else if chan_kind ch = ChannelLeague then collectLocked s (bucket_ids (st_byLeague s) (chan_id ch))
      else [])"

definition Snapshot :: "Store \<Rightarrow> Channel \<Rightarrow> SMarket list" where
  "Snapshot s ch = snapshotLocked s ch"

definition attach_channel ::
  "Store \<Rightarrow> Channel \<Rightarrow> (Channel \<rightharpoonup> SMarket list) \<Rightarrow> (Channel \<rightharpoonup> SMarket list)" where
  "attach_channel s ch snaps =
     (if Channel_IsZero ch then snaps else snaps(ch \<mapsto> snapshotLocked s ch))"

text \<open>What \<open>Attach\<close> hands to \<open>register\<close>.\<close>

definition Attach :: "Store \<Rightarrow> Channel list \<Rightarrow> (Channel \<rightharpoonup> SMarket list)" where
  "Attach s channels = fold (attach_channel s) channels Map.empty"

definition Store_Len :: "Store \<Rightarrow> nat" where
  "Store_Len s = card (dom (st_markets s))"

record Stats =
  stats_markets :: nat
  stats_events :: nat
  stats_leagues :: nat

definition Store_Stats :: "Store \<Rightarrow> Stats" where
  "Store_Stats s = \<lparr> stats_markets = card (dom (st_markets s)), stats_events = card (dom (st_byEvent s)),
     stats_leagues = card (dom (st_byLeague s)) \<rparr>"

section \<open>The index contract\<close>

text \<open>
  An index is a set-valued map that follows a function from members to keys. What the store needs
  of its two indexes is the contract below, and both are the same bucket operations.
\<close>

definition tracks :: "('b \<Rightarrow> 'k \<Rightarrow> 'i set) \<Rightarrow> ('i \<rightharpoonup> 'k) \<Rightarrow> 'b \<Rightarrow> bool" where
  "tracks ids f b = (\<forall>k. ids b k = {i. f i = Some k})"

locale member_index =
  fixes ids :: "'b \<Rightarrow> 'k \<Rightarrow> 'i set"
    and add :: "'k \<Rightarrow> 'i \<Rightarrow> 'b \<Rightarrow> 'b"
    and del :: "'k \<Rightarrow> 'i \<Rightarrow> 'b \<Rightarrow> 'b"
    and ok :: "'b \<Rightarrow> bool"
  assumes ids_add: "ids (add k i b) k' = (if k' = k then insert i (ids b k') else ids b k')"
    and ids_del: "ids (del k i b) k' = (if k' = k then ids b k' - {i} else ids b k')"
    and ok_add: "ok b \<Longrightarrow> ok (add k i b)"
    and ok_del: "ok b \<Longrightarrow> ok (del k i b)"
begin

lemma tracks_add: "tracks ids f b \<Longrightarrow> f i = None \<Longrightarrow> tracks ids (f(i \<mapsto> k)) (add k i b)"
  by (auto simp: tracks_def ids_add)

lemma tracks_del: "tracks ids f b \<Longrightarrow> f i = Some k \<Longrightarrow> tracks ids (f(i := None)) (del k i b)"
  by (auto simp: tracks_def ids_del)

lemma tracks_move:
  "tracks ids f b \<Longrightarrow> f i = Some j \<Longrightarrow> tracks ids (f(i \<mapsto> k)) (add k i (del j i b))"
  using tracks_add [OF tracks_del] by (metis fun_upd_same fun_upd_upd)

end

text \<open>No empty bucket is kept, so the number of buckets is the number of keys in use.\<close>

definition bucket_ok :: "buckets \<Rightarrow> bool" where
  "bucket_ok b = (\<forall>k. b k \<noteq> Some {})"

interpretation buckets: member_index bucket_ids bucket_add bucket_del bucket_ok
  by unfold_locales (auto simp: bucket_ids_def bucket_add_def bucket_del_def bucket_ok_def Let_def
      split: option.splits)

lemma bucket_dom:
  assumes "bucket_ok b" "tracks bucket_ids f b"
  shows "dom b = ran f"
proof -
  have "k \<in> dom b \<longleftrightarrow> bucket_ids b k \<noteq> {}" for k
    using assms(1) by (auto simp: bucket_ids_def bucket_ok_def split: option.splits)
  moreover have "bucket_ids b k \<noteq> {} \<longleftrightarrow> k \<in> ran f" for k
    using assms(2) by (auto simp: tracks_def ran_def)
  ultimately show ?thesis by blast
qed

end
