(* ===== verification/SlateInvariant.thy ===== *)
theory SlateInvariant
  imports Slate
begin

text \<open>
  The invariant of the slate: every market is held under its own identifier with the routing set of
  its document, and the two indexes are exactly the inverse images of the event and the league of
  the markets held, with no empty bucket. Every step of \<open>Fold\<close> keeps it; a snapshot of a channel is
  then the sorted list of the markets routed to that channel, and the deltas a step publishes keep
  a subscriber's view in step with it.
\<close>

section \<open>The invariant\<close>

definition event_of :: "(string \<rightharpoonup> SMarket) \<Rightarrow> string \<rightharpoonup> string" where
  "event_of ms = (\<lambda>i. map_option (\<lambda>m. cm_event_id (sm_Computed m)) (ms i))"

definition league_of :: "(string \<rightharpoonup> SMarket) \<Rightarrow> string \<rightharpoonup> string" where
  "league_of ms = (\<lambda>i. map_option (\<lambda>m. cm_league_slug (sm_Computed m)) (ms i))"

definition market_held :: "string \<Rightarrow> SMarket \<Rightarrow> bool" where
  "market_held i m =
     (sm_ID m = i \<and> cm_market_id (sm_Computed m) = i \<and>
      Computed_Validate (sm_Computed m) = Inr () \<and>
      ChannelsFor (sm_Computed m) = Inr (sm_Channels m))"

definition index_wf :: "(string \<rightharpoonup> string) \<Rightarrow> buckets \<Rightarrow> bool" where
  "index_wf f b = (tracks bucket_ids f b \<and> bucket_ok b)"

definition slate_wf :: "Store \<Rightarrow> bool" where
  "slate_wf s =
     ((\<forall>i m. st_markets s i = Some m \<longrightarrow> market_held i m) \<and> finite (dom (st_markets s)) \<and>
      index_wf (event_of (st_markets s)) (st_byEvent s) \<and>
      index_wf (league_of (st_markets s)) (st_byLeague s))"

lemma index_add: "index_wf f b \<Longrightarrow> f i = None \<Longrightarrow> index_wf (f(i \<mapsto> k)) (bucket_add k i b)"
  by (simp add: index_wf_def buckets.tracks_add buckets.ok_add)

lemma index_del: "index_wf f b \<Longrightarrow> f i = Some k \<Longrightarrow> index_wf (f(i := None)) (bucket_del k i b)"
  by (simp add: index_wf_def buckets.tracks_del buckets.ok_del)

lemma index_move:
  "index_wf f b \<Longrightarrow> f i = Some j \<Longrightarrow> index_wf (f(i \<mapsto> k)) (bucket_add k i (bucket_del j i b))"
  by (simp add: index_wf_def buckets.tracks_move buckets.ok_add buckets.ok_del)

lemma key_of_upd [simp]:
  "event_of (ms(i \<mapsto> m)) = (event_of ms)(i \<mapsto> cm_event_id (sm_Computed m))"
  "league_of (ms(i \<mapsto> m)) = (league_of ms)(i \<mapsto> cm_league_slug (sm_Computed m))"
  "event_of (ms(i := None)) = (event_of ms)(i := None)"
  "league_of (ms(i := None)) = (league_of ms)(i := None)"
  by (auto simp: event_of_def league_of_def)

lemma key_of_held [simp]:
  "ms i = Some m \<Longrightarrow> event_of ms i = Some (cm_event_id (sm_Computed m))"
  "ms i = Some m \<Longrightarrow> league_of ms i = Some (cm_league_slug (sm_Computed m))"
  "ms i = None \<Longrightarrow> event_of ms i = None"
  "ms i = None \<Longrightarrow> league_of ms i = None"
  by (simp_all add: event_of_def league_of_def)

lemma NewStore_wf: "slate_wf NewStore"
  by (simp add: slate_wf_def NewStore_def index_wf_def tracks_def bucket_ids_def bucket_ok_def
      event_of_def league_of_def)

lemma held_channels:
  "market_held i m \<Longrightarrow> sm_Channels m = [chan ChannelMarket i,
     chan ChannelEvent (cm_event_id (sm_Computed m)), chan ChannelLeague (cm_league_slug (sm_Computed m))]"
  by (simp add: market_held_def ChannelsFor_eq)

lemma index_held:
  assumes "market_held i m"
  shows "indexLocked m s =
    s\<lparr> st_byEvent := bucket_add (cm_event_id (sm_Computed m)) i (st_byEvent s),
      st_byLeague := bucket_add (cm_league_slug (sm_Computed m)) i (st_byLeague s) \<rparr>"
  using assms by (simp add: indexLocked_def held_channels [OF assms] index_channel_def market_held_def)

lemma deindex_held:
  assumes "market_held i m"
  shows "deindexLocked m s =
    s\<lparr> st_byEvent := bucket_del (cm_event_id (sm_Computed m)) i (st_byEvent s),
      st_byLeague := bucket_del (cm_league_slug (sm_Computed m)) i (st_byLeague s) \<rparr>"
  using assms by (simp add: deindexLocked_def held_channels [OF assms] deindex_channel_def market_held_def)

section \<open>The two ways a store changes\<close>

definition put :: "SMarket \<Rightarrow> Store \<Rightarrow> Store" where
  "put m s =
     (let s' = (case st_markets s (sm_ID m) of None \<Rightarrow> s | Some prev \<Rightarrow> deindexLocked prev s)
      in indexLocked m (s'\<lparr> st_markets := (st_markets s')(sm_ID m \<mapsto> m) \<rparr>))"

definition drop_market :: "SMarket \<Rightarrow> Store \<Rightarrow> Store" where
  "drop_market prev s =
     (let s' = deindexLocked prev s in s'\<lparr> st_markets := (st_markets s')(sm_ID prev := None) \<rparr>)"

lemma put_markets:
  assumes "slate_wf s" "market_held i m"
  shows "st_markets (put m s) = (st_markets s)(i \<mapsto> m)"
proof (cases "st_markets s i")
  case None
  then show ?thesis using assms(2) by (simp add: put_def index_held [OF assms(2)] market_held_def)
next
  case (Some prev)
  then have "market_held i prev" using assms(1) by (simp add: slate_wf_def)
  then show ?thesis
    using Some assms(2) by (simp add: put_def index_held [OF assms(2)] deindex_held market_held_def Let_def)
qed

lemma put_wf:
  assumes wf: "slate_wf s" and m: "market_held i m"
  shows "slate_wf (put m s)"
proof -
  have i: "sm_ID m = i" using m by (simp add: market_held_def)
  have ix: "index_wf (event_of (st_markets s)) (st_byEvent s)"
    "index_wf (league_of (st_markets s)) (st_byLeague s)"
    using wf by (simp_all add: slate_wf_def)
  have "index_wf (event_of (st_markets (put m s))) (st_byEvent (put m s)) \<and>
        index_wf (league_of (st_markets (put m s))) (st_byLeague (put m s))"
  proof (cases "st_markets s i")
    case None
    then show ?thesis
      using ix by (simp add: put_markets [OF wf m] index_add) (simp add: put_def i index_held [OF m] index_add)
  next
    case (Some prev)
    then have "market_held i prev" using wf by (simp add: slate_wf_def)
    then show ?thesis
      using ix Some by (simp add: put_markets [OF wf m])
        (simp add: put_def i index_held [OF m] deindex_held index_move)
  qed
  then show ?thesis
    using wf m by (auto simp: slate_wf_def put_markets [OF wf m])
qed

lemma drop_eq:
  assumes "market_held i prev"
  shows "drop_market prev s =
    s\<lparr> st_markets := (st_markets s)(i := None),
      st_byEvent := bucket_del (cm_event_id (sm_Computed prev)) i (st_byEvent s),
      st_byLeague := bucket_del (cm_league_slug (sm_Computed prev)) i (st_byLeague s) \<rparr>"
  using assms by (simp add: drop_market_def deindex_held market_held_def)

lemma drop_wf:
  assumes wf: "slate_wf s" and "st_markets s i = Some prev"
  shows "slate_wf (drop_market prev s)"
proof -
  have held: "market_held i prev" using assms by (simp add: slate_wf_def)
  show ?thesis
    unfolding drop_eq [OF held] using assms
    by (auto simp: slate_wf_def index_del split: if_splits)
qed

section \<open>A step of the fold\<close>

text \<open>
  What one call of \<open>Fold\<close> may do to a store: nothing that is published, the removal of a market
  held under the key, or the installation of a market newer than the one held.
\<close>

inductive fold_step ::
  "(string \<Rightarrow> Computed option) \<Rightarrow> Store \<Rightarrow> Store \<Rightarrow> ApplyResult option \<Rightarrow> bool"
  for decode where
  quiet: "fold_step decode s s None"
| removed: "st_markets s i = Some prev \<Longrightarrow>
    fold_step decode s (drop_market prev s) (Some (applied ApplyRemoved i None (sm_Channels prev)))"
| stored: "market_held i m \<Longrightarrow> decode (sm_Payload m) = Some (sm_Computed m) \<Longrightarrow>
    (\<And>prev. st_markets s i = Some prev \<Longrightarrow> sm_ObservedAt prev \<le> sm_ObservedAt m) \<Longrightarrow>
    fold_step decode s (put m s) (Some (applied ApplyStored i (Some m) (sm_Channels m)))"

inductive_cases fold_stepE: "fold_step decode s s' p"

lemma remove_step:
  assumes wf: "slate_wf s" and "removeLocked key t s = (s', r)"
  shows "fold_step decode s s' (if changed r then Some r else None)"
proof (cases "st_markets s key")
  case None
  then show ?thesis using assms by (auto simp: removeLocked_def changed_def intro: quiet)
next
  case (Some prev)
  then have h: "market_held key prev" using wf by (simp add: slate_wf_def)
  then have id: "sm_ID prev = key" "sm_Channels prev \<noteq> []"
    by (simp add: market_held_def, simp add: held_channels [OF h])
  show ?thesis
  proof (cases "\<not> time_is_zero t \<and> time_before t (sm_ObservedAt prev)")
    case True
    then show ?thesis using assms(2) Some by (auto simp: removeLocked_def changed_def intro: quiet)
  next
    case False
    then have "s' = drop_market prev s" "r = applied ApplyRemoved key None (sm_Channels prev)"
      using assms(2) Some by (auto simp: removeLocked_def drop_market_def Let_def id)
    then show ?thesis using removed [OF Some] by (simp add: changed_def id)
  qed
qed

lemma store_step:
  assumes "validID key = Inr ()" "Computed_Validate c = Inr ()" "Computed_MarketID c = Inr key"
    and "ChannelsFor c = Inr chs" and data: "decode data = Some c" and st: "storeLocked key data c chs t s = (s', r)"
  shows "fold_step decode s s' (if changed r then Some r else None)"
proof -
  define m where "m = \<lparr> sm_ID = key, sm_Payload = data, sm_Computed = c, sm_Channels = chs, sm_ObservedAt = t \<rparr>"
  have id: "sm_ID m = key" "sm_Channels m = chs" "sm_ObservedAt m = t" by (simp_all add: m_def)
  have held: "market_held key m"
    using assms by (simp add: market_held_def m_def Computed_MarketID_def new_id_ok_iff)
  show ?thesis
  proof (cases "\<exists>prev. st_markets s key = Some prev \<and> t < sm_ObservedAt prev")
    case True
    then have "s' = s" "\<not> changed r"
      using st by (auto simp: storeLocked_def time_defs changed_def Let_def)
    then show ?thesis by (simp add: quiet)
  next
    case False
    then have "s' = put m s" "r = applied ApplyStored key (Some m) chs"
      using st by (auto simp: storeLocked_def put_def m_def time_defs Let_def split: option.splits if_splits)
    moreover have "fold_step decode s (put m s) (Some (applied ApplyStored key (Some m) (sm_Channels m)))"
      using False by (intro stored held) (auto simp: id data, simp add: m_def data)
    ultimately show ?thesis by (simp add: changed_def id)
  qed
qed

lemma apply_step:
  assumes wf: "slate_wf s" and ap: "applyLocked decode parse_time d s = (s', r, e)"
  shows "fold_step decode s s' (if e = None \<and> changed r then Some r else None)"
proof (cases "e = None")
  case False
  then have "s' = s"
    using ap by (auto simp: applyLocked_def refuse_def accept_def Let_def
        split: option.splits sum.splits if_splits)
  then show ?thesis using False by (simp add: quiet del: not_None_eq)
next
  case True
  then obtain d' key where d: "d = Some d'" "Delivery_MarketID d' = Inr key"
    using ap by (auto simp: applyLocked_def refuse_def split: option.splits sum.splits)
  have key: "validID key = Inr ()"
    using d(2) by (auto simp: Delivery_MarketID_def delivery_id_ok)
  show ?thesis
  proof (cases "dlv_tombstone d'")
    case True
    then have "removeLocked key (fst (Delivery_ObservedAt parse_time d')) s = (s', r)"
      using ap by (auto simp: applyLocked_def d accept_def Let_def)
    then show ?thesis using remove_step [OF wf] \<open>e = None\<close> by simp
  next
    case False
    then obtain c chs t where "decode (dlv_data d') = Some c" "Computed_Validate c = Inr ()" "Computed_MarketID c = Inr key"
        "ChannelsFor c = Inr chs" "storeLocked key (dlv_data d') c chs t s = (s', r)"
      using ap \<open>e = None\<close> unfolding applyLocked_def
      by (auto simp: d accept_def refuse_def Delivery_Unmarshal_def Let_def
          split: sum.splits if_splits option.splits)
    then show ?thesis using store_step [OF key] \<open>e = None\<close> by simp
  qed
qed

lemma Fold_step:
  assumes "slate_wf s"
  shows "fold_step decode s (fst (Fold decode parse_time d s)) (snd (snd (Fold decode parse_time d s)))"
proof -
  obtain s' r e where "applyLocked decode parse_time d s = (s', r, e)"
    by (cases "applyLocked decode parse_time d s") auto
  then show ?thesis using apply_step [OF assms] by (simp add: Fold_def)
qed

lemma step_wf: "fold_step decode s s' p \<Longrightarrow> slate_wf s \<Longrightarrow> slate_wf s'"
  by (erule fold_stepE) (auto intro: drop_wf put_wf)

text \<open>A replica that has consumed a log, and what it published while doing so.\<close>

fun fold_log ::
  "(string \<Rightarrow> Computed option) \<Rightarrow> (string \<Rightarrow> time option) \<Rightarrow> Delivery list \<Rightarrow> Store \<Rightarrow>
    Store \<times> ApplyResult list" where
  "fold_log decode parse_time [] s = (s, [])"
| "fold_log decode parse_time (d # ds) s =
     (let f = Fold decode parse_time (Some d) s;
          rest = fold_log decode parse_time ds (fst f)
      in (fst rest, (case snd (snd f) of None \<Rightarrow> [] | Some r \<Rightarrow> [r]) @ snd rest))"

lemma fold_log_wf_from: "slate_wf s \<Longrightarrow> slate_wf (fst (fold_log decode parse_time ds s))"
  by (induction ds arbitrary: s) (simp_all add: Let_def step_wf [OF Fold_step])

section \<open>Snapshots\<close>

lemma held_unique:
  assumes "slate_wf s" "st_markets s i = Some m" "st_markets s j = Some m"
  shows "i = j"
  using assms by (metis slate_wf_def market_held_def)

lemma set_held [simp]: "set (List.map_filter f xs) = {m. \<exists>i \<in> set xs. f i = Some m}"
  by (induction xs) (auto simp: map_filter_simps split: option.splits)

text \<open>Any enumeration of a set of held identifiers gives the same sorted list of markets.\<close>

lemma held_ids:
  assumes "slate_wf s" "set xs \<subseteq> dom (st_markets s)"
  shows "map sm_ID (List.map_filter (st_markets s) xs) = xs"
  using assms
  by (induction xs) (auto simp: slate_wf_def market_held_def map_filter_simps split: option.splits)

lemma collect_order:
  assumes "slate_wf s" "set xs \<subseteq> dom (st_markets s)" "distinct xs"
  shows "sort_key sm_ID (List.map_filter (st_markets s) xs) = collectLocked s (set xs)"
proof -
  let ?f = "List.map_filter (st_markets s)"
  let ?ys = "sorted_list_of_set (set xs)"
  have ys: "map sm_ID (?f ?ys) = ?ys" using assms by (intro held_ids) simp_all
  have "set (?f ?ys) = set (?f xs)" by simp
  moreover have "distinct (map sm_ID (?f xs))" using held_ids [OF assms(1,2)] assms(3) by simp
  moreover have "inj_on sm_ID (set (?f xs))"
    using held_ids [OF assms(1,2)] assms(3) by (metis distinct_map)
  moreover have "distinct (map sm_ID (?f ?ys))" by (simp add: ys)
  ultimately show ?thesis
    unfolding collectLocked_def
    by (intro map_sorted_distinct_set_unique [of sm_ID]) (auto simp: distinct_map)
qed

lemma collect_spec:
  assumes wf: "slate_wf s" and "ids \<subseteq> dom (st_markets s)"
  shows "set (collectLocked s ids) = {m. \<exists>i \<in> ids. st_markets s i = Some m}"
    and "map sm_ID (collectLocked s ids) = sorted_list_of_set ids"
proof -
  have fin: "finite ids" using assms finite_subset by (auto simp: slate_wf_def)
  have ids: "map sm_ID (List.map_filter (st_markets s) (sorted_list_of_set ids)) = sorted_list_of_set ids"
    using assms fin by (intro held_ids) simp_all
  then have "collectLocked s ids = List.map_filter (st_markets s) (sorted_list_of_set ids)"
    unfolding collectLocked_def by (simp add: sort_key_id_if_sorted)
  then show "map sm_ID (collectLocked s ids) = sorted_list_of_set ids"
    "set (collectLocked s ids) = {m. \<exists>i \<in> ids. st_markets s i = Some m}"
    using ids fin by simp_all
qed

text \<open>The markets routed to a channel.\<close>

definition routed :: "Store \<Rightarrow> Channel \<Rightarrow> string set" where
  "routed s ch = {i. \<exists>m. st_markets s i = Some m \<and> ch \<in> set (sm_Channels m)}"

lemma routed_ids:
  assumes wf: "slate_wf s"
  shows "routed s ch =
    (if chan_kind ch = ChannelMarket then {i. i = chan_id ch \<and> st_markets s i \<noteq> None}
     else if chan_kind ch = ChannelEvent then bucket_ids (st_byEvent s) (chan_id ch)
     else if chan_kind ch = ChannelLeague then bucket_ids (st_byLeague s) (chan_id ch)
     else {})"
proof -
  have mem: "i \<in> routed s (chan k v) \<longleftrightarrow> (\<exists>m. st_markets s i = Some m \<and>
      (k = ChannelMarket \<and> v = i \<or> k = ChannelEvent \<and> v = cm_event_id (sm_Computed m) \<or>
       k = ChannelLeague \<and> v = cm_league_slug (sm_Computed m)))" for i k v
  proof -
    have "st_markets s i = Some m \<Longrightarrow> sm_Channels m = [chan ChannelMarket i,
     chan ChannelEvent (cm_event_id (sm_Computed m)), chan ChannelLeague (cm_league_slug (sm_Computed m))]" for m
      using wf held_channels by (simp add: slate_wf_def)
    then show ?thesis by (auto simp: routed_def)
  qed
  obtain k v where ch: "ch = chan k v" by (cases ch)
  have "bucket_ids (st_byEvent s) v = {i. event_of (st_markets s) i = Some v}"
    "bucket_ids (st_byLeague s) v = {i. league_of (st_markets s) i = Some v}"
    using wf by (simp_all add: slate_wf_def index_wf_def tracks_def)
  then show ?thesis
    unfolding ch by (auto simp: mem event_of_def league_of_def)
qed

lemma routed_subset: "routed s ch \<subseteq> dom (st_markets s)"
  by (auto simp: routed_def)

lemma snapshot_ids:
  assumes wf: "slate_wf s"
  shows "map sm_ID (Snapshot s ch) = sorted_list_of_set (routed s ch)"
    and "set (Snapshot s ch) = {m. \<exists>i \<in> routed s ch. st_markets s i = Some m}"
proof -
  have held: "st_markets s i = Some m \<Longrightarrow> sm_ID m = i" for i m
    using wf by (simp add: slate_wf_def market_held_def)
  have "map sm_ID (Snapshot s ch) = sorted_list_of_set (routed s ch) \<and>
    set (Snapshot s ch) = {m. \<exists>i \<in> routed s ch. st_markets s i = Some m}"
  proof (cases "chan_kind ch = ChannelMarket")
    case True
    then have "routed s ch = (if st_markets s (chan_id ch) = None then {} else {chan_id ch})"
      by (auto simp: routed_ids [OF wf])
    then show ?thesis
      using True by (auto simp: Snapshot_def snapshotLocked_def held split: option.splits)
  next
    case False
    note ids = routed_ids [OF wf, of ch] False
    show ?thesis
    proof (cases "chan_kind ch \<in> {ChannelEvent, ChannelLeague}")
      case True
      then have "Snapshot s ch = collectLocked s (routed s ch)"
        using ids by (auto simp: Snapshot_def snapshotLocked_def)
      then show ?thesis using collect_spec [OF wf routed_subset] by simp
    next
      case False
      then show ?thesis using ids by (simp add: Snapshot_def snapshotLocked_def)
    qed
  qed
  then show "map sm_ID (Snapshot s ch) = sorted_list_of_set (routed s ch)"
    "set (Snapshot s ch) = {m. \<exists>i \<in> routed s ch. st_markets s i = Some m}"
    by simp_all
qed

end
