(* ===== verification/Protocol.thy ===== *)
theory Protocol
  imports Channel GoInt
begin

text \<open>
  \<open>internal/wsgw/protocol.go\<close>: the frames of the gateway. A rendered body is kept as the values it
  was rendered from, not as its JSON text, and a framed body is that with a number. \<open>json.Marshal\<close>
  fails for two reasons only: a zero channel (\<open>Channel.MarshalText\<close>) and raw bytes that are not
  JSON; the second is a parameter, \<open>json_valid\<close>. Decoding a client's bytes is a parameter.
\<close>

section \<open>Kinds and codes\<close>

datatype MessageKind = KindHello | KindAck | KindSnapshot | KindDelta | KindResync | KindError | KindPong

definition MessageKind_String :: "MessageKind \<Rightarrow> string" where
  "MessageKind_String k = (case k of
      KindHello \<Rightarrow> ''hello'' | KindAck \<Rightarrow> ''ack'' | KindSnapshot \<Rightarrow> ''snapshot'' | KindDelta \<Rightarrow> ''delta''
    | KindResync \<Rightarrow> ''resync'' | KindError \<Rightarrow> ''error'' | KindPong \<Rightarrow> ''pong'')"

definition MessageKinds :: "MessageKind list" where
  "MessageKinds = [KindHello, KindAck, KindSnapshot, KindDelta, KindResync, KindError, KindPong]"

text \<open>The kind of a client frame is the string the client sent.\<close>

type_synonym ClientKind = string

definition ClientSubscribe :: ClientKind where "ClientSubscribe = ''subscribe''"
definition ClientUnsubscribe :: ClientKind where "ClientUnsubscribe = ''unsubscribe''"
definition ClientResync :: ClientKind where "ClientResync = ''resync''"
definition ClientPing :: ClientKind where "ClientPing = ''ping''"

lemmas client_kinds = ClientSubscribe_def ClientUnsubscribe_def ClientResync_def ClientPing_def

definition ClientKind_Valid :: "ClientKind \<Rightarrow> bool" where
  "ClientKind_Valid k =
     (k = ClientSubscribe \<or> k = ClientUnsubscribe \<or> k = ClientResync \<or> k = ClientPing)"

datatype ErrorCode =
    CodeMalformedFrame | CodeUnknownType | CodeFrameTooLarge | CodeInvalidChannel
  | CodeChannelLimit | CodeUnauthorized | CodeGoingAway | CodeInternal

datatype DropReason =
    DropSlowConsumer | DropWriteError | DropReadError | DropIdleTimeout | DropProtocolError | DropShutdown

datatype ResyncReason = ResyncSlowConsumer | ResyncClientRequested | ResyncPresenceLost

definition ErrorCodeFor :: "ws_error \<Rightarrow> ErrorCode" where
  "ErrorCodeFor e = (case e of
      ErrFrameTooLarge \<Rightarrow> CodeFrameTooLarge
    | ErrUnknownFrameType \<Rightarrow> CodeUnknownType
    | ErrMalformedFrame \<Rightarrow> CodeMalformedFrame
    | ErrChannelLimit \<Rightarrow> CodeChannelLimit
    | ErrInvalidChannel _ \<Rightarrow> CodeInvalidChannel
    | ErrInvalidCredential \<Rightarrow> CodeUnauthorized
    | ErrTokenInQuery \<Rightarrow> CodeUnauthorized
    | ErrProtocolNotOffered \<Rightarrow> CodeUnauthorized
    | _ \<Rightarrow> CodeInternal)"

definition DropReasonFor :: "ws_error \<Rightarrow> DropReason" where
  "DropReasonFor e = (case e of
      ErrFrameTooLarge \<Rightarrow> DropProtocolError
    | ErrUnknownFrameType \<Rightarrow> DropProtocolError
    | ErrMalformedFrame \<Rightarrow> DropProtocolError
    | ErrInvalidChannel _ \<Rightarrow> DropProtocolError
    | ErrChannelLimit \<Rightarrow> DropProtocolError
    | _ \<Rightarrow> DropReadError)"

section \<open>Server frames\<close>

definition WireProtocol :: string where "WireProtocol = ''sharpline.v1''"

record RejectedChannel =
  rc_channel :: string
  rc_reason :: RejectReason

abbreviation "rejected_as c r \<equiv> \<lparr> rc_channel = c, rc_reason = r \<rparr>"

datatype FrameBody =
    HelloFrame (hello_connection: string) (hello_protocol: string) (hello_heartbeat: int)
      (hello_session: string) (hello_resumed: bool) (hello_authenticated: bool)
      (hello_channels: "Channel list")
  | AckFrame "Channel list" "RejectedChannel list"
  | SnapshotFrame Channel "string list" bool
  | DeltaFrame Channel string string
  | ResyncFrame ResyncReason int64 uint64 uint64
  | ErrorFrame ErrorCode string
  | PongFrame

definition Kind :: "FrameBody \<Rightarrow> MessageKind" where
  "Kind b = (case b of
      HelloFrame _ _ _ _ _ _ _ \<Rightarrow> KindHello
    | AckFrame _ _ \<Rightarrow> KindAck
    | SnapshotFrame _ _ _ \<Rightarrow> KindSnapshot
    | DeltaFrame _ _ _ \<Rightarrow> KindDelta
    | ResyncFrame _ _ _ _ \<Rightarrow> KindResync
    | ErrorFrame _ _ \<Rightarrow> KindError
    | PongFrame \<Rightarrow> KindPong)"

definition second :: int where "second = 10 ^ 9"

definition NewHello :: "string \<Rightarrow> string \<Rightarrow> duration \<Rightarrow> bool \<Rightarrow> bool \<Rightarrow> Channel list \<Rightarrow> FrameBody" where
  "NewHello connectionID sessionID heartbeat resumed authenticated channels =
     HelloFrame connectionID WireProtocol (heartbeat div second) sessionID resumed authenticated channels"

definition NewAck :: "Channel list \<Rightarrow> RejectedChannel list \<Rightarrow> FrameBody" where
  "NewAck subscribed rejected = AckFrame subscribed rejected"

definition NewSnapshot :: "Channel \<Rightarrow> string list \<Rightarrow> FrameBody" where
  "NewSnapshot ch markets = SnapshotFrame ch markets True"

definition NewDelta :: "Channel \<Rightarrow> string \<Rightarrow> FrameBody" where
  "NewDelta ch market = DeltaFrame ch market []"

definition NewRemoval :: "Channel \<Rightarrow> string \<Rightarrow> FrameBody" where
  "NewRemoval ch marketID = DeltaFrame ch [] marketID"

definition NewResync :: "ResyncReason \<Rightarrow> int64 \<Rightarrow> uint64 \<Rightarrow> uint64 \<Rightarrow> FrameBody" where
  "NewResync reason dropped fromSeq toSeq = ResyncFrame reason dropped fromSeq toSeq"

definition NewError :: "ErrorCode \<Rightarrow> string \<Rightarrow> FrameBody" where
  "NewError code message = ErrorFrame code message"

definition NewPong :: FrameBody where "NewPong = PongFrame"

lemmas frame_makers = NewHello_def NewAck_def NewSnapshot_def NewDelta_def NewRemoval_def
  NewResync_def NewError_def NewPong_def

text \<open>
  \<open>json.Marshal\<close> writes a raw message again, compacted and with HTML characters escaped, and fails on
  bytes that are not JSON: that is \<open>raw\<close>. When a body marshals, and what it is then: \<open>omitempty\<close> drops
  the empty market of a removal.
\<close>

definition marshals :: "(string \<Rightarrow> string option) \<Rightarrow> FrameBody \<Rightarrow> bool" where
  "marshals raw b = (case b of
      HelloFrame _ _ _ _ _ _ chs \<Rightarrow> \<not> list_ex Channel_IsZero chs
    | AckFrame chs _ \<Rightarrow> \<not> list_ex Channel_IsZero chs
    | SnapshotFrame ch ms _ \<Rightarrow> \<not> Channel_IsZero ch \<and> list_all (\<lambda>m. raw m \<noteq> None) ms
    | DeltaFrame ch m _ \<Rightarrow> \<not> Channel_IsZero ch \<and> (m = [] \<or> raw m \<noteq> None)
    | _ \<Rightarrow> True)"

definition rewritten :: "(string \<Rightarrow> string option) \<Rightarrow> string \<Rightarrow> string" where
  "rewritten raw m = (case raw m of None \<Rightarrow> [] | Some q \<Rightarrow> q)"

definition marshalled :: "(string \<Rightarrow> string option) \<Rightarrow> FrameBody \<Rightarrow> FrameBody" where
  "marshalled raw b = (case b of
      SnapshotFrame ch ms c \<Rightarrow> SnapshotFrame ch (map (rewritten raw) ms) c
    | DeltaFrame ch m i \<Rightarrow> DeltaFrame ch (if m = [] then [] else rewritten raw m) i
    | _ \<Rightarrow> b)"

record Body =
  bd_type :: MessageKind
  bd_ts :: time
  bd_id :: string
  bd_frame :: FrameBody

record ServerFrame = Body +
  sf_seq :: uint64

definition Render :: "(string \<Rightarrow> string option) \<Rightarrow> FrameBody \<Rightarrow> time \<Rightarrow> string \<Rightarrow> ws_error + Body" where
  "Render raw b ts i =
     (if \<not> marshals raw b then Inl ErrInvalidFrame
      else Inr \<lparr> bd_type = Kind b, bd_ts = time_utc ts, bd_id = i, bd_frame = marshalled raw b \<rparr>)"

definition Body_Frame :: "Body \<Rightarrow> uint64 \<Rightarrow> ServerFrame" where
  "Body_Frame b seq = \<lparr> bd_type = bd_type b, bd_ts = bd_ts b, bd_id = bd_id b, bd_frame = bd_frame b,
     sf_seq = seq \<rparr>"

lemma Render_iff:
  "Render raw b ts i = Inr body \<longleftrightarrow> marshals raw b \<and>
    body = \<lparr> bd_type = Kind b, bd_ts = ts, bd_id = i, bd_frame = marshalled raw b \<rparr>"
  by (auto simp: Render_def time_defs)

section \<open>Client frames\<close>

definition MaxRequestIDLen :: nat where "MaxRequestIDLen = 64"
definition MaxChannelsPerFrame :: nat where "MaxChannelsPerFrame = 256"
definition DefaultMaxFrameBytes :: int where "DefaultMaxFrameBytes = push_bit 10 64"

record ClientFrame =
  cf_type :: ClientKind
  cf_id :: string
  cf_channels :: "string list"

definition validRequestID :: "string \<Rightarrow> bool" where
  "validRequestID i =
     (length i \<le> MaxRequestIDLen \<and> list_all (\<lambda>c. 0x20 \<le> byte c \<and> byte c \<le> 0x7e) i)"

text \<open>
  \<open>decode\<close> is the strict \<open>json.Decoder\<close>: \<open>None\<close> when the first value does not decode, otherwise the
  frame and whether bytes are left after it.
\<close>

definition DecodeClient ::
  "(string \<Rightarrow> (ClientFrame \<times> bool) option) \<Rightarrow> string \<Rightarrow> int \<Rightarrow> ws_error + ClientFrame" where
  "DecodeClient decode data maxBytes =
     (let limit = (if maxBytes \<le> 0 then DefaultMaxFrameBytes else maxBytes) in
      if limit < int (length data) then Inl ErrFrameTooLarge
      else case decode data of
        None \<Rightarrow> Inl ErrMalformedFrame
      | Some (f, trailing) \<Rightarrow>
          if trailing then Inl ErrMalformedFrame
          else if \<not> ClientKind_Valid (cf_type f) then Inl ErrUnknownFrameType
          else if \<not> validRequestID (cf_id f) then Inl ErrMalformedFrame
          else if MaxChannelsPerFrame < length (cf_channels f) then Inl ErrMalformedFrame
          else if (cf_type f = ClientSubscribe \<or> cf_type f = ClientUnsubscribe) \<and> cf_channels f = []
          then Inl ErrMalformedFrame
          else if cf_type f = ClientPing \<and> cf_channels f \<noteq> [] then Inl ErrMalformedFrame
          else Inr f)"

text \<open>\<open>SafeEcho\<close>: what of a client's string is repeated back to it.\<close>

definition echo_limit :: nat where "echo_limit = 64"

definition SafeEcho :: "string \<Rightarrow> string" where
  "SafeEcho s =
     (let cut = (if echo_limit < length s then take echo_limit s else s);
          out = map (\<lambda>c. if byte c < 0x20 \<or> 0x7e < byte c then CHR ''?'' else c) cut
      in if echo_limit < length s then out @ ''~'' else out)"

lemma SafeEcho_printable:
  "length (SafeEcho s) \<le> 65 \<and> (\<forall>c \<in> set (SafeEcho s). 0x20 \<le> byte c \<and> byte c \<le> 0x7e)"
  by (auto simp: SafeEcho_def Let_def echo_limit_def byte_def not_less)

lemma SafeEcho_id:
  "length s \<le> 64 \<Longrightarrow> \<forall>c \<in> set s. 0x20 \<le> byte c \<and> byte c \<le> 0x7e \<Longrightarrow> SafeEcho s = s"
  by (auto simp: SafeEcho_def Let_def echo_limit_def not_less intro!: map_idI)

lemma DecodeClient_ok:
  "DecodeClient decode data n = Inr f \<Longrightarrow>
    decode data = Some (f, False) \<and> ClientKind_Valid (cf_type f) \<and> validRequestID (cf_id f) \<and>
    length (cf_channels f) \<le> 256"
  by (auto simp: DecodeClient_def Let_def MaxChannelsPerFrame_def split: if_splits option.splits)

end
