(* ===== verification/SlateView.thy ===== *)
theory SlateView
  imports SlateInvariant Protocol
begin

text \<open>
  What a subscriber sees: the bodies published for one applied record, a client's view of a channel,
  and when the view follows the slate.
\<close>

text \<open>The bodies rendered for one result, in the order of its channels.\<close>

definition bodies_for :: "Channel list \<Rightarrow> (Channel \<Rightarrow> FrameBody) \<Rightarrow> (Channel \<times> FrameBody) list" where
  "bodies_for channels build = map (\<lambda>ch. (ch, build ch)) channels"

definition published_bodies :: "ApplyResult \<Rightarrow> (Channel \<times> FrameBody) list" where
  "published_bodies res = (case ar_Outcome res of
      ApplyStored \<Rightarrow> (case ar_Market res of
          None \<Rightarrow> []
        | Some m \<Rightarrow> bodies_for (ar_Channels res) (\<lambda>ch. NewDelta ch (sm_Payload m)))
    | ApplyRemoved \<Rightarrow> bodies_for (ar_Channels res) (\<lambda>ch. NewRemoval ch (ar_MarketID res))
    | _ \<Rightarrow> [])"

text \<open>
  A client keeps, per channel, the payload of every market it was told of: the snapshot first, then
  each frame of that channel. It reads a market's identifier out of its payload.
\<close>

type_synonym view = "string \<rightharpoonup> string"

definition view_of :: "SMarket list \<Rightarrow> view" where
  "view_of ms = map_of (map (\<lambda>m. (sm_ID m, sm_Payload m)) ms)"

definition apply_frame :: "(string \<Rightarrow> Computed option) \<Rightarrow> FrameBody \<Rightarrow> view \<Rightarrow> view" where
  "apply_frame decode f v = (case f of
      DeltaFrame _ p i \<Rightarrow>
        (if i \<noteq> [] then v(i := None)
         else case decode p of None \<Rightarrow> v | Some c \<Rightarrow> v(cm_market_id c \<mapsto> p))
    | _ \<Rightarrow> v)"

definition frames_on :: "Channel \<Rightarrow> ApplyResult option \<Rightarrow> FrameBody list" where
  "frames_on ch p = (case p of
     None \<Rightarrow> [] | Some r \<Rightarrow> map snd (filter (\<lambda>(c, _). c = ch) (published_bodies r)))"

definition deliver :: "(string \<Rightarrow> Computed option) \<Rightarrow> Channel \<Rightarrow> ApplyResult option \<Rightarrow> view \<Rightarrow> view" where
  "deliver decode ch p v = fold (apply_frame decode) (frames_on ch p) v"

text \<open>The view a channel should show, and the one way a market leaves it silently.\<close>

definition board :: "Store \<Rightarrow> Channel \<Rightarrow> view" where
  "board s ch = (\<lambda>i. case st_markets s i of
     None \<Rightarrow> None | Some m \<Rightarrow> if ch \<in> set (sm_Channels m) then Some (sm_Payload m) else None)"

definition departs :: "Channel \<Rightarrow> Store \<Rightarrow> Store \<Rightarrow> bool" where
  "departs ch s s' = (\<exists>i m m'. st_markets s i = Some m \<and> st_markets s' i = Some m' \<and>
     ch \<in> set (sm_Channels m) \<and> ch \<notin> set (sm_Channels m'))"

lemma snapshot_view:
  assumes wf: "slate_wf s"
  shows "view_of (Snapshot s ch) = board s ch"
proof
  fix i
  have held: "st_markets s i = Some m \<Longrightarrow> sm_ID m = i" for i m
    using wf by (simp add: slate_wf_def market_held_def)
  have dist: "distinct (map sm_ID (Snapshot s ch))" by (simp add: snapshot_ids [OF wf])
  show "view_of (Snapshot s ch) i = board s ch i"
  proof (cases "i \<in> routed s ch")
    case True
    then obtain m where m: "st_markets s i = Some m" "ch \<in> set (sm_Channels m)" by (auto simp: routed_def)
    then have "m \<in> set (Snapshot s ch)" using True by (auto simp: snapshot_ids [OF wf])
    then have "view_of (Snapshot s ch) i = Some (sm_Payload m)"
      using dist held [OF m(1)] unfolding view_of_def
      by (intro map_of_is_SomeI) (auto simp: o_def intro: rev_image_eqI)
    then show ?thesis using m by (simp add: board_def)
  next
    case False
    then have "i \<notin> sm_ID ` set (Snapshot s ch)"
      using held by (auto simp: snapshot_ids [OF wf])
    then have "view_of (Snapshot s ch) i = None"
      by (auto simp: view_of_def map_of_eq_None_iff image_iff)
    then show ?thesis using False by (auto simp: board_def routed_def split: option.splits)
  qed
qed

lemma held_distinct: "market_held i m \<Longrightarrow> distinct (sm_Channels m)"
  by (simp add: held_channels)

lemma frames_stored:
  "distinct chs \<Longrightarrow> frames_on ch (Some (applied ApplyStored i (Some m) chs)) =
    (if ch \<in> set chs then [NewDelta ch (sm_Payload m)] else [])"
  by (induction chs) (auto simp: frames_on_def published_bodies_def bodies_for_def)

lemma frames_removed:
  "distinct chs \<Longrightarrow> frames_on ch (Some (applied ApplyRemoved i m chs)) =
    (if ch \<in> set chs then [NewRemoval ch i] else [])"
  by (induction chs) (auto simp: frames_on_def published_bodies_def bodies_for_def)

lemma board_follows:
  assumes wf: "slate_wf s" and st: "fold_step decode s s' p"
  shows "deliver decode ch p (board s ch) = board s' ch \<longleftrightarrow> \<not> departs ch s s'"
  using st
proof (cases rule: fold_step.cases)
  case quiet
  then show ?thesis by (auto simp: deliver_def frames_on_def departs_def)
next
  case (removed i prev)
  then have h: "market_held i prev" using wf by (simp add: slate_wf_def)
  then have "i \<noteq> []" by (auto simp: market_held_def ChannelsFor_eq validID_ok_iff)
  have "\<not> departs ch s s'" using removed(1) by (auto simp: departs_def drop_eq [OF h] split: if_splits)
  moreover have "deliver decode ch p (board s ch) = board s' ch"
    using removed h \<open>i \<noteq> []\<close>
    by (auto simp: deliver_def frames_removed held_distinct apply_frame_def NewRemoval_def board_def drop_eq)
  ultimately show ?thesis by simp
next
  case (stored i m)
  have ms: "st_markets s' = (st_markets s)(i \<mapsto> m)" using stored put_markets [OF wf] by simp
  have id: "cm_market_id (sm_Computed m) = i" using stored by (simp add: market_held_def)
  have dep: "departs ch s s' \<longleftrightarrow>
      (\<exists>prev. st_markets s i = Some prev \<and> ch \<in> set (sm_Channels prev) \<and> ch \<notin> set (sm_Channels m))"
    by (auto simp: departs_def ms)
  have del: "deliver decode ch p (board s ch) =
      (if ch \<in> set (sm_Channels m) then (board s ch)(i \<mapsto> sm_Payload m) else board s ch)"
    using stored by (simp add: deliver_def frames_stored held_distinct apply_frame_def NewDelta_def id)
  have new: "board s' ch = (board s ch)(i := if ch \<in> set (sm_Channels m) then Some (sm_Payload m) else None)"
    by (auto simp: board_def ms)
  have "board s ch i = None \<longleftrightarrow> \<not> (\<exists>prev. st_markets s i = Some prev \<and> ch \<in> set (sm_Channels prev))"
    by (auto simp: board_def split: option.splits)
  then show ?thesis unfolding dep del new
    by (auto simp: fun_eq_iff)
qed

section \<open>A subscriber that reads a snapshot and then the log\<close>

text \<open>The view after the frames of a log, and the condition that no market leaves the channel.\<close>

fun follow ::
  "(string \<Rightarrow> Computed option) \<Rightarrow> (string \<Rightarrow> time option) \<Rightarrow> Channel \<Rightarrow> Delivery list \<Rightarrow> Store \<Rightarrow> view \<Rightarrow> view"
where
  "follow decode parse_time ch [] s v = v"
| "follow decode parse_time ch (d # ds) s v =
     (let f = Fold decode parse_time (Some d) s
      in follow decode parse_time ch ds (fst f) (deliver decode ch (snd (snd f)) v))"

fun stays ::
  "(string \<Rightarrow> Computed option) \<Rightarrow> (string \<Rightarrow> time option) \<Rightarrow> Channel \<Rightarrow> Delivery list \<Rightarrow> Store \<Rightarrow> bool"
where
  "stays decode parse_time ch [] s \<longleftrightarrow> True"
| "stays decode parse_time ch (d # ds) s \<longleftrightarrow>
     (let s' = fst (Fold decode parse_time (Some d) s)
      in \<not> departs ch s s' \<and> stays decode parse_time ch ds s')"

lemma follow_board:
  assumes "slate_wf s" "stays decode parse_time ch ds s"
  shows "follow decode parse_time ch ds s (board s ch) = board (fst (fold_log decode parse_time ds s)) ch"
  using assms
proof (induction ds arbitrary: s)
  case (Cons d ds)
  let ?f = "Fold decode parse_time (Some d) s"
  note step = Fold_step [OF Cons.prems(1), of decode parse_time "Some d"]
  have "deliver decode ch (snd (snd ?f)) (board s ch) = board (fst ?f) ch"
    using Cons.prems(2) by (simp add: board_follows [OF Cons.prems(1) step] Let_def)
  moreover have "follow decode parse_time ch ds (fst ?f) (board (fst ?f) ch) =
      board (fst (fold_log decode parse_time ds (fst ?f))) ch"
    using Cons.prems(2) by (intro Cons.IH step_wf [OF step Cons.prems(1)]) (simp add: Let_def)
  ultimately show ?case by (simp add: Let_def)
qed simp

text \<open>What \<open>Attach\<close> hands over is the view to start from, for every real channel asked for.\<close>

lemma attach_fold:
  "fold (attach_channel s) chs snaps ch =
    (if ch \<in> set chs \<and> \<not> Channel_IsZero ch then Some (Snapshot s ch) else snaps ch)"
  by (induction chs arbitrary: snaps) (auto simp: attach_channel_def Snapshot_def)

section \<open>Redelivery and order\<close>

lemma bucket_same: "i \<in> bucket_ids b k \<Longrightarrow> bucket_add k i (bucket_del k i b) = b"
  by (auto simp: bucket_ids_def bucket_add_def bucket_del_def Let_def fun_eq_iff split: option.splits)

lemma put_again:
  assumes wf: "slate_wf s" and m: "market_held i m"
  shows "put m (put m s) = put m s"
proof -
  let ?s = "put m s"
  have ms: "st_markets ?s i = Some m" by (simp add: put_markets [OF wf m])
  have id: "sm_ID m = i" using m by (simp add: market_held_def)
  have wf': "slate_wf ?s" using put_wf [OF wf m] .
  have "i \<in> bucket_ids (st_byEvent ?s) (cm_event_id (sm_Computed m))"
    "i \<in> bucket_ids (st_byLeague ?s) (cm_league_slug (sm_Computed m))"
    using wf' ms by (auto simp: slate_wf_def index_wf_def tracks_def)
  moreover have "(st_markets ?s)(i \<mapsto> m) = st_markets ?s" using ms by auto
  ultimately show ?thesis
    by (subst put_def) (simp add: id ms index_held [OF m] deindex_held [OF m] Let_def bucket_same)
qed

lemma observed_monotone:
  assumes wf: "slate_wf s" and st: "fold_step decode s s' p"
    and "st_markets s i = Some m" "st_markets s' i = Some m'"
  shows "sm_ObservedAt m \<le> sm_ObservedAt m'"
  using st
proof (cases rule: fold_step.cases)
  case quiet
  then show ?thesis using assms by simp
next
  case (removed j prev)
  then have h: "market_held j prev" using wf by (simp add: slate_wf_def)
  then show ?thesis using removed assms by (auto simp: drop_eq split: if_splits)
next
  case (stored j n)
  then show ?thesis using assms by (auto simp: put_markets [OF wf] split: if_splits)
qed

lemma remove_again:
  assumes "slate_wf s"
  shows "fst (removeLocked key t (fst (removeLocked key t s))) = fst (removeLocked key t s)"
  by (auto simp: removeLocked_def Let_def split: option.splits)

lemma store_again:
  assumes wf: "slate_wf s" and "validID key = Inr ()" "Computed_Validate c = Inr ()"
    and "Computed_MarketID c = Inr key" "ChannelsFor c = Inr chs"
  shows "fst (storeLocked key data c chs t (fst (storeLocked key data c chs t s))) =
    fst (storeLocked key data c chs t s)"
proof -
  define m where "m = \<lparr> sm_ID = key, sm_Payload = data, sm_Computed = c, sm_Channels = chs, sm_ObservedAt = t \<rparr>"
  have held: "market_held key m"
    using assms by (simp add: market_held_def m_def Computed_MarketID_def new_id_ok_iff)
  have eq: "fst (storeLocked key data c chs t s') =
      (if \<exists>prev. st_markets s' key = Some prev \<and> t < sm_ObservedAt prev then s' else put m s')" for s'
    by (auto simp: storeLocked_def put_def m_def time_defs Let_def split: option.splits)
  have "sm_ObservedAt m = t" by (simp add: m_def)
  then show ?thesis
    unfolding eq using put_markets [OF wf held] put_again [OF wf held] by auto
qed

lemma apply_again:
  assumes wf: "slate_wf s"
  shows "fst (Fold decode parse_time d (fst (Fold decode parse_time d s))) = fst (Fold decode parse_time d s)"
proof -
  have fold: "fst (Fold decode parse_time d s') = fst (applyLocked decode parse_time d s')" for s'
    by (simp add: Fold_def split: prod.splits)
  have valid: "Delivery_MarketID e = Inr key \<Longrightarrow> validID key = Inr ()" for e key
    by (simp add: Delivery_MarketID_def delivery_id_ok)
  show ?thesis
    unfolding fold applyLocked_def
    using remove_again [OF wf] store_again [OF wf] valid
    by (simp add: refuse_def accept_def Let_def split: option.splits sum.splits)
qed

end
