(* ===== verification/Sequence.thy ===== *)
theory Sequence
  imports Prelude
begin

text \<open>
  \<open>internal/wsgw/sequence.go\<close>: the frame counter of one connection, a \<open>uint64\<close>, and the gap a
  discarded buffer leaves. \<open>dropped\<close> is Go's 64-bit \<open>int\<close>.
\<close>

type_synonym seqno = "64 word"

record sequence =
  seq_n :: seqno

definition new_sequence :: sequence where
  "new_sequence = \<lparr> seq_n = 0 \<rparr>"

definition sequence_next :: "sequence \<Rightarrow> seqno \<times> sequence" where
  "sequence_next s = (let s' = s \<lparr> seq_n := seq_n s + 1 \<rparr> in (seq_n s', s'))"

definition sequence_last :: "sequence \<Rightarrow> seqno" where
  "sequence_last s = seq_n s"

record gap =
  gap_from :: seqno
  gap_to :: seqno
  gap_dropped :: "64 word"

definition new_gap :: gap where
  "new_gap = \<lparr> gap_from = 0, gap_to = 0, gap_dropped = 0 \<rparr>"

definition gap_extend :: "gap \<Rightarrow> seqno \<Rightarrow> gap" where
  "gap_extend g seq =
     (if seq = 0 then g
      else let g1 = (if gap_from g = 0 \<or> seq < gap_from g then g \<lparr> gap_from := seq \<rparr> else g);
               g2 = (if gap_to g1 < seq then g1 \<lparr> gap_to := seq \<rparr> else g1)
           in g2 \<lparr> gap_dropped := gap_dropped g2 + 1 \<rparr>)"

definition gap_empty :: "gap \<Rightarrow> bool" where
  "gap_empty g = (gap_dropped g = 0)"

section \<open>Numbers\<close>

text \<open>The numbers a connection hands out, one per enqueued frame.\<close>

fun sequence_take :: "nat \<Rightarrow> sequence \<Rightarrow> seqno list \<times> sequence" where
  "sequence_take 0 s = ([], s)"
| "sequence_take (Suc n) s =
     (case sequence_next s of (x, s') \<Rightarrow> case sequence_take n s' of (xs, s'') \<Rightarrow> (x # xs, s''))"

lemma sequence_take_eq:
  "sequence_take n s = (map (\<lambda>i. seq_n s + of_nat (Suc i)) [0..<n], s \<lparr> seq_n := seq_n s + of_nat n \<rparr>)"
proof (induction n arbitrary: s)
  case (Suc n)
  have "map (\<lambda>i. seq_n s + of_nat (Suc i)) [0..<Suc n] =
      (seq_n s + 1) # map (\<lambda>i. seq_n s + 1 + of_nat (Suc i)) [0..<n]"
    by (subst upt_conv_Cons) (simp_all add: map_Suc_upt [symmetric] comp_def add.assoc del: upt_Suc)
  then show ?case by (simp add: sequence_next_def Let_def Suc.IH algebra_simps del: upt_Suc)
qed simp

text \<open>The first frames of a connection are numbered 1, 2, ... until the counter wraps.\<close>

lemma sequence_from_one:
  assumes "n < 2 ^ 64"
  shows "map unat (fst (sequence_take n new_sequence)) = [1..<Suc n]"
proof -
  have "unat (of_nat (Suc i) :: seqno) = Suc i" if "i < n" for i
    using that assms by (simp add: unat_of_nat del: of_nat_Suc)
  then have "map unat (fst (sequence_take n new_sequence)) = map Suc [0..<n]"
    by (simp add: sequence_take_eq new_sequence_def del: of_nat_Suc)
  then show ?thesis by (simp add: map_Suc_upt del: upt_Suc)
qed

section \<open>Gaps\<close>

text \<open>The gap a list of discarded frames leaves.\<close>

definition gap_of :: "seqno list \<Rightarrow> gap" where
  "gap_of qs = foldl gap_extend new_gap qs"

lemma Min_Max_insert_pair:
  fixes S :: "'a :: linorder set"
  assumes "finite S"
  shows "Min (insert (min a q) S) = Min (insert a (insert q S))"
    "Max (insert (max a q) S) = Max (insert a (insert q S))"
  using assms by (cases "S = {}"; simp add: ac_simps)+

lemma gap_fold:
  assumes "0 \<notin> set qs" "gap_from g \<noteq> 0" "gap_from g \<le> gap_to g"
  shows "gap_from (foldl gap_extend g qs) = Min (insert (gap_from g) (set qs)) \<and>
    gap_to (foldl gap_extend g qs) = Max (insert (gap_to g) (set qs)) \<and>
    gap_dropped (foldl gap_extend g qs) = gap_dropped g + of_nat (length qs)"
  using assms
proof (induction qs arbitrary: g)
  case (Cons q qs)
  define h where "h = gap_extend g q"
  have h: "gap_from h = min (gap_from g) q" "gap_to h = max (gap_to g) q"
    "gap_dropped h = gap_dropped g + 1"
    using Cons.prems by (auto simp: h_def gap_extend_def Let_def min_def max_def)
  have "gap_from h \<noteq> 0" "gap_from h \<le> gap_to h"
    using Cons.prems unfolding h by (auto simp: min_def max_def)
  then show ?case
    using Cons.IH [of h] Cons.prems(1) unfolding foldl.simps h_def [symmetric] h
    by (simp add: Min_Max_insert_pair algebra_simps del: Min_insert Max_insert)
qed simp

lemma gap_of_range:
  assumes "0 \<notin> set qs" "qs \<noteq> []"
  shows "gap_from (gap_of qs) = Min (set qs)" "gap_to (gap_of qs) = Max (set qs)"
    "gap_dropped (gap_of qs) = of_nat (length qs)"
proof -
  obtain q rest where qs: "qs = q # rest" using assms(2) by (cases qs) auto
  have q: "q \<noteq> 0" using assms(1) qs by auto
  have g: "gap_extend new_gap q = \<lparr> gap_from = q, gap_to = q, gap_dropped = 1 \<rparr>"
    using q by (simp add: gap_extend_def new_gap_def Let_def word_gt_0)
  show "gap_from (gap_of qs) = Min (set qs)" "gap_to (gap_of qs) = Max (set qs)"
    "gap_dropped (gap_of qs) = of_nat (length qs)"
    using gap_fold [of rest "gap_extend new_gap q"] assms(1) q unfolding gap_of_def qs foldl.simps g by auto
qed

end
