(* ===== verification/StreamProperties.thy ===== *)
theory StreamProperties
  imports SlateView Sequence
begin

text \<open>
  The properties of the streaming gateway: channels, frame sequence numbers and gaps, the topic
  registry, the slate and what its subscribers see (\<open>internal/wsgw\<close>, \<open>internal/platform/kafka\<close>).
\<close>

section \<open>Sample deliveries\<close>

text \<open>
  Two documents for one market, in different leagues, and the records that carry them. The decoder
  knows these two payloads only.
\<close>

definition sample_doc :: "string \<Rightarrow> Computed" where
  "sample_doc league = \<lparr> cm_schema_version = 1, cm_market_id = ''m1'', cm_event_id = ''e1'',
     cm_league_slug = league, cm_source = ReferenceSourceCatalogue, cm_method = MethodShin,
     cm_selections = 2, cm_observed_at = 50 \<rparr>"

definition sample_decode :: "string \<Rightarrow> Computed option" where
  "sample_decode p = (if p = ''A'' then Some (sample_doc ''nfl'')
     else if p = ''B'' then Some (sample_doc ''ncaaf'') else None)"

definition sample_parse :: "string \<Rightarrow> time option" where
  "sample_parse s = None"

definition sample_record :: "string \<Rightarrow> time \<Rightarrow> Delivery" where
  "sample_record p t = \<lparr> dlv_topic = ''price.computed'', dlv_key = ''m1'', dlv_tombstone = False,
     dlv_type = ''price.computed.v1'', dlv_data = p, dlv_envelope_observed = t, dlv_headers = Map.empty \<rparr>"

definition sample_market :: "string \<Rightarrow> string \<Rightarrow> time \<Rightarrow> SMarket" where
  "sample_market p league t = \<lparr> sm_ID = ''m1'', sm_Payload = p, sm_Computed = sample_doc league,
     sm_Channels = [chan ChannelMarket ''m1'', chan ChannelEvent ''e1'', chan ChannelLeague league],
     sm_ObservedAt = t \<rparr>"

lemma sample_ids: "validID ''m1'' = Inr ()" "validID ''e1'' = Inr ()"
  "is_ok (NewSlug ''nfl'')" "is_ok (NewSlug ''ncaaf'')"
  by (simp_all add: validID_ok_iff id_char_def slug_alnum_def between_def byte_def NewSlug_def MaxSlugLen_def)

lemma sample_doc_ok:
  "Computed_Validate (sample_doc league) = Inr ()"
  "Computed_MarketID (sample_doc league) = Inr ''m1''"
  "is_ok (NewSlug league) \<Longrightarrow> ChannelsFor (sample_doc league) =
    Inr [chan ChannelMarket ''m1'', chan ChannelEvent ''e1'', chan ChannelLeague league]"
  by (simp_all add: Computed_Validate_def Computed_MarketID_def new_id_def sample_ids sample_doc_def
      SchemaVersion_def ReferenceSource_Valid_def DevigMethod_Valid_def MinMarketSelections_def ChannelsFor_eq)

lemma sample_held: "is_ok (NewSlug league) \<Longrightarrow> market_held ''m1'' (sample_market p league t)"
  using sample_doc_ok by (simp add: market_held_def sample_market_def) (simp add: sample_doc_def)

lemma sample_record_fields:
  "dlv_tombstone (sample_record p t) = False" "dlv_type (sample_record p t) = MessageType"
  "dlv_data (sample_record p t) = p" "dlv_envelope_observed (sample_record p t) = t"
  by (simp_all add: sample_record_def MessageType_def)

lemma sample_fold:
  assumes "sample_decode p = Some (sample_doc league)" "is_ok (NewSlug league)" "t \<noteq> 0"
    and "\<forall>prev. st_markets s ''m1'' = Some prev \<longrightarrow> sm_ObservedAt prev \<le> t"
  shows "Fold sample_decode sample_parse (Some (sample_record p t)) s =
    (put (sample_market p league t) s,
     (applied ApplyStored ''m1'' (Some (sample_market p league t)) (sm_Channels (sample_market p league t)), None),
     Some (applied ApplyStored ''m1'' (Some (sample_market p league t)) (sm_Channels (sample_market p league t))))"
proof -
  have key: "Delivery_MarketID (sample_record p t) = Inr ''m1''"
    by (simp add: Delivery_MarketID_def delivery_id_ok sample_record_def sample_ids requireKeyKind_def
        LookupTopic_def topic_defs topic_names)
  have "storeLocked ''m1'' p (sample_doc league) (sm_Channels (sample_market p league t)) t s =
      (put (sample_market p league t) s,
       applied ApplyStored ''m1'' (Some (sample_market p league t)) (sm_Channels (sample_market p league t)))"
    using assms(4) by (auto simp: storeLocked_def put_def sample_market_def time_defs Let_def split: option.splits)
  moreover have "ChannelsFor (sample_doc league) = Inr (sm_Channels (sample_market p league t))"
    using sample_doc_ok(3) [OF assms(2)] by (simp add: sample_market_def)
  ultimately have "applyLocked sample_decode sample_parse (Some (sample_record p t)) s =
      (put (sample_market p league t) s,
       applied ApplyStored ''m1'' (Some (sample_market p league t)) (sm_Channels (sample_market p league t)), None)"
    using assms(1,3)
    by (simp add: applyLocked_def key sample_doc_ok(1,2) sample_record_fields Delivery_ObservedAt_def
        Delivery_Unmarshal_def accept_def time_is_zero_def Let_def)
  then show ?thesis by (simp add: Fold_def changed_def)
qed

section \<open>The slate\<close>

text \<open>C8: The slate's indexes are exact whatever the log: after folding any sequence of records, from
  any producer, into an empty store every market is held under its own validated identifier with the
  routing set of its document, the event and league indexes contain exactly the markets held with
  that event or league, and no empty bucket is kept.\<close>

theorem slate_invariant: "slate_wf (fst (fold_log decode parse_time ds NewStore))"
  by (rule fold_log_wf_from [OF NewStore_wf])

text \<open>C25: A snapshot of a channel is exactly the markets routed to it: each once, in the order of their
  identifiers, and no other, for any channel and after any log.\<close>

theorem snapshot_exact:
  "map sm_ID (Snapshot (fst (fold_log decode parse_time ds NewStore)) ch) =
     sorted_list_of_set (routed (fst (fold_log decode parse_time ds NewStore)) ch) \<and>
   set (Snapshot (fst (fold_log decode parse_time ds NewStore)) ch) =
     {m. \<exists>i. st_markets (fst (fold_log decode parse_time ds NewStore)) i = Some m \<and> ch \<in> set (sm_Channels m)}"
  using snapshot_ids [OF fold_log_wf_from [OF NewStore_wf]]
  by (auto simp: routed_def)

text \<open>C14: The deltas of one record carry a subscriber's view of a channel to the view of the new slate
  if and only if no market leaves the channel while it stays held. A record that moves a market to
  another event or league is published on the new channels only, and subscribers of the channel it
  left are never told.\<close>

theorem delta_follows_iff:
  defines "s decode parse_time ds \<equiv> fst (fold_log decode parse_time ds NewStore)"
  shows "deliver decode ch (snd (snd (Fold decode parse_time d (s decode parse_time ds))))
      (board (s decode parse_time ds) ch) =
    board (fst (Fold decode parse_time d (s decode parse_time ds))) ch \<longleftrightarrow>
    \<not> departs ch (s decode parse_time ds) (fst (Fold decode parse_time d (s decode parse_time ds)))"
  unfolding s_def
  using board_follows [OF fold_log_wf_from [OF NewStore_wf] Fold_step [OF fold_log_wf_from [OF NewStore_wf]]] .

text \<open>A subscriber that attaches to a slate and then reads the frames of its channel shows, after
  any further log during which no market leaves the channel, exactly the channel's content.\<close>

theorem subscriber_in_step:
  assumes "Attach (fst (fold_log decode parse_time ds NewStore)) chs ch = Some snap"
    and "stays decode parse_time ch later (fst (fold_log decode parse_time ds NewStore))"
  shows "follow decode parse_time ch later (fst (fold_log decode parse_time ds NewStore)) (view_of snap) =
    board (fst (fold_log decode parse_time later (fst (fold_log decode parse_time ds NewStore)))) ch"
proof -
  let ?s = "fst (fold_log decode parse_time ds NewStore)"
  have wf: "slate_wf ?s" by (rule fold_log_wf_from [OF NewStore_wf])
  have "snap = Snapshot ?s ch"
    using assms(1) by (simp add: Attach_def attach_fold split: if_splits)
  then have "view_of snap = board ?s ch" by (simp add: snapshot_view [OF wf])
  with follow_board [OF wf assms(2)] show ?thesis by simp
qed

theorem subscriber_in_step_witness:
  "follow sample_decode sample_parse (chan ChannelLeague ''nfl'') [sample_record ''A'' 60] NewStore (view_of []) ''m1'' =
    Some ''A''"
proof -
  let ?ch = "chan ChannelLeague ''nfl''"
  have fold: "fst (Fold sample_decode sample_parse (Some (sample_record ''A'' 60)) NewStore) =
      put (sample_market ''A'' ''nfl'' 60) NewStore"
    by (subst sample_fold [of _ "''nfl''"]) (simp_all add: sample_decode_def sample_ids NewStore_def)
  have "Attach NewStore [?ch] ?ch = Some []"
    by (simp add: Attach_def attach_channel_def Channel_IsZero_def snapshotLocked_def collectLocked_def
        NewStore_def bucket_ids_def channel_kinds map_filter_simps)
  moreover have "stays sample_decode sample_parse ?ch [sample_record ''A'' 60] NewStore"
    by (simp add: departs_def NewStore_def Let_def)
  ultimately have "follow sample_decode sample_parse ?ch [sample_record ''A'' 60] NewStore (view_of []) =
      board (fst (fold_log sample_decode sample_parse [sample_record ''A'' 60] NewStore)) ?ch"
    using subscriber_in_step [of sample_decode sample_parse "[]" "[?ch]" ?ch "[]" "[sample_record ''A'' 60]"]
    by (simp only: fold_log.simps fst_conv)
  also have "fst (fold_log sample_decode sample_parse [sample_record ''A'' 60] NewStore) =
      put (sample_market ''A'' ''nfl'' 60) NewStore"
    by (simp add: Let_def fold)
  finally show ?thesis
    by (simp add: board_def put_markets [OF NewStore_wf sample_held] sample_ids)
      (simp add: sample_market_def)
qed

text \<open>Redelivery is harmless: folding the same record again leaves the slate exactly as it was, for
  every record and every outcome.\<close>

theorem redelivery_idempotent:
  "fst (Fold decode parse_time d (fst (Fold decode parse_time d (fst (fold_log decode parse_time ds NewStore))))) =
    fst (Fold decode parse_time d (fst (fold_log decode parse_time ds NewStore)))"
  by (rule apply_again [OF fold_log_wf_from [OF NewStore_wf]])

text \<open>A price never goes back in time: while a market stays held, no record makes the slate hold an
  observation older than the one it held.\<close>

theorem observation_monotone:
  assumes "st_markets (fst (fold_log decode parse_time ds NewStore)) i = Some m"
    and "st_markets (fst (Fold decode parse_time d (fst (fold_log decode parse_time ds NewStore)))) i = Some m'"
  shows "sm_ObservedAt m \<le> sm_ObservedAt m'"
  using observed_monotone [OF fold_log_wf_from [OF NewStore_wf] Fold_step [OF fold_log_wf_from [OF NewStore_wf]]] assms .

theorem observation_monotone_witness:
  "\<exists>m m'. st_markets (fst (fold_log sample_decode sample_parse [sample_record ''A'' 60] NewStore)) ''m1'' = Some m \<and>
    st_markets (fst (Fold sample_decode sample_parse (Some (sample_record ''B'' 70))
      (fst (fold_log sample_decode sample_parse [sample_record ''A'' 60] NewStore)))) ''m1'' = Some m' \<and>
    sm_ObservedAt m \<le> sm_ObservedAt m'"
proof -
  let ?s = "fst (fold_log sample_decode sample_parse [sample_record ''A'' 60] NewStore)"
  have s: "?s = put (sample_market ''A'' ''nfl'' 60) NewStore"
    by (simp add: Let_def sample_fold [of _ "''nfl''"] sample_decode_def sample_ids NewStore_def)
  then have m: "st_markets ?s ''m1'' = Some (sample_market ''A'' ''nfl'' 60)"
    by (simp add: put_markets [OF NewStore_wf sample_held] sample_ids)
  have "fst (Fold sample_decode sample_parse (Some (sample_record ''B'' 70)) ?s) = put (sample_market ''B'' ''ncaaf'' 70) ?s"
    using m by (subst sample_fold [of _ "''ncaaf''"]) (simp_all add: sample_decode_def sample_ids sample_market_def)
  then have m': "st_markets (fst (Fold sample_decode sample_parse (Some (sample_record ''B'' 70)) ?s)) ''m1'' =
      Some (sample_market ''B'' ''ncaaf'' 70)"
    by (simp only: put_markets [OF fold_log_wf_from [OF NewStore_wf] sample_held] sample_ids fun_upd_same)
  show ?thesis using observation_monotone [OF m m'] m m' by blast
qed

section \<open>Channels, sequences, topics\<close>

text \<open>The subscription grammar is exactly the printed channels: parsing accepts a string if and only
  if it is the wire form of a channel with a valid identifier of its kind, and returns that channel.
  Distinct channels therefore have distinct wire forms.\<close>

theorem channel_grammar: "ParseChannel s = Inr c \<longleftrightarrow> channel_ok c \<and> Channel_String c = s"
  by (rule ParseChannel_iff)

text \<open>A connection numbers its frames 1, 2, 3, ... without repeating one before the counter wraps,
  and the gap reported for a discarded buffer names the first and the last number lost and how many
  there were.\<close>

theorem sequence_and_gap:
  assumes "n < 2 ^ 64" "0 \<notin> set qs" "qs \<noteq> []"
  shows "map unat (fst (sequence_take n new_sequence)) = [1..<Suc n] \<and>
    gap_from (gap_of qs) = Min (set qs) \<and> gap_to (gap_of qs) = Max (set qs) \<and>
    gap_dropped (gap_of qs) = of_nat (length qs)"
  using sequence_from_one [OF assms(1)] gap_of_range [OF assms(2,3)] by blast

theorem sequence_and_gap_witness:
  "map unat (fst (sequence_take 3 new_sequence)) = [1..<Suc 3] \<and> gap_dropped (gap_of [4, 5]) = of_nat (length [4, 5 :: seqno])"
proof -
  have "(3 :: nat) < 2 ^ 64" "0 \<notin> set [4, 5 :: seqno]" "[4, 5 :: seqno] \<noteq> []" by simp_all
  from sequence_and_gap [OF this] show ?thesis by blast
qed

text \<open>The topic registry is consistent: a name resolves to a topic of that name only, every provider
  topic that can be made resolves to itself, the compacted topics are exactly those keyed by market,
  and a record of a registered topic gives its key back as the one kind of identifier the topic is
  keyed by.\<close>

theorem topic_registry:
  assumes "OddsRaw p = Inr raw" "LookupTopic (dlv_topic d) = Some t" "delivery_id k d = Inr i"
  shows "LookupTopic (topic_name raw) = Some raw \<and> topic_name t = dlv_topic d \<and>
    (Topic_Compacted t \<longleftrightarrow> topic_key t = KeyKindMarketID) \<and> k = topic_key t \<and> i = dlv_key d \<and>
    validID i = Inr ()"
  using lookup_raw [OF assms(1)] lookup_name [OF assms(2)] lookup_compacted [OF assms(2)]
    one_identifier_kind [OF assms(2,3)] assms(3)
  by (simp add: delivery_id_ok)

theorem topic_registry_witness:
  "LookupTopic ''odds.raw.feed'' \<noteq> None \<and> delivery_id KeyKindMarketID (sample_record ''A'' 60) = Inr ''m1''"
proof -
  have raw: "OddsRaw ''feed'' = Inr \<lparr> topic_name = ''odds.raw.feed'', topic_retention = RetentionDelete,
      topic_key = KeyKindEventID \<rparr>"
    by (simp add: OddsRaw_ok NewProvider_def maxTopicNameLen_def TopicOddsRawPrefix_def slug_alnum_def
        between_def byte_def)
  have t: "LookupTopic (dlv_topic (sample_record ''A'' 60)) = Some PriceComputed"
    by (simp add: sample_record_def LookupTopic_def topic_names)
  have "delivery_id KeyKindMarketID (sample_record ''A'' 60) = Inr ''m1''"
    by (simp add: delivery_id_ok sample_record_def sample_ids requireKeyKind_def LookupTopic_def
        topic_defs topic_names)
  from topic_registry [OF raw t this] this show ?thesis by simp
qed

section \<open>A market that changes league\<close>

text \<open>
  The record that moves a held market to another league reaches no subscriber of the league it
  left: their view keeps the market, and a fresh snapshot of that league does not have it.
\<close>

lemma league_move_is_silent:
  defines "s \<equiv> put (sample_market ''A'' ''nfl'' 60) NewStore"
  defines "f \<equiv> Fold sample_decode sample_parse (Some (sample_record ''B'' 70)) s"
  shows "deliver sample_decode (chan ChannelLeague ''nfl'') (snd (snd f)) (board s (chan ChannelLeague ''nfl'')) ''m1'' =
      Some ''A''"
    and "board (fst f) (chan ChannelLeague ''nfl'') ''m1'' = None"
proof -
  have m: "st_markets s ''m1'' = Some (sample_market ''A'' ''nfl'' 60)"
    by (simp add: s_def put_markets [OF NewStore_wf sample_held] sample_ids)
  have wf: "slate_wf s" unfolding s_def by (rule put_wf [OF NewStore_wf sample_held]) (rule sample_ids)
  have f: "f = (put (sample_market ''B'' ''ncaaf'' 70) s,
     (applied ApplyStored ''m1'' (Some (sample_market ''B'' ''ncaaf'' 70)) (sm_Channels (sample_market ''B'' ''ncaaf'' 70)), None),
     Some (applied ApplyStored ''m1'' (Some (sample_market ''B'' ''ncaaf'' 70)) (sm_Channels (sample_market ''B'' ''ncaaf'' 70))))"
    unfolding f_def using m by (intro sample_fold) (simp_all add: sample_decode_def sample_ids sample_market_def)
  show "deliver sample_decode (chan ChannelLeague ''nfl'') (snd (snd f)) (board s (chan ChannelLeague ''nfl'')) ''m1'' =
      Some ''A''"
    unfolding f by (simp add: deliver_def frames_stored held_distinct sample_market_def board_def m)
  show "board (fst f) (chan ChannelLeague ''nfl'') ''m1'' = None"
    unfolding f using put_markets [OF wf sample_held [OF sample_ids(4)]]
    by (simp add: board_def) (simp add: sample_market_def)
qed

end
