(* ===== verification/Conn.thy ===== *)
theory Conn
  imports Protocol Sequence
begin

text \<open>
  \<open>internal/wsgw/conn.go\<close> and \<open>options.go\<close>: one connection. Its mutex makes \<open>enqueue\<close> and
  \<open>requestClose\<close> one step each; the bounded Go channel \<open>send\<close> is a list with the capacity of the
  options; \<open>cn_wire\<close> is what the socket has taken, \<open>cn_lost\<close> what was discarded from the queue, and
  \<open>cn_writing\<close> is whether \<open>writeLoop\<close> still runs, so the writer's iterations are steps of this state too. What the socket and the context answer is an
  input of the iteration. \<open>cn_count\<close> counts the numbers handed out; the code keeps only the counter, which wraps. The set of channels is the list of its
  members in the order they were added. Metrics,
  logging and enqueue times are left out.
\<close>

section \<open>Options\<close>

record Options =
  opt_logger :: bool
  opt_SendQueueCapacity :: int
  opt_MaxChannelsPerConnection :: int
  opt_MaxFrameBytes :: int
  opt_PingInterval :: duration
  opt_PongTimeout :: duration
  opt_WriteTimeout :: duration
  opt_ShutdownDrain :: duration
  opt_SubscriptionTTL :: duration

definition DefaultSendQueueCapacity :: int where "DefaultSendQueueCapacity = 256"
definition DefaultMaxChannelsPerConnection :: int where "DefaultMaxChannelsPerConnection = 256"
definition DefaultPingInterval :: duration where "DefaultPingInterval = 20 * second"
definition DefaultPongTimeout :: duration where "DefaultPongTimeout = 10 * second"
definition DefaultWriteTimeout :: duration where "DefaultWriteTimeout = 10 * second"
definition DefaultShutdownDrain :: duration where "DefaultShutdownDrain = 5 * second"
definition DefaultSubscriptionTTL :: duration where "DefaultSubscriptionTTL = 5 * (60 * second)"
definition minUsefulFrameBytes :: int where
  "minUsefulFrameBytes = int (64 + MaxRequestIDLen + MaxChannelLen)"

definition default_for :: "int \<Rightarrow> int \<Rightarrow> int" where
  "default_for d v = (if v = 0 then d else v)"

definition Options_Normalise :: "Options \<Rightarrow> Options" where
  "Options_Normalise o1 = o1\<lparr>
     opt_SendQueueCapacity := default_for DefaultSendQueueCapacity (opt_SendQueueCapacity o1),
     opt_MaxChannelsPerConnection := default_for DefaultMaxChannelsPerConnection (opt_MaxChannelsPerConnection o1),
     opt_MaxFrameBytes := default_for DefaultMaxFrameBytes (opt_MaxFrameBytes o1),
     opt_PingInterval := default_for DefaultPingInterval (opt_PingInterval o1),
     opt_PongTimeout := default_for DefaultPongTimeout (opt_PongTimeout o1),
     opt_WriteTimeout := default_for DefaultWriteTimeout (opt_WriteTimeout o1),
     opt_ShutdownDrain := default_for DefaultShutdownDrain (opt_ShutdownDrain o1),
     opt_SubscriptionTTL := default_for DefaultSubscriptionTTL (opt_SubscriptionTTL o1) \<rparr>"

definition Options_Validate :: "Options \<Rightarrow> ws_error + unit" where
  "Options_Validate o1 =
     (if \<not> opt_logger o1 then Inl ErrInvalidOptions
      else if opt_SendQueueCapacity o1 < 1 then Inl ErrInvalidOptions
      else if opt_MaxChannelsPerConnection o1 < 1 then Inl ErrInvalidOptions
      else if opt_MaxFrameBytes o1 < minUsefulFrameBytes then Inl ErrInvalidOptions
      else if opt_PingInterval o1 \<le> 0 then Inl ErrInvalidOptions
      else if opt_PongTimeout o1 \<le> 0 then Inl ErrInvalidOptions
      else if opt_PingInterval o1 \<le> opt_PongTimeout o1 then Inl ErrInvalidOptions
      else if opt_WriteTimeout o1 \<le> 0 then Inl ErrInvalidOptions
      else if opt_ShutdownDrain o1 \<le> 0 then Inl ErrInvalidOptions
      else if opt_SubscriptionTTL o1 \<le> 0 then Inl ErrInvalidOptions
      else Inr ())"

section \<open>The connection\<close>

record outbound =
  ob_seq :: seqno
  ob_kind :: MessageKind
  ob_payload :: ServerFrame

datatype CloseStatus =
    StatusNormalClosure | StatusGoingAway | StatusPolicyViolation | StatusInternalError

record conn =
  cn_id :: string
  cn_sessionID :: string
  cn_resumable :: bool
  cn_authenticated :: bool
  cn_capacity :: nat
  cn_send :: "outbound list"
  cn_seq :: sequence
  cn_count :: nat
  cn_closed :: bool
  cn_close :: "(DropReason \<times> CloseStatus \<times> string) option"
  cn_channels :: "Channel list"
  cn_wire :: "outbound list"
  cn_lost :: "outbound list"
  cn_writing :: bool

definition newConn :: "Options \<Rightarrow> string \<Rightarrow> string \<Rightarrow> bool \<Rightarrow> bool \<Rightarrow> conn" where
  "newConn opts i sessionID resumable authenticated =
     \<lparr> cn_id = i, cn_sessionID = sessionID, cn_resumable = resumable, cn_authenticated = authenticated,
       cn_capacity = nat (opt_SendQueueCapacity (Options_Normalise opts)), cn_send = [],
       cn_seq = new_sequence, cn_count = 0, cn_closed = False, cn_close = None, cn_channels = [], cn_wire = [],
       cn_lost = [], cn_writing = True \<rparr>"

definition truncateCloseReason :: "string \<Rightarrow> string" where
  "truncateCloseReason s = (if length s \<le> 120 then s else take 120 s)"

definition requestClose :: "DropReason \<Rightarrow> CloseStatus \<Rightarrow> string \<Rightarrow> conn \<Rightarrow> conn" where
  "requestClose reason status text c =
     (if cn_closed c then c
      else c\<lparr> cn_closed := True, cn_close := Some (reason, status, truncateCloseReason text) \<rparr>)"

definition closeSpec :: "conn \<Rightarrow> CloseStatus \<times> string" where
  "closeSpec c = (case cn_close c of
      None \<Rightarrow> (StatusNormalClosure, []) | Some (_, status, text) \<Rightarrow> (status, text))"

text \<open>
  What an iteration of the writer meets: the socket takes the frame, the write fails because the
  context ended, it fails otherwise, or the context is done before a frame is taken.
\<close>

datatype WriterInput = WriteDone | WriteCancelled | WriteFailed | CtxDone

definition conn_write :: "WriterInput \<Rightarrow> outbound \<Rightarrow> conn \<Rightarrow> bool \<times> conn" where
  "conn_write w out c = (case w of
      WriteDone \<Rightarrow> (True, c\<lparr> cn_wire := cn_wire c @ [out] \<rparr>)
    | WriteFailed \<Rightarrow> (False, requestClose DropWriteError StatusInternalError ''write failed'' c)
    | _ \<Rightarrow> (False, c))"

text \<open>
  One iteration of \<open>writeLoop\<close>, or of \<open>drain\<close> once the connection is closing: it takes the oldest
  frame, and it ends when the context is done, when a write fails, or when nothing is left to drain.
\<close>

definition writeLoop :: "WriterInput \<Rightarrow> conn \<Rightarrow> conn" where
  "writeLoop w c =
     (if \<not> cn_writing c then c
      else if w = CtxDone then c\<lparr> cn_writing := False \<rparr>
      else case cn_send c of
        [] \<Rightarrow> (if cn_closed c then c\<lparr> cn_writing := False \<rparr> else c)
      | out # rest \<Rightarrow>
          (case conn_write w out (c\<lparr> cn_send := rest \<rparr>) of
             (True, c') \<Rightarrow> c'
           | (False, c') \<Rightarrow> c'\<lparr> cn_writing := False \<rparr>))"

text \<open>
  Draining the queue into a gap. The writer does not take the mutex to receive from the queue, so
  its iterations interleave with those of this loop: in a schedule \<open>Some w\<close> is an iteration of the
  writer and \<open>None\<close> one of the loop, which runs on alone when the schedule is over.
\<close>

fun discard_rest :: "gap \<Rightarrow> outbound list \<Rightarrow> gap" where
  "discard_rest g [] = g"
| "discard_rest g (out # rest) = discard_rest (gap_extend g (ob_seq out)) rest"

fun discard_loop :: "WriterInput option list \<Rightarrow> gap \<Rightarrow> conn \<Rightarrow> gap \<times> conn" where
  "discard_loop [] g c = (discard_rest g (cn_send c), c\<lparr> cn_send := [], cn_lost := cn_lost c @ cn_send c \<rparr>)"
| "discard_loop (Some w # sched) g c = discard_loop sched g (writeLoop w c)"
| "discard_loop (None # sched) g c =
     (case cn_send c of
        [] \<Rightarrow> (g, c)
      | out # rest \<Rightarrow> discard_loop sched (gap_extend g (ob_seq out))
          (c\<lparr> cn_send := rest, cn_lost := cn_lost c @ [out] \<rparr>))"

definition discardLocked :: "WriterInput option list \<Rightarrow> seqno \<Rightarrow> conn \<Rightarrow> gap \<times> conn" where
  "discardLocked sched pending c =
     (case discard_loop sched new_gap c of (g, c') \<Rightarrow> (gap_extend g pending, c'))"

definition next_seq :: "conn \<Rightarrow> seqno \<times> conn" where
  "next_seq c = (case sequence_next (cn_seq c) of (seq, s') \<Rightarrow>
     (seq, c\<lparr> cn_seq := s', cn_count := Suc (cn_count c) \<rparr>))"

text \<open>A send on the bounded queue that does not block.\<close>

definition push :: "seqno \<Rightarrow> Body \<Rightarrow> MessageKind \<Rightarrow> conn \<Rightarrow> conn option" where
  "push seq body kind c =
     (if length (cn_send c) < cn_capacity c
      then Some (c\<lparr> cn_send := cn_send c @ [\<lparr> ob_seq = seq, ob_kind = kind, ob_payload = Body_Frame body seq \<rparr>] \<rparr>)
      else None)"

definition resyncFrameLocked :: "time \<Rightarrow> gap \<Rightarrow> conn \<Rightarrow> seqno \<times> conn" where
  "resyncFrameLocked now g c =
     (if gap_empty g then (0, c)
      else case Render Some
          (NewResync ResyncSlowConsumer (gap_dropped g) (gap_from g) (gap_to g)) now [] of
        Inl _ \<Rightarrow> (0, c)
      | Inr body \<Rightarrow>
          (case next_seq c of (seq, c') \<Rightarrow>
             (seq, case push seq body KindResync c' of Some c'' \<Rightarrow> c'' | None \<Rightarrow> c')))"

definition enqueue :: "WriterInput option list \<Rightarrow> time \<Rightarrow> Body \<Rightarrow> MessageKind \<Rightarrow> conn \<Rightarrow> bool \<times> conn" where
  "enqueue sched now body kind c =
     (if cn_closed c then (False, c)
      else case next_seq c of (seq, c') \<Rightarrow>
        (case push seq body kind c' of
           Some c'' \<Rightarrow> (True, c'')
         | None \<Rightarrow> (case discardLocked sched seq c' of (g, c'') \<Rightarrow>
             (False, snd (resyncFrameLocked now g c'')))))"

definition sendFrame ::
  "(string \<Rightarrow> string option) \<Rightarrow> WriterInput option list \<Rightarrow> time \<Rightarrow> FrameBody \<Rightarrow> string \<Rightarrow> conn \<Rightarrow> bool \<times> conn" where
  "sendFrame raw sched now b requestID c =
     (case Render raw b now requestID of
        Inl _ \<Rightarrow> (False, c)
      | Inr body \<Rightarrow> enqueue sched now body (Kind b) c)"

definition protocolErrorText :: "ErrorCode \<Rightarrow> string" where
  "protocolErrorText code = (case code of
      CodeMalformedFrame \<Rightarrow> ''frame did not decode as a sharpline.v1 client frame''
    | CodeUnknownType \<Rightarrow> ''unknown frame type; supported types are subscribe, unsubscribe, resync, ping''
    | CodeFrameTooLarge \<Rightarrow> ''frame exceeds this gateway's size limit''
    | CodeInvalidChannel \<Rightarrow> ''no channel in the request could be parsed''
    | CodeChannelLimit \<Rightarrow> ''this connection is already holding the maximum number of channels''
    | CodeUnauthorized \<Rightarrow> ''the presented credential was refused; present a sharpline.bearer.<token> subprotocol offer or an Authorization: Bearer header''
    | CodeGoingAway \<Rightarrow> ''this gateway is shutting down; reconnect''
    | CodeInternal \<Rightarrow> ''internal error'')"

definition ErrorCode_String :: "ErrorCode \<Rightarrow> string" where
  "ErrorCode_String c = (case c of
      CodeMalformedFrame \<Rightarrow> ''malformed_frame'' | CodeUnknownType \<Rightarrow> ''unknown_type''
    | CodeFrameTooLarge \<Rightarrow> ''frame_too_large'' | CodeInvalidChannel \<Rightarrow> ''invalid_channel''
    | CodeChannelLimit \<Rightarrow> ''channel_limit'' | CodeUnauthorized \<Rightarrow> ''unauthorized''
    | CodeGoingAway \<Rightarrow> ''going_away'' | CodeInternal \<Rightarrow> ''internal'')"

definition protocolViolation :: "WriterInput option list \<Rightarrow> time \<Rightarrow> ws_error \<Rightarrow> string \<Rightarrow> conn \<Rightarrow> conn" where
  "protocolViolation sched now e requestID c =
     (let code = ErrorCodeFor e;
          c' = snd (sendFrame Some sched now (NewError code (protocolErrorText code)) requestID c)
      in requestClose (DropReasonFor e) StatusPolicyViolation (ErrorCode_String code) c')"

text \<open>\<open>readEnded\<close>: how a failed read closes the connection.\<close>

datatype ReadEnd = ReadCtxDone | ReadPeerClosed | ReadCancelled | ReadFailed

definition readEnded :: "ReadEnd \<Rightarrow> conn \<Rightarrow> conn" where
  "readEnded e c =
     (if cn_closed c then c
      else case e of
        ReadCtxDone \<Rightarrow> requestClose DropShutdown StatusGoingAway ''server going away'' c
      | ReadPeerClosed \<Rightarrow> requestClose DropReadError StatusNormalClosure [] c
      | ReadCancelled \<Rightarrow> requestClose DropShutdown StatusGoingAway ''server going away'' c
      | ReadFailed \<Rightarrow> requestClose DropReadError StatusInternalError ''read failed'' c)"

definition pingExpired :: "conn \<Rightarrow> conn" where
  "pingExpired c =
     requestClose DropIdleTimeout StatusPolicyViolation ''no pong within the heartbeat budget'' c"

definition addLocked :: "Channel \<Rightarrow> conn \<Rightarrow> bool \<times> conn" where
  "addLocked ch c =
     (if ch \<in> set (cn_channels c) then (False, c) else (True, c\<lparr> cn_channels := cn_channels c @ [ch] \<rparr>))"

definition removeChannel :: "Channel \<Rightarrow> conn \<Rightarrow> bool \<times> conn" where
  "removeChannel ch c =
     (if ch \<notin> set (cn_channels c) then (False, c)
      else (True, c\<lparr> cn_channels := removeAll ch (cn_channels c) \<rparr>))"

definition countLocked :: "conn \<Rightarrow> nat" where
  "countLocked c = length (cn_channels c)"

definition sortChannels :: "Channel list \<Rightarrow> Channel list" where
  "sortChannels chans = sort_key chan_kind (sort_key chan_id chans)"

definition channelsLocked :: "conn \<Rightarrow> Channel list" where
  "channelsLocked c = sortChannels (cn_channels c)"

end
