(* ===== verification/Hub.thy ===== *)
theory Hub
  imports Slate Conn
begin

text \<open>
  \<open>internal/wsgw/hub.go\<close>: the routing table and the operations that change it. The hub shares the
  slate's mutex (\<open>Exclusive\<close>, \<open>Attach\<close>, \<open>Fold\<close>), so each of its critical sections is one function of
  the hub; the connections are objects, kept in \<open>hub_heap\<close> under the pointer that names them.

  An environment \<open>env\<close> supplies what the code takes from outside while it runs: the clock, what
  \<open>json.Marshal\<close> makes of a raw message, and the interleaving of each connection's writer, given per connection and per
  count of frames it has been sent: which iterations run before a frame is enqueued and, when the
  queue overflows, how they interleave with the discard. The presence store is advisory: what it
  returns for a resumed session is an argument of \<open>Register\<close>, and nothing else reads it.
\<close>

type_synonym conn_ref = nat

record Env =
  env_now :: time
  env_raw :: "string \<Rightarrow> string option"
  env_writes :: "conn_ref \<Rightarrow> nat \<Rightarrow> WriterInput list"
  env_sched :: "conn_ref \<Rightarrow> nat \<Rightarrow> WriterInput option list"

record Hub =
  hub_opts :: Options
  hub_store :: Store
  hub_subs :: "Channel \<rightharpoonup> conn_ref set"
  hub_conns :: "conn_ref set"
  hub_subCount :: int
  hub_closed :: bool
  hub_heap :: "conn_ref \<Rightarrow> conn"

datatype hub_error = ErrNotRunning | ErrNotCaughtUp | ErrNotRunnable | ErrShuttingDown

definition NewHub :: "Options \<Rightarrow> (conn_ref \<Rightarrow> conn) \<Rightarrow> ws_error + Hub" where
  "NewHub opts heap =
     bindE (Options_Validate (Options_Normalise opts)) (\<lambda>_.
       Inr \<lparr> hub_opts = Options_Normalise opts, hub_store = NewStore, hub_subs = Map.empty,
             hub_conns = {}, hub_subCount = 0, hub_closed = False, hub_heap = heap \<rparr>)"

definition Hub_Check :: "bool \<Rightarrow> bool option \<Rightarrow> hub_error + unit" where
  "Hub_Check running source_caught_up =
     (if \<not> running then Inl ErrNotRunning
      else case source_caught_up of
        Some False \<Rightarrow> Inl ErrNotCaughtUp | _ \<Rightarrow> Inr ())"

section \<open>Frames for a connection\<close>

text \<open>The writer's iterations before a frame, and the frame.\<close>

definition send_to :: "Env \<Rightarrow> FrameBody \<Rightarrow> string \<Rightarrow> conn_ref \<Rightarrow> conn \<Rightarrow> conn" where
  "send_to env b requestID r c =
     (let c' = fold writeLoop (env_writes env r (cn_count c)) c
      in snd (sendFrame (env_raw env) (env_sched env r (cn_count c)) (env_now env) b requestID c'))"

definition enqueue_to :: "Env \<Rightarrow> Body \<Rightarrow> MessageKind \<Rightarrow> conn_ref \<Rightarrow> conn \<Rightarrow> conn" where
  "enqueue_to env body kind r c =
     (let c' = fold writeLoop (env_writes env r (cn_count c)) c
      in snd (enqueue (env_sched env r (cn_count c)) (env_now env) body kind c'))"

definition on_conn :: "conn_ref \<Rightarrow> (conn \<Rightarrow> conn) \<Rightarrow> Hub \<Rightarrow> Hub" where
  "on_conn r f h = h\<lparr> hub_heap := (hub_heap h)(r := f (hub_heap h r)) \<rparr>"

section \<open>The routing table\<close>

definition routes :: "Hub \<Rightarrow> Channel \<Rightarrow> conn_ref set" where
  "routes h ch = (case hub_subs h ch of None \<Rightarrow> {} | Some s \<Rightarrow> s)"

definition addRouteLocked :: "Channel \<Rightarrow> conn_ref \<Rightarrow> Hub \<Rightarrow> Hub" where
  "addRouteLocked ch r h =
     (let subs = (case hub_subs h ch of None \<Rightarrow> {} | Some s \<Rightarrow> s)
      in if r \<in> subs then h\<lparr> hub_subs := (hub_subs h)(ch \<mapsto> subs) \<rparr>
         else h\<lparr> hub_subs := (hub_subs h)(ch \<mapsto> insert r subs), hub_subCount := hub_subCount h + 1 \<rparr>)"

definition removeRouteLocked :: "Channel \<Rightarrow> conn_ref \<Rightarrow> Hub \<Rightarrow> Hub" where
  "removeRouteLocked ch r h = (case hub_subs h ch of
      None \<Rightarrow> h
    | Some subs \<Rightarrow>
        (let h' = (if r \<in> subs then h\<lparr> hub_subCount := hub_subCount h - 1 \<rparr> else h);
             subs' = subs - {r}
         in h'\<lparr> hub_subs := (hub_subs h')(ch := if subs' = {} then None else Some subs') \<rparr>))"

text \<open>One body to every connection subscribed to the channel; each has its own queue.\<close>

definition fanout_channel :: "Env \<Rightarrow> (Channel \<Rightarrow> FrameBody) \<Rightarrow> Channel \<Rightarrow> Hub \<Rightarrow> Hub" where
  "fanout_channel env build ch h =
     (let subs = routes h ch in
      if subs = {} then h
      else case Render (env_raw env) (build ch) (env_now env) [] of
        Inl _ \<Rightarrow> h
      | Inr body \<Rightarrow> h\<lparr> hub_heap := (\<lambda>r. if r \<in> subs then enqueue_to env body KindDelta r (hub_heap h r)
                                      else hub_heap h r) \<rparr>)"

definition fanoutLocked :: "Env \<Rightarrow> Channel list \<Rightarrow> (Channel \<Rightarrow> FrameBody) \<Rightarrow> Hub \<Rightarrow> Hub" where
  "fanoutLocked env channels build h = fold (fanout_channel env build) channels h"

definition publishLocked :: "Env \<Rightarrow> ApplyResult \<Rightarrow> Hub \<Rightarrow> Hub" where
  "publishLocked env res h = (case ar_Outcome res of
      ApplyStored \<Rightarrow> (case ar_Market res of
          None \<Rightarrow> h
        | Some m \<Rightarrow> fanoutLocked env (ar_Channels res) (\<lambda>ch. NewDelta ch (sm_Payload m)) h)
    | ApplyRemoved \<Rightarrow> fanoutLocked env (ar_Channels res) (\<lambda>ch. NewRemoval ch (ar_MarketID res)) h
    | _ \<Rightarrow> h)"

text \<open>A record that cannot be folded is logged and skipped: the handler never fails.\<close>

definition HandleMessage ::
  "(string \<Rightarrow> Computed option) \<Rightarrow> (string \<Rightarrow> time option) \<Rightarrow> Env \<Rightarrow> Delivery option \<Rightarrow> Hub \<Rightarrow> Hub" where
  "HandleMessage decode parse_time env d h =
     (case Fold decode parse_time d (hub_store h) of (s', _, p) \<Rightarrow>
        (let h' = h\<lparr> hub_store := s' \<rparr>
         in case p of None \<Rightarrow> h' | Some res \<Rightarrow> publishLocked env res h'))"

section \<open>Registration\<close>

text \<open>The names of a resumed session: those that parse, up to the cap, sorted.\<close>

fun restore_names :: "nat \<Rightarrow> string list \<Rightarrow> Channel list \<Rightarrow> Channel list" where
  "restore_names cap [] out = out"
| "restore_names cap (name # names) out =
     (case ParseChannel name of
        Inl _ \<Rightarrow> restore_names cap names out
      | Inr ch \<Rightarrow> (let out' = out @ [ch]
          in if length out' = cap then out' else restore_names cap names out'))"

definition hub_cap :: "Hub \<Rightarrow> nat" where
  "hub_cap h = nat (opt_MaxChannelsPerConnection (hub_opts h))"

definition restore :: "string list \<Rightarrow> conn_ref \<Rightarrow> Hub \<Rightarrow> Channel list" where
  "restore names r h =
     (if \<not> cn_resumable (hub_heap h r) \<or> cn_sessionID (hub_heap h r) = [] then []
      else if names = [] then []
      else sortChannels (restore_names (hub_cap h) names []))"

definition marketPayloads :: "SMarket list \<Rightarrow> string list" where
  "marketPayloads markets = map sm_Payload markets"

definition snapshot_of :: "(Channel \<rightharpoonup> SMarket list) \<Rightarrow> Channel \<Rightarrow> SMarket list" where
  "snapshot_of snapshots ch = (case snapshots ch of None \<Rightarrow> [] | Some ms \<Rightarrow> ms)"

text \<open>The channel is held, routed, and its snapshot sent; a channel already held is skipped.\<close>

definition attach_one ::
  "Env \<Rightarrow> (Channel \<rightharpoonup> SMarket list) \<Rightarrow> string \<Rightarrow> conn_ref \<Rightarrow> Channel \<Rightarrow> Hub \<Rightarrow> Hub" where
  "attach_one env snapshots requestID r ch h =
     (case addLocked ch (hub_heap h r) of
        (False, _) \<Rightarrow> h
      | (True, c') \<Rightarrow>
          on_conn r (send_to env (NewSnapshot ch (marketPayloads (snapshot_of snapshots ch))) requestID r)
            (addRouteLocked ch r (on_conn r (\<lambda>_. c') h)))"

definition Register :: "Env \<Rightarrow> string list \<Rightarrow> conn_ref \<Rightarrow> Hub \<Rightarrow> (hub_error + unit) \<times> Hub" where
  "Register env names r h =
     (if hub_closed h then (Inl ErrShuttingDown, h)
      else
        (let restored = restore names r h;
             snapshots = Attach (hub_store h) restored;
             c = hub_heap h r;
             hello = NewHello (cn_id c) (cn_sessionID c) (opt_PingInterval (hub_opts h))
               (restored \<noteq> []) (cn_authenticated c) restored;
             h1 = on_conn r (send_to env hello [] r) (h\<lparr> hub_conns := insert r (hub_conns h) \<rparr>)
         in (Inr (), fold (attach_one env snapshots [] r) restored h1)))"

definition unregister :: "conn_ref \<Rightarrow> Hub \<Rightarrow> Hub" where
  "unregister r h =
     (if r \<notin> hub_conns h then h
      else fold (\<lambda>ch h. on_conn r (\<lambda>c. snd (removeChannel ch c)) (removeRouteLocked ch r h))
        (channelsLocked (hub_heap h r)) (h\<lparr> hub_conns := hub_conns h - {r} \<rparr>))"

section \<open>Client requests\<close>

fun parseChannels :: "string list \<Rightarrow> Channel list \<times> RejectedChannel list" where
  "parseChannels [] = ([], [])"
| "parseChannels (s # ss) =
     (case parseChannels ss of (parsed, rejected) \<Rightarrow>
        (case ParseChannel s of
           Inl _ \<Rightarrow> (parsed, rejected_as (SafeEcho s) (ChannelRejectReason s) # rejected)
         | Inr ch \<Rightarrow> (ch # parsed, rejected)))"

text \<open>
  The first critical section of \<open>subscribe\<close>: which of the parsed channels there is room for. The
  refusals name \<open>raw[i]\<close> at the index of the parsed channel.
\<close>

fun admit ::
  "Channel list \<Rightarrow> int \<Rightarrow> string list \<Rightarrow> nat \<Rightarrow> Channel list \<Rightarrow> Channel list \<Rightarrow> RejectedChannel list \<Rightarrow>
    Channel list \<times> RejectedChannel list" where
  "admit held room raw i [] accepted rejected = (accepted, rejected)"
| "admit held room raw i (ch # chs) accepted rejected =
     (if ch \<in> set held \<or> ch \<in> set accepted
      then admit held room raw (Suc i) chs accepted
        (rejected @ [rejected_as (SafeEcho (raw ! i)) RejectDuplicate])
      else if room \<le> int (length accepted)
      then admit held room raw (Suc i) chs accepted
        (rejected @ [rejected_as (SafeEcho (raw ! i)) RejectLimitReached])
      else admit held room raw (Suc i) chs (accepted @ [ch]) rejected)"

definition subscribe_admit :: "string list \<Rightarrow> conn_ref \<Rightarrow> Hub \<Rightarrow> Channel list \<times> RejectedChannel list" where
  "subscribe_admit raw r h =
     (case parseChannels raw of (parsed, rejected) \<Rightarrow>
        (let c = hub_heap h r;
             room = opt_MaxChannelsPerConnection (hub_opts h) - int (countLocked c)
         in admit (cn_channels c) room raw 0 parsed [] rejected))"

text \<open>The second: the acknowledgement, then every accepted channel with its snapshot.\<close>

definition subscribe_attach ::
  "Env \<Rightarrow> Channel list \<Rightarrow> RejectedChannel list \<Rightarrow> string \<Rightarrow> conn_ref \<Rightarrow> Hub \<Rightarrow> Hub" where
  "subscribe_attach env accepted rejected requestID r h =
     (let snapshots = Attach (hub_store h) accepted
      in fold (attach_one env snapshots requestID r) accepted
        (on_conn r (send_to env (NewAck accepted rejected) requestID r) h))"

definition subscribe :: "Env \<Rightarrow> string list \<Rightarrow> string \<Rightarrow> conn_ref \<Rightarrow> Hub \<Rightarrow> Hub" where
  "subscribe env raw requestID r h =
     (case subscribe_admit raw r h of (accepted, rejected) \<Rightarrow>
        subscribe_attach env accepted rejected requestID r h)"

fun unsubscribe_loop :: "conn_ref \<Rightarrow> Channel list \<Rightarrow> Hub \<Rightarrow> Channel list \<Rightarrow> Hub \<times> Channel list" where
  "unsubscribe_loop r [] h removed = (h, removed)"
| "unsubscribe_loop r (ch # chs) h removed =
     (case removeChannel ch (hub_heap h r) of
        (False, _) \<Rightarrow> unsubscribe_loop r chs h removed
      | (True, c') \<Rightarrow> unsubscribe_loop r chs (removeRouteLocked ch r (on_conn r (\<lambda>_. c') h)) (removed @ [ch]))"

definition unsubscribe :: "Env \<Rightarrow> string list \<Rightarrow> string \<Rightarrow> conn_ref \<Rightarrow> Hub \<Rightarrow> Hub" where
  "unsubscribe env raw requestID r h =
     (case parseChannels raw of (parsed, rejected) \<Rightarrow>
        (case unsubscribe_loop r parsed h [] of (h', removed) \<Rightarrow>
           on_conn r (send_to env (NewAck removed rejected) requestID r) h'))"

text \<open>
  The first critical section of \<open>resync\<close>: the channels to answer with, all the connection holds if none
  is named, and the refusals of names that do not parse.
\<close>

definition resync_select ::
  "Env \<Rightarrow> string list \<Rightarrow> string \<Rightarrow> conn_ref \<Rightarrow> Hub \<Rightarrow> Channel list \<times> Hub" where
  "resync_select env raw requestID r h =
     (if raw = [] then (channelsLocked (hub_heap h r), h)
      else case parseChannels raw of (parsed, rejected) \<Rightarrow>
        (let targets = filter (\<lambda>ch. ch \<in> set (cn_channels (hub_heap h r))) parsed
         in (targets, if rejected = [] then h
              else on_conn r (send_to env (NewAck targets rejected) requestID r) h)))"

text \<open>The second: a snapshot of every one of them.\<close>

definition resync_attach :: "Env \<Rightarrow> Channel list \<Rightarrow> string \<Rightarrow> conn_ref \<Rightarrow> Hub \<Rightarrow> Hub" where
  "resync_attach env targets requestID r h =
     (let snapshots = Attach (hub_store h) targets
      in fold (\<lambda>ch. on_conn r (send_to env (NewSnapshot ch (marketPayloads (snapshot_of snapshots ch))) requestID r))
        targets h)"

definition resync :: "Env \<Rightarrow> string list \<Rightarrow> string \<Rightarrow> conn_ref \<Rightarrow> Hub \<Rightarrow> Hub" where
  "resync env raw requestID r h =
     (case resync_select env raw requestID r h of (targets, h') \<Rightarrow>
        if targets = [] then h' else resync_attach env targets requestID r h')"

text \<open>
  What \<open>readLoop\<close> does with one message: one that is not text, or does not decode, ends the connection.
\<close>

definition readLoop ::
  "(string \<Rightarrow> (ClientFrame \<times> bool) option) \<Rightarrow> Env \<Rightarrow> bool \<Rightarrow> string \<Rightarrow> conn_ref \<Rightarrow> Hub \<Rightarrow> Hub" where
  "readLoop decode env is_text data r h =
     (case (if is_text then DecodeClient decode data (opt_MaxFrameBytes (hub_opts h)) else Inl ErrMalformedFrame) of
        Inl e \<Rightarrow> on_conn r (\<lambda>c. protocolViolation (env_sched env r (cn_count c)) (env_now env) e [] c) h
      | Inr f \<Rightarrow>
          if cf_type f = ClientSubscribe then subscribe env (cf_channels f) (cf_id f) r h
          else if cf_type f = ClientUnsubscribe then unsubscribe env (cf_channels f) (cf_id f) r h
          else if cf_type f = ClientResync then resync env (cf_channels f) (cf_id f) r h
          else if cf_type f = ClientPing then on_conn r (send_to env NewPong (cf_id f) r) h
          else h)"

section \<open>Shutdown\<close>

text \<open>
  The flag is set first. Then every connection there was is sent a frame and, after the drain, closed,
  one at a time and under its own mutex only.
\<close>

definition shutdown_begin :: "Hub \<Rightarrow> Hub" where
  "shutdown_begin h = h\<lparr> hub_closed := True \<rparr>"

definition shutdown_notify :: "Env \<Rightarrow> conn_ref \<Rightarrow> Hub \<Rightarrow> Hub" where
  "shutdown_notify env r =
     on_conn r (send_to env (NewError CodeGoingAway (protocolErrorText CodeGoingAway)) [] r)"

definition shutdown_close :: "conn_ref \<Rightarrow> Hub \<Rightarrow> Hub" where
  "shutdown_close r = on_conn r (requestClose DropShutdown StatusGoingAway ''server going away'')"

end
