(* ===== verification/ConnInvariant.thy ===== *)
theory ConnInvariant
  imports Conn
begin

text \<open>
  What a connection's stream looks like to its client, whatever the schedule of the writer: the
  numbers on the wire and in the queue increase, the queue is the unbroken run of the last numbers
  handed out and never exceeds its capacity, and every number that is missing is reported: it lies in
  the range of a resync frame, which may itself have been discarded and then be reported in turn.
  Numbers are read as naturals; the facts about them are stated up to the point where the counter
  would wrap.
\<close>

abbreviation num :: "outbound \<Rightarrow> nat" where "num o1 \<equiv> unat (ob_seq o1)"

definition conn_trace :: "conn \<Rightarrow> outbound list" where
  "conn_trace c = cn_wire c @ cn_send c"

definition claims :: "outbound \<Rightarrow> nat \<Rightarrow> bool" where
  "claims r n = (case bd_frame (ob_payload r) of
     ResyncFrame reason _ f t \<Rightarrow> reason = ResyncSlowConsumer \<and> unat f \<le> n \<and> n \<le> unat t
   | _ \<Rightarrow> False)"

inductive reported :: "conn \<Rightarrow> nat \<Rightarrow> bool" for c where
  in_range: "r \<in> set (conn_trace c) \<Longrightarrow> claims r n \<Longrightarrow> reported c n"
| in_lost: "r \<in> set (cn_lost c) \<Longrightarrow> claims r n \<Longrightarrow> reported c (num r) \<Longrightarrow> reported c n"

text \<open>
  What survives of a connection: each frame of the trace is still in it, or was discarded and its
  number is reported now.
\<close>

lemma reported_mono:
  assumes "reported c n" "set (cn_lost c) \<subseteq> set (cn_lost c')"
    and "\<And>r. r \<in> set (conn_trace c) \<Longrightarrow> r \<in> set (conn_trace c') \<or> r \<in> set (cn_lost c') \<and> reported c' (num r)"
  shows "reported c' n"
  using assms(1)
proof (induction rule: reported.induct)
  case (in_range r n)
  then show ?case using assms(3) [of r] reported.intros by blast
next
  case (in_lost r n)
  then show ?case using assms(2) reported.in_lost by blast
qed

definition numbered :: "conn \<Rightarrow> bool" where
  "numbered c =
     (length (cn_send c) \<le> cn_count c \<and>
      map num (cn_send c) = [Suc (cn_count c) - length (cn_send c)..<Suc (cn_count c)] \<and>
      sorted_wrt (<) (map num (cn_wire c)) \<and>
      (\<forall>x \<in> num ` set (cn_wire c). 1 \<le> x \<and> x + length (cn_send c) \<le> cn_count c) \<and>
      (cn_writing c \<longrightarrow> (\<forall>n. 1 \<le> n \<and> n \<le> cn_count c \<and> n \<notin> num ` set (conn_trace c) \<longrightarrow>
         reported c n)))"

definition conn_wf :: "conn \<Rightarrow> bool" where
  "conn_wf c =
     (1 \<le> cn_capacity c \<and> length (cn_send c) \<le> cn_capacity c \<and>
      seq_n (cn_seq c) = of_nat (cn_count c) \<and> (Suc (cn_count c) < 2 ^ 64 \<longrightarrow> numbered c))"

lemma new_wf: "1 \<le> cn_capacity (newConn opts i sid r a) \<Longrightarrow> conn_wf (newConn opts i sid r a)"
  by (simp add: conn_wf_def newConn_def new_sequence_def numbered_def conn_trace_def)

text \<open>A connection that is served: not closed, and its writer runs.\<close>

abbreviation up :: "conn \<Rightarrow> bool" where "up c \<equiv> cn_writing c \<and> \<not> cn_closed c"

section \<open>Gaps while the queue is drained\<close>

definition gap_ok :: "nat \<Rightarrow> gap \<Rightarrow> bool" where
  "gap_ok m g =
     (if gap_from g = 0 then gap_to g = 0 \<and> gap_dropped g = 0
      else unat (gap_from g) \<le> unat (gap_to g) \<and> unat (gap_to g) < m \<and> 0 < unat (gap_dropped g) \<and>
        unat (gap_dropped g) + unat (gap_from g) \<le> Suc (unat (gap_to g)))"

lemma gap_ok_new: "gap_ok m new_gap"
  by (simp add: gap_ok_def new_gap_def)

lemma unat_gt_0_iff: "0 < unat (x :: 64 word) \<longleftrightarrow> x \<noteq> 0"
  by (metis unat_gt_0)

lemma gap_extend_first:
  "gap_ok m g \<Longrightarrow> gap_from g = 0 \<Longrightarrow> q \<noteq> 0 \<Longrightarrow> gap_extend g q = \<lparr> gap_from = q, gap_to = q, gap_dropped = 1 \<rparr>"
  by (simp add: gap_ok_def gap_extend_def Let_def word_gt_0)

lemma gap_extend_next:
  assumes g: "gap_ok m g" "gap_from g \<noteq> 0" and q: "m \<le> unat q"
  shows "gap_extend g q = g\<lparr> gap_to := q, gap_dropped := gap_dropped g + 1 \<rparr>"
    and "gap_ok (Suc (unat q)) (g\<lparr> gap_to := q, gap_dropped := gap_dropped g + 1 \<rparr>)"
proof -
  have f: "unat (gap_from g) \<le> unat (gap_to g)" "unat (gap_to g) < unat q" "0 < unat (gap_dropped g)"
    "unat (gap_dropped g) + unat (gap_from g) \<le> Suc (unat (gap_to g))" "0 < unat (gap_from g)"
    using g q by (auto simp: gap_ok_def unat_gt_0_iff)
  moreover have "unat q < 2 ^ 64" by (rule order_less_le_trans [OF unsigned_less]) simp
  ultimately have d: "unat (gap_dropped g + 1) = Suc (unat (gap_dropped g))"
    by (subst unat_add_lem [THEN iffD1]) auto
  show "gap_ok (Suc (unat q)) (g\<lparr> gap_to := q, gap_dropped := gap_dropped g + 1 \<rparr>)"
    using f g(2) d by (simp add: gap_ok_def)
  have "q \<noteq> 0" using f by auto
  then show "gap_extend g q = g\<lparr> gap_to := q, gap_dropped := gap_dropped g + 1 \<rparr>"
    using f g(2) by (simp add: gap_extend_def Let_def word_less_nat_alt)
qed

lemma gap_extend_ok:
  assumes "gap_ok m g" "m \<le> unat q" "0 < unat q"
  shows "gap_ok (Suc (unat q)) (gap_extend g q) \<and> gap_to (gap_extend g q) = q \<and>
    gap_from (gap_extend g q) \<noteq> 0"
proof (cases "gap_from g = 0")
  case True
  moreover have "q \<noteq> 0" using assms(3) by auto
  ultimately have "gap_extend g q = \<lparr> gap_from = q, gap_to = q, gap_dropped = 1 \<rparr>"
    using gap_extend_first [OF assms(1)] by simp
  then show ?thesis using \<open>q \<noteq> 0\<close> by (simp add: gap_ok_def)
next
  case False
  then show ?thesis using gap_extend_next [OF assms(1) False assms(2)] by simp
qed

lemma gap_extend_from:
  assumes "gap_ok m g" "m \<le> unat q" "0 < unat q"
  shows "gap_from (gap_extend g q) = (if gap_from g = 0 then q else gap_from g)"
proof (cases "gap_from g = 0")
  case True
  moreover have "q \<noteq> 0" using assms(3) by auto
  ultimately show ?thesis using gap_extend_first [OF assms(1)] by simp
next
  case False
  then show ?thesis using gap_extend_next(1) [OF assms(1) False assms(2)] by simp
qed

lemma upt_eq_Cons_iff: "x # xs = [m..<n] \<longleftrightarrow> m < n \<and> x = m \<and> xs = [Suc m..<n]"
  by (auto simp: upt_conv_Cons)
    (metis list.distinct(1) list.inject not_le upt_conv_Cons upt_eq_Nil_conv)+

lemma discard_rest_ok:
  "map num qs = [m..<n] \<Longrightarrow> m \<le> n \<Longrightarrow> 1 \<le> m \<Longrightarrow> gap_ok m g \<Longrightarrow> gap_ok n (discard_rest g qs)"
proof (induction qs arbitrary: m g)
  case (Cons q qs)
  then have "m < n" "num q = m" "map num qs = [Suc m..<n]" by (simp_all add: upt_eq_Cons_iff)
  then show ?case using Cons gap_extend_ok [of m g "ob_seq q"] by simp
qed (simp add: upt_eq_Nil_conv [symmetric] eq_commute [of "[]"])

section \<open>The discard, interleaved with the writer\<close>

definition draining :: "nat \<Rightarrow> gap \<Rightarrow> conn \<Rightarrow> bool" where
  "draining n g c =
     (\<exists>m. map num (cn_send c) = [m..<n] \<and> 1 \<le> m \<and> m \<le> n \<and> gap_ok m g \<and>
        sorted_wrt (<) (map num (cn_wire c)) \<and> (\<forall>x \<in> num ` set (cn_wire c). 1 \<le> x \<and> x < m))"

text \<open>What neither a writer's iteration nor a discarded frame touches.\<close>

definition same_frame :: "conn \<Rightarrow> conn \<Rightarrow> bool" where
  "same_frame c c' =
     (cn_count c' = cn_count c \<and> cn_seq c' = cn_seq c \<and> cn_capacity c' = cn_capacity c \<and>
      cn_channels c' = cn_channels c \<and> (cn_writing c' \<longrightarrow> cn_writing c) \<and>
      (cn_closed c \<longrightarrow> cn_closed c') \<and> (cn_closed c' \<longrightarrow> cn_closed c \<or> \<not> cn_writing c'))"

lemma same_frame_refl [simp]: "same_frame c c"
  by (simp add: same_frame_def)

lemma same_frame_trans: "same_frame a b \<Longrightarrow> same_frame b c \<Longrightarrow> same_frame a c"
  by (auto simp: same_frame_def)

lemma writeLoop_same: "same_frame c (writeLoop ok c)"
  by (cases ok) (auto simp: same_frame_def writeLoop_def conn_write_def requestClose_def split: list.splits)

lemma writeLoop_cases:
  obtains (idle) "cn_send (writeLoop ok c) = cn_send c" "cn_wire (writeLoop ok c) = cn_wire c"
  | (sent) out rest where "cn_send c = out # rest" "cn_send (writeLoop ok c) = rest"
      "cn_wire (writeLoop ok c) = cn_wire c @ [out]" "cn_writing (writeLoop ok c) = cn_writing c"
  | (failed) out rest where "cn_send c = out # rest" "cn_send (writeLoop ok c) = rest"
      "cn_wire (writeLoop ok c) = cn_wire c" "\<not> cn_writing (writeLoop ok c)"
  by (cases "cn_writing c"; cases "cn_send c"; cases ok)
    (auto simp: writeLoop_def conn_write_def requestClose_def)

lemma draining_write:
  assumes "draining n g c"
  shows "draining n g (writeLoop ok c)"
proof -
  obtain m where m: "map num (cn_send c) = [m..<n]" "1 \<le> m" "m \<le> n" "gap_ok m g"
    "sorted_wrt (<) (map num (cn_wire c))" "\<forall>x \<in> num ` set (cn_wire c). 1 \<le> x \<and> x < m"
    using assms by (auto simp: draining_def)
  have weak: "gap_ok (Suc m) g" using m(4) by (auto simp: gap_ok_def)
  show ?thesis
  proof (cases rule: writeLoop_cases [of ok c])
    case idle
    then show ?thesis using assms by (simp add: draining_def)
  next
    case (sent out rest)
    then have "m < n" "num out = m" "map num rest = [Suc m..<n]" using m(1) by (simp_all add: upt_eq_Cons_iff)
    then show ?thesis
      unfolding draining_def using sent m weak
      by (intro exI [of _ "Suc m"]) (auto simp: sorted_wrt_append less_Suc_eq)
  next
    case (failed out rest)
    then have "m < n" "map num rest = [Suc m..<n]" using m(1) by (simp_all add: upt_eq_Cons_iff)
    then show ?thesis
      unfolding draining_def using failed m weak
      by (intro exI [of _ "Suc m"]) (auto simp: less_Suc_eq)
  qed
qed

lemma draining_take:
  assumes "draining n g c" "cn_send c = out # rest"
  shows "draining n (gap_extend g (ob_seq out)) (c\<lparr> cn_send := rest, cn_lost := lost \<rparr>)"
proof -
  obtain m where m: "map num (cn_send c) = [m..<n]" "1 \<le> m" "m \<le> n" "gap_ok m g"
    "sorted_wrt (<) (map num (cn_wire c))" "\<forall>x \<in> num ` set (cn_wire c). 1 \<le> x \<and> x < m"
    using assms by (auto simp: draining_def)
  then have q: "m < n" "num out = m" "map num rest = [Suc m..<n]"
    using assms(2) by (simp_all add: upt_eq_Cons_iff)
  then show ?thesis
    unfolding draining_def using m gap_extend_ok [of m g "ob_seq out"]
    by (intro exI [of _ "Suc m"]) (auto simp: less_Suc_eq)
qed

lemma discard_loop_ok:
  assumes "draining n g c" "discard_loop sched g c = (g', c')"
  shows "draining n g' c' \<and> cn_send c' = [] \<and> same_frame c c'"
  using assms
proof (induction sched arbitrary: g c)
  case Nil
  obtain m where m: "map num (cn_send c) = [m..<n]" "1 \<le> m" "m \<le> n" "gap_ok m g"
    "sorted_wrt (<) (map num (cn_wire c))" "\<forall>x \<in> num ` set (cn_wire c). 1 \<le> x \<and> x < m"
    using Nil.prems by (auto simp: draining_def)
  have "gap_ok n (discard_rest g (cn_send c))" by (rule discard_rest_ok [OF m(1,3,2,4)])
  then have "draining n (discard_rest g (cn_send c)) (c\<lparr> cn_send := [], cn_lost := cn_lost c @ cn_send c \<rparr>)"
    unfolding draining_def using m by (intro exI [of _ n]) force
  then show ?case using Nil.prems by (auto simp: same_frame_def)
next
  case (Cons a sched)
  show ?case
  proof (cases a)
    case None
    show ?thesis
    proof (cases "cn_send c")
      case Nil
      then show ?thesis using Cons.prems None by auto
    next
      case (Cons out rest)
      have "same_frame c (c\<lparr> cn_send := rest, cn_lost := cn_lost c @ [out] \<rparr>)" by (simp add: same_frame_def)
      then show ?thesis
        using Cons.IH [OF draining_take [OF Cons.prems(1) Cons]] Cons.prems(2) None Cons
        by (auto intro: same_frame_trans)
    qed
  next
    case (Some ok)
    then show ?thesis
      using Cons.IH [OF draining_write [OF Cons.prems(1)]] Cons.prems(2) writeLoop_same [of c ok]
      by (auto intro: same_frame_trans)
  qed
qed

lemma discard_loop_frame:
  "discard_loop sched g c = (g', c') \<Longrightarrow> cn_send c' = [] \<and> same_frame c c'"
proof (induction sched g c rule: discard_loop.induct)
  case (1 g c)
  then show ?case by (auto simp: same_frame_def)
next
  case (2 ok sched g c)
  then show ?case using same_frame_trans [OF writeLoop_same] by auto
next
  case (3 sched g c)
  have "same_frame c (c\<lparr> cn_send := rest, cn_lost := l \<rparr>)" for rest l by (simp add: same_frame_def)
  with 3 show ?case by (auto split: list.splits intro: same_frame_trans)
qed

text \<open>Where the frames of a connection have gone during a discard.\<close>

definition kept :: "conn \<Rightarrow> gap \<Rightarrow> conn \<Rightarrow> bool" where
  "kept c0 g c =
     (set (cn_lost c0) \<subseteq> set (cn_lost c) \<and>
      (cn_writing c \<longrightarrow> (\<forall>o1 \<in> set (conn_trace c0). o1 \<in> set (conn_trace c) \<or>
         o1 \<in> set (cn_lost c) \<and> gap_from g \<noteq> 0 \<and> unat (gap_from g) \<le> num o1)))"

lemma writeLoop_lost [simp]: "cn_lost (writeLoop ok c) = cn_lost c"
  by (cases ok) (simp_all add: writeLoop_def conn_write_def requestClose_def split: list.split)

lemma kept_write: "kept c0 g c \<Longrightarrow> kept c0 g (writeLoop ok c)"
proof -
  assume k: "kept c0 g c"
  note l = writeLoop_lost [of ok c]
  show "kept c0 g (writeLoop ok c)"
  proof (cases rule: writeLoop_cases [of ok c])
    case idle
    then show ?thesis using k l writeLoop_same [of c ok] by (auto simp: kept_def conn_trace_def same_frame_def)
  next
    case (sent out rest)
    then show ?thesis using k l by (auto simp: kept_def conn_trace_def)
  next
    case (failed out rest)
    then show ?thesis using k l by (auto simp: kept_def)
  qed
qed

lemma kept_take:
  assumes k: "kept c0 g c" and dr: "draining n g c" and s: "cn_send c = out # rest"
  shows "kept c0 (gap_extend g (ob_seq out)) (c\<lparr> cn_send := rest, cn_lost := cn_lost c @ [out] \<rparr>)"
proof -
  obtain m where m: "map num (cn_send c) = [m..<n]" "1 \<le> m" "m \<le> n" "gap_ok m g"
    using dr by (auto simp: draining_def)
  then have q: "num out = m" using s by (simp add: upt_eq_Cons_iff)
  have f: "gap_from (gap_extend g (ob_seq out)) = (if gap_from g = 0 then ob_seq out else gap_from g)"
    using gap_extend_from [OF m(4)] q m(2) by simp
  moreover have "gap_from g \<noteq> 0 \<Longrightarrow> unat (gap_from g) \<le> num out" using m(4) q by (auto simp: gap_ok_def)
  moreover have "ob_seq out \<noteq> 0" using q m(2) by auto
  ultimately show ?thesis using k s by (auto simp: kept_def conn_trace_def)
qed

lemma kept_rest:
  "kept c0 g c \<Longrightarrow> draining n g c \<Longrightarrow>
    kept c0 (discard_rest g (cn_send c)) (c\<lparr> cn_send := [], cn_lost := cn_lost c @ cn_send c \<rparr>)"
proof (induction "cn_send c" arbitrary: g c)
  case Nil
  from Nil(1) [symmetric] show ?case using Nil(2) by (simp add: kept_def conn_trace_def)
next
  case (Cons out rest)
  let ?c = "c\<lparr> cn_send := rest, cn_lost := cn_lost c @ [out] \<rparr>"
  have s: "cn_send c = out # rest" using Cons(2) by simp
  have "kept c0 (discard_rest (gap_extend g (ob_seq out)) (cn_send ?c))
      (?c\<lparr> cn_send := [], cn_lost := cn_lost ?c @ cn_send ?c \<rparr>)"
    by (rule Cons(1)) (use kept_take [OF Cons(3,4) s] draining_take [OF Cons(4) s] in simp_all)
  then show ?case by (simp add: s)
qed

lemma discard_loop_kept:
  "kept c0 g c \<Longrightarrow> draining n g c \<Longrightarrow> discard_loop sched g c = (g', c') \<Longrightarrow> kept c0 g' c'"
proof (induction sched arbitrary: g c)
  case Nil
  then show ?case using kept_rest by auto
next
  case (Cons a sched)
  show ?case
  proof (cases a)
    case None
    show ?thesis
    proof (cases "cn_send c")
      case Nil
      then show ?thesis using Cons.prems None by auto
    next
      case s: (Cons out rest)
      show ?thesis
        using Cons.IH [OF kept_take [OF Cons.prems(1,2) s] draining_take [OF Cons.prems(2) s]] Cons.prems(3) None s
        by simp
    qed
  next
    case (Some ok)
    then show ?thesis
      using Cons.IH [OF kept_write [OF Cons.prems(1)] draining_write [OF Cons.prems(2)]] Cons.prems(3) by simp
  qed
qed

section \<open>The operations\<close>

lemma next_seq_eq:
  "seq_n (cn_seq c) = of_nat (cn_count c) \<Longrightarrow>
    next_seq c = (of_nat (Suc (cn_count c)),
      c\<lparr> cn_seq := \<lparr> seq_n = of_nat (Suc (cn_count c)) \<rparr>, cn_count := Suc (cn_count c) \<rparr>)"
  by (cases "cn_seq c") (simp add: next_seq_def sequence_next_def Let_def ac_simps)

lemma unat_of_nat64: "n < 2 ^ 64 \<Longrightarrow> unat (of_nat n :: 64 word) = n"
  by (simp add: unat_of_nat)

lemma writes_same: "same_frame c (fold writeLoop ws c)"
  by (induction ws arbitrary: c) (auto intro: same_frame_trans writeLoop_same)

lemma next_seq_up [simp]: "next_seq c = (q, c') \<Longrightarrow> cn_writing c' = cn_writing c \<and> cn_closed c' = cn_closed c"
  by (auto simp: next_seq_def split: prod.splits)

lemma push_up: "push q body kind c = Some c' \<Longrightarrow> cn_writing c' = cn_writing c \<and> cn_closed c' = cn_closed c"
  by (auto simp: push_def split: if_splits)

lemma resyncFrame_up:
  "cn_writing (snd (resyncFrameLocked now g c)) = cn_writing c"
  "cn_closed (snd (resyncFrameLocked now g c)) = cn_closed c"
  by (auto simp: resyncFrameLocked_def next_seq_def push_def split: sum.splits prod.splits option.splits if_splits)

lemma enqueue_up:
  assumes "up (snd (enqueue sched now body kind c))"
  shows "up c"
proof (cases "cn_closed c")
  case True
  then show ?thesis using assms by (simp add: enqueue_def)
next
  case False
  obtain q c1 where n: "next_seq c = (q, c1)" by (cases "next_seq c")
  obtain g c2 where d: "discard_loop sched new_gap c1 = (g, c2)" by (cases "discard_loop sched new_gap c1")
  show ?thesis
    using assms False n d next_seq_up [OF n] discard_loop_frame [OF d] push_up [of q body kind c1]
    by (auto simp: enqueue_def discardLocked_def resyncFrame_up same_frame_def split: option.splits)
qed

text \<open>The two outcomes of \<open>enqueue\<close> on an open connection.\<close>

definition frame_out :: "nat \<Rightarrow> Body \<Rightarrow> MessageKind \<Rightarrow> outbound" where
  "frame_out n body kind =
     \<lparr> ob_seq = of_nat n, ob_kind = kind, ob_payload = Body_Frame body (of_nat n) \<rparr>"

definition resync_body :: "time \<Rightarrow> gap \<Rightarrow> Body" where
  "resync_body now g = \<lparr> bd_type = KindResync, bd_ts = now, bd_id = [],
     bd_frame = NewResync ResyncSlowConsumer (gap_dropped g) (gap_from g) (gap_to g) \<rparr>"

lemma Render_resync:
  "Render Some (NewResync ResyncSlowConsumer (gap_dropped g) (gap_from g) (gap_to g)) now [] =
    Inr (resync_body now g)"
  by (simp add: Render_def resync_body_def marshals_def marshalled_def frame_makers Kind_def time_defs)

lemma enqueue_cases:
  assumes open_c: "\<not> cn_closed c" and seq: "seq_n (cn_seq c) = of_nat (cn_count c)" and cap: "1 \<le> cn_capacity c"
  obtains (queued) "length (cn_send c) < cn_capacity c"
      "enqueue sched now body kind c = (True,
        c\<lparr> cn_seq := \<lparr> seq_n = of_nat (Suc (cn_count c)) \<rparr>, cn_count := Suc (cn_count c),
          cn_send := cn_send c @ [frame_out (Suc (cn_count c)) body kind] \<rparr>)"
  | (overflow) g d c1 where "cn_capacity c \<le> length (cn_send c)"
      "discard_loop sched new_gap (c\<lparr> cn_seq := \<lparr> seq_n = of_nat (Suc (cn_count c)) \<rparr>,
         cn_count := Suc (cn_count c) \<rparr>) = (d, c1)"
      "g = gap_extend d (of_nat (Suc (cn_count c)))"
      "cn_send c1 = []" "cn_count c1 = Suc (cn_count c)" "cn_capacity c1 = cn_capacity c"
      "cn_seq c1 = \<lparr> seq_n = of_nat (Suc (cn_count c)) \<rparr>"
      "enqueue sched now body kind c = (False,
        if gap_empty g then c1
        else c1\<lparr> cn_seq := \<lparr> seq_n = of_nat (Suc (Suc (cn_count c))) \<rparr>, cn_count := Suc (Suc (cn_count c)),
          cn_send := [frame_out (Suc (Suc (cn_count c))) (resync_body now g) KindResync] \<rparr>)"
proof (cases "length (cn_send c) < cn_capacity c")
  case True
  then show thesis
    using open_c by (intro queued) (simp_all add: enqueue_def next_seq_eq [OF seq] push_def frame_out_def)
next
  case False
  let ?c = "c\<lparr> cn_seq := \<lparr> seq_n = of_nat (Suc (cn_count c)) \<rparr>, cn_count := Suc (cn_count c) \<rparr>"
  obtain d c1 where d: "discard_loop sched new_gap ?c = (d, c1)" by (cases "discard_loop sched new_gap ?c")
  have c1: "cn_send c1 = []" "cn_count c1 = Suc (cn_count c)" "cn_capacity c1 = cn_capacity c"
    "cn_seq c1 = \<lparr> seq_n = of_nat (Suc (cn_count c)) \<rparr>"
    using discard_loop_frame [OF d] by (simp_all add: same_frame_def)
  then have "next_seq c1 = (of_nat (Suc (Suc (cn_count c))),
      c1\<lparr> cn_seq := \<lparr> seq_n = of_nat (Suc (Suc (cn_count c))) \<rparr>, cn_count := Suc (Suc (cn_count c)) \<rparr>)"
    using next_seq_eq [of c1] by simp
  then have "resyncFrameLocked now (gap_extend d (of_nat (Suc (cn_count c)))) c1 =
      (if gap_empty (gap_extend d (of_nat (Suc (cn_count c)))) then (0, c1)
       else (of_nat (Suc (Suc (cn_count c))),
         c1\<lparr> cn_seq := \<lparr> seq_n = of_nat (Suc (Suc (cn_count c))) \<rparr>, cn_count := Suc (Suc (cn_count c)),
           cn_send := [frame_out (Suc (Suc (cn_count c)))
             (resync_body now (gap_extend d (of_nat (Suc (cn_count c))))) KindResync] \<rparr>))"
    using cap c1 by (simp add: resyncFrameLocked_def Render_resync push_def frame_out_def del: of_nat_Suc)
  then show thesis
    using open_c False d c1
    by (intro overflow [OF _ d refl])
      (simp_all add: enqueue_def next_seq_eq [OF seq] push_def discardLocked_def del: of_nat_Suc)
qed

text \<open>The numbers after a frame was queued, and after a buffer was discarded.\<close>

lemma numbered_queued:
  assumes c: "numbered c" and n: "Suc (cn_count c) < 2 ^ 64"
  shows "numbered (c\<lparr> cn_seq := s', cn_count := Suc (cn_count c),
    cn_send := cn_send c @ [frame_out (Suc (cn_count c)) body kind] \<rparr>)"
proof -
  let ?o = "frame_out (Suc (cn_count c)) body kind"
  let ?c = "c\<lparr> cn_seq := s', cn_count := Suc (cn_count c), cn_send := cn_send c @ [?o] \<rparr>"
  have o: "num ?o = Suc (cn_count c)" using n by (simp add: frame_out_def unat_of_nat64 del: of_nat_Suc)
  have "[Suc (cn_count c) - length (cn_send c)..<Suc (Suc (cn_count c))] =
      [Suc (cn_count c) - length (cn_send c)..<Suc (cn_count c)] @ [Suc (cn_count c)]"
    by (rule upt_Suc_append) simp
  moreover have "reported ?c k"
    if "cn_writing c" "1 \<le> k" "k \<le> Suc (cn_count c)" "k \<notin> num ` set (conn_trace ?c)" for k
  proof -
    have t: "set (conn_trace ?c) = insert ?o (set (conn_trace c))" by (auto simp: conn_trace_def)
    then have "k \<le> cn_count c" "k \<notin> num ` set (conn_trace c)" using that o by (auto simp: le_Suc_eq)
    then have "reported c k" using c that by (simp add: numbered_def)
    then show ?thesis by (rule reported_mono) (auto simp: t)
  qed
  ultimately show ?thesis
    using c o by (auto simp: numbered_def)
qed

lemma numbered_drained:
  assumes c: "numbered c" and cap: "1 \<le> length (cn_send c)" and n: "Suc (Suc (cn_count c)) < 2 ^ 64"
    and loop: "discard_loop sched new_gap (c\<lparr> cn_seq := s', cn_count := Suc (cn_count c) \<rparr>) = (d, c1)"
    and g: "g = gap_extend d (of_nat (Suc (cn_count c)))"
  shows "\<not> gap_empty g"
    and "numbered (c1\<lparr> cn_seq := s'', cn_count := Suc (Suc (cn_count c)),
      cn_send := [frame_out (Suc (Suc (cn_count c))) (resync_body now g) KindResync] \<rparr>)"
    and "1 \<le> unat (gap_from g) \<and> unat (gap_to g) = Suc (cn_count c) \<and> 1 \<le> unat (gap_dropped g) \<and>
      unat (gap_dropped g) + unat (gap_from g) \<le> Suc (unat (gap_to g))"
proof -
  let ?N = "Suc (cn_count c)"
  let ?o = "frame_out (Suc ?N) (resync_body now g) KindResync"
  have len: "length (cn_send c) \<le> cn_count c" using c by (simp add: numbered_def)
  have start: "draining ?N new_gap (c\<lparr> cn_seq := s', cn_count := ?N \<rparr>)"
    unfolding draining_def using c len by (intro exI [of _ "?N - length (cn_send c)"])
      (fastforce simp: numbered_def gap_ok_new)
  from discard_loop_ok [OF start loop] discard_loop_frame [OF loop]
  have dr: "draining ?N d c1" "cn_send c1 = []" by simp_all
  obtain m where m: "m \<le> ?N" "gap_ok m d" "[] = [m..<?N]"
    "sorted_wrt (<) (map num (cn_wire c1))" "\<forall>x \<in> num ` set (cn_wire c1). 1 \<le> x \<and> x < m"
    using dr by (auto simp: draining_def)
  have mN: "m = ?N" using m(1,3) by (metis le_antisym not_less upt_eq_Nil_conv zero_less_Suc less_irrefl_nat not_gr_zero)
  have q: "unat (of_nat ?N :: 64 word) = ?N" using n by (simp add: unat_of_nat64 del: of_nat_Suc)
  have ge: "gap_ok (Suc ?N) g" "gap_to g = of_nat ?N" "gap_from g \<noteq> 0"
    using gap_extend_ok [OF m(2), of "of_nat ?N"] q mN unfolding g by (simp_all del: of_nat_Suc)
  then show ge': "1 \<le> unat (gap_from g) \<and> unat (gap_to g) = ?N \<and> 1 \<le> unat (gap_dropped g) \<and>
      unat (gap_dropped g) + unat (gap_from g) \<le> Suc (unat (gap_to g))"
    using q by (simp add: gap_ok_def unat_gt_0_iff Suc_le_eq del: of_nat_Suc)
  then show "\<not> gap_empty g" by (auto simp: gap_empty_def)
  have o: "num ?o = Suc ?N" using n by (simp add: frame_out_def unat_of_nat64 del: of_nat_Suc)
  let ?c = "c1\<lparr> cn_seq := s'', cn_count := Suc ?N, cn_send := [?o] \<rparr>"
  have t: "set (conn_trace ?c) = insert ?o (set (conn_trace c1))" using dr(2) by (auto simp: conn_trace_def)
  have "kept c new_gap (c\<lparr> cn_seq := s', cn_count := ?N \<rparr>)" by (auto simp: kept_def conn_trace_def)
  from discard_loop_kept [OF this start loop] have k: "kept c d c1" .
  have range: "reported ?c k" if "unat (gap_from g) \<le> k" "k \<le> ?N" for k
    using that ge' t
    by (intro reported.in_range [of ?o]) (simp_all add: claims_def frame_out_def Body_Frame_def resync_body_def frame_makers)
  have low: "gap_from g = (if gap_from d = 0 then of_nat ?N else gap_from d)"
    using gap_extend_from [OF m(2), of "of_nat ?N"] q mN unfolding g by (simp del: of_nat_Suc)
  have old: "o1 \<in> set (conn_trace ?c) \<or> o1 \<in> set (cn_lost ?c) \<and> reported ?c (num o1)"
    if w: "cn_writing c1" and o1: "o1 \<in> set (conn_trace c)" for o1
  proof -
    have "num o1 \<le> ?N"
      using o1 c len by (auto simp: conn_trace_def numbered_def simp del: upt_Suc) (metis atLeastLessThan_iff image_eqI less_Suc_eq_le set_map set_upt le_SucI)+
    then show ?thesis using k w o1 low t range [of "num o1"] by (auto simp: kept_def)
  qed
  have "reported ?c k" if w: "cn_writing c1" and k1: "1 \<le> k" "k \<le> Suc ?N" "k \<notin> num ` set (conn_trace ?c)" for k
  proof -
    have le: "k \<le> ?N" using k1 o t by (auto simp: le_Suc_eq)
    have wc: "cn_writing c" using w discard_loop_frame [OF loop] by (simp add: same_frame_def)
    show ?thesis
    proof (cases "k = ?N")
      case True
      then show ?thesis using range [of k] ge' by (simp del: of_nat_Suc)
    next
      case False
      show ?thesis
      proof (cases "k \<in> num ` set (conn_trace c)")
        case True
        then obtain o1 where "o1 \<in> set (conn_trace c)" "num o1 = k" by auto
        then show ?thesis using old [OF w, of o1] k1(3) by auto
      next
        case missing: False
        then have "reported c k" using c wc le False k1(1) by (simp add: numbered_def)
        then show ?thesis by (rule reported_mono) (use k old [OF w] in \<open>auto simp: kept_def\<close>)
      qed
    qed
  qed
  then show "numbered ?c"
    using m(4,5) o mN dr(2) by (fastforce simp: numbered_def)
qed

lemma enqueue_wf:
  assumes c: "conn_wf c"
  shows "conn_wf (snd (enqueue sched now body kind c))"
proof (cases "cn_closed c")
  case True
  then show ?thesis using c by (simp add: enqueue_def)
next
  case False
  have pre: "seq_n (cn_seq c) = of_nat (cn_count c)" "1 \<le> cn_capacity c" using c by (simp_all add: conn_wf_def)
  from False pre show ?thesis
  proof (cases rule: enqueue_cases [where sched = sched and now = now and body = body and kind = kind])
    case queued
    then show ?thesis
      using c numbered_queued [where c = c and s' = "\<lparr> seq_n = of_nat (Suc (cn_count c)) \<rparr>" and body = body and kind = kind]
      by (auto simp: conn_wf_def)
  next
    case (overflow g d c1)
    have len: "1 \<le> length (cn_send c)" using overflow(1) pre(2) by simp
    show ?thesis
    proof (cases "Suc (Suc (cn_count c)) < 2 ^ 64")
      case True
      then have "numbered c" using c by (simp add: conn_wf_def)
      from numbered_drained [OF this len True overflow(2,3)] show ?thesis
        using overflow pre by (auto simp: conn_wf_def)
    next
      case False
      then show ?thesis using overflow pre by (auto simp: conn_wf_def)
    qed
  qed
qed

lemma sendFrame_wf: "conn_wf c \<Longrightarrow> conn_wf (snd (sendFrame json_valid sched now b rid c))"
  by (auto simp: sendFrame_def enqueue_wf split: sum.splits)

lemma reported_cong:
  assumes "conn_trace c' = conn_trace c" "cn_lost c' = cn_lost c"
  shows "reported c' n \<longleftrightarrow> reported c n"
  by (rule iffI; erule reported_mono) (use assms in simp_all)

lemma writeLoop_wf:
  assumes c: "conn_wf c"
  shows "conn_wf (writeLoop ok c)"
proof -
  have f: "same_frame c (writeLoop ok c)" by (rule writeLoop_same)
  show ?thesis
  proof (cases rule: writeLoop_cases [of ok c])
    case idle
    have "reported (writeLoop ok c) n \<longleftrightarrow> reported c n" for n
      using idle writeLoop_lost by (intro reported_cong) (simp_all add: conn_trace_def)
    then show ?thesis using c f idle by (auto simp: conn_wf_def same_frame_def numbered_def conn_trace_def)
  next
    case (sent out rest)
    have t: "conn_trace (writeLoop ok c) = conn_trace c" using sent by (simp add: conn_trace_def)
    note rep = reported_cong [OF t writeLoop_lost]
    have "numbered (writeLoop ok c)" if "numbered c"
    proof -
      let ?m = "Suc (cn_count c) - length (cn_send c)"
      have "num out = ?m" "map num rest = [Suc ?m..<Suc (cn_count c)]" "?m < Suc (cn_count c)"
        using that sent(1) by (simp_all add: numbered_def upt_eq_Cons_iff del: upt_Suc)
      moreover have "Suc ?m = Suc (cn_count c) - length rest"
        using that sent(1) unfolding numbered_def by (simp add: Suc_diff_le)
      ultimately show ?thesis
        using that sent f rep unfolding numbered_def t
        by (auto simp: same_frame_def sorted_wrt_append less_Suc_eq_le Suc_le_eq simp del: upt_Suc)
    qed
    then show ?thesis using c f sent by (auto simp: conn_wf_def same_frame_def)
  next
    case (failed out rest)
    have "numbered (writeLoop ok c)" if "numbered c"
    proof -
      let ?m = "Suc (cn_count c) - length (cn_send c)"
      have "map num rest = [Suc ?m..<Suc (cn_count c)]"
        using that failed(1) by (simp add: numbered_def upt_eq_Cons_iff del: upt_Suc)
      moreover have "Suc ?m = Suc (cn_count c) - length rest"
        using that failed(1) unfolding numbered_def by (simp add: Suc_diff_le)
      ultimately show ?thesis
        using that failed f unfolding numbered_def
        by (auto simp: same_frame_def simp del: upt_Suc)
    qed
    then show ?thesis using c f failed by (auto simp: conn_wf_def same_frame_def)
  qed
qed

lemma numbered_cong:
  "cn_send c' = cn_send c \<Longrightarrow> cn_count c' = cn_count c \<Longrightarrow> cn_wire c' = cn_wire c \<Longrightarrow>
    cn_lost c' = cn_lost c \<Longrightarrow> cn_writing c' = cn_writing c \<Longrightarrow> numbered c' = numbered c"
  using reported_cong [of c' c] by (simp add: numbered_def conn_trace_def)

lemma conn_wf_cong:
  "conn_wf c \<Longrightarrow> cn_send c' = cn_send c \<Longrightarrow> cn_count c' = cn_count c \<Longrightarrow> cn_wire c' = cn_wire c \<Longrightarrow>
    cn_lost c' = cn_lost c \<Longrightarrow> cn_writing c' = cn_writing c \<Longrightarrow> cn_seq c' = cn_seq c \<Longrightarrow> cn_capacity c' = cn_capacity c \<Longrightarrow> conn_wf c'"
  using numbered_cong [of c' c] by (simp add: conn_wf_def)

lemma requestClose_wf: "conn_wf c \<Longrightarrow> conn_wf (requestClose reason status text c)"
  by (erule conn_wf_cong) (simp_all add: requestClose_def)

lemma addLocked_wf: "conn_wf c \<Longrightarrow> conn_wf (snd (addLocked ch c))"
  by (erule conn_wf_cong) (simp_all add: addLocked_def)

lemma removeChannel_wf: "conn_wf c \<Longrightarrow> conn_wf (snd (removeChannel ch c))"
  by (erule conn_wf_cong) (simp_all add: removeChannel_def)

lemmas conn_wf_intros = enqueue_wf sendFrame_wf writeLoop_wf requestClose_wf addLocked_wf removeChannel_wf

section \<open>What the numbers promise\<close>

lemma trace_sorted:
  assumes "numbered c"
  shows "sorted_wrt (<) (map num (conn_trace c))"
proof -
  have s: "sorted_wrt (<) (map num (cn_send c))" using assms by (simp add: numbered_def sorted_wrt_upt del: upt_Suc)
  have "x < y" if "x \<in> num ` set (cn_wire c)" "y \<in> num ` set (cn_send c)" for x y
  proof -
    have "y \<in> set (map num (cn_send c))" using that by simp
    then have "Suc (cn_count c) - length (cn_send c) \<le> y"
      using assms by (simp add: numbered_def del: upt_Suc set_map)
    then show ?thesis using assms that(1) by (fastforce simp: numbered_def)
  qed
  then show ?thesis
    using s assms by (auto simp: conn_trace_def sorted_wrt_append numbered_def)
qed

text \<open>
  The writer may take a frame from the middle of the queue while it is being discarded: the range the
  client is then told it lost contains a frame it did receive.
\<close>

definition busy_conn :: conn where
  "busy_conn = snd (enqueue [] 0 \<lparr> bd_type = KindPong, bd_ts = 0, bd_id = [], bd_frame = PongFrame \<rparr> KindPong
     (snd (enqueue [] 0 \<lparr> bd_type = KindPong, bd_ts = 0, bd_id = [], bd_frame = PongFrame \<rparr> KindPong
       \<lparr> cn_id = [], cn_sessionID = [], cn_resumable = False, cn_authenticated = False, cn_capacity = 2,
         cn_send = [], cn_seq = new_sequence, cn_count = 0, cn_closed = False, cn_close = None,
         cn_channels = [], cn_wire = [], cn_lost = [], cn_writing = True \<rparr>)))"

end
