(* ===== verification/HubInvariant.thy ===== *)
theory HubInvariant
  imports Hub ConnInvariant SlateInvariant
begin

text \<open>
  The invariant of the hub: the routing table is exactly the inverse of the channel sets of the live
  connections, with no empty entry; the subscription count is the number of routes; every connection
  holds distinct well-formed channels, at most the cap; every connection's stream is accounted for;
  and the slate is well formed. Every critical section keeps it, so every interleaving of them does.
\<close>

lemma fold_related:
  assumes "\<And>s. R s s" "\<And>a b c. R a b \<Longrightarrow> R b c \<Longrightarrow> R a c" "\<And>x s. R s (f x s)"
  shows "R s (fold f xs s)"
  by (induction xs arbitrary: s) (auto intro: assms)

definition conn_ok :: "nat \<Rightarrow> conn \<Rightarrow> bool" where
  "conn_ok cap c =
     (conn_wf c \<and> distinct (cn_channels c) \<and> length (cn_channels c) \<le> cap \<and>
      (\<forall>ch \<in> set (cn_channels c). channel_ok ch))"

definition routed_to :: "Hub \<Rightarrow> Channel \<Rightarrow> conn_ref set" where
  "routed_to h ch = {r \<in> hub_conns h. ch \<in> set (cn_channels (hub_heap h r))}"

definition sub_total :: "Hub \<Rightarrow> int" where
  "sub_total h = (\<Sum>r \<in> hub_conns h. int (length (cn_channels (hub_heap h r))))"

definition hub_wf :: "Hub \<Rightarrow> bool" where
  "hub_wf h =
     ((\<forall>ch. hub_subs h ch \<noteq> Some {}) \<and> (\<forall>ch. routes h ch = routed_to h ch) \<and>
      finite (hub_conns h) \<and> hub_subCount h = sub_total h \<and>
      (\<forall>r \<in> hub_conns h. conn_ok (hub_cap h) (hub_heap h r)) \<and> slate_wf (hub_store h))"

lemma hub_wf_conn: "hub_wf h \<Longrightarrow> r \<in> hub_conns h \<Longrightarrow> conn_ok (hub_cap h) (hub_heap h r)"
  by (simp add: hub_wf_def)

section \<open>Steps that leave the channels alone\<close>

definition keeps :: "(conn \<Rightarrow> conn) \<Rightarrow> bool" where
  "keeps f = (\<forall>c. (conn_wf c \<longrightarrow> conn_wf (f c)) \<and> cn_channels (f c) = cn_channels c)"

lemma enqueue_channels: "cn_channels (snd (enqueue sched now body kind c)) = cn_channels c"
proof -
  have "cn_channels c' = cn_channels c \<and> cn_send c' = []"
    if "discardLocked sched seq c = (g, c')" for seq g and c c' :: conn
    using that discard_loop_frame [of sched new_gap c]
    by (auto simp: discardLocked_def same_frame_def split: prod.splits)
  moreover have "cn_channels (snd (resyncFrameLocked now g c)) = cn_channels c" for g and c :: conn
    by (auto simp: resyncFrameLocked_def next_seq_def push_def split: sum.splits prod.splits option.splits)
  ultimately show ?thesis
    by (auto simp: enqueue_def next_seq_def push_def split: prod.splits option.splits)
qed

lemma keeps_fold: "(\<And>x. keeps (f x)) \<Longrightarrow> keeps (fold f xs)"
  by (induction xs) (simp_all add: keeps_def)

lemma keeps_writeLoop: "keeps (writeLoop ok)"
  using writeLoop_same by (simp add: keeps_def writeLoop_wf same_frame_def)

lemma keeps_comp: "keeps f \<Longrightarrow> keeps g \<Longrightarrow> keeps (\<lambda>c. f (g c))"
  by (simp add: keeps_def)

lemma keeps_sendFrame: "conn_wf c \<Longrightarrow> conn_wf (snd (sendFrame v sched now b rid c))"
  "cn_channels (snd (sendFrame v sched now b rid c)) = cn_channels c"
  by (simp_all add: sendFrame_wf) (auto simp: sendFrame_def enqueue_channels split: sum.splits)

lemma keeps_send_to: "keeps (send_to env b rid r)"
  using keeps_fold [of writeLoop] keeps_writeLoop
  by (simp add: keeps_def send_to_def Let_def keeps_sendFrame)

lemma keeps_enqueue_to: "keeps (enqueue_to env body kind r)"
  using keeps_fold [of writeLoop] keeps_writeLoop
  by (simp add: keeps_def enqueue_to_def Let_def enqueue_wf enqueue_channels)

lemma keeps_requestClose: "keeps (requestClose reason status text)"
  by (simp add: keeps_def requestClose_wf) (simp add: requestClose_def)

lemma hub_wf_heap:
  assumes wf: "hub_wf h"
    and keep: "\<And>q. (conn_wf (hub_heap h q) \<longrightarrow> conn_wf (heap q)) \<and> cn_channels (heap q) = cn_channels (hub_heap h q)"
  shows "hub_wf (h\<lparr> hub_heap := heap \<rparr>)"
  using wf keep
  by (auto simp: hub_wf_def routed_to_def sub_total_def routes_def conn_ok_def hub_cap_def)

lemma on_conn_wf: "keeps f \<Longrightarrow> hub_wf h \<Longrightarrow> hub_wf (on_conn r f h)"
  unfolding on_conn_def by (erule hub_wf_heap) (simp add: keeps_def)

lemma on_conn_simps [simp]:
  "hub_conns (on_conn r f h) = hub_conns h" "hub_store (on_conn r f h) = hub_store h"
  "hub_opts (on_conn r f h) = hub_opts h" "hub_cap (on_conn r f h) = hub_cap h"
  "hub_closed (on_conn r f h) = hub_closed h" "hub_subs (on_conn r f h) = hub_subs h"
  "hub_subCount (on_conn r f h) = hub_subCount h"
  "hub_heap (on_conn r f h) q = (if q = r then f (hub_heap h r) else hub_heap h q)"
  by (simp_all add: on_conn_def hub_cap_def)

lemma fanout_channel_wf: "hub_wf h \<Longrightarrow> hub_wf (fanout_channel env build ch h)"
  using keeps_enqueue_to
  by (auto simp: fanout_channel_def Let_def keeps_def intro!: hub_wf_heap split: sum.splits)

lemma fanoutLocked_wf: "hub_wf h \<Longrightarrow> hub_wf (fanoutLocked env chs build h)"
  unfolding fanoutLocked_def
  by (induction chs arbitrary: h) (simp_all add: fanout_channel_wf)

lemma publishLocked_wf: "hub_wf h \<Longrightarrow> hub_wf (publishLocked env res h)"
  by (auto simp: publishLocked_def fanoutLocked_wf split: ApplyOutcome.splits option.splits)

lemma HandleMessage_wf:
  assumes "hub_wf h"
  shows "hub_wf (HandleMessage decode parse_time env d h)"
proof -
  have "slate_wf (fst (Fold decode parse_time d (hub_store h)))"
    using assms step_wf [OF Fold_step] by (auto simp: hub_wf_def)
  then have "hub_wf (h\<lparr> hub_store := fst (Fold decode parse_time d (hub_store h)) \<rparr>)"
    using assms by (auto simp: hub_wf_def routes_def routed_to_def sub_total_def hub_cap_def)
  then show ?thesis
    by (auto simp: HandleMessage_def Let_def publishLocked_wf split: prod.splits option.splits)
qed

section \<open>Steps that change the routing table\<close>

lemma sub_total_upd:
  assumes "finite (hub_conns h)" "r \<in> hub_conns h"
  shows "(\<Sum>q \<in> hub_conns h. int (length (cn_channels (if q = r then c' else hub_heap h q)))) =
    sub_total h - int (length (cn_channels (hub_heap h r))) + int (length (cn_channels c'))"
proof -
  have "(\<Sum>q \<in> hub_conns h - {r}. int (length (cn_channels (if q = r then c' else hub_heap h q)))) =
      (\<Sum>q \<in> hub_conns h - {r}. int (length (cn_channels (hub_heap h q))))"
    by (intro sum.cong) auto
  then show ?thesis
    using assms by (simp add: sub_total_def sum.remove [of "hub_conns h" r])
qed

lemma routes_add:
  "routes (addRouteLocked ch r h) ch' = (if ch' = ch then insert r (routes h ch) else routes h ch')"
  by (auto simp: addRouteLocked_def routes_def Let_def split: option.splits)

lemma routes_remove:
  "routes (removeRouteLocked ch r h) ch' = (if ch' = ch then routes h ch - {r} else routes h ch')"
  by (auto simp: removeRouteLocked_def routes_def Let_def split: option.splits)

lemma route_frame [simp]:
  "hub_conns (addRouteLocked ch r h) = hub_conns h" "hub_conns (removeRouteLocked ch r h) = hub_conns h"
  "hub_heap (addRouteLocked ch r h) = hub_heap h" "hub_heap (removeRouteLocked ch r h) = hub_heap h"
  "hub_store (addRouteLocked ch r h) = hub_store h" "hub_store (removeRouteLocked ch r h) = hub_store h"
  "hub_opts (addRouteLocked ch r h) = hub_opts h" "hub_opts (removeRouteLocked ch r h) = hub_opts h"
  "hub_closed (addRouteLocked ch r h) = hub_closed h" "hub_closed (removeRouteLocked ch r h) = hub_closed h"
  by (auto simp: addRouteLocked_def removeRouteLocked_def Let_def split: option.splits)

lemma route_nonempty:
  "(\<forall>c. hub_subs h c \<noteq> Some {}) \<Longrightarrow> hub_subs (addRouteLocked ch r h) ch' \<noteq> Some {}"
  "(\<forall>c. hub_subs h c \<noteq> Some {}) \<Longrightarrow> hub_subs (removeRouteLocked ch r h) ch' \<noteq> Some {}"
  by (auto simp: addRouteLocked_def removeRouteLocked_def Let_def split: option.splits)

lemma route_count:
  "hub_subCount (addRouteLocked ch r h) = hub_subCount h + (if r \<in> routes h ch then 0 else 1)"
  "hub_subCount (removeRouteLocked ch r h) = hub_subCount h - (if r \<in> routes h ch then 1 else 0)"
  by (auto simp: addRouteLocked_def removeRouteLocked_def routes_def Let_def split: option.splits)

text \<open>Linking a connection to a channel, and unlinking it: the channel set and the table together.\<close>

definition link :: "Channel \<Rightarrow> conn_ref \<Rightarrow> Hub \<Rightarrow> Hub" where
  "link ch r h = addRouteLocked ch r (on_conn r (\<lambda>c. c\<lparr> cn_channels := cn_channels c @ [ch] \<rparr>) h)"

definition unlink :: "Channel \<Rightarrow> conn_ref \<Rightarrow> Hub \<Rightarrow> Hub" where
  "unlink ch r h = removeRouteLocked ch r (on_conn r (\<lambda>c. c\<lparr> cn_channels := removeAll ch (cn_channels c) \<rparr>) h)"

lemma link_wf:
  assumes wf: "hub_wf h" and r: "r \<in> hub_conns h" and new: "ch \<notin> set (cn_channels (hub_heap h r))"
    and ok: "channel_ok ch" and room: "length (cn_channels (hub_heap h r)) < hub_cap h"
  shows "hub_wf (link ch r h)"
proof -
  let ?c = "(hub_heap h r)\<lparr> cn_channels := cn_channels (hub_heap h r) @ [ch] \<rparr>"
  let ?g = "on_conn r (\<lambda>c. c\<lparr> cn_channels := cn_channels c @ [ch] \<rparr>) h"
  have heap: "hub_heap ?g = (\<lambda>q. if q = r then ?c else hub_heap h q)" by auto
  have nr: "r \<notin> routes ?g ch" using wf new by (simp add: routes_def) (auto simp: hub_wf_def routed_to_def routes_def)
  have "sub_total (link ch r h) = sub_total h + 1"
    using sub_total_upd [OF _ r, of ?c] wf by (simp add: link_def sub_total_def heap hub_wf_def)
  moreover have "routes (link ch r h) c = routed_to (link ch r h) c" for c
    using wf r unfolding link_def routes_add by (auto simp: routed_to_def routes_def hub_wf_def)
  moreover have "conn_ok (hub_cap h) ?c"
    using hub_wf_conn [OF wf r] new ok room conn_wf_cong [of "hub_heap h r" ?c] by (simp add: conn_ok_def)
  ultimately show ?thesis
    using wf nr unfolding hub_wf_def
    by (auto simp: link_def route_nonempty route_count hub_cap_def)
qed

lemma unlink_wf:
  assumes wf: "hub_wf h" and r: "r \<in> hub_conns h" and held: "ch \<in> set (cn_channels (hub_heap h r))"
  shows "hub_wf (unlink ch r h)"
proof -
  let ?c = "(hub_heap h r)\<lparr> cn_channels := removeAll ch (cn_channels (hub_heap h r)) \<rparr>"
  let ?g = "on_conn r (\<lambda>c. c\<lparr> cn_channels := removeAll ch (cn_channels c) \<rparr>) h"
  have heap: "hub_heap ?g = (\<lambda>q. if q = r then ?c else hub_heap h q)" by auto
  have nr: "r \<in> routes ?g ch" using wf held r by (simp add: routes_def) (auto simp: hub_wf_def routed_to_def routes_def)
  have ok: "conn_ok (hub_cap h) (hub_heap h r)" by (rule hub_wf_conn [OF wf r])
  have "Suc (length (removeAll ch (cn_channels (hub_heap h r)))) = length (cn_channels (hub_heap h r))"
    using ok held by (simp add: conn_ok_def distinct_remove1_removeAll [symmetric] length_remove1)
      (metis Suc_pred length_pos_if_in_set)
  then have len: "int (length (cn_channels ?c)) = int (length (cn_channels (hub_heap h r))) - 1" by simp
  then have "sub_total (unlink ch r h) = sub_total h - 1"
    using sub_total_upd [OF _ r, of ?c] wf by (simp add: unlink_def sub_total_def heap hub_wf_def)
  moreover have "routes (unlink ch r h) c = routed_to (unlink ch r h) c" for c
    using wf r unfolding unlink_def routes_remove by (auto simp: routed_to_def routes_def hub_wf_def)
  moreover have "conn_ok (hub_cap h) ?c"
    using ok len conn_wf_cong [of "hub_heap h r" ?c] by (auto simp: conn_ok_def distinct_removeAll)
  ultimately show ?thesis
    using wf nr unfolding hub_wf_def
    by (auto simp: unlink_def route_nonempty route_count hub_cap_def)
qed

lemma attach_one_eq:
  "attach_one env snaps rid r ch h =
    (if ch \<in> set (cn_channels (hub_heap h r)) then h
     else on_conn r (send_to env (NewSnapshot ch (marketPayloads (snapshot_of snaps ch))) rid r) (link ch r h))"
proof -
  have "on_conn r (\<lambda>_. (hub_heap h r)\<lparr> cn_channels := cn_channels (hub_heap h r) @ [ch] \<rparr>) h =
      on_conn r (\<lambda>c. c\<lparr> cn_channels := cn_channels c @ [ch] \<rparr>) h"
    by (simp add: on_conn_def)
  then show ?thesis by (simp add: attach_one_def addLocked_def link_def)
qed

lemma link_simps [simp]:
  "hub_conns (link ch r h) = hub_conns h" "hub_store (link ch r h) = hub_store h"
  "hub_opts (link ch r h) = hub_opts h" "hub_closed (link ch r h) = hub_closed h" "hub_cap (link ch r h) = hub_cap h"
  "hub_heap (link ch r h) q = (if q = r then (hub_heap h r)\<lparr> cn_channels := cn_channels (hub_heap h r) @ [ch] \<rparr>
     else hub_heap h q)"
  by (simp_all add: link_def hub_cap_def)

lemma unlink_simps [simp]:
  "hub_conns (unlink ch r h) = hub_conns h" "hub_store (unlink ch r h) = hub_store h"
  "hub_opts (unlink ch r h) = hub_opts h" "hub_closed (unlink ch r h) = hub_closed h" "hub_cap (unlink ch r h) = hub_cap h"
  "hub_heap (unlink ch r h) q = (if q = r then (hub_heap h r)\<lparr> cn_channels := removeAll ch (cn_channels (hub_heap h r)) \<rparr>
     else hub_heap h q)"
  by (simp_all add: unlink_def hub_cap_def)

text \<open>What an operation on one connection leaves alone.\<close>

definition only_conn :: "conn_ref \<Rightarrow> Hub \<Rightarrow> Hub \<Rightarrow> bool" where
  "only_conn r h h' =
     (hub_conns h' = hub_conns h \<and> hub_store h' = hub_store h \<and> hub_opts h' = hub_opts h \<and>
      hub_closed h' = hub_closed h \<and> (\<forall>q. q \<noteq> r \<longrightarrow> hub_heap h' q = hub_heap h q))"

lemma only_conn_refl [simp]: "only_conn r h h"
  by (simp add: only_conn_def)

lemma only_conn_trans: "only_conn r a b \<Longrightarrow> only_conn r b c \<Longrightarrow> only_conn r a c"
  by (simp add: only_conn_def)

lemma only_on_conn [simp]: "only_conn r h (on_conn r f h)"
  by (simp add: only_conn_def)

lemma only_link: "only_conn r h (link ch r h)" "only_conn r h (unlink ch r h)"
  by (simp_all add: only_conn_def)

lemma only_cap: "only_conn r h h' \<Longrightarrow> hub_cap h' = hub_cap h"
  by (simp add: only_conn_def hub_cap_def)

lemma channels_send_to [simp]: "cn_channels (send_to env b rid r c) = cn_channels c"
  using keeps_send_to by (simp add: keeps_def)

lemma attach_one_wf:
  assumes "hub_wf h" "r \<in> hub_conns h" "channel_ok ch"
    and "ch \<notin> set (cn_channels (hub_heap h r)) \<Longrightarrow> length (cn_channels (hub_heap h r)) < hub_cap h"
  shows "hub_wf (attach_one env snaps rid r ch h)"
  using assms by (auto simp: attach_one_eq intro!: on_conn_wf [OF keeps_send_to] link_wf)

lemma attach_one_frame:
  "only_conn r h (attach_one env snaps rid r ch h)"
  "set (cn_channels (hub_heap (attach_one env snaps rid r ch h) r)) = insert ch (set (cn_channels (hub_heap h r)))"
  using only_conn_trans [OF only_link(1) only_on_conn] by (auto simp: attach_one_eq)

lemma attach_all_frame:
  "only_conn r h (fold (attach_one env snaps rid r) chs h) \<and>
   set (cn_channels (hub_heap (fold (attach_one env snaps rid r) chs h) r)) =
     set chs \<union> set (cn_channels (hub_heap h r))"
proof (induction chs arbitrary: h)
  case (Cons ch chs)
  let ?h = "attach_one env snaps rid r ch h"
  have "only_conn r h ?h" "set (cn_channels (hub_heap ?h r)) = insert ch (set (cn_channels (hub_heap h r)))"
    by (rule attach_one_frame)+
  then show ?case using Cons.IH [of ?h] only_conn_trans by auto
qed simp

lemma attach_all_wf:
  assumes "hub_wf h" "r \<in> hub_conns h" "\<forall>ch \<in> set chs. channel_ok ch"
    and "card (set chs \<union> set (cn_channels (hub_heap h r))) \<le> hub_cap h"
  shows "hub_wf (fold (attach_one env snaps rid r) chs h)"
  using assms
proof (induction chs arbitrary: h)
  case (Cons ch chs)
  let ?h = "attach_one env snaps rid r ch h"
  let ?held = "set (cn_channels (hub_heap h r))"
  have f: "only_conn r h ?h" "set (cn_channels (hub_heap ?h r)) = insert ch ?held"
    by (rule attach_one_frame)+
  have "length (cn_channels (hub_heap h r)) < hub_cap h" if new: "ch \<notin> ?held"
  proof -
    have "length (cn_channels (hub_heap h r)) = card ?held"
      using hub_wf_conn [OF Cons.prems(1,2)] by (simp add: conn_ok_def distinct_card)
    also have "card ?held < card (set (ch # chs) \<union> ?held)"
      using new by (intro psubset_card_mono) auto
    finally show ?thesis using Cons.prems(4) by simp
  qed
  then have "hub_wf ?h" using Cons.prems by (intro attach_one_wf) auto
  moreover have "r \<in> hub_conns ?h" "hub_cap ?h = hub_cap h"
    using f(1) Cons.prems(2) only_cap by (auto simp: only_conn_def)
  ultimately show ?case
    using Cons.IH [of ?h] Cons.prems(3,4) f(2) by simp
qed simp

section \<open>The critical sections\<close>

lemma restore_names_ok:
  "restore_names cap names out = out' \<Longrightarrow> length out < cap \<Longrightarrow> \<forall>ch \<in> set out. channel_ok ch \<Longrightarrow>
    length out' \<le> cap \<and> (\<forall>ch \<in> set out'. channel_ok ch)"
proof (induction names arbitrary: out)
  case (Cons name names)
  show ?case
  proof (cases "ParseChannel name")
    case (Inl e)
    then show ?thesis using Cons by simp
  next
    case (Inr ch)
    then have "channel_ok ch" by (simp add: ParseChannel_iff)
    then show ?thesis using Cons.IH [of "out @ [ch]"] Cons.prems Inr by (auto simp: Let_def split: if_splits)
  qed
qed auto

lemma restore_ok:
  assumes "1 \<le> hub_cap h"
  shows "length (restore names r h) \<le> hub_cap h \<and> (\<forall>ch \<in> set (restore names r h). channel_ok ch)"
  using restore_names_ok [OF refl, of "[]" "hub_cap h" names] assms
  by (auto simp: restore_def sortChannels_def)

lemma Register_wf:
  assumes wf: "hub_wf h" and r: "r \<notin> hub_conns h" and cap: "1 \<le> hub_cap h"
    and c: "conn_wf (hub_heap h r)" "cn_channels (hub_heap h r) = []"
  shows "hub_wf (snd (Register env names r h))"
proof (cases "hub_closed h")
  case True
  then show ?thesis using wf by (simp add: Register_def)
next
  case False
  let ?h = "h\<lparr> hub_conns := insert r (hub_conns h) \<rparr>"
  have "hub_wf ?h"
    using wf r c by (auto simp: hub_wf_def routes_def routed_to_def sub_total_def conn_ok_def hub_cap_def)
  then have "hub_wf (on_conn r (send_to env b rid r) ?h)" for b rid
    by (rule on_conn_wf [OF keeps_send_to])
  moreover have "card (set (restore names r h) \<union> set (cn_channels (hub_heap h r))) \<le> hub_cap h"
    using restore_ok [OF cap, of names r] c card_length [of "restore names r h"] by simp
  ultimately show ?thesis
    using False restore_ok [OF cap] attach_all_wf
    by (simp add: Register_def Let_def hub_cap_def c)
qed

lemma drop_conn_wf:
  assumes "hub_wf h" "r \<in> hub_conns h" "cn_channels (hub_heap h r) = []"
  shows "hub_wf (h\<lparr> hub_conns := hub_conns h - {r} \<rparr>)"
  using assms
  by (auto simp: hub_wf_def routes_def routed_to_def sub_total_def hub_cap_def sum.remove [of "hub_conns h" r])

definition unlink_step :: "conn_ref \<Rightarrow> Channel \<Rightarrow> Hub \<Rightarrow> Hub" where
  "unlink_step r ch h = on_conn r (\<lambda>c. snd (removeChannel ch c)) (removeRouteLocked ch r h)"

lemma unlink_step_eq: "ch \<in> set (cn_channels (hub_heap h r)) \<Longrightarrow> unlink_step r ch h = unlink ch r h"
  by (auto simp: unlink_step_def unlink_def removeChannel_def on_conn_def removeRouteLocked_def Let_def
      split: option.splits)

lemma unlink_step_conns:
  "unlink_step r ch (h\<lparr> hub_conns := C \<rparr>) = (unlink_step r ch h)\<lparr> hub_conns := C \<rparr>"
  by (auto simp: unlink_step_def on_conn_def removeRouteLocked_def Let_def split: option.splits)

lemma unlink_all_conns:
  "fold (unlink_step r) chs (h\<lparr> hub_conns := C \<rparr>) = (fold (unlink_step r) chs h)\<lparr> hub_conns := C \<rparr>"
  by (induction chs arbitrary: h) (simp_all add: unlink_step_conns)

lemma unlink_all_wf:
  assumes "hub_wf h" "r \<in> hub_conns h" "distinct chs" "set chs \<subseteq> set (cn_channels (hub_heap h r))"
  shows "hub_wf (fold (unlink_step r) chs h) \<and> only_conn r h (fold (unlink_step r) chs h) \<and>
    set (cn_channels (hub_heap (fold (unlink_step r) chs h) r)) = set (cn_channels (hub_heap h r)) - set chs"
  using assms
proof (induction chs arbitrary: h)
  case (Cons ch chs)
  then have eq: "unlink_step r ch h = unlink ch r h" by (simp add: unlink_step_eq)
  have "hub_wf (unlink ch r h)" using Cons.prems by (intro unlink_wf) auto
  moreover have "set chs \<subseteq> set (cn_channels (hub_heap (unlink ch r h) r))" using Cons.prems by auto
  ultimately show ?case
    using Cons.IH [of "unlink ch r h"] Cons.prems only_conn_trans [OF only_link(2) [of r h ch]]
    unfolding fold_simps eq by (auto simp del: fold_simps)
qed simp

lemma sortChannels_set [simp]: "set (sortChannels chs) = set chs" "distinct (sortChannels chs) = distinct chs"
  by (simp_all add: sortChannels_def)

lemma unregister_wf:
  assumes wf: "hub_wf h"
  shows "hub_wf (unregister r h)"
proof (cases "r \<in> hub_conns h")
  case True
  let ?chs = "channelsLocked (hub_heap h r)"
  have "distinct ?chs" "set ?chs = set (cn_channels (hub_heap h r))"
    using hub_wf_conn [OF wf True] by (simp_all add: channelsLocked_def conn_ok_def)
  with unlink_all_wf [OF wf True, of ?chs]
  have u: "hub_wf (fold (unlink_step r) ?chs h)" "only_conn r h (fold (unlink_step r) ?chs h)"
    "cn_channels (hub_heap (fold (unlink_step r) ?chs h) r) = []" by auto
  have "unregister r h = (fold (unlink_step r) ?chs h)\<lparr> hub_conns := hub_conns h - {r} \<rparr>"
    using True by (simp add: unregister_def unlink_step_def [abs_def] unlink_all_conns [unfolded unlink_step_def [abs_def]])
  then show ?thesis using drop_conn_wf [OF u(1) _ u(3)] u(2) True by (simp add: only_conn_def)
qed (simp add: unregister_def wf)

end
