(* ===== verification/Gateway.thy ===== *)
theory Gateway
  imports HubInvariant
begin

text \<open>
  The gateway as a state machine. A step is one critical section of the hub, one iteration of a
  connection's writer, or one event outside (a record of the bus, a socket that closes, shutdown). A
  connection's reader is between the two critical sections of \<open>subscribe\<close> or \<open>resync\<close> exactly when it
  has an entry in \<open>gw_pending\<close>; everything else may happen in between, except what that reader itself
  would have to do. \<open>gw_log\<close> is the log of the records handled so far.
\<close>

section \<open>The remaining critical sections keep the invariant\<close>

lemma parseChannels_ok: "\<forall>ch \<in> set (fst (parseChannels raw)). channel_ok ch"
  by (induction raw) (auto simp: ParseChannel_iff split: prod.splits sum.splits)

text \<open>What the admission leaves: new distinct channels, at most as many as there is room for.\<close>

lemma admit_ok:
  assumes "admit held room raw i chs accepted rejected = (acc, rej)"
    and "distinct accepted" "set accepted \<inter> set held = {}" "int (length accepted) \<le> max 0 room"
  shows "distinct acc \<and> set acc \<inter> set held = {} \<and> int (length acc) \<le> max 0 room \<and>
    set acc \<subseteq> set accepted \<union> set chs"
  using assms
proof (induction chs arbitrary: i accepted rejected)
  case (Cons ch chs)
  show ?case
  proof (cases "ch \<in> set held \<or> ch \<in> set accepted")
    case True
    then show ?thesis using Cons.IH [OF _ Cons.prems(2-4)] Cons.prems(1) by auto
  next
    case new: False
    show ?thesis
    proof (cases "room \<le> int (length accepted)")
      case True
      then show ?thesis using new Cons.IH [OF _ Cons.prems(2-4)] Cons.prems(1) by auto
    next
      case False
      then show ?thesis
        using new Cons.IH [of "Suc i" "accepted @ [ch]"] Cons.prems by auto
    qed
  qed
qed simp

text \<open>The channels a subscription may go on to attach.\<close>

definition admitted :: "Hub \<Rightarrow> conn_ref \<Rightarrow> Channel list \<Rightarrow> bool" where
  "admitted h r acc =
     (distinct acc \<and> set acc \<inter> set (cn_channels (hub_heap h r)) = {} \<and>
      length acc + length (cn_channels (hub_heap h r)) \<le> hub_cap h \<and> (\<forall>ch \<in> set acc. channel_ok ch))"

lemma subscribe_admitted:
  assumes wf: "hub_wf h" and r: "r \<in> hub_conns h" and adm: "subscribe_admit raw r h = (acc, rej)"
  shows "admitted h r acc"
proof -
  obtain parsed rejected where p: "parseChannels raw = (parsed, rejected)" by fastforce
  have le: "length (cn_channels (hub_heap h r)) \<le> hub_cap h"
    using hub_wf_conn [OF wf r] by (simp add: conn_ok_def)
  show ?thesis
  proof (cases "0 \<le> opt_MaxChannelsPerConnection (hub_opts h)")
    case True
    then have "max 0 (opt_MaxChannelsPerConnection (hub_opts h) - int (countLocked (hub_heap h r))) =
        int (hub_cap h - length (cn_channels (hub_heap h r)))"
      using le by (simp add: hub_cap_def countLocked_def)
    with adm show ?thesis
      using admit_ok [of _ _ raw 0 parsed "[]" rejected acc rej] parseChannels_ok [of raw] le
      by (fastforce simp: subscribe_admit_def p admitted_def Let_def)
  next
    case False
    then have "max 0 (opt_MaxChannelsPerConnection (hub_opts h) - int (countLocked (hub_heap h r))) = 0"
      by simp
    with adm show ?thesis
      using admit_ok [of _ _ raw 0 parsed "[]" rejected acc rej] parseChannels_ok [of raw] le
      by (fastforce simp: subscribe_admit_def p admitted_def Let_def)
  qed
qed

lemma subscribe_attach_wf:
  assumes wf: "hub_wf h" and r: "r \<in> hub_conns h" and adm: "admitted h r acc"
  shows "hub_wf (subscribe_attach env acc rej rid r h)"
proof -
  have "card (set acc \<union> set (cn_channels (hub_heap h r))) \<le> hub_cap h"
    using adm card_Un_le [of "set acc" "set (cn_channels (hub_heap h r))"]
      card_length [of acc] card_length [of "cn_channels (hub_heap h r)"]
    by (simp add: admitted_def)
  then show ?thesis
    using adm r on_conn_wf [OF keeps_send_to wf]
    unfolding subscribe_attach_def Let_def
    by (intro attach_all_wf) (simp_all add: admitted_def)
qed

lemma unsubscribe_loop_wf:
  assumes "hub_wf h" "r \<in> hub_conns h"
  shows "hub_wf (fst (unsubscribe_loop r chs h removed)) \<and> only_conn r h (fst (unsubscribe_loop r chs h removed))"
  using assms
proof (induction chs arbitrary: h removed)
  case (Cons ch chs)
  show ?case
  proof (cases "ch \<in> set (cn_channels (hub_heap h r))")
    case True
    have "on_conn r (\<lambda>_. (hub_heap h r)\<lparr> cn_channels := removeAll ch (cn_channels (hub_heap h r)) \<rparr>) h =
        on_conn r (\<lambda>c. c\<lparr> cn_channels := removeAll ch (cn_channels c) \<rparr>) h"
      by (simp add: on_conn_def)
    then have "unsubscribe_loop r (ch # chs) h removed = unsubscribe_loop r chs (unlink ch r h) (removed @ [ch])"
      using True by (simp add: removeChannel_def unlink_def)
    moreover have "hub_wf (unlink ch r h)" "r \<in> hub_conns (unlink ch r h)"
      using unlink_wf [OF Cons.prems True] Cons.prems by simp_all
    ultimately show ?thesis
      using Cons.IH [of "unlink ch r h" "removed @ [ch]"] only_conn_trans [OF only_link(2) [of r h ch]]
      by auto
  next
    case False
    then show ?thesis using Cons.IH [OF Cons.prems] by (simp add: removeChannel_def)
  qed
qed simp

lemma unsubscribe_wf: "hub_wf h \<Longrightarrow> r \<in> hub_conns h \<Longrightarrow> hub_wf (unsubscribe env raw rid r h)"
  using unsubscribe_loop_wf [of h r _ "[]"]
  by (auto simp: unsubscribe_def intro!: on_conn_wf [OF keeps_send_to] split: prod.splits) (metis fst_conv)

lemma on_conn_all_wf: "(\<And>x. keeps (f x)) \<Longrightarrow> hub_wf h \<Longrightarrow> hub_wf (fold (\<lambda>x. on_conn r (f x)) xs h)"
  by (induction xs arbitrary: h) (simp_all add: on_conn_wf)

lemma resync_attach_wf: "hub_wf h \<Longrightarrow> hub_wf (resync_attach env targets rid r h)"
  unfolding resync_attach_def Let_def by (rule on_conn_all_wf [OF keeps_send_to])

lemma resync_select_eq:
  assumes "resync_select env raw rid r h = (targets, h')"
  shows "set targets \<subseteq> set (cn_channels (hub_heap h r))"
    "h' = h \<or> (\<exists>b. h' = on_conn r (send_to env b rid r) h \<and> (\<exists>xs ys. b = NewAck xs ys))"
    "raw = [] \<Longrightarrow> targets = channelsLocked (hub_heap h r) \<and> h' = h"
  using assms
  by (auto simp: resync_select_def channelsLocked_def sortChannels_def Let_def split: if_splits prod.splits)

lemma resync_select_wf: "resync_select env raw rid r h = (targets, h') \<Longrightarrow> hub_wf h \<Longrightarrow> hub_wf h'"
  using resync_select_eq(2) on_conn_wf [OF keeps_send_to] by blast

lemma resync_wf: "hub_wf h \<Longrightarrow> hub_wf (resync env raw rid r h)"
  using resync_select_wf by (auto simp: resync_def resync_attach_wf split: prod.splits)

lemma shutdown_wf:
  assumes wf: "hub_wf h"
  shows "hub_wf (shutdown_begin h)" "hub_wf (shutdown_notify env r h)" "hub_wf (shutdown_close r h)"
  using on_conn_wf [OF keeps_send_to wf] on_conn_wf [OF keeps_requestClose wf] wf
  by (simp_all add: shutdown_begin_def shutdown_notify_def shutdown_close_def hub_wf_def routes_def routed_to_def
      sub_total_def hub_cap_def)

lemma keeps_protocolViolation: "keeps (\<lambda>c. protocolViolation (sched c) now e rid c)"
  using keeps_requestClose by (simp add: keeps_def protocolViolation_def Let_def keeps_sendFrame)

section \<open>The state machine\<close>

text \<open>What a reader holds between its two critical sections: the arguments of the second.\<close>

datatype pending =
    Subscribing "Channel list" "RejectedChannel list" string
  | Resyncing "Channel list" string

record Gateway =
  gw_hub :: Hub
  gw_pending :: "conn_ref \<rightharpoonup> pending"
  gw_log :: "Delivery option list"

definition idle :: "Gateway \<Rightarrow> conn_ref \<Rightarrow> bool" where
  "idle g r = (r \<in> hub_conns (gw_hub g) \<and> gw_pending g r = None)"

abbreviation "with_hub g h \<equiv> g\<lparr> gw_hub := h \<rparr>"

text \<open>
  What \<open>encoding/json\<close> documents: no bytes are not JSON, bytes that decode are JSON, and a raw message that is written again,
  compacted and escaped, decodes to the same document.
\<close>

definition json_law :: "(string \<Rightarrow> string option) \<Rightarrow> (string \<Rightarrow> Computed option) \<Rightarrow> bool" where
  "json_law raw decode =
     (decode [] = None \<and> (\<forall>p c. decode p = Some c \<longrightarrow> raw p \<noteq> None) \<and>
      (\<forall>p q. raw p = Some q \<longrightarrow> decode q = decode p))"

inductive gateway_step ::
  "(string \<Rightarrow> string option) \<Rightarrow> (string \<Rightarrow> Computed option) \<Rightarrow> (string \<Rightarrow> time option) \<Rightarrow> (string \<Rightarrow> (ClientFrame \<times> bool) option) \<Rightarrow>
    Gateway \<Rightarrow> Gateway \<Rightarrow> bool" for raw decode parse_time read_client where
  connect: "r \<notin> hub_conns (gw_hub g) \<Longrightarrow> env_raw env = raw \<Longrightarrow>
    gateway_step raw decode parse_time read_client g
      (with_hub g (snd (Register env names r
        (on_conn r (\<lambda>_. newConn (hub_opts (gw_hub g)) i sid resumable auth) (gw_hub g)))))"
| admit: "idle g r \<Longrightarrow> DecodeClient read_client bytes (opt_MaxFrameBytes (hub_opts (gw_hub g))) = Inr f \<Longrightarrow>
    cf_type f = ClientSubscribe \<Longrightarrow> subscribe_admit (cf_channels f) r (gw_hub g) = (acc, rej) \<Longrightarrow>
    gateway_step raw decode parse_time read_client g
      (g\<lparr> gw_pending := (gw_pending g)(r \<mapsto> Subscribing acc rej (cf_id f)) \<rparr>)"
| attach: "gw_pending g r = Some (Subscribing acc rej rid) \<Longrightarrow> env_raw env = raw \<Longrightarrow>
    gateway_step raw decode parse_time read_client g
      (g\<lparr> gw_pending := (gw_pending g)(r := None), gw_hub := subscribe_attach env acc rej rid r (gw_hub g) \<rparr>)"
| select: "idle g r \<Longrightarrow> DecodeClient read_client bytes (opt_MaxFrameBytes (hub_opts (gw_hub g))) = Inr f \<Longrightarrow>
    cf_type f = ClientResync \<Longrightarrow> env_raw env = raw \<Longrightarrow>
    resync_select env (cf_channels f) (cf_id f) r (gw_hub g) = (targets, h) \<Longrightarrow>
    gateway_step raw decode parse_time read_client g
      (g\<lparr> gw_hub := h, gw_pending := (gw_pending g)(r := if targets = [] then None else Some (Resyncing targets (cf_id f))) \<rparr>)"
| answer: "gw_pending g r = Some (Resyncing targets rid) \<Longrightarrow> env_raw env = raw \<Longrightarrow>
    gateway_step raw decode parse_time read_client g
      (g\<lparr> gw_pending := (gw_pending g)(r := None), gw_hub := resync_attach env targets rid r (gw_hub g) \<rparr>)"
| read: "idle g r \<Longrightarrow>
    (\<And>f. is_text \<Longrightarrow> DecodeClient read_client bytes (opt_MaxFrameBytes (hub_opts (gw_hub g))) = Inr f \<Longrightarrow>
      cf_type f \<notin> {ClientSubscribe, ClientResync}) \<Longrightarrow> env_raw env = raw \<Longrightarrow>
    gateway_step raw decode parse_time read_client g (with_hub g (readLoop read_client env is_text bytes r (gw_hub g)))"
| on_record: "env_raw env = raw \<Longrightarrow> gateway_step raw decode parse_time read_client g
      (g\<lparr> gw_hub := HandleMessage decode parse_time env d (gw_hub g), gw_log := gw_log g @ [d] \<rparr>)"
| writer: "gateway_step raw decode parse_time read_client g (with_hub g (on_conn r (writeLoop ok) (gw_hub g)))"
| hang_up: "gateway_step raw decode parse_time read_client g
      (with_hub g (on_conn r (requestClose reason status why) (gw_hub g)))"
| leave: "idle g r \<Longrightarrow> gateway_step raw decode parse_time read_client g (with_hub g (unregister r (gw_hub g)))"
| shut_down: "gateway_step raw decode parse_time read_client g (with_hub g (shutdown_begin (gw_hub g)))"
| notify: "hub_closed (gw_hub g) \<Longrightarrow> env_raw env = raw \<Longrightarrow>
    gateway_step raw decode parse_time read_client g (with_hub g (shutdown_notify env r (gw_hub g)))"
| close_conn: "hub_closed (gw_hub g) \<Longrightarrow>
    gateway_step raw decode parse_time read_client g (with_hub g (shutdown_close r (gw_hub g)))"

definition gateway_start :: "Options \<Rightarrow> (conn_ref \<Rightarrow> conn) \<Rightarrow> ws_error + Gateway" where
  "gateway_start opts heap = bindE (NewHub opts heap) (\<lambda>h. Inr \<lparr> gw_hub = h, gw_pending = Map.empty, gw_log = [] \<rparr>)"

inductive gateway_reach ::
  "(string \<Rightarrow> string option) \<Rightarrow> (string \<Rightarrow> Computed option) \<Rightarrow> (string \<Rightarrow> time option) \<Rightarrow> (string \<Rightarrow> (ClientFrame \<times> bool) option) \<Rightarrow>
    Gateway \<Rightarrow> bool" for raw decode parse_time read_client where
  start: "gateway_start opts heap = Inr g \<Longrightarrow> gateway_reach raw decode parse_time read_client g"
| step: "gateway_reach raw decode parse_time read_client g \<Longrightarrow> gateway_step raw decode parse_time read_client g g' \<Longrightarrow>
    gateway_reach raw decode parse_time read_client g'"

inductive_cases gateway_stepE: "gateway_step raw decode parse_time read_client g g'"

text \<open>What the first critical section found still holds at the second.\<close>

definition pending_ok :: "Hub \<Rightarrow> conn_ref \<Rightarrow> pending \<Rightarrow> bool" where
  "pending_ok h r p = (case p of
      Subscribing acc rej rid \<Rightarrow> admitted h r acc
    | Resyncing targets rid \<Rightarrow> set targets \<subseteq> set (cn_channels (hub_heap h r)))"

definition gateway_wf :: "Gateway \<Rightarrow> bool" where
  "gateway_wf g =
     (hub_wf (gw_hub g) \<and> Options_Validate (hub_opts (gw_hub g)) = Inr () \<and>
      (\<forall>r p. gw_pending g r = Some p \<longrightarrow> r \<in> hub_conns (gw_hub g) \<and> pending_ok (gw_hub g) r p))"

text \<open>
  A pending subscription survives every step of others: they keep its connection, its channels and
  the options.
\<close>

definition spares :: "Hub \<Rightarrow> Hub \<Rightarrow> conn_ref \<Rightarrow> bool" where
  "spares h h' r =
     ((r \<in> hub_conns h \<longrightarrow> r \<in> hub_conns h') \<and> hub_opts h' = hub_opts h \<and>
      cn_channels (hub_heap h' r) = cn_channels (hub_heap h r))"

lemma pending_spares: "spares h h' r \<Longrightarrow> pending_ok h r p \<Longrightarrow> pending_ok h' r p"
  by (cases p) (simp_all add: pending_ok_def admitted_def spares_def hub_cap_def)

lemma only_spares: "only_conn q h h' \<Longrightarrow> r \<noteq> q \<Longrightarrow> spares h h' r"
  by (auto simp: spares_def only_conn_def)

lemma keeps_spares: "keeps f \<Longrightarrow> spares h (on_conn q f h) r"
  by (simp add: spares_def keeps_def)

lemma gateway_wf_hub:
  assumes "gateway_wf g" "hub_wf h" "hub_opts h = hub_opts (gw_hub g)"
    and "\<And>r. gw_pending g r \<noteq> None \<Longrightarrow> spares (gw_hub g) h r"
  shows "gateway_wf (with_hub g h)"
  using assms pending_spares unfolding gateway_wf_def spares_def by fastforce

text \<open>Steps that keep every connection and every channel set.\<close>

definition calm :: "Hub \<Rightarrow> Hub \<Rightarrow> bool" where
  "calm h h' =
     (hub_conns h' = hub_conns h \<and> hub_opts h' = hub_opts h \<and>
      (\<forall>r. cn_channels (hub_heap h' r) = cn_channels (hub_heap h r)))"

lemma calm_refl [simp]: "calm h h"
  by (simp add: calm_def)

lemma calm_trans: "calm a b \<Longrightarrow> calm b c \<Longrightarrow> calm a c"
  by (simp add: calm_def)

lemma calm_spares: "calm h h' \<Longrightarrow> spares h h' r"
  by (simp add: calm_def spares_def)

lemma fanout_channel_calm: "calm h (fanout_channel env build ch h)"
  using keeps_enqueue_to by (auto simp: fanout_channel_def Let_def calm_def keeps_def split: sum.splits)

lemma fanoutLocked_calm: "calm h (fanoutLocked env chs build h)"
  unfolding fanoutLocked_def
  by (rule fold_related [of calm]) (auto intro: calm_trans fanout_channel_calm)

lemma HandleMessage_calm: "calm h (HandleMessage decode parse_time env d h)"
proof -
  have "calm h (h\<lparr> hub_store := s \<rparr>)" for s by (simp add: calm_def)
  moreover have "calm h' (publishLocked env res h')" for res h'
    by (auto simp: publishLocked_def fanoutLocked_calm split: ApplyOutcome.splits option.splits)
  ultimately show ?thesis
    by (auto simp: HandleMessage_def Let_def intro: calm_trans split: prod.splits option.splits)
qed

lemma on_conn_calm: "keeps f \<Longrightarrow> calm h (on_conn r f h)"
  by (simp add: calm_def keeps_def)

lemma shutdown_calm: "calm h (shutdown_begin h)" "calm h (shutdown_notify env r h)" "calm h (shutdown_close r h)"
  using on_conn_calm [OF keeps_send_to, of h r env] on_conn_calm [OF keeps_requestClose, of h r]
  by (simp_all add: shutdown_begin_def shutdown_notify_def shutdown_close_def) (simp add: calm_def)

lemma attach_all_only: "only_conn r h (fold (attach_one env snaps rid r) chs h)"
  using attach_all_frame by simp

lemma subscribe_attach_only: "only_conn r h (subscribe_attach env acc rej rid r h)"
  unfolding subscribe_attach_def Let_def
  by (rule only_conn_trans [OF only_on_conn attach_all_only])

lemma on_conn_all_only: "only_conn r h (fold (\<lambda>x. on_conn r (f x)) xs h)"
  by (rule fold_related [of "only_conn r"]) (auto intro: only_conn_trans)

lemma unsubscribe_loop_only: "only_conn r h (fst (unsubscribe_loop r chs h removed))"
proof (induction chs arbitrary: h removed)
  case (Cons ch chs)
  have "only_conn r h (removeRouteLocked ch r (on_conn r f h))" for f
    by (simp add: only_conn_def)
  then show ?case
    using Cons.IH only_conn_trans by (fastforce simp: removeChannel_def)
qed simp

lemma unsubscribe_only: "only_conn r h (unsubscribe env raw rid r h)"
proof -
  have "only_conn r h h'" if "unsubscribe_loop r parsed h [] = (h', removed)" for parsed h' removed
    using unsubscribe_loop_only [of r h parsed "[]"] that by simp
  then show ?thesis
    by (auto simp: unsubscribe_def intro: only_conn_trans [OF _ only_on_conn] split: prod.splits)
qed

lemma resync_attach_only: "only_conn r h (resync_attach env targets rid r h)"
  by (simp add: resync_attach_def Let_def on_conn_all_only)

lemma resync_select_only: "resync_select env raw rid r h = (targets, h') \<Longrightarrow> only_conn r h h'"
  using resync_select_eq(2) [of env raw rid r h targets h'] by (auto simp: only_conn_def on_conn_def)

lemma resync_only: "only_conn r h (resync env raw rid r h)"
  using resync_select_only only_conn_trans [OF _ resync_attach_only] by (fastforce simp: resync_def split: prod.splits)

lemma readLoop_only: "only_conn r h (readLoop read_client env is_text data r h)"
  by (auto simp: readLoop_def subscribe_def subscribe_attach_only unsubscribe_only resync_only
      split: sum.splits prod.splits)

lemma readLoop_wf:
  assumes wf: "hub_wf h" and r: "r \<in> hub_conns h"
  shows "hub_wf (readLoop read_client env is_text data r h)"
proof -
  have "hub_wf (subscribe env raw rid r h)" for raw rid
    using subscribe_attach_wf [OF wf r] subscribe_admitted [OF wf r]
    by (auto simp: subscribe_def split: prod.splits)
  then show ?thesis
    using wf r on_conn_wf [OF keeps_protocolViolation wf]
    by (auto simp: readLoop_def unsubscribe_wf resync_wf intro!: on_conn_wf [OF keeps_send_to]
        split: sum.splits)
qed

lemma Register_spares: "q \<noteq> r \<Longrightarrow> spares h (snd (Register env names r h)) q"
proof -
  assume q: "q \<noteq> r"
  let ?h = "h\<lparr> hub_conns := insert r (hub_conns h) \<rparr>"
  have "only_conn r ?h (snd (Register env names r h))" if "\<not> hub_closed h"
    using that by (simp add: Register_def Let_def only_conn_trans [OF only_on_conn attach_all_only])
  then show ?thesis
    using only_spares [OF _ q] by (cases "hub_closed h") (auto simp: spares_def Register_def)
qed

lemma unregister_spares: "q \<noteq> r \<Longrightarrow> spares h (unregister r h) q"
proof -
  assume q: "q \<noteq> r"
  have o: "only_conn r g (unlink_step r ch g)" for ch and g :: Hub
    by (simp add: unlink_step_def only_conn_def)
  have "only_conn r g (fold (unlink_step r) chs g)" for chs and g :: Hub
    by (rule fold_related [of "only_conn r"]) (auto intro: only_conn_trans o)
  from this [of "h\<lparr> hub_conns := hub_conns h - {r} \<rparr>"] show ?thesis
    using q by (auto simp: unregister_def unlink_step_def [abs_def] spares_def only_conn_def)
qed

lemma spares_opts: "spares h h' r \<Longrightarrow> hub_opts h' = hub_opts h"
  by (simp add: spares_def)

lemma cap_pos: "Options_Validate (hub_opts h) = Inr () \<Longrightarrow> 1 \<le> hub_cap h"
  by (auto simp: Options_Validate_def hub_cap_def split: if_splits)

lemma newConn_wf:
  assumes "Options_Validate opts = Inr ()"
  shows "conn_wf (newConn opts i sid resumable auth)"
  using assms by (intro new_wf)
    (auto simp: newConn_def Options_Validate_def Options_Normalise_def default_for_def split: if_splits)

section \<open>Every interleaving keeps the invariant\<close>

lemma gateway_wf_calm: "gateway_wf g \<Longrightarrow> hub_wf h \<Longrightarrow> calm (gw_hub g) h \<Longrightarrow> gateway_wf (with_hub g h)"
  by (erule gateway_wf_hub) (simp_all add: calm_def calm_spares)

lemma gateway_wf_only:
  "gateway_wf g \<Longrightarrow> hub_wf h \<Longrightarrow> only_conn r (gw_hub g) h \<Longrightarrow> gw_pending g r = None \<Longrightarrow>
    gateway_wf (with_hub g h)"
  by (erule gateway_wf_hub) (auto simp: only_conn_def intro!: only_spares [of r])

lemma gateway_step_wf:
  assumes st: "gateway_step raw decode parse_time read_client g g'" and wf: "gateway_wf g"
  shows "gateway_wf g'"
proof -
  have hub: "hub_wf (gw_hub g)" and valid: "Options_Validate (hub_opts (gw_hub g)) = Inr ()"
    using wf by (simp_all add: gateway_wf_def)
  note adm = wf [unfolded gateway_wf_def, THEN conjunct2, THEN conjunct2, rule_format]
  show ?thesis
    using st
  proof (cases rule: gateway_step.cases)
    case (connect r env names i sid resumable auth)
    let ?c = "newConn (hub_opts (gw_hub g)) i sid resumable auth"
    let ?h = "on_conn r (\<lambda>_. ?c) (gw_hub g)"
    have "hub_wf ?h"
      using hub connect(2)
      by (auto simp: hub_wf_def routes_def routed_to_def sub_total_def intro!: sum.cong)
    then have "hub_wf (snd (Register env names r ?h))"
      using connect(2) newConn_wf [OF valid] cap_pos [OF valid]
      by (intro Register_wf) (simp_all add: newConn_def)
    moreover have "spares (gw_hub g) (snd (Register env names r ?h)) q" if "gw_pending g q \<noteq> None" for q
    proof -
      have "q \<noteq> r" using adm that connect(2) by force
      then show ?thesis using Register_spares [of q r ?h env names] by (auto simp: spares_def)
    qed
    moreover have "hub_opts (snd (Register env names r ?h)) = hub_opts (gw_hub g)"
      using spares_opts [OF Register_spares [of "Suc r" r ?h env names]] by simp
    ultimately show ?thesis unfolding connect(1) using gateway_wf_hub [OF wf] by simp
  next
    case (admit r bytes f acc rej)
    have "r \<in> hub_conns (gw_hub g)" using admit(2) by (simp add: idle_def)
    with subscribe_admitted [OF hub this admit(5)] show ?thesis
      unfolding admit(1) using wf by (auto simp: gateway_wf_def pending_ok_def split: if_splits)
  next
    case (attach r acc rej rid env)
    let ?h = "subscribe_attach env acc rej rid r (gw_hub g)"
    have "hub_wf ?h" using adm [OF attach(2)] by (intro subscribe_attach_wf hub) (simp_all add: pending_ok_def)
    then have "gateway_wf (with_hub (g\<lparr> gw_pending := (gw_pending g)(r := None) \<rparr>) ?h)"
      using wf by (intro gateway_wf_only subscribe_attach_only) (auto simp: gateway_wf_def subscribe_attach_only)
    then show ?thesis unfolding attach(1) by simp
  next
    case (select r bytes f env targets h)
    have r: "r \<in> hub_conns (gw_hub g)" using select(2) by (simp add: idle_def)
    have "gateway_wf (with_hub g h)"
      using select(2) by (intro gateway_wf_only [OF wf resync_select_wf [OF select(6) hub] resync_select_only [OF select(6)]])
        (simp add: idle_def)
    moreover have "set targets \<subseteq> set (cn_channels (hub_heap h r))"
      using resync_select_eq(1,2) [OF select(6)] keeps_send_to by (auto simp: keeps_def)
    moreover have "r \<in> hub_conns h" using r resync_select_only [OF select(6)] by (simp add: only_conn_def)
    ultimately show ?thesis
      unfolding select(1) by (auto simp: gateway_wf_def pending_ok_def split: if_splits)
  next
    case (answer r targets rid env)
    let ?h = "resync_attach env targets rid r (gw_hub g)"
    have "gateway_wf (with_hub (g\<lparr> gw_pending := (gw_pending g)(r := None) \<rparr>) ?h)"
      using wf resync_attach_wf [OF hub]
      by (intro gateway_wf_only resync_attach_only) (auto simp: gateway_wf_def resync_attach_only)
    then show ?thesis unfolding answer(1) by simp
  next
    case (read r bytes env)
    then show ?thesis
      using readLoop_wf [OF hub] by (auto simp: idle_def intro!: gateway_wf_only [OF wf] readLoop_only)
  next
    case (on_record env d)
    have "gateway_wf (with_hub g (HandleMessage decode parse_time env d (gw_hub g)))"
      by (intro gateway_wf_calm [OF wf] HandleMessage_wf HandleMessage_calm hub)
    then show ?thesis unfolding on_record(1) by (simp add: gateway_wf_def)
  next
    case (writer r ok)
    then show ?thesis by (auto intro!: gateway_wf_calm [OF wf] on_conn_wf on_conn_calm keeps_writeLoop hub)
  next
    case (hang_up r reason status why)
    then show ?thesis by (auto intro!: gateway_wf_calm [OF wf] on_conn_wf on_conn_calm keeps_requestClose hub)
  next
    case (leave r)
    have "spares (gw_hub g) (unregister r (gw_hub g)) q" if "gw_pending g q \<noteq> None" for q
      using that leave(2) by (intro unregister_spares) (auto simp: idle_def)
    moreover have "hub_opts (unregister r (gw_hub g)) = hub_opts (gw_hub g)"
      using spares_opts [OF unregister_spares [of "Suc r" r]] by simp
    ultimately show ?thesis unfolding leave(1) using gateway_wf_hub [OF wf unregister_wf [OF hub]] by simp
  next
    case shut_down
    then show ?thesis by (auto intro!: gateway_wf_calm [OF wf] shutdown_wf shutdown_calm hub)
  next
    case (notify env r)
    then show ?thesis by (auto intro!: gateway_wf_calm [OF wf] shutdown_wf shutdown_calm hub)
  next
    case (close_conn r)
    then show ?thesis by (auto intro!: gateway_wf_calm [OF wf] shutdown_wf shutdown_calm hub)
  qed
qed

lemma gateway_start_wf: "gateway_start opts heap = Inr g \<Longrightarrow> gateway_wf g"
  by (auto simp: gateway_start_def NewHub_def bindE_eq_Inr gateway_wf_def hub_wf_def routes_def routed_to_def
      sub_total_def NewStore_wf)

lemma gateway_reach_wf: "gateway_reach raw decode parse_time read_client g \<Longrightarrow> gateway_wf g"
  by (induction rule: gateway_reach.induct) (auto intro: gateway_start_wf gateway_step_wf)

end
