(* ===== verification/GatewayView.thy ===== *)
theory GatewayView
  imports Gateway SlateView
begin

text \<open>
  What the clients of a gateway show. A client keeps one view per channel: it starts from the
  channel's snapshot, applies the channel's deltas, and forgets everything when it is told that
  frames were lost. Every step keeps each live subscriber's view, while it has one, equal to the
  content of its channel on the slate, but for markets that published documents place differently.
\<close>

section \<open>A client's view\<close>

definition add_payload :: "(string \<Rightarrow> Computed option) \<Rightarrow> string \<Rightarrow> view \<Rightarrow> view" where
  "add_payload decode p v = (case decode p of None \<Rightarrow> v | Some c \<Rightarrow> v(cm_market_id c \<mapsto> p))"

definition see_frame ::
  "(string \<Rightarrow> Computed option) \<Rightarrow> Channel \<Rightarrow> FrameBody \<Rightarrow> view option \<Rightarrow> view option" where
  "see_frame decode ch b v = (case b of
      SnapshotFrame c ps _ \<Rightarrow> (if c = ch then Some (fold (add_payload decode) ps Map.empty) else v)
    | DeltaFrame c _ _ \<Rightarrow> (if c = ch then map_option (apply_frame decode b) v else v)
    | ResyncFrame _ _ _ _ \<Rightarrow> None
    | _ \<Rightarrow> v)"

definition watch :: "(string \<Rightarrow> Computed option) \<Rightarrow> Channel \<Rightarrow> conn \<Rightarrow> view option" where
  "watch decode ch c = fold (\<lambda>o1. see_frame decode ch (bd_frame (ob_payload o1))) (conn_trace c) None"

section \<open>One connection\<close>

text \<open>A connection that was sent one frame, or none.\<close>

definition sees :: "(string \<Rightarrow> Computed option) \<Rightarrow> FrameBody option \<Rightarrow> conn \<Rightarrow> conn \<Rightarrow> bool" where
  "sees decode b c c' =
     (cn_count c \<le> cn_count c' \<and> (up c' \<longrightarrow> up c) \<and>
      (up c' \<longrightarrow> Suc (cn_count c') < 2 ^ 64 \<longrightarrow>
        (\<forall>ch. watch decode ch c' = None \<or>
           watch decode ch c' = (case b of None \<Rightarrow> watch decode ch c
             | Some b \<Rightarrow> see_frame decode ch b (watch decode ch c)))))"

lemma sees_refl [simp]: "sees decode None c c"
  by (simp add: sees_def)

lemma see_frame_None: "see_frame decode ch b None = None \<or> see_frame decode ch b None = see_frame decode ch b v"
  by (auto simp: see_frame_def split: FrameBody.splits)

lemma sees_quiet_first:
  assumes ab: "sees decode None a b" and bc: "sees decode f b c"
  shows "sees decode f a c"
  unfolding sees_def
proof (intro conjI allI, goal_cases)
  case 1
  show ?case using ab bc by (simp add: sees_def)
next
  case 2
  show ?case using ab bc by (auto simp: sees_def)
next
  case 3
  show ?case
  proof (intro impI allI)
    fix ch
  assume "up c" "Suc (cn_count c) < 2 ^ 64"
  then have b: "watch decode ch b = None \<or> watch decode ch b = watch decode ch a"
    and c: "watch decode ch c = None \<or> watch decode ch c = (case f of None \<Rightarrow> watch decode ch b
      | Some g \<Rightarrow> see_frame decode ch g (watch decode ch b))"
    using ab bc by (auto simp: sees_def)
  then show "watch decode ch c = None \<or> watch decode ch c = (case f of None \<Rightarrow> watch decode ch a
      | Some g \<Rightarrow> see_frame decode ch g (watch decode ch a))"
    using see_frame_None by (cases f) (auto, metis+)
  qed
qed

lemma writeLoop_sees: "sees decode None c (writeLoop ok c)"
proof (cases "cn_writing c")
  case True
  then show ?thesis
    by (cases ok) (auto simp: sees_def writeLoop_def conn_write_def requestClose_def watch_def conn_trace_def
        split: list.splits)
qed (simp add: writeLoop_def)

lemma enqueue_sees:
  assumes c: "conn_wf c"
  shows "sees decode (Some (bd_frame body)) c (snd (enqueue sched now body kind c))"
proof (cases "cn_closed c")
  case True
  then show ?thesis by (simp add: enqueue_def sees_def)
next
  case False
  have pre: "seq_n (cn_seq c) = of_nat (cn_count c)" "1 \<le> cn_capacity c" using c by (simp_all add: conn_wf_def)
  from False pre show ?thesis
  proof (cases rule: enqueue_cases [where sched = sched and now = now and body = body and kind = kind])
    case queued
    then show ?thesis
      using False by (simp add: sees_def watch_def conn_trace_def frame_out_def Body_Frame_def)
  next
    case (overflow g d c1)
    have len: "1 \<le> length (cn_send c)" using overflow(1) pre(2) by simp
    let ?c' = "snd (enqueue sched now body kind c)"
    have "watch decode ch ?c' = None" if n: "Suc (cn_count ?c') < 2 ^ 64" for ch
    proof -
      have "Suc (Suc (cn_count c)) < 2 ^ 64" using n overflow by (auto split: if_splits)
      moreover from this have "numbered c" using c by (simp add: conn_wf_def)
      ultimately have "\<not> gap_empty g" using numbered_drained(1) [OF _ len _ overflow(2,3)] by blast
      then show ?thesis
        using overflow by (simp add: watch_def conn_trace_def frame_out_def Body_Frame_def resync_body_def
            frame_makers see_frame_def)
    qed
    then show ?thesis using overflow enqueue_up [of sched now body kind c] by (simp add: sees_def)
  qed
qed

lemma sees_writes: "sees decode None c (fold writeLoop oks c)"
  by (rule fold_related [of "sees decode None"]) (auto intro: sees_quiet_first writeLoop_sees)

lemma conn_wf_writes: "conn_wf c \<Longrightarrow> conn_wf (fold writeLoop oks c)"
  using keeps_fold [of writeLoop] keeps_writeLoop by (simp add: keeps_def)

lemma enqueue_to_sees: "conn_wf c \<Longrightarrow> sees decode (Some (bd_frame body)) c (enqueue_to env body kind r c)"
  unfolding enqueue_to_def Let_def
  by (rule sees_quiet_first [OF sees_writes enqueue_sees [OF conn_wf_writes]])

lemma send_to_sees:
  assumes "conn_wf c" "marshals (env_raw env) b"
  shows "sees decode (Some (marshalled (env_raw env) b)) c (send_to env b rid r c)"
proof -
  let ?body = "\<lparr> bd_type = Kind b, bd_ts = env_now env, bd_id = rid, bd_frame = marshalled (env_raw env) b \<rparr>"
  have "send_to env b rid r c = enqueue_to env ?body (Kind b) r c"
    using assms(2) by (simp add: send_to_def enqueue_to_def sendFrame_def Let_def Render_def time_defs)
  then show ?thesis using enqueue_to_sees [OF assms(1), of decode ?body] by simp
qed

lemma sees_irrelevant:
  "sees decode (Some b) c c' \<Longrightarrow> (\<And>ch v. see_frame decode ch b v = v) \<Longrightarrow> sees decode None c c'"
  by (simp add: sees_def)

lemma requestClose_sees: "sees decode None c (requestClose reason status why c)"
  by (auto simp: sees_def requestClose_def watch_def conn_trace_def)

lemma watch_channels [simp]: "watch decode ch (c\<lparr> cn_channels := chs \<rparr>) = watch decode ch c"
  by (simp add: watch_def conn_trace_def)

lemma sees_cong: "sees decode f c c' \<Longrightarrow> sees decode f c (c'\<lparr> cn_channels := chs \<rparr>)"
  "sees decode f c c' \<Longrightarrow> sees decode f (c\<lparr> cn_channels := chs \<rparr>) c'"
  by (cases f; simp add: sees_def)+

section \<open>The invariant\<close>

text \<open>
  The data of the records handled, the markets that two of their documents place at different events
  or leagues, a channel's content as it is written on the wire, and how a view agrees with it: exactly,
  except that a market which was moved may still be shown where it was.
\<close>

definition log_data :: "Delivery option list \<Rightarrow> string set" where
  "log_data recs = {p. \<exists>d. Some d \<in> set recs \<and> dlv_data d = p}"

definition moved :: "(string \<Rightarrow> Computed option) \<Rightarrow> Delivery option list \<Rightarrow> string set" where
  "moved decode recs = {i. \<exists>p \<in> log_data recs. \<exists>q \<in> log_data recs. \<exists>c d. decode p = Some c \<and> decode q = Some d \<and>
     cm_market_id c = i \<and> cm_market_id d = i \<and>
     (cm_event_id c \<noteq> cm_event_id d \<or> cm_league_slug c \<noteq> cm_league_slug d)}"

definition on_wire :: "(string \<Rightarrow> string option) \<Rightarrow> view \<Rightarrow> view" where
  "on_wire raw v = (\<lambda>i. map_option (rewritten raw) (v i))"

definition agrees :: "(string \<Rightarrow> string option) \<Rightarrow> string set \<Rightarrow> Store \<Rightarrow> Channel \<Rightarrow> view \<Rightarrow> bool" where
  "agrees raw M s ch v = ((\<forall>i. i \<notin> M \<longrightarrow> v i = on_wire raw (board s ch) i) \<and> on_wire raw (board s ch) \<subseteq>\<^sub>m v)"

definition live_view ::
  "(string \<Rightarrow> string option) \<Rightarrow> string set \<Rightarrow> (string \<Rightarrow> Computed option) \<Rightarrow> Store \<Rightarrow> Channel \<Rightarrow> conn \<Rightarrow> bool" where
  "live_view raw M decode s ch c =
     (up c \<longrightarrow> Suc (cn_count c) < 2 ^ 64 \<longrightarrow>
        watch decode ch c = None \<or> (\<exists>v. watch decode ch c = Some v \<and> agrees raw M s ch v))"

definition live_conn ::
  "(string \<Rightarrow> string option) \<Rightarrow> string set \<Rightarrow> (string \<Rightarrow> Computed option) \<Rightarrow> Store \<Rightarrow> conn \<Rightarrow> bool" where
  "live_conn raw M decode s c = (\<forall>ch \<in> set (cn_channels c). live_view raw M decode s ch c)"

definition live ::
  "(string \<Rightarrow> string option) \<Rightarrow> string set \<Rightarrow> (string \<Rightarrow> Computed option) \<Rightarrow> Hub \<Rightarrow> bool" where
  "live raw M decode h = (\<forall>r \<in> hub_conns h. live_conn raw M decode (hub_store h) (hub_heap h r))"

definition from_log :: "(string \<Rightarrow> Computed option) \<Rightarrow> Delivery option list \<Rightarrow> Store \<Rightarrow> bool" where
  "from_log decode recs s = (\<forall>i m. st_markets s i = Some m \<longrightarrow>
     decode (sm_Payload m) = Some (sm_Computed m) \<and> sm_Payload m \<in> log_data recs)"

lemma on_wire_upd: "on_wire raw (v(i := x)) = (on_wire raw v)(i := map_option (rewritten raw) x)"
  by (auto simp: on_wire_def)

lemma agrees_exact: "agrees raw M s ch (on_wire raw (board s ch))"
  by (simp add: agrees_def)

lemma live_mono: "live raw M decode h \<Longrightarrow> M \<subseteq> M' \<Longrightarrow> live raw M' decode h"
  unfolding live_def live_conn_def live_view_def agrees_def by blast

lemma log_data_append: "log_data (recs @ recs') = log_data recs \<union> log_data recs'"
  by (auto simp: log_data_def)

lemma moved_mono: "moved decode recs \<subseteq> moved decode (recs @ recs')"
  unfolding moved_def log_data_append by blast

lemma live_view_quiet: "sees decode None c c' \<Longrightarrow> live_view raw M decode s ch c \<Longrightarrow> live_view raw M decode s ch c'"
  unfolding sees_def live_view_def by (metis Suc_le_mono le_less_trans option.simps(4))

lemma live_view_frame:
  assumes "sees decode (Some b) c c'" "live_view raw M decode s ch c"
    and "\<And>v. agrees raw M s ch v \<Longrightarrow> \<exists>v'. see_frame decode ch b (Some v) = Some v' \<and> agrees raw M s' ch v'"
  shows "live_view raw M decode s' ch c'"
  unfolding live_view_def
proof (intro impI)
  assume u: "up c'" "Suc (cn_count c') < 2 ^ 64"
  then have c: "up c" "Suc (cn_count c) < 2 ^ 64" using assms(1) by (auto simp: sees_def)
  have "watch decode ch c' = None \<or> watch decode ch c' = see_frame decode ch b (watch decode ch c)"
    using assms(1) u by (simp add: sees_def)
  moreover have "watch decode ch c = None \<or> (\<exists>v. watch decode ch c = Some v \<and> agrees raw M s ch v)"
    using assms(2) c by (simp add: live_view_def)
  moreover obtain w where w: "see_frame decode ch b (Some (on_wire raw (board s ch))) = Some w" "agrees raw M s' ch w"
    using assms(3) [OF agrees_exact] by blast
  ultimately show "watch decode ch c' = None \<or> (\<exists>v. watch decode ch c' = Some v \<and> agrees raw M s' ch v)"
    using assms(3) see_frame_None [of decode ch b] by (metis (no_types, lifting))
qed

lemma live_view_fresh:
  assumes "sees decode (Some b) c c'" "\<And>v. see_frame decode ch b v = Some (on_wire raw (board s ch))"
  shows "live_view raw M decode s ch c'"
  using assms agrees_exact by (auto simp: sees_def live_view_def)

text \<open>A snapshot frame shows the channel.\<close>

lemma rewritten_decode: "json_law raw decode \<Longrightarrow> decode p = Some c \<Longrightarrow> decode (rewritten raw p) = Some c"
  by (auto simp: json_law_def rewritten_def split: option.splits)

lemma snapshot_payloads:
  assumes "\<forall>m \<in> set ms. decode (sm_Payload m) = Some (sm_Computed m) \<and> cm_market_id (sm_Computed m) = sm_ID m"
    and "distinct (map sm_ID ms)" "json_law raw decode"
  shows "fold (add_payload decode) (map (rewritten raw) (map sm_Payload ms)) v = v ++ on_wire raw (view_of ms)"
  using assms
proof (induction ms arbitrary: v)
  case (Cons m ms)
  then have "v(sm_ID m \<mapsto> rewritten raw (sm_Payload m)) ++ on_wire raw (view_of ms) = v ++ on_wire raw (view_of (m # ms))"
    by (auto simp: view_of_def on_wire_def fun_eq_iff map_add_def o_def split: option.splits)
  then show ?case using Cons by (simp add: add_payload_def rewritten_decode)
qed (simp add: view_of_def on_wire_def map_add_def)

lemma snapshot_shows:
  assumes wf: "slate_wf s" and dec: "from_log decode recs s" and law: "json_law raw decode"
  shows "see_frame decode ch (marshalled raw (NewSnapshot ch (marketPayloads (Snapshot s ch)))) v =
    Some (on_wire raw (board s ch))"
proof -
  have held: "\<exists>i. st_markets s i = Some m" if "m \<in> set (Snapshot s ch)" for m
    using that by (auto simp: snapshot_ids [OF wf] routed_def)
  have "\<forall>m \<in> set (Snapshot s ch). decode (sm_Payload m) = Some (sm_Computed m) \<and>
      cm_market_id (sm_Computed m) = sm_ID m"
    using held wf dec by (auto simp: from_log_def slate_wf_def market_held_def) blast+
  moreover have "distinct (map sm_ID (Snapshot s ch))" by (simp add: snapshot_ids [OF wf])
  ultimately have "fold (add_payload decode) (map (rewritten raw) (map sm_Payload (Snapshot s ch))) Map.empty =
      on_wire raw (view_of (Snapshot s ch))"
    using snapshot_payloads [where v = Map.empty] law by simp
  then show ?thesis
    by (simp add: see_frame_def NewSnapshot_def marshalled_def marketPayloads_def snapshot_view [OF wf])
qed

lemma attach_snapshot:
  "ch \<in> set chs \<Longrightarrow> \<not> Channel_IsZero ch \<Longrightarrow> snapshot_of (Attach s chs) ch = Snapshot s ch"
  by (simp add: Attach_def attach_fold snapshot_of_def)

lemma live_conn_quiet:
  "live_conn raw M decode s c \<Longrightarrow> sees decode None c c' \<Longrightarrow> set (cn_channels c') \<subseteq> set (cn_channels c) \<Longrightarrow>
    live_conn raw M decode s c'"
  using live_view_quiet by (auto simp: live_conn_def)

lemma plain_frames [simp]:
  "see_frame decode ch (NewHello a b d e f g) v = v" "see_frame decode ch (NewAck xs ys) v = v"
  "see_frame decode ch (NewError code msg) v = v" "see_frame decode ch NewPong v = v"
  by (simp_all add: see_frame_def frame_makers)

text \<open>Sending a snapshot of a channel, held before or just added.\<close>

lemma live_conn_snapshot:
  assumes live: "live_conn raw M decode s c" and wf: "slate_wf s" "from_log decode recs s" "conn_wf c"
    and law: "json_law raw decode" "env_raw env = raw"
    and send: "marshals raw (NewSnapshot ch (marketPayloads (Snapshot s ch)))"
    and chs: "set (cn_channels c') \<subseteq> insert ch (set (cn_channels c))"
    and c': "c' = send_to env (NewSnapshot ch (marketPayloads (Snapshot s ch))) rid r (c\<lparr> cn_channels := chs' \<rparr>)"
  shows "live_conn raw M decode s c'"
proof -
  let ?b = "marshalled raw (NewSnapshot ch (marketPayloads (Snapshot s ch)))"
  have "conn_wf (c\<lparr> cn_channels := chs' \<rparr>)" using conn_wf_cong [OF wf(3)] by simp
  from send_to_sees [OF this, of env "NewSnapshot ch (marketPayloads (Snapshot s ch))"] send law(2)
  have sees: "sees decode (Some ?b) c c'"
    unfolding c' using sees_cong(2) [where chs = "cn_channels c"] by (fastforce simp: sees_def)
  have "live_view raw M decode s x c'" if "x \<in> set (cn_channels c')" for x
  proof (cases "x = ch")
    case True
    then show ?thesis using live_view_fresh [OF sees] snapshot_shows [OF wf(1,2) law(1)] by simp
  next
    case False
    then have "live_view raw M decode s x c" using live chs that by (auto simp: live_conn_def)
    then show ?thesis
      by (rule live_view_frame [OF sees]) (use False in \<open>simp add: see_frame_def NewSnapshot_def marshalled_def\<close>)
  qed
  then show ?thesis by (simp add: live_conn_def)
qed

section \<open>One record\<close>

text \<open>What is stored by a record is the record's data.\<close>

lemma storeLocked_payload:
  "ar_Market (snd (storeLocked key data c chs t s)) = Some m \<Longrightarrow> sm_Payload m = data"
  by (auto simp: storeLocked_def Let_def split: option.splits if_splits)

lemma Fold_payload:
  assumes "snd (snd (Fold decode parse_time d s)) = Some res" "ar_Market res = Some m"
  shows "sm_Payload m \<in> log_data [d]"
proof -
  obtain s' x e where a: "applyLocked decode parse_time d s = (s', x, e)"
    by (cases "applyLocked decode parse_time d s") auto
  have x: "x = res" using assms(1) by (simp add: Fold_def a split: if_splits)
  have rm: "ar_Market (snd (removeLocked key t s)) = None" for key t
    by (auto simp: removeLocked_def Let_def split: option.splits)
  show ?thesis
    using a assms(2) rm unfolding x
    by (auto simp: applyLocked_def refuse_def accept_def log_data_def Let_def dest!: storeLocked_payload
        split: option.splits sum.splits if_splits)
qed

lemma fold_from_log:
  assumes "fold_step decode s s' p" "slate_wf s" "from_log decode recs s"
    and "\<And>res m. p = Some res \<Longrightarrow> ar_Market res = Some m \<Longrightarrow> sm_Payload m \<in> log_data [d]"
  shows "from_log decode (recs @ [d]) s'"
  using assms(1)
proof (cases rule: fold_step.cases)
  case quiet
  then show ?thesis using assms(3) by (simp add: from_log_def log_data_append)
next
  case (removed i prev)
  then have "market_held i prev" using assms(2) by (simp add: slate_wf_def)
  then show ?thesis using removed assms(3) by (auto simp: from_log_def drop_eq log_data_append)
next
  case (stored i m)
  then have "sm_Payload m \<in> log_data [d]" using assms(4) by simp
  then show ?thesis using stored assms(2,3) by (auto simp: from_log_def put_markets log_data_append)
qed

text \<open>A market that changes its channels was moved.\<close>

lemma departed_moved:
  assumes "from_log decode recs s" "from_log decode recs s'" "slate_wf s" "slate_wf s'"
    and "st_markets s i = Some m" "st_markets s' i = Some m'"
    and "ch \<in> set (sm_Channels m)" "ch \<notin> set (sm_Channels m')"
  shows "i \<in> moved decode recs"
proof -
  have h: "market_held i m" "market_held i m'" using assms by (auto simp: slate_wf_def)
  then have id: "cm_market_id (sm_Computed m) = i" "cm_market_id (sm_Computed m') = i" by (simp_all add: market_held_def)
  have "cm_event_id (sm_Computed m) \<noteq> cm_event_id (sm_Computed m') \<or>
      cm_league_slug (sm_Computed m) \<noteq> cm_league_slug (sm_Computed m')"
    using assms(7,8) id by (auto simp: held_channels [OF h(1)] held_channels [OF h(2)])
  then show ?thesis using assms(1,2,5,6) id unfolding moved_def from_log_def by blast
qed

text \<open>What a fanout does to one connection: one body per channel it is subscribed to.\<close>

definition fan_body :: "Env \<Rightarrow> FrameBody \<Rightarrow> Body" where
  "fan_body env b = \<lparr> bd_type = Kind b, bd_ts = env_now env, bd_id = [], bd_frame = marshalled (env_raw env) b \<rparr>"

definition fan_conn :: "Env \<Rightarrow> (Channel \<Rightarrow> FrameBody) \<Rightarrow> (Channel \<Rightarrow> bool) \<Rightarrow> conn_ref \<Rightarrow> Channel \<Rightarrow> conn \<Rightarrow> conn" where
  "fan_conn env build on r ch c = (if on ch then enqueue_to env (fan_body env (build ch)) KindDelta r c else c)"

lemma fanout_conn:
  assumes "\<forall>ch \<in> set chs. marshals (env_raw env) (build ch)"
  shows "hub_heap (fanoutLocked env chs build h) r =
    fold (fan_conn env build (\<lambda>ch. r \<in> routes h ch) r) chs (hub_heap h r)"
  using assms
proof (induction chs arbitrary: h)
  case (Cons ch chs)
  let ?g = "fanout_channel env build ch h"
  have routes: "routes ?g c = routes h c" for c
    by (auto simp: fanout_channel_def routes_def Let_def split: sum.splits)
  have "hub_heap ?g r = fan_conn env build (\<lambda>ch. r \<in> routes h ch) r ch (hub_heap h r)"
    using Cons.prems
    by (auto simp: fanout_channel_def fan_conn_def fan_body_def Let_def Render_def time_defs split: sum.splits)
  then show ?case
    using Cons.IH [of ?g] Cons.prems by (simp add: fanoutLocked_def routes)
qed (simp add: fanoutLocked_def)

lemma fan_conn_facts:
  assumes "conn_wf c"
  shows "conn_wf (fan_conn env build on r ch c)" "cn_channels (fan_conn env build on r ch c) = cn_channels c"
    "on ch \<Longrightarrow> sees decode (Some (marshalled (env_raw env) (build ch))) c (fan_conn env build on r ch c)"
  using assms keeps_enqueue_to enqueue_to_sees [of c decode "fan_body env (build ch)"]
  by (auto simp: fan_conn_def fan_body_def keeps_def)

lemma fan_all_off:
  assumes "conn_wf c" "live_view raw M decode s ch0 c"
    and build: "\<And>ch v. ch \<in> set chs \<Longrightarrow> see_frame decode ch0 (marshalled (env_raw env) (build ch)) v = v"
  shows "live_view raw M decode s ch0 (fold (fan_conn env build on r) chs c)"
  using assms
proof (induction chs arbitrary: c)
  case (Cons ch chs)
  let ?c = "fan_conn env build on r ch c"
  have "live_view raw M decode s ch0 ?c"
    using Cons.prems(2,3) live_view_frame [OF fan_conn_facts(3) [OF Cons.prems(1)]]
    by (cases "on ch") (auto simp: fan_conn_def)
  then show ?case
    using Cons.IH [of ?c] Cons.prems fan_conn_facts(1) [OF Cons.prems(1)] by simp
qed simp

lemma fan_all_on:
  assumes "conn_wf c" "distinct chs" "ch0 \<in> set chs" "on ch0" "live_view raw M decode s ch0 c"
    and other: "\<And>ch v. ch \<in> set chs \<Longrightarrow> ch \<noteq> ch0 \<Longrightarrow> see_frame decode ch0 (marshalled (env_raw env) (build ch)) v = v"
    and own: "\<And>v. agrees raw M s ch0 v \<Longrightarrow>
      \<exists>v'. see_frame decode ch0 (marshalled (env_raw env) (build ch0)) (Some v) = Some v' \<and> agrees raw M s' ch0 v'"
  shows "live_view raw M decode s' ch0 (fold (fan_conn env build on r) chs c)"
  using assms(1-6)
proof (induction chs arbitrary: c)
  case (Cons ch chs)
  let ?c = "fan_conn env build on r ch c"
  have wf: "conn_wf ?c" using fan_conn_facts(1) [OF Cons.prems(1)] .
  show ?case
  proof (cases "ch = ch0")
    case True
    have "sees decode (Some (marshalled (env_raw env) (build ch0))) c ?c"
      using fan_conn_facts(3) [OF Cons.prems(1), of on ch] Cons.prems(4) True by simp
    from live_view_frame [OF this Cons.prems(5) own] have "live_view raw M decode s' ch0 ?c" .
    moreover have "ch0 \<notin> set chs" using Cons.prems(2) True by simp
    moreover have "see_frame decode ch0 (marshalled (env_raw env) (build c)) v = v" if "c \<in> set chs" for c v
      using Cons.prems(6) that calculation(2) by auto
    ultimately show ?thesis using fan_all_off [OF wf] by simp
  next
    case False
    have "live_view raw M decode s ch0 ?c"
      using Cons.prems(5,6) False live_view_frame [OF fan_conn_facts(3) [OF Cons.prems(1)]]
      by (cases "on ch") (auto simp: fan_conn_def)
    then show ?thesis using Cons.IH [OF wf] Cons.prems False by auto
  qed
qed simp

text \<open>The bodies of one published result.\<close>

lemma fanout_store: "hub_store (fanoutLocked env chs build h) = hub_store h"
proof -
  have "hub_store (fold (fanout_channel env build) chs k) = hub_store k" for k
    by (rule fold_related [of "\<lambda>a b. hub_store b = hub_store a"])
      (auto simp: fanout_channel_def Let_def split: sum.splits)
  then show ?thesis by (simp add: fanoutLocked_def)
qed

lemma publish_live:
  assumes wf: "hub_wf h" and live: "live raw M decode h"
    and dist: "distinct chs" and zero: "\<forall>ch \<in> set chs. marshals (env_raw env) (build ch)"
    and build: "\<And>ch ch0 v. ch \<noteq> ch0 \<Longrightarrow> see_frame decode ch0 (marshalled (env_raw env) (build ch)) v = v"
    and told: "\<And>ch v. ch \<in> set chs \<Longrightarrow> agrees raw M (hub_store h) ch v \<Longrightarrow>
      \<exists>v'. see_frame decode ch (marshalled (env_raw env) (build ch)) (Some v) = Some v' \<and> agrees raw M s' ch v'"
    and untold: "\<And>ch v. ch \<notin> set chs \<Longrightarrow> agrees raw M (hub_store h) ch v \<Longrightarrow> agrees raw M s' ch v"
  shows "live raw M decode (fanoutLocked env chs build (h\<lparr> hub_store := s' \<rparr>))"
proof -
  let ?h = "h\<lparr> hub_store := s' \<rparr>"
  let ?g = "fanoutLocked env chs build ?h"
  have calm: "calm ?h ?g" by (rule fanoutLocked_calm)
  have "live_view raw M decode s' ch0 (hub_heap ?g r)"
    if r: "r \<in> hub_conns h" and ch0: "ch0 \<in> set (cn_channels (hub_heap h r))" for r ch0
  proof -
    have c: "conn_wf (hub_heap h r)" using hub_wf_conn [OF wf r] by (simp add: conn_ok_def)
    have lv: "live_view raw M decode (hub_store h) ch0 (hub_heap h r)"
      using live r ch0 by (simp add: live_def live_conn_def)
    have on: "r \<in> routes ?h ch0"
      using wf r ch0 by (simp add: hub_wf_def routes_def routed_to_def)
    have heap: "hub_heap ?g r = fold (fan_conn env build (\<lambda>ch. r \<in> routes ?h ch) r) chs (hub_heap h r)"
      using fanout_conn [OF zero, of ?h r] by simp
    show ?thesis
    proof (cases "ch0 \<in> set chs")
      case True
      then show ?thesis
        unfolding heap using on build told by (intro fan_all_on [OF c dist True _ lv]) auto
    next
      case False
      then have "live_view raw M decode s' ch0 (hub_heap h r)"
        using lv untold unfolding live_view_def by blast
      then show ?thesis
        unfolding heap by (rule fan_all_off [OF c]) (metis False build)
    qed
  qed
  then show ?thesis using calm fanout_store [of env chs build ?h] by (simp add: live_def live_conn_def calm_def)
qed

lemma other_channel:
  "ch \<noteq> ch0 \<Longrightarrow> see_frame decode ch0 (marshalled raw (NewDelta ch p)) w = w"
  "ch \<noteq> ch0 \<Longrightarrow> see_frame decode ch0 (marshalled raw (NewRemoval ch i)) w = w"
  by (simp_all add: see_frame_def NewDelta_def NewRemoval_def marshalled_def)

lemma held_nonzero:
  assumes "market_held i m" "ch \<in> set (sm_Channels m)"
  shows "\<not> Channel_IsZero ch"
proof -
  have "ChannelsFor (sm_Computed m) = Inr (sm_Channels m)" using assms(1) by (simp add: market_held_def)
  then have "channel_ok ch" using assms(2) by (auto simp: ChannelsFor_eq channel_ok_def)
  then show ?thesis by (rule channel_ok_nonzero)
qed

text \<open>The two kinds of delta, on a view that agrees with the slate.\<close>

lemma agrees_removed:
  assumes "agrees raw M s ch v" "board s' ch = (board s ch)(i := None)"
  shows "agrees raw M s' ch (v(i := None))"
  using assms by (auto simp: agrees_def on_wire_upd map_le_def)

lemma agrees_stored:
  assumes "agrees raw M s ch v" "board s' ch = (board s ch)(i \<mapsto> p)"
  shows "agrees raw M s' ch (v(i \<mapsto> rewritten raw p))"
  using assms by (auto simp: agrees_def on_wire_upd map_le_def)

lemma agrees_left:
  assumes "agrees raw M s ch v" "board s' ch = (board s ch)(i := None)" "board s ch i = None \<or> i \<in> M"
  shows "agrees raw M s' ch v"
  using assms by (auto simp: agrees_def on_wire_upd map_le_def fun_upd_idem_iff) (auto simp: on_wire_def)

lemma removed_live:
  assumes wf: "hub_wf h" and live: "live raw M decode h" and prev: "st_markets (hub_store h) i = Some prev"
    and s': "s' = drop_market prev (hub_store h)"
  shows "live raw M decode (fanoutLocked env (sm_Channels prev) (\<lambda>ch. NewRemoval ch i) (h\<lparr> hub_store := s' \<rparr>))"
proof -
  have held: "market_held i prev" using prev wf by (simp add: hub_wf_def slate_wf_def)
  then have i: "i \<noteq> []" by (auto simp: market_held_def ChannelsFor_eq validID_ok_iff)
  have board: "board s' ch = (board (hub_store h) ch)(i := None)" for ch
    by (auto simp: board_def s' drop_eq [OF held])
  show ?thesis
  proof (rule publish_live [OF wf live held_distinct [OF held]])
    show "\<forall>ch\<in>set (sm_Channels prev). marshals (env_raw env) (NewRemoval ch i)"
      using held_nonzero [OF held] by (simp add: marshals_def NewRemoval_def)
    show "\<exists>v'. see_frame decode ch (marshalled (env_raw env) (NewRemoval ch i)) (Some v) = Some v' \<and> agrees raw M s' ch v'"
      if "agrees raw M (hub_store h) ch v" for ch v
      using agrees_removed [OF that board] i
      by (simp add: see_frame_def NewRemoval_def marshalled_def apply_frame_def)
    show "agrees raw M s' ch v" if "ch \<notin> set (sm_Channels prev)" "agrees raw M (hub_store h) ch v" for ch v
      using agrees_left [OF that(2) board] that(1) prev by (simp add: board_def)
  qed (simp add: other_channel)
qed

lemma stored_live:
  assumes wf: "hub_wf h" and live: "live raw M decode h" and held: "market_held i m"
    and dec: "decode (sm_Payload m) = Some (sm_Computed m)" and s': "s' = put m (hub_store h)"
    and law: "json_law raw decode" "env_raw env = raw"
    and left: "\<And>prev ch. st_markets (hub_store h) i = Some prev \<Longrightarrow> ch \<in> set (sm_Channels prev) \<Longrightarrow>
      ch \<notin> set (sm_Channels m) \<Longrightarrow> i \<in> M"
  shows "live raw M decode (fanoutLocked env (sm_Channels m) (\<lambda>ch. NewDelta ch (sm_Payload m)) (h\<lparr> hub_store := s' \<rparr>))"
proof -
  have swf: "slate_wf (hub_store h)" using wf by (simp add: hub_wf_def)
  have board: "board s' ch = (board (hub_store h) ch)(i := if ch \<in> set (sm_Channels m) then Some (sm_Payload m) else None)" for ch
    by (auto simp: board_def s' put_markets [OF swf held])
  have id: "cm_market_id (sm_Computed m) = i" using held by (simp add: market_held_def)
  have p: "sm_Payload m \<noteq> []" "raw (sm_Payload m) \<noteq> None" using dec law(1) by (auto simp: json_law_def)
  show ?thesis
  proof (rule publish_live [OF wf live held_distinct [OF held]])
    show "\<forall>ch\<in>set (sm_Channels m). marshals (env_raw env) (NewDelta ch (sm_Payload m))"
      using held_nonzero [OF held] p(2) law(2) by (simp add: marshals_def NewDelta_def)
    show "\<exists>v'. see_frame decode ch (marshalled (env_raw env) (NewDelta ch (sm_Payload m))) (Some v) = Some v' \<and>
        agrees raw M s' ch v'"
      if "ch \<in> set (sm_Channels m)" "agrees raw M (hub_store h) ch v" for ch v
      using agrees_stored [OF that(2), of s' i "sm_Payload m"] that(1) board p(1) rewritten_decode [OF law(1) dec] id law(2)
      by (simp add: see_frame_def NewDelta_def marshalled_def apply_frame_def)
    show "agrees raw M s' ch v" if "ch \<notin> set (sm_Channels m)" "agrees raw M (hub_store h) ch v" for ch v
    proof (rule agrees_left [OF that(2)])
      show "board s' ch = (board (hub_store h) ch)(i := None)" using board [of ch] that(1) by simp
      show "board (hub_store h) ch i = None \<or> i \<in> M"
        using left that(1) by (fastforce simp: board_def split: option.splits)
    qed
  qed (simp add: other_channel)
qed

lemma HandleMessage_live:
  assumes wf: "hub_wf h" and dec: "from_log decode recs (hub_store h)"
    and live: "live raw (moved decode recs) decode h" and law: "json_law raw decode" "env_raw env = raw"
  shows "live raw (moved decode (recs @ [d])) decode (HandleMessage decode parse_time env d h) \<and>
    from_log decode (recs @ [d]) (hub_store (HandleMessage decode parse_time env d h))"
proof -
  let ?s = "hub_store h" and ?M = "moved decode (recs @ [d])"
  obtain s' ret p where f: "Fold decode parse_time d ?s = (s', ret, p)" by (cases "Fold decode parse_time d ?s")
  have swf: "slate_wf ?s" using wf by (simp add: hub_wf_def)
  have step: "fold_step decode ?s s' p" using Fold_step [OF swf, of decode parse_time d] by (simp add: f)
  have wf': "slate_wf s'" using step_wf [OF step swf] .
  have dec': "from_log decode (recs @ [d]) s'"
    by (rule fold_from_log [OF step swf dec]) (use Fold_payload [of decode parse_time d ?s] in \<open>simp add: f\<close>)
  have dec0: "from_log decode (recs @ [d]) ?s" using dec by (auto simp: from_log_def log_data_append)
  have live': "live raw ?M decode h" by (rule live_mono [OF live moved_mono])
  have "hub_store (HandleMessage decode parse_time env d h) = s'"
    by (auto simp: HandleMessage_def f publishLocked_def fanout_store Let_def split: option.splits ApplyOutcome.splits)
  moreover have "live raw ?M decode (HandleMessage decode parse_time env d h)"
    using step
  proof (cases rule: fold_step.cases)
    case quiet
    then show ?thesis using live' by (simp add: HandleMessage_def f)
  next
    case (removed i prev)
    then show ?thesis using removed_live [OF wf live' removed(3,1)] by (simp add: HandleMessage_def f publishLocked_def)
  next
    case (stored i m)
    have "i \<in> ?M"
      if "st_markets ?s i = Some prev" "ch \<in> set (sm_Channels prev)" "ch \<notin> set (sm_Channels m)" for prev ch
      using departed_moved [OF dec0 dec' swf wf' that(1) _ that(2,3)] stored(1) put_markets [OF swf stored(3)] by simp
    then show ?thesis
      using stored_live [OF wf live' stored(3,4,1) law] stored(2) by (simp add: HandleMessage_def f publishLocked_def)
  qed
  ultimately show ?thesis using dec' by simp
qed

section \<open>The other steps\<close>

lemma snapshot_marshals:
  assumes wf: "slate_wf s" and dec: "from_log decode recs s" and law: "json_law raw decode" and ch: "channel_ok ch"
  shows "marshals raw (NewSnapshot ch (marketPayloads (Snapshot s ch)))"
proof -
  have "raw (sm_Payload m) \<noteq> None" if "m \<in> set (Snapshot s ch)" for m
    using that dec law by (fastforce simp: snapshot_ids [OF wf] from_log_def json_law_def)
  then show ?thesis
    using channel_ok_nonzero [OF ch] by (simp add: marshals_def NewSnapshot_def marketPayloads_def list_all_iff)
qed

lemma live_only:
  "live raw M decode h \<Longrightarrow> only_conn r h h' \<Longrightarrow> live_conn raw M decode (hub_store h) (hub_heap h' r) \<Longrightarrow> live raw M decode h'"
  by (fastforce simp: live_def only_conn_def)

text \<open>What holds of one connection of a hub while an operation works on it.\<close>

definition working ::
  "(string \<Rightarrow> string option) \<Rightarrow> Delivery option list \<Rightarrow> (string \<Rightarrow> Computed option) \<Rightarrow> conn_ref \<Rightarrow> Hub \<Rightarrow> bool" where
  "working raw recs decode r h =
     (conn_wf (hub_heap h r) \<and> slate_wf (hub_store h) \<and> from_log decode recs (hub_store h) \<and>
      live raw (moved decode recs) decode h \<and> live_conn raw (moved decode recs) decode (hub_store h) (hub_heap h r))"

lemma working_quiet:
  assumes w: "working raw recs decode r h" and f: "keeps f" "\<And>c. conn_wf c \<Longrightarrow> sees decode None c (f c)"
  shows "working raw recs decode r (on_conn r f h)"
proof -
  have "live_conn raw (moved decode recs) decode (hub_store h) (f (hub_heap h r))"
    using w f by (auto simp: working_def keeps_def intro!: live_conn_quiet [of _ _ decode _ "hub_heap h r"])
  then show ?thesis
    using w f(1) by (auto simp: working_def keeps_def intro: live_only [OF _ only_on_conn])
qed

lemma marshalled_plain [simp]:
  "marshalled raw (NewHello a b d e f g) = NewHello a b d e f g" "marshalled raw (NewAck xs ys) = NewAck xs ys"
  "marshalled raw (NewError code msg) = NewError code msg" "marshalled raw NewPong = NewPong"
  by (simp_all add: marshalled_def frame_makers)

lemma send_plain_sees:
  assumes "conn_wf c" "marshalled (env_raw env) b = b" "\<And>ch v. see_frame decode ch b v = v"
  shows "sees decode None c (send_to env b rid r c)"
proof (cases "marshals (env_raw env) b")
  case True
  then show ?thesis using sees_irrelevant [OF send_to_sees [OF assms(1)]] assms(2,3) by simp
next
  case False
  then have "send_to env b rid r c = fold writeLoop (env_writes env r (cn_count c)) c"
    by (simp add: send_to_def sendFrame_def Render_def Let_def)
  then show ?thesis by (simp add: sees_writes)
qed

lemma working_send_plain:
  "working raw recs decode r h \<Longrightarrow> marshalled (env_raw env) b = b \<Longrightarrow> (\<And>ch v. see_frame decode ch b v = v) \<Longrightarrow>
    working raw recs decode r (on_conn r (send_to env b rid r) h)"
  by (erule working_quiet) (simp_all add: keeps_send_to send_plain_sees)

lemma working_snapshot:
  assumes w: "working raw recs decode r h" and env: "env_raw env = raw" "json_law raw decode" and ch: "channel_ok ch"
    and snap: "snapshot_of snaps ch = Snapshot (hub_store h) ch"
    and chs: "set chs \<subseteq> insert ch (set (cn_channels (hub_heap h r)))"
    and h': "only_conn r h h'" "hub_heap h' r =
      send_to env (NewSnapshot ch (marketPayloads (snapshot_of snaps ch))) rid r ((hub_heap h r)\<lparr> cn_channels := chs \<rparr>)"
  shows "working raw recs decode r h'"
proof -
  have "live_conn raw (moved decode recs) decode (hub_store h) (hub_heap h' r)"
    unfolding h'(2) snap using w chs ch env
    by (intro live_conn_snapshot [OF _ _ _ _ _ _ snapshot_marshals _ refl]) (auto simp: working_def)
  moreover have "conn_wf (hub_heap h' r)"
    using w keeps_send_to conn_wf_cong [of "hub_heap h r" "(hub_heap h r)\<lparr> cn_channels := chs \<rparr>"]
    unfolding h'(2) by (simp add: working_def keeps_def)
  moreover have "hub_store h' = hub_store h" using h'(1) by (simp add: only_conn_def)
  ultimately show ?thesis
    using w live_only [OF _ h'(1)] by (simp add: working_def)
qed

lemma working_attach_all:
  assumes "working raw recs decode r h" "env_raw env = raw" "json_law raw decode" "\<forall>ch \<in> set chs. channel_ok ch"
    and "\<forall>ch \<in> set chs. snapshot_of snaps ch = Snapshot (hub_store h) ch"
  shows "working raw recs decode r (fold (attach_one env snaps rid r) chs h)"
  using assms
proof (induction chs arbitrary: h)
  case (Cons ch chs)
  let ?h = "attach_one env snaps rid r ch h"
  have "working raw recs decode r ?h"
  proof (cases "ch \<in> set (cn_channels (hub_heap h r))")
    case False
    then show ?thesis
      using Cons.prems attach_one_frame(1) [of r h env snaps rid ch]
      by (intro working_snapshot [OF Cons.prems(1,2), of ch snaps "cn_channels (hub_heap h r) @ [ch]" ?h rid])
        (simp_all add: attach_one_eq)
  qed (simp add: attach_one_eq Cons.prems)
  then show ?case
    using Cons.IH [of ?h] Cons.prems attach_one_frame(1) [of r h env snaps rid ch] by (simp add: only_conn_def)
qed simp

lemma working_resync_all:
  assumes "working raw recs decode r h" "env_raw env = raw" "json_law raw decode" "\<forall>ch \<in> set chs. channel_ok ch"
    and "\<forall>ch \<in> set chs. snapshot_of snaps ch = Snapshot (hub_store h) ch"
    and "set chs \<subseteq> set (cn_channels (hub_heap h r))"
  shows "working raw recs decode r (fold (\<lambda>ch. on_conn r (send_to env (NewSnapshot ch (marketPayloads (snapshot_of snaps ch))) rid r)) chs h)"
  using assms
proof (induction chs arbitrary: h)
  case (Cons ch chs)
  let ?h = "on_conn r (send_to env (NewSnapshot ch (marketPayloads (snapshot_of snaps ch))) rid r) h"
  have "working raw recs decode r ?h"
    using Cons.prems
    by (intro working_snapshot [OF Cons.prems(1,2), of ch snaps "cn_channels (hub_heap h r)" ?h rid]) auto
  then show ?case using Cons.IH [of ?h] Cons.prems by simp
qed simp

lemma attach_snapshots:
  "\<forall>ch \<in> set chs. channel_ok ch \<Longrightarrow> \<forall>ch \<in> set chs. snapshot_of (Attach s chs) ch = Snapshot s ch"
  by (simp add: attach_snapshot channel_ok_nonzero)

lemma working_of:
  "hub_wf h \<Longrightarrow> r \<in> hub_conns h \<Longrightarrow> live raw (moved decode recs) decode h \<Longrightarrow> from_log decode recs (hub_store h) \<Longrightarrow> working raw recs decode r h"
  by (simp add: working_def live_def hub_wf_def conn_ok_def)

lemma subscribe_attach_live:
  assumes "hub_wf h" "r \<in> hub_conns h" "live raw (moved decode recs) decode h" "from_log decode recs (hub_store h)"
    and "env_raw env = raw" "json_law raw decode" "\<forall>ch \<in> set acc. channel_ok ch"
  shows "live raw (moved decode recs) decode (subscribe_attach env acc rej rid r h)"
proof -
  have "working raw recs decode r (subscribe_attach env acc rej rid r h)"
    unfolding subscribe_attach_def Let_def
    using attach_snapshots [OF assms(7)] assms
    by (intro working_attach_all working_send_plain working_of) simp_all
  then show ?thesis by (simp add: working_def)
qed

lemma working_resync_attach:
  assumes "working raw recs decode r h" "hub_wf h" "r \<in> hub_conns h" "env_raw env = raw" "json_law raw decode"
    and "set targets \<subseteq> set (cn_channels (hub_heap h r))"
  shows "working raw recs decode r (resync_attach env targets rid r h)"
proof -
  have "\<forall>ch \<in> set targets. channel_ok ch"
    using hub_wf_conn [OF assms(2,3)] assms(6) by (auto simp: conn_ok_def)
  then show ?thesis
    unfolding resync_attach_def Let_def
    using assms attach_snapshots [of targets] by (intro working_resync_all) simp_all
qed

lemma working_resync_select:
  "resync_select env names rid r h = (targets, h') \<Longrightarrow> working raw recs decode r h \<Longrightarrow> working raw recs decode r h'"
  using resync_select_eq(2) working_send_plain by fastforce

lemma resync_live:
  assumes "hub_wf h" "r \<in> hub_conns h" "live raw (moved decode recs) decode h" "from_log decode recs (hub_store h)"
    and "env_raw env = raw" "json_law raw decode"
  shows "live raw (moved decode recs) decode (resync env names rid r h)"
proof -
  obtain targets h' where sel: "resync_select env names rid r h = (targets, h')" by fastforce
  note only = resync_select_only [OF sel]
  have w: "working raw recs decode r h'" by (rule working_resync_select [OF sel working_of]) (use assms in simp_all)
  have "set targets \<subseteq> set (cn_channels (hub_heap h' r))"
    using resync_select_eq(1,2) [OF sel] keeps_send_to by (auto simp: keeps_def)
  from working_resync_attach [OF w resync_select_wf [OF sel assms(1)] _ assms(5,6) this]
  have "working raw recs decode r (resync_attach env targets rid r h')" using only assms(2) by (simp add: only_conn_def)
  then show ?thesis using w by (simp add: resync_def sel working_def)
qed

lemma working_unlink: "working raw recs decode r h \<Longrightarrow> working raw recs decode r (unlink ch r h)"
proof -
  assume w: "working raw recs decode r h"
  let ?c = "(hub_heap h r)\<lparr> cn_channels := removeAll ch (cn_channels (hub_heap h r)) \<rparr>"
  have "sees decode None (hub_heap h r) ?c" by (rule sees_cong(1) [OF sees_refl])
  from live_conn_quiet [OF _ this] have "live_conn raw (moved decode recs) decode (hub_store h) ?c"
    using w by (auto simp: working_def)
  moreover have "conn_wf ?c" using w conn_wf_cong [of "hub_heap h r" ?c] by (simp add: working_def)
  ultimately show ?thesis
    using w live_only [OF _ only_link(2) [of r h ch], of _ _ decode] by (simp add: working_def)
qed

lemma working_unsubscribe_loop:
  "working raw recs decode r h \<Longrightarrow> working raw recs decode r (fst (unsubscribe_loop r chs h removed))"
proof (induction chs arbitrary: h removed)
  case (Cons ch chs)
  have "on_conn r (\<lambda>_. (hub_heap h r)\<lparr> cn_channels := removeAll ch (cn_channels (hub_heap h r)) \<rparr>) h =
      on_conn r (\<lambda>c. c\<lparr> cn_channels := removeAll ch (cn_channels c) \<rparr>) h"
    by (simp add: on_conn_def)
  then show ?case
    using Cons working_unlink by (auto simp: removeChannel_def unlink_def)
qed simp

lemma unsubscribe_live: "working raw recs decode r h \<Longrightarrow> live raw (moved decode recs) decode (unsubscribe env names rid r h)"
proof -
  assume w: "working raw recs decode r h"
  obtain parsed rejected where p: "parseChannels names = (parsed, rejected)" by fastforce
  obtain h' removed where l: "unsubscribe_loop r parsed h [] = (h', removed)" by fastforce
  have "working raw recs decode r h'" using working_unsubscribe_loop [OF w, of parsed "[]"] by (simp add: l)
  then have "working raw recs decode r (on_conn r (send_to env (NewAck removed rejected) rid r) h')"
    by (rule working_send_plain) simp_all
  then show ?thesis by (simp add: unsubscribe_def p l working_def)
qed

lemma violation_sees:
  assumes "conn_wf c"
  shows "sees decode None c (protocolViolation sched now e rid c)"
proof -
  have "sees decode None c (snd (sendFrame v sched now (NewError code msg) rid c))" for v code msg
    using sees_irrelevant [OF enqueue_sees [OF assms]]
    by (auto simp: sendFrame_def Render_def split: sum.splits)
  then show ?thesis
    unfolding protocolViolation_def Let_def by (rule sees_quiet_first [OF _ requestClose_sees])
qed

lemma readLoop_live:
  assumes wf: "hub_wf h" and r: "r \<in> hub_conns h" and l: "live raw (moved decode recs) decode h" "from_log decode recs (hub_store h)"
    and env: "env_raw env = raw" "json_law raw decode"
  shows "live raw (moved decode recs) decode (readLoop read_client env is_text data r h)"
proof -
  have w: "working raw recs decode r h" using assms by (intro working_of)
  have "live raw (moved decode recs) decode (subscribe env names rid r h)" for names rid
    using subscribe_attach_live [OF wf r l env] subscribe_admitted [OF wf r]
    by (auto simp: subscribe_def admitted_def split: prod.splits)
  moreover have "working raw recs decode r (on_conn r (\<lambda>c. protocolViolation (sched c) now e [] c) h)" for sched now e
    by (rule working_quiet [OF w keeps_protocolViolation violation_sees])
  moreover have "working raw recs decode r (on_conn r (send_to env NewPong i r) h)" for i
    by (rule working_send_plain [OF w]) simp_all
  ultimately show ?thesis
    using l unsubscribe_live [OF w] resync_live [OF wf r l env]
    by (auto simp: readLoop_def working_def split: sum.splits)
qed

lemma live_pointwise:
  assumes "live raw M decode h" "hub_wf h" "hub_conns h' = hub_conns h" "hub_store h' = hub_store h"
    and "\<And>r. r \<in> hub_conns h \<Longrightarrow> conn_wf (hub_heap h r) \<Longrightarrow> sees decode None (hub_heap h r) (hub_heap h' r) \<and>
      cn_channels (hub_heap h' r) = cn_channels (hub_heap h r)"
  shows "live raw M decode h'"
  using assms live_conn_quiet [of raw M decode "hub_store h"]
  by (fastforce simp: live_def dest: hub_wf_conn simp: conn_ok_def)

lemma Register_live:
  assumes wf: "hub_wf h" and r: "r \<notin> hub_conns h" and cap: "1 \<le> hub_cap h"
    and c: "hub_heap h r = newConn opts i sid res auth" "conn_wf (hub_heap h r)"
    and l: "live raw (moved decode recs) decode h" "from_log decode recs (hub_store h)" and env: "env_raw env = raw" "json_law raw decode"
  shows "live raw (moved decode recs) decode (snd (Register env names r h))"
proof (cases "hub_closed h")
  case True
  then show ?thesis using l by (simp add: Register_def)
next
  case False
  let ?h = "h\<lparr> hub_conns := insert r (hub_conns h) \<rparr>"
  have "live_conn raw (moved decode recs) decode (hub_store h) (hub_heap h r)" by (simp add: live_conn_def c newConn_def)
  then have "working raw recs decode r ?h"
    using l wf c(2) by (simp add: working_def live_def hub_wf_def)
  moreover have ok: "\<forall>ch \<in> set (restore names r h). channel_ok ch" using restore_ok [OF cap] by simp
  ultimately have "working raw recs decode r (snd (Register env names r h))"
    using False env attach_snapshots [OF ok]
    unfolding Register_def Let_def
    by (simp add: hub_cap_def) (intro working_attach_all working_send_plain; simp)
  then show ?thesis by (simp add: working_def)
qed

lemma unregister_live:
  assumes l: "live raw M decode h"
  shows "live raw M decode (unregister r h)"
proof -
  have one: "hub_conns (unlink_step r ch g) = hub_conns g \<and> hub_store (unlink_step r ch g) = hub_store g \<and>
      (\<forall>q. q \<noteq> r \<longrightarrow> hub_heap (unlink_step r ch g) q = hub_heap g q)" for ch g
    by (simp add: unlink_step_def)
  have "only_conn r g (fold (unlink_step r) chs g)" for chs and g :: Hub
    using one by (intro fold_related [of "only_conn r"]) (auto intro: only_conn_trans simp: only_conn_def unlink_step_def)
  from this [of "h\<lparr> hub_conns := hub_conns h - {r} \<rparr>"] show ?thesis
    using l by (auto simp: unregister_def unlink_step_def [abs_def] live_def only_conn_def)
qed

lemma shutdown_live:
  assumes "live raw M decode h" "hub_wf h"
  shows "live raw M decode (shutdown_begin h)" "live raw M decode (shutdown_notify env r h)"
    "live raw M decode (shutdown_close r h)"
proof -
  show "live raw M decode (shutdown_begin h)" using assms(1) by (simp add: shutdown_begin_def live_def)
  show "live raw M decode (shutdown_notify env r h)"
    using keeps_send_to send_plain_sees
    by (intro live_pointwise [OF assms]) (auto simp: shutdown_notify_def keeps_def)
  show "live raw M decode (shutdown_close r h)"
    using keeps_requestClose
    by (intro live_pointwise [OF assms]) (auto simp: shutdown_close_def requestClose_sees keeps_def)
qed

section \<open>Every interleaving\<close>

lemma hub_store_Register: "hub_store (snd (Register env names r h)) = hub_store h"
  using attach_all_only [of r] by (auto simp: Register_def Let_def only_conn_def)

lemma hub_store_unregister: "hub_store (unregister r h) = hub_store h"
proof -
  have "hub_store (fold (unlink_step r) chs g) = hub_store g" for chs and g :: Hub
    by (rule fold_related [of "\<lambda>a b. hub_store b = hub_store a"]) (auto simp: unlink_step_def)
  from this [of _ "h\<lparr> hub_conns := hub_conns h - {r} \<rparr>"] show ?thesis
    by (simp add: unregister_def unlink_step_def [abs_def])
qed

definition seen_live :: "(string \<Rightarrow> string option) \<Rightarrow> (string \<Rightarrow> Computed option) \<Rightarrow> Gateway \<Rightarrow> bool" where
  "seen_live raw decode g =
     (live raw (moved decode (gw_log g)) decode (gw_hub g) \<and> from_log decode (gw_log g) (hub_store (gw_hub g)))"

lemma seen_live_hub:
  "seen_live raw decode g \<Longrightarrow> live raw (moved decode (gw_log g)) decode h \<Longrightarrow> hub_store h = hub_store (gw_hub g) \<Longrightarrow>
    gw_hub g' = h \<Longrightarrow> gw_log g' = gw_log g \<Longrightarrow> seen_live raw decode g'"
  by (simp add: seen_live_def)

lemma gateway_step_live:
  assumes st: "gateway_step raw decode parse_time read_client g g'" and wf: "gateway_wf g"
    and s: "seen_live raw decode g" and law: "json_law raw decode"
  shows "seen_live raw decode g'"
proof -
  have hub: "hub_wf (gw_hub g)" and valid: "Options_Validate (hub_opts (gw_hub g)) = Inr ()"
    using wf by (simp_all add: gateway_wf_def)
  note pend = wf [unfolded gateway_wf_def, THEN conjunct2, THEN conjunct2, rule_format]
  have l: "live raw (moved decode (gw_log g)) decode (gw_hub g)" "from_log decode (gw_log g) (hub_store (gw_hub g))"
    using s by (simp_all add: seen_live_def)
  show ?thesis
    using st
  proof (cases rule: gateway_step.cases)
    case (connect r env names i sid resumable auth)
    let ?c = "newConn (hub_opts (gw_hub g)) i sid resumable auth"
    let ?h = "on_conn r (\<lambda>_. ?c) (gw_hub g)"
    have "hub_wf ?h"
      using hub connect(2) by (auto simp: hub_wf_def routes_def routed_to_def sub_total_def intro!: sum.cong)
    moreover have "live raw (moved decode (gw_log g)) decode ?h" using l connect(2) by (auto simp: live_def)
    ultimately have "live raw (moved decode (gw_log g)) decode (snd (Register env names r ?h))"
      using connect l law newConn_wf [OF valid] cap_pos [OF valid] by (intro Register_live) simp_all
    then show ?thesis unfolding connect(1) by (rule seen_live_hub [OF s]) (simp_all add: hub_store_Register)
  next
    case (admit r bytes f acc rej)
    then show ?thesis using seen_live_hub [OF s l(1)] by simp
  next
    case (attach r acc rej rid env)
    have "live raw (moved decode (gw_log g)) decode (subscribe_attach env acc rej rid r (gw_hub g))"
      using pend [OF attach(2)] attach(3) l hub law
      by (intro subscribe_attach_live) (simp_all add: admitted_def pending_ok_def)
    then show ?thesis
      using subscribe_attach_only [of r "gw_hub g" env acc rej rid] unfolding attach(1)
      by (intro seen_live_hub [OF s]) (simp_all add: only_conn_def)
  next
    case (select r bytes f env targets h)
    have "working raw (gw_log g) decode r h"
      by (rule working_resync_select [OF select(6) working_of]) (use hub l select(2) in \<open>simp_all add: idle_def\<close>)
    then show ?thesis
      using resync_select_only [OF select(6)] unfolding select(1)
      by (intro seen_live_hub [OF s, of h]) (simp_all add: working_def only_conn_def)
  next
    case (answer r targets rid env)
    have "working raw (gw_log g) decode r (resync_attach env targets rid r (gw_hub g))"
      using pend [OF answer(2)] answer(3) law hub l
      by (intro working_resync_attach working_of) (simp_all add: pending_ok_def)
    then show ?thesis
      using resync_attach_only [of r "gw_hub g" env targets rid] unfolding answer(1)
      by (intro seen_live_hub [OF s]) (simp_all add: working_def only_conn_def)
  next
    case (read r is_text bytes env)
    have "live raw (moved decode (gw_log g)) decode (readLoop read_client env is_text bytes r (gw_hub g))"
      using read l law by (intro readLoop_live [OF hub]) (simp_all add: idle_def)
    then show ?thesis
      using readLoop_only [of r "gw_hub g" read_client env is_text bytes] unfolding read(1)
      by (intro seen_live_hub [OF s]) (simp_all add: only_conn_def)
  next
    case (on_record env d)
    then show ?thesis using HandleMessage_live [OF hub l(2,1) law] by (simp add: seen_live_def)
  next
    case (writer r ok)
    have "live raw (moved decode (gw_log g)) decode (on_conn r (writeLoop ok) (gw_hub g))"
      using keeps_writeLoop by (intro live_pointwise [OF l(1) hub]) (auto simp: writeLoop_sees keeps_def)
    then show ?thesis unfolding writer(1) by (rule seen_live_hub [OF s]) simp_all
  next
    case (hang_up r reason status why)
    have "live raw (moved decode (gw_log g)) decode (on_conn r (requestClose reason status why) (gw_hub g))"
      using keeps_requestClose by (intro live_pointwise [OF l(1) hub]) (auto simp: requestClose_sees keeps_def)
    then show ?thesis unfolding hang_up(1) by (rule seen_live_hub [OF s]) simp_all
  next
    case (leave r)
    then show ?thesis
      using seen_live_hub [OF s unregister_live [OF l(1)]] by (simp add: hub_store_unregister)
  next
    case shut_down
    then show ?thesis using seen_live_hub [OF s shutdown_live(1) [OF l(1) hub]] by (simp add: shutdown_begin_def)
  next
    case (notify env r)
    then show ?thesis using seen_live_hub [OF s shutdown_live(2) [OF l(1) hub]] by (simp add: shutdown_notify_def)
  next
    case (close_conn r)
    then show ?thesis using seen_live_hub [OF s shutdown_live(3) [OF l(1) hub]] by (simp add: shutdown_close_def)
  qed
qed

lemma gateway_reach_live:
  assumes "gateway_reach raw decode parse_time read_client g" "json_law raw decode"
  shows "seen_live raw decode g"
  using assms(1)
proof (induction rule: gateway_reach.induct)
  case (start opts heap g)
  then show ?case
    by (auto simp: gateway_start_def NewHub_def bindE_eq_Inr seen_live_def live_def from_log_def NewStore_def)
next
  case (step g g')
  then show ?case using gateway_step_live [OF step(2) gateway_reach_wf [OF step(1)]] assms(2) by blast
qed

section \<open>Recovery\<close>

text \<open>A connection that was sent one frame with room for it in the queue, or none.\<close>

definition tells :: "(string \<Rightarrow> Computed option) \<Rightarrow> FrameBody option \<Rightarrow> conn \<Rightarrow> conn \<Rightarrow> bool" where
  "tells decode b c c' =
     ((up c' \<longrightarrow> up c) \<and> cn_capacity c' = cn_capacity c \<and>
      length (cn_send c') \<le> length (cn_send c) + (if b = None then 0 else 1) \<and>
      (up c' \<longrightarrow> (\<forall>ch. watch decode ch c' = (case b of None \<Rightarrow> watch decode ch c
         | Some b \<Rightarrow> see_frame decode ch b (watch decode ch c)))))"

lemma tells_refl [simp]: "tells decode None c c"
  by (simp add: tells_def)

lemma tells_trans: "tells decode None a b \<Longrightarrow> tells decode f b c \<Longrightarrow> tells decode f a c"
  by (cases f) (auto simp: tells_def)

lemma writeLoop_tells: "tells decode None c (writeLoop ok c)"
  by (cases ok) (auto simp: tells_def writeLoop_def conn_write_def requestClose_def watch_def conn_trace_def split: list.splits)

lemma send_to_tells:
  assumes c: "conn_wf c" and b: "marshals (env_raw env) b" and room: "length (cn_send c) < cn_capacity c"
  shows "tells decode (Some (marshalled (env_raw env) b)) c (send_to env b rid r c)"
proof -
  let ?c = "fold writeLoop (env_writes env r (cn_count c)) c"
  let ?body = "\<lparr> bd_type = Kind b, bd_ts = env_now env, bd_id = rid, bd_frame = marshalled (env_raw env) b \<rparr>"
  have q: "tells decode None c ?c"
    by (rule fold_related [of "tells decode None"]) (auto intro: tells_trans writeLoop_tells)
  have wf: "conn_wf ?c" by (rule conn_wf_writes [OF c])
  have room': "length (cn_send ?c) < cn_capacity ?c" using q room by (simp add: tells_def)
  have eq: "send_to env b rid r c = snd (enqueue (env_sched env r (cn_count c)) (env_now env) ?body (Kind b) ?c)"
    using b by (simp add: send_to_def sendFrame_def Render_def Let_def time_defs)
  have "tells decode (Some (marshalled (env_raw env) b)) ?c (send_to env b rid r c)"
  proof (cases "cn_closed ?c")
    case True
    then show ?thesis by (simp add: eq enqueue_def tells_def)
  next
    case False
    then show ?thesis
      using wf room' by (simp add: eq enqueue_def next_seq_eq conn_wf_def push_def tells_def watch_def conn_trace_def
          Body_Frame_def)
  qed
  then show ?thesis by (rule tells_trans [OF q])
qed

lemma send_to_up: "up (send_to env b rid r c) \<Longrightarrow> up c"
proof -
  assume u: "up (send_to env b rid r c)"
  let ?c = "fold writeLoop (env_writes env r (cn_count c)) c"
  have w: "cn_writing ?c \<longrightarrow> cn_writing c" "cn_closed c \<longrightarrow> cn_closed ?c"
    using writes_same [of c "env_writes env r (cn_count c)"] by (simp_all add: same_frame_def)
  have "up ?c"
  proof (cases "Render (env_raw env) b (env_now env) rid")
    case (Inr body)
    then show ?thesis
      using u enqueue_up [of "env_sched env r (cn_count c)" "env_now env" body "Kind b" ?c]
      by (simp add: send_to_def sendFrame_def Let_def)
  qed (use u in \<open>simp add: send_to_def sendFrame_def Let_def\<close>)
  then show ?thesis using w by auto
qed

lemma resync_all_shows:
  assumes "conn_wf (hub_heap h r)" "\<forall>ch \<in> set chs. marshals (env_raw env) (NewSnapshot ch (P ch))"
    and "length (cn_send (hub_heap h r)) + length chs \<le> cn_capacity (hub_heap h r)"
    and "\<forall>ch \<in> set chs. \<forall>v. see_frame decode ch (marshalled (env_raw env) (NewSnapshot ch (P ch))) v = Some (B ch)"
    and "up (hub_heap (fold (\<lambda>ch. on_conn r (send_to env (NewSnapshot ch (P ch)) rid r)) chs h) r)"
    and "ch \<in> set chs \<or> watch decode ch (hub_heap h r) = Some (B ch)"
  shows "watch decode ch (hub_heap (fold (\<lambda>ch. on_conn r (send_to env (NewSnapshot ch (P ch)) rid r)) chs h) r) = Some (B ch)"
  using assms
proof (induction chs arbitrary: h)
  case (Cons x chs)
  let ?h = "on_conn r (send_to env (NewSnapshot x (P x)) rid r) h"
  have t: "tells decode (Some (marshalled (env_raw env) (NewSnapshot x (P x)))) (hub_heap h r) (hub_heap ?h r)"
    using Cons.prems by (simp add: send_to_tells)
  have mono: "up (hub_heap (fold (\<lambda>ch. on_conn r (send_to env (NewSnapshot ch (P ch)) rid r)) ys k) r) \<Longrightarrow>
      up (hub_heap k r)" for k ys
  proof (induction ys arbitrary: k)
    case (Cons y ys)
    have "up (hub_heap (on_conn r (send_to env (NewSnapshot y (P y)) rid r) k) r)"
      by (rule Cons.IH) (use Cons.prems in simp)
    then have "up (send_to env (NewSnapshot y (P y)) rid r (hub_heap k r))" by (simp add: on_conn_def)
    then show ?case by (rule send_to_up)
  qed simp
  have "up (hub_heap ?h r)" using mono [of chs ?h] Cons.prems(5) by simp
  then have "ch \<in> set chs \<or> watch decode ch (hub_heap ?h r) = Some (B ch)"
    using t Cons.prems(4,6)
    by (cases "ch = x") (auto simp: tells_def see_frame_def NewSnapshot_def marshalled_def)
  moreover have "conn_wf (hub_heap ?h r)" using Cons.prems(1) keeps_send_to by (simp add: keeps_def)
  ultimately show ?case
    using Cons.IH [of ?h] Cons.prems(2-5) t by (simp add: tells_def)
qed simp

lemma resync_shows:
  assumes wf: "hub_wf h" and r: "r \<in> hub_conns h" and dec: "from_log decode recs (hub_store h)"
    and law: "env_raw env = raw" "json_law raw decode" and targets: "set targets \<subseteq> set (cn_channels (hub_heap h r))"
    and room: "length (cn_send (hub_heap h r)) + length targets \<le> cn_capacity (hub_heap h r)"
    and opn: "up (hub_heap (resync_attach env targets rid r h) r)" and ch: "ch \<in> set targets"
  shows "watch decode ch (hub_heap (resync_attach env targets rid r h) r) = Some (on_wire raw (board (hub_store h) ch))"
proof -
  let ?P = "\<lambda>ch. marketPayloads (snapshot_of (Attach (hub_store h) targets) ch)"
  have c: "conn_wf (hub_heap h r)" "\<forall>ch \<in> set targets. channel_ok ch"
    using hub_wf_conn [OF wf r] targets by (auto simp: conn_ok_def)
  have swf: "slate_wf (hub_store h)" using wf by (simp add: hub_wf_def)
  have P: "?P ch = marketPayloads (Snapshot (hub_store h) ch)" if "ch \<in> set targets" for ch
    using attach_snapshots [OF c(2)] that by simp
  have eq: "resync_attach env targets rid r h = fold (\<lambda>ch. on_conn r (send_to env (NewSnapshot ch (?P ch)) rid r)) targets h"
    by (simp add: resync_attach_def Let_def)
  then show ?thesis
    unfolding eq
    using c P snapshot_marshals [OF swf dec law(2)] snapshot_shows [OF swf dec law(2)] law(1) room opn ch
    by (intro resync_all_shows) (auto simp: eq)
qed

end
