(* ===== verification/GatewaySamples.thy ===== *)
theory GatewaySamples
  imports GatewayView
begin

text \<open>
  A gateway in use: a record makes the slate hold one market, and then a client resumes a session
  that was subscribed to that market.
\<close>

definition one_doc :: Computed where
  "one_doc = \<lparr> cm_schema_version = 1, cm_market_id = ''m1'', cm_event_id = ''e1'',
     cm_league_slug = ''nfl'', cm_source = ReferenceSourceCatalogue, cm_method = MethodShin,
     cm_selections = 2, cm_observed_at = 50 \<rparr>"

definition one_decode :: "string \<Rightarrow> Computed option" where
  "one_decode p = (if p = ''A'' then Some one_doc else None)"

definition no_time :: "string \<Rightarrow> time option" where "no_time s = None"

definition one_record :: Delivery where
  "one_record = \<lparr> dlv_topic = ''price.computed'', dlv_key = ''m1'', dlv_tombstone = False,
     dlv_type = ''price.computed.v1'', dlv_data = ''A'', dlv_envelope_observed = 60, dlv_headers = Map.empty \<rparr>"

definition one_market :: SMarket where
  "one_market = \<lparr> sm_ID = ''m1'', sm_Payload = ''A'', sm_Computed = one_doc,
     sm_Channels = [chan ChannelMarket ''m1'', chan ChannelEvent ''e1'', chan ChannelLeague ''nfl''],
     sm_ObservedAt = 60 \<rparr>"

definition plain_opts :: Options where
  "plain_opts = \<lparr> opt_logger = True, opt_SendQueueCapacity = 4, opt_MaxChannelsPerConnection = 0,
     opt_MaxFrameBytes = 0, opt_PingInterval = 0, opt_PongTimeout = 0, opt_WriteTimeout = 0,
     opt_ShutdownDrain = 0, opt_SubscriptionTTL = 0 \<rparr>"

definition plain_env :: Env where
  "plain_env = \<lparr> env_now = 70, env_raw = Some, env_writes = (\<lambda>_ _. []), env_sched = (\<lambda>_ _. []) \<rparr>"

definition plain_conn :: conn where
  "plain_conn = newConn (Options_Normalise plain_opts) ''c'' ''s'' True False"

text \<open>The client asks, with one frame, for everything again.\<close>

definition ask_again :: ClientFrame where
  "ask_again = \<lparr> cf_type = ClientResync, cf_id = ''q'', cf_channels = [] \<rparr>"

definition one_frame :: "string \<Rightarrow> (ClientFrame \<times> bool) option" where
  "one_frame s = (if s = ''R'' then Some (ask_again, False) else None)"

lemma one_ids: "validID ''m1'' = Inr ()" "validID ''e1'' = Inr ()" "is_ok (NewSlug ''nfl'')"
  by (simp_all add: validID_ok_iff id_char_def slug_alnum_def between_def byte_def NewSlug_def MaxSlugLen_def)

lemma one_held: "market_held ''m1'' one_market"
  by (simp add: market_held_def one_market_def one_doc_def Computed_Validate_def Computed_MarketID_def new_id_def
      one_ids SchemaVersion_def ReferenceSource_Valid_def DevigMethod_Valid_def MinMarketSelections_def ChannelsFor_eq)

lemma one_fold:
  "Fold one_decode no_time (Some one_record) NewStore =
    (put one_market NewStore, (applied ApplyStored ''m1'' (Some one_market) (sm_Channels one_market), None),
     Some (applied ApplyStored ''m1'' (Some one_market) (sm_Channels one_market)))"
proof -
  have key: "Delivery_MarketID one_record = Inr ''m1''"
    by (simp add: Delivery_MarketID_def delivery_id_ok one_record_def one_ids requireKeyKind_def
        LookupTopic_def topic_defs topic_names)
  have "storeLocked ''m1'' ''A'' one_doc (sm_Channels one_market) 60 NewStore =
      (put one_market NewStore, applied ApplyStored ''m1'' (Some one_market) (sm_Channels one_market))"
    by (simp add: storeLocked_def put_def one_market_def NewStore_def Let_def)
  moreover have "Computed_Validate one_doc = Inr ()" "Computed_MarketID one_doc = Inr ''m1''"
    "ChannelsFor one_doc = Inr (sm_Channels one_market)"
    using one_held by (simp_all add: market_held_def one_market_def one_doc_def Computed_MarketID_def new_id_def one_ids)
  moreover have "dlv_tombstone one_record = False" "dlv_type one_record = MessageType" "dlv_data one_record = ''A''"
    "dlv_envelope_observed one_record = 60" "one_decode ''A'' = Some one_doc"
    by (simp_all add: one_record_def MessageType_def one_decode_def)
  ultimately have "applyLocked one_decode no_time (Some one_record) NewStore =
      (put one_market NewStore, applied ApplyStored ''m1'' (Some one_market) (sm_Channels one_market), None)"
    by (simp add: applyLocked_def key Delivery_ObservedAt_def Delivery_Unmarshal_def accept_def time_is_zero_def Let_def)
  then show ?thesis by (simp add: Fold_def changed_def)
qed

definition gw_empty :: Gateway where
  "gw_empty = \<lparr> gw_hub = \<lparr> hub_opts = Options_Normalise plain_opts, hub_store = NewStore, hub_subs = Map.empty,
     hub_conns = {}, hub_subCount = 0, hub_closed = False, hub_heap = (\<lambda>_. plain_conn) \<rparr>, gw_pending = Map.empty, gw_log = [] \<rparr>"

definition gw_priced :: Gateway where
  "gw_priced = gw_empty\<lparr> gw_hub := HandleMessage one_decode no_time plain_env (Some one_record) (gw_hub gw_empty),
     gw_log := gw_log gw_empty @ [Some one_record] \<rparr>"

definition gw_used :: Gateway where
  "gw_used = with_hub gw_priced (snd (Register plain_env [''market:m1''] 7
     (on_conn 7 (\<lambda>_. newConn (hub_opts (gw_hub gw_priced)) ''c'' ''s'' True False) (gw_hub gw_priced))))"

lemma plain_valid: "Options_Validate (Options_Normalise plain_opts) = Inr ()"
  by (simp add: Options_Validate_def Options_Normalise_def plain_opts_def default_for_def
      DefaultSendQueueCapacity_def DefaultMaxChannelsPerConnection_def DefaultMaxFrameBytes_def
      DefaultPingInterval_def DefaultPongTimeout_def DefaultWriteTimeout_def DefaultShutdownDrain_def
      DefaultSubscriptionTTL_def second_def minUsefulFrameBytes_def MaxRequestIDLen_def MaxChannelLen_def MaxIDLen_def)

lemma plain_raw: "env_raw plain_env = Some"
  by (simp add: plain_env_def)

lemma plain_law: "json_law Some one_decode"
  by (simp add: json_law_def one_decode_def)

lemma plain_rewritten [simp]: "rewritten Some = (\<lambda>m. m)" "on_wire Some v = v"
  by (simp_all add: rewritten_def [abs_def] on_wire_def option.map_ident)

lemma plain_marshalled [simp]: "marshalled Some b = b"
  by (cases b) (simp_all add: marshalled_def)

lemma gw_used_reached: "gateway_reach Some one_decode no_time one_frame gw_used"
proof -
  have "gateway_start plain_opts (\<lambda>_. plain_conn) = Inr gw_empty"
    by (simp add: gateway_start_def NewHub_def plain_valid gw_empty_def)
  then have "gateway_reach Some one_decode no_time one_frame gw_empty" by (rule gateway_reach.start)
  moreover have "gateway_step Some one_decode no_time one_frame gw_empty gw_priced"
    unfolding gw_priced_def by (rule gateway_step.on_record [OF plain_raw])
  moreover have "gateway_step Some one_decode no_time one_frame gw_priced gw_used"
  proof -
    have "hub_conns (gw_hub gw_priced) = {}"
      using HandleMessage_calm [of "gw_hub gw_empty" one_decode no_time plain_env "Some one_record"]
      by (simp add: gw_priced_def calm_def gw_empty_def)
    then show ?thesis unfolding gw_used_def by (intro gateway_step.connect plain_raw) simp
  qed
  ultimately show ?thesis by (blast intro: gateway_reach.step)
qed

lemma gw_priced_hub: "gw_hub gw_priced = (gw_hub gw_empty)\<lparr> hub_store := put one_market NewStore \<rparr>"
  by (simp add: gw_priced_def HandleMessage_def one_fold gw_empty_def publishLocked_def fanoutLocked_def Let_def
    one_market_def fanout_channel_def routes_def)

lemma one_snap: "Snapshot (put one_market NewStore) (chan ChannelMarket ''m1'') = [one_market]"
  using put_markets [OF NewStore_wf one_held] by (simp add: Snapshot_def snapshotLocked_def)

lemma one_board: "board (put one_market NewStore) (chan ChannelMarket ''m1'') = [''m1'' \<mapsto> ''A'']"
proof -
  have "st_markets (put one_market NewStore) = [''m1'' \<mapsto> one_market]"
    using put_markets [OF NewStore_wf one_held] by (simp add: one_market_def NewStore_def)
  then show ?thesis by (simp add: board_def fun_eq_iff) (simp add: one_market_def)
qed

lemma one_channel: "channel_ok (chan ChannelMarket ''m1'')" by (simp add: channel_ok_def one_ids)

lemma one_parse: "ParseChannel ''market:m1'' = Inr (chan ChannelMarket ''m1'')"
  unfolding ParseChannel_iff using one_channel
  by (simp add: Channel_String_def Channel_IsZero_def) (simp add: channel_kinds)

lemma one_restored: "restore [''market:m1''] 7 (on_conn 7 (\<lambda>_. newConn (hub_opts (gw_hub gw_priced)) ''c'' ''s'' True False) (gw_hub gw_priced)) =
  [chan ChannelMarket ''m1'']"
  by (simp add: restore_def newConn_def one_parse sortChannels_def Let_def)

lemma one_attached: "snapshot_of (Attach (put one_market NewStore) [chan ChannelMarket ''m1'']) (chan ChannelMarket ''m1'') = [one_market]"
  using attach_snapshots [of "[chan ChannelMarket ''m1'']"] by (simp add: one_channel one_snap)

lemma plain_send:
  "\<not> cn_closed c \<Longrightarrow> length (cn_send c) < cn_capacity c \<Longrightarrow> seq_n (cn_seq c) = of_nat (cn_count c) \<Longrightarrow>
    marshals Some b \<Longrightarrow>
    send_to plain_env b rid r c = c\<lparr> cn_seq := \<lparr> seq_n = of_nat (Suc (cn_count c)) \<rparr>, cn_count := Suc (cn_count c),
      cn_send := cn_send c @ [frame_out (Suc (cn_count c)) \<lparr> bd_type = Kind b, bd_ts = 70, bd_id = rid, bd_frame = b \<rparr> (Kind b)] \<rparr>"
  by (simp add: send_to_def plain_env_def sendFrame_def Render_def time_defs enqueue_def next_seq_eq push_def frame_out_def Let_def)

definition one_hello :: FrameBody where "one_hello = NewHello ''c'' ''s'' DefaultPingInterval True False [chan ChannelMarket ''m1'']"

definition one_snapshot :: FrameBody where "one_snapshot = NewSnapshot (chan ChannelMarket ''m1'') [''A'']"

lemma one_marshals: "marshals Some one_hello" "marshals Some one_snapshot"
  by (simp_all add: marshals_def one_hello_def one_snapshot_def frame_makers Channel_IsZero_def channel_kinds)

lemma gw_empty_opts: "hub_opts (gw_hub gw_empty) = Options_Normalise plain_opts" by (simp add: gw_empty_def)

lemma plain_capacity: "cn_capacity (newConn (Options_Normalise plain_opts) i s r a) = 4" 
  by (simp add: newConn_def Options_Normalise_def plain_opts_def default_for_def)

lemma plain_ping: "opt_PingInterval (Options_Normalise plain_opts) = DefaultPingInterval"
  by (simp add: Options_Normalise_def plain_opts_def default_for_def)

lemma gw_used_conn: "hub_heap (gw_hub gw_used) 7 = (newConn (Options_Normalise plain_opts) ''c'' ''s'' True False)
   \<lparr> cn_seq := \<lparr> seq_n = 2 \<rparr>, cn_count := 2, cn_channels := [chan ChannelMarket ''m1''],
      cn_send := [frame_out 1 \<lparr> bd_type = KindHello, bd_ts = 70, bd_id = [], bd_frame = one_hello \<rparr> KindHello,
        frame_out 2 \<lparr> bd_type = KindSnapshot, bd_ts = 70, bd_id = [], bd_frame = one_snapshot \<rparr> KindSnapshot] \<rparr> \<and>
   hub_conns (gw_hub gw_used) = {7} \<and> hub_store (gw_hub gw_used) = put one_market NewStore"
proof -
  let ?c = "newConn (Options_Normalise plain_opts) ''c'' ''s'' True False"
  let ?h = "on_conn 7 (\<lambda>_. ?c) (gw_hub gw_priced)"
  have c: "cn_channels ?c = []" "cn_id ?c = ''c''" "cn_sessionID ?c = ''s''" "cn_authenticated ?c = False"
    "\<not> cn_closed ?c" "cn_send ?c = []" "seq_n (cn_seq ?c) = 0" "cn_count ?c = 0" by (simp_all add: newConn_def new_sequence_def)
  have k: "Kind one_hello = KindHello" "Kind one_snapshot = KindSnapshot" by (simp_all add: Kind_def one_hello_def one_snapshot_def frame_makers)
  have o: "hub_opts (gw_hub gw_priced) = Options_Normalise plain_opts" "hub_closed (gw_hub gw_priced) = False"
     "hub_store (gw_hub gw_priced) = put one_market NewStore" "hub_conns (gw_hub gw_priced) = {}"
    by (simp_all add: gw_priced_hub gw_empty_def)
  show ?thesis
    using one_restored one_marshals k unfolding gw_used_def o
    by (simp add: Register_def o c plain_ping Let_def attach_one_eq one_attached marketPayloads_def plain_send plain_capacity
      flip: one_hello_def) (simp add: plain_send c plain_capacity one_snapshot_def one_market_def numeral_2_eq_2)
qed

lemma gw_used_facts:
  "7 \<in> hub_conns (gw_hub gw_used)" "cn_channels (hub_heap (gw_hub gw_used) 7) = [chan ChannelMarket ''m1'']"
  "\<not> cn_closed (hub_heap (gw_hub gw_used) 7)" "cn_writing (hub_heap (gw_hub gw_used) 7)"
  "cn_count (hub_heap (gw_hub gw_used) 7) = 2"
  "watch one_decode (chan ChannelMarket ''m1'') (hub_heap (gw_hub gw_used) 7) = Some [''m1'' \<mapsto> ''A'']"
  using gw_used_conn
  by (simp_all add: newConn_def watch_def conn_trace_def frame_out_def Body_Frame_def one_hello_def one_snapshot_def
      frame_makers see_frame_def add_payload_def one_decode_def one_doc_def)

text \<open>The state between the two critical sections of the client's request.\<close>

definition gw_asked :: Gateway where
  "gw_asked = gw_used\<lparr> gw_pending := [7 \<mapsto> Resyncing [chan ChannelMarket ''m1''] ''q''] \<rparr>"

lemma gw_asked_reached: "gateway_reach Some one_decode no_time one_frame gw_asked"
proof -
  let ?c = "hub_heap (gw_hub gw_used) 7"
  have pend: "gw_pending gw_used = Map.empty" by (simp add: gw_used_def gw_priced_def gw_empty_def)
  have "cn_channels ?c = [chan ChannelMarket ''m1'']" using gw_used_conn by simp
  then have sel: "resync_select plain_env [] ''q'' 7 (gw_hub gw_used) = ([chan ChannelMarket ''m1''], gw_hub gw_used)"
    by (simp add: resync_select_def channelsLocked_def sortChannels_def)
  have opts: "hub_opts (gw_hub gw_used) = Options_Normalise plain_opts"
    using spares_opts [OF Register_spares [of "Suc 7" 7]] by (simp add: gw_used_def gw_priced_hub gw_empty_opts)
  have "DecodeClient one_frame ''R'' (opt_MaxFrameBytes (hub_opts (gw_hub gw_used))) = Inr ask_again"
    by (simp add: opts DecodeClient_def one_frame_def ask_again_def validRequestID_def Let_def Options_Normalise_def
        plain_opts_def default_for_def DefaultMaxFrameBytes_def ClientKind_Valid_def client_kinds MaxRequestIDLen_def MaxChannelsPerFrame_def byte_def)
  then have "gateway_step Some one_decode no_time one_frame gw_used gw_asked"
    using gateway_step.select [of gw_used 7 one_frame "''R''" ask_again plain_env Some
       "[chan ChannelMarket ''m1'']" "gw_hub gw_used" one_decode no_time] pend sel gw_used_conn plain_raw
    by (simp add: idle_def ask_again_def gw_asked_def)
  then show ?thesis using gw_used_reached by (rule gateway_reach.step [rotated])
qed

end
