(* ===== verification/GatewayProperties.thy ===== *)
theory GatewayProperties
  imports GatewaySamples
begin

text \<open>
  The properties of the running gateway (\<open>internal/wsgw/hub.go\<close>, \<open>conn.go\<close>): routing, the accounting
  of lost frames, what live clients show, and divergences from what the code says of itself.
\<close>

section \<open>The routing table\<close>

text \<open>C11: In every reachable state of the gateway, whatever the interleaving of connections,
  subscriptions, records, writers and shutdown: a channel's routes are exactly the live connections
  that hold it, the subscription count is the number of routes, and every connection holds distinct
  well-formed channels, never more than the cap, and never queues more frames than its capacity.\<close>

theorem gateway_routes:
  assumes "gateway_reach raw decode parse_time read_client g"
  shows "(\<forall>ch. routes (gw_hub g) ch = {r \<in> hub_conns (gw_hub g). ch \<in> set (cn_channels (hub_heap (gw_hub g) r))}) \<and>
    hub_subCount (gw_hub g) = (\<Sum>r \<in> hub_conns (gw_hub g). int (length (cn_channels (hub_heap (gw_hub g) r)))) \<and>
    (\<forall>r \<in> hub_conns (gw_hub g). distinct (cn_channels (hub_heap (gw_hub g) r)) \<and>
      int (length (cn_channels (hub_heap (gw_hub g) r))) \<le> opt_MaxChannelsPerConnection (hub_opts (gw_hub g)) \<and>
      (\<forall>ch \<in> set (cn_channels (hub_heap (gw_hub g) r)). channel_ok ch) \<and>
      length (cn_send (hub_heap (gw_hub g) r)) \<le> cn_capacity (hub_heap (gw_hub g) r))"
proof -
  have wf: "hub_wf (gw_hub g)" "Options_Validate (hub_opts (gw_hub g)) = Inr ()"
    using gateway_reach_wf [OF assms] by (simp_all add: gateway_wf_def)
  then have "int (hub_cap (gw_hub g)) = opt_MaxChannelsPerConnection (hub_opts (gw_hub g))"
    using cap_pos [OF wf(2)] by (simp add: hub_cap_def)
  then show ?thesis
    using wf(1) hub_wf_conn [OF wf(1)]
    by (auto simp: hub_wf_def routed_to_def sub_total_def conn_ok_def conn_wf_def simp flip: of_nat_le_iff)
qed

theorem gateway_routes_witness:
  "7 \<in> routes (gw_hub gw_used) (chan ChannelMarket ''m1'') \<and> hub_conns (gw_hub gw_used) = {7}"
  using gateway_routes [OF gw_used_reached] gw_used_facts gw_used_conn by simp

section \<open>Lost frames\<close>

text \<open>C6: No frame is lost without notice, however the writer interleaves with the senders: on a
  connection whose writer still runs, while the 64-bit counter is not about to wrap, the numbers of the frames written and queued increase, and
  every number handed out is either among them or reported, that is, within the range, from its lower to its upper end, of
  a resync frame that is among them, or of a resync frame that was itself discarded and whose own number is reported.\<close>

theorem no_silent_loss:
  assumes "gateway_reach raw decode parse_time read_client g" "r \<in> hub_conns (gw_hub g)"
    and "cn_writing (hub_heap (gw_hub g) r)" "Suc (cn_count (hub_heap (gw_hub g) r)) < 2 ^ 64"
  shows "sorted_wrt (<) (map num (conn_trace (hub_heap (gw_hub g) r))) \<and>
    (\<forall>n \<in> {1..cn_count (hub_heap (gw_hub g) r)}. n \<in> num ` set (conn_trace (hub_heap (gw_hub g) r)) \<or>
      reported (hub_heap (gw_hub g) r) n)"
proof -
  have "hub_wf (gw_hub g)" using gateway_reach_wf [OF assms(1)] by (simp add: gateway_wf_def)
  then have "conn_wf (hub_heap (gw_hub g) r)" using hub_wf_conn assms(2) by (simp add: conn_ok_def)
  then have n: "numbered (hub_heap (gw_hub g) r)" using assms(4) by (simp add: conn_wf_def)
  show ?thesis
    using trace_sorted [OF n] n assms(3) by (auto simp: numbered_def)
qed

theorem no_silent_loss_witness:
  "sorted_wrt (<) (map num (conn_trace (hub_heap (gw_hub gw_used) 7)))"
  using no_silent_loss [OF gw_used_reached gw_used_facts(1,4)] by (simp add: gw_used_facts)

text \<open>The range of a resync frame can contain a frame the client did receive: when the writer takes a
  frame while the queue is being discarded, the range runs from the oldest to the newest discarded
  number across it.\<close>

theorem resync_claims_delivered:
  "\<exists>c. c = snd (enqueue [None, Some WriteDone] 0 \<lparr> bd_type = KindPong, bd_ts = 0, bd_id = [], bd_frame = PongFrame \<rparr>
       KindPong busy_conn) \<and>
    map ob_seq (cn_wire c) = [2] \<and>
    map (\<lambda>o1. bd_frame (ob_payload o1)) (cn_send c) = [ResyncFrame ResyncSlowConsumer 2 1 3]"
  by (simp add: busy_conn_def enqueue_def next_seq_def sequence_next_def push_def new_sequence_def discardLocked_def
      new_gap_def gap_extend_def writeLoop_def conn_write_def resyncFrameLocked_def gap_empty_def Render_def
      marshals_def marshalled_def frame_makers Body_Frame_def Let_def)

text \<open>And it can miss frames the client did not receive: when a resync frame is discarded in its turn,
  the next one covers its number and not its range. On a queue of one frame, the pongs 1, 2 and 4 are all lost
  and all the client is told is the range from 3 to 4.\<close>

definition small_conn :: conn where
  "small_conn = busy_conn\<lparr> cn_capacity := 1, cn_send := [], cn_seq := new_sequence, cn_count := 0 \<rparr>"

lemma resync_misses_lost:
  "let pong = (\<lambda>c. snd (enqueue [] 0 \<lparr> bd_type = KindPong, bd_ts = 0, bd_id = [], bd_frame = PongFrame \<rparr> KindPong c));
       c = pong (pong (pong small_conn))
   in cn_wire c = [] \<and>
      map (\<lambda>o1. (ob_seq o1, bd_frame (ob_payload o1))) (cn_send c) = [(5, ResyncFrame ResyncSlowConsumer 2 3 4)]"
  by (simp add: small_conn_def busy_conn_def enqueue_def next_seq_def sequence_next_def push_def new_sequence_def
      discardLocked_def new_gap_def gap_extend_def resyncFrameLocked_def gap_empty_def Render_def
      marshals_def marshalled_def frame_makers Body_Frame_def Let_def)

section \<open>Live views\<close>

text \<open>C3: Every live client shows the slate. In every reachable state and for every channel a served
  connection (not closed, its writer running, its counter not about to wrap) holds: if the frames written and queued
  give the client a view of the channel at all (a snapshot, and no loss reported since), that view shows
  every market routed to the channel with its payload, as \<open>json.Marshal\<close> rewrites it, and nothing else, except that
  a market which two handled documents place at different events or leagues may still be shown on a channel it left.\<close>

theorem live_clients_show_the_slate:
  assumes "gateway_reach raw decode parse_time read_client g" "json_law raw decode"
    and "r \<in> hub_conns (gw_hub g)" "ch \<in> set (cn_channels (hub_heap (gw_hub g) r))"
    and "up (hub_heap (gw_hub g) r)" "Suc (cn_count (hub_heap (gw_hub g) r)) < 2 ^ 64"
    and "watch decode ch (hub_heap (gw_hub g) r) = Some v"
  shows "on_wire raw (board (hub_store (gw_hub g)) ch) \<subseteq>\<^sub>m v \<and>
    (\<forall>i. i \<notin> moved decode (gw_log g) \<longrightarrow> v i = on_wire raw (board (hub_store (gw_hub g)) ch) i)"
proof -
  let ?c = "hub_heap (gw_hub g) r"
  have "live_conn raw (moved decode (gw_log g)) decode (hub_store (gw_hub g)) ?c"
    using gateway_reach_live [OF assms(1,2)] assms(3) by (simp add: seen_live_def live_def)
  then have "agrees raw (moved decode (gw_log g)) (hub_store (gw_hub g)) ch v"
    using assms(4-7) by (auto simp: live_conn_def live_view_def)
  then show ?thesis by (simp add: agrees_def)
qed

theorem live_clients_show_the_slate_witness:
  "[''m1'' \<mapsto> ''A''] = board (hub_store (gw_hub gw_used)) (chan ChannelMarket ''m1'')"
proof -
  have still: "i \<notin> moved one_decode (gw_log gw_used)" for i by (auto simp: moved_def one_decode_def split: if_splits)
  have "\<forall>i. i \<notin> moved one_decode (gw_log gw_used) \<longrightarrow>
      [''m1'' \<mapsto> ''A''] i = on_wire Some (board (hub_store (gw_hub gw_used)) (chan ChannelMarket ''m1'')) i"
    by (rule live_clients_show_the_slate [OF gw_used_reached plain_law gw_used_facts(1) _ _ _ gw_used_facts(6), THEN conjunct2])
      (simp_all add: gw_used_facts)
  then show ?thesis using still by auto
qed

text \<open>C17: A client that was told of a loss recovers in one round. The second critical section of its request to
  resynchronise, with room in the queue for one snapshot per channel the first one chose (for an empty request every channel the
  connection holds), leaves a connection that is still served after it with a view of each of these channels, and each
  view is exactly the channel's content at that moment, its payloads as \<open>json.Marshal\<close> rewrites them.\<close>

theorem resync_restores:
  assumes "gateway_reach raw decode parse_time read_client g" "json_law raw decode" "env_raw env = raw"
    and "gw_pending g r = Some (Resyncing targets rid)" "ch \<in> set targets"
    and "length (cn_send (hub_heap (gw_hub g) r)) + length targets \<le> cn_capacity (hub_heap (gw_hub g) r)"
    and "up (hub_heap (resync_attach env targets rid r (gw_hub g)) r)"
  shows "watch decode ch (hub_heap (resync_attach env targets rid r (gw_hub g)) r) =
    Some (on_wire raw (board (hub_store (gw_hub g)) ch))"
proof -
  have "gateway_wf g" by (rule gateway_reach_wf [OF assms(1)])
  then have "hub_wf (gw_hub g)" "r \<in> hub_conns (gw_hub g)" "set targets \<subseteq> set (cn_channels (hub_heap (gw_hub g) r))"
    using assms(4) by (auto simp: gateway_wf_def pending_ok_def split: pending.splits)
  moreover have "from_log decode (gw_log g) (hub_store (gw_hub g))"
    using gateway_reach_live [OF assms(1,2)] by (simp add: seen_live_def)
  ultimately show ?thesis using assms by (intro resync_shows) simp_all
qed

theorem resync_restores_witness:
  "watch one_decode (chan ChannelMarket ''m1'')
     (hub_heap (resync_attach plain_env [chan ChannelMarket ''m1''] ''q'' 7 (gw_hub gw_asked)) 7) = Some [''m1'' \<mapsto> ''A'']"
proof -
  let ?ch = "chan ChannelMarket ''m1''"
  let ?c = "hub_heap (gw_hub gw_used) 7"
  have hub: "gw_hub gw_asked = gw_hub gw_used" by (simp add: gw_asked_def)
  have c: "length (cn_send ?c) = 2" "cn_capacity ?c = 4" "up ?c" "seq_n (cn_seq ?c) = 2" "cn_count ?c = 2"
    using gw_used_conn by (simp_all add: plain_capacity) (simp_all add: newConn_def)
  have st: "hub_store (gw_hub gw_used) = put one_market NewStore" using gw_used_conn by simp
  have p: "marketPayloads [one_market] = [''A'']" by (simp add: marketPayloads_def one_market_def)
  have "hub_heap (resync_attach plain_env [?ch] ''q'' 7 (gw_hub gw_used)) 7 = send_to plain_env one_snapshot ''q'' 7 ?c"
    using st p by (simp add: resync_attach_def one_attached one_snapshot_def)
  then have "up (hub_heap (resync_attach plain_env [?ch] ''q'' 7 (gw_hub gw_used)) 7)"
    by (simp add: plain_send c one_marshals)
  then have "watch one_decode ?ch (hub_heap (resync_attach plain_env [?ch] ''q'' 7 (gw_hub gw_asked)) 7) =
    Some (on_wire Some (board (hub_store (gw_hub gw_asked)) ?ch))"
    by (intro resync_restores [OF gw_asked_reached plain_law plain_raw]) (simp_all add: c hub gw_asked_def)
  then show ?thesis using gw_used_conn one_board hub by simp
qed

section \<open>Refused subscriptions\<close>

text \<open>A refusal can name another channel than the one refused: the refusals of a subscribe frame are
  echoed from the request by the index of the parsed channel, so after a string that does not parse
  they are shifted. A connection that is full and asks for an unparsable string and then a channel is
  told twice that the unparsable string was refused, and never which channel was over the limit.\<close>

theorem refusal_names_another_channel:
  assumes "ParseChannel bad = Inl e" "channel_ok ch" "ch \<notin> set (cn_channels (hub_heap h r))"
    and "opt_MaxChannelsPerConnection (hub_opts h) \<le> int (length (cn_channels (hub_heap h r)))"
  shows "subscribe_admit [bad, Channel_String ch] r h =
    ([], [rejected_as (SafeEcho bad) (ChannelRejectReason bad), rejected_as (SafeEcho bad) RejectLimitReached])"
  using assms parse_string [OF assms(2)] by (simp add: subscribe_admit_def Let_def countLocked_def)

theorem refusal_names_another_channel_witness:
  "subscribe_admit [''x'', ''market:m1''] 0 ((gw_hub gw_empty)\<lparr> hub_opts := plain_opts \<rparr>) =
    ([], [rejected_as ''x'' RejectMalformed, rejected_as ''x'' RejectLimitReached])"
proof -
  have "ParseChannel ''x'' = Inl (ErrInvalidChannel None)"
    by (simp add: ParseChannel_def MaxChannelLen_def)
  moreover have "Channel_String (chan ChannelMarket ''m1'') = ''market:m1''"
    by (simp add: Channel_String_def Channel_IsZero_def channel_kinds)
  moreover have "SafeEcho ''x'' = ''x''" "ChannelRejectReason ''x'' = RejectMalformed"
    by (simp_all add: SafeEcho_def echo_limit_def byte_def Let_def ChannelRejectReason_def MaxChannelLen_def)
  ultimately show ?thesis
    using refusal_names_another_channel [OF _ one_channel, of "''x''" _ "(gw_hub gw_empty)\<lparr> hub_opts := plain_opts \<rparr>" 0]
    by (simp add: gw_empty_def plain_conn_def newConn_def plain_opts_def)
qed

end
