(* ===== verification/ClientStream.thy ===== *)
theory ClientStream
  imports Protocol MoneyFloat
begin

text \<open>
  \<open>pkg/client/stream.go\<close>, with the backoff of \<open>client.go\<close>: the client end of the stream protocol. The
  goroutine that connects, reads and reconnects is a state machine: an iteration of its loops is one
  step, which reads what the socket, the clock and the context answer. The calls of the application
  (subscribe, resync, close) are steps of their own between them. Every step of the code that touches
  the shared fields holds the mutex. Decoding JSON, parsing URLs, dialling and the socket are inputs.
\<close>

section \<open>Errors and constants\<close>

text \<open>What an error of the package wraps; \<open>TransportFailure\<close> is any error of the socket or the dialer.\<close>

datatype stream_error =
    StreamClosed
  | StreamProtocolError
  | TokenInURL
  | ReconnectExhausted "stream_error option"
  | StreamInvalidOptions
  | TransportFailure

text \<open>\<open>errors.Is(err, ErrStreamProtocol)\<close>\<close>

fun is_protocol_error :: "stream_error \<Rightarrow> bool" where
  "is_protocol_error StreamProtocolError = True"
| "is_protocol_error (ReconnectExhausted (Some e)) = is_protocol_error e"
| "is_protocol_error _ = False"

definition StreamProtocol :: string where "StreamProtocol = ''sharpline.v1''"
definition bearerSubprotocolPrefix :: string where "bearerSubprotocolPrefix = ''sharpline.bearer.''"
definition DefaultStreamPath :: string where "DefaultStreamPath = ''/ws''"
definition DefaultStreamBaseDelay :: duration where "DefaultStreamBaseDelay = 500 * 10 ^ 6"
definition DefaultStreamMaxDelay :: duration where "DefaultStreamMaxDelay = 30 * second"
definition maxStreamChannelLen :: nat where "maxStreamChannelLen = 135"

definition refusedStreamQueryParams :: "string list" where
  "refusedStreamQueryParams = [''token'', ''access_token'', ''accesstoken'', ''jwt'', ''bearer'', ''authorization'']"

section \<open>The address\<close>

text \<open>What the code reads of a parsed URL: its parts, and the names in its query.\<close>

record stream_url =
  url_Scheme :: string
  url_Host :: string
  url_Path :: string
  url_query :: "string list"

definition streamURL :: "(string \<Rightarrow> stream_url option) \<Rightarrow> stream_url \<Rightarrow> string \<Rightarrow> stream_error + stream_url" where
  "streamURL parse base raw =
     (if trim_space raw = [] then
        Inr (base\<lparr>url_Scheme := (if url_Scheme base = ''http'' then ''ws''
                                 else if url_Scheme base = ''https'' then ''wss'' else url_Scheme base),
                  url_Path := DefaultStreamPath, url_query := []\<rparr>)
      else case parse (trim_space raw) of
        None \<Rightarrow> Inl StreamInvalidOptions
      | Some u \<Rightarrow>
          if url_Scheme u \<notin> {''ws'', ''wss'', ''http'', ''https''} then Inl StreamInvalidOptions
          else if url_Host u = [] then Inl StreamInvalidOptions
          else if list_ex (\<lambda>name. name \<in> set (url_query u)) refusedStreamQueryParams then Inl TokenInURL
          else Inr (u\<lparr>url_Scheme := (if url_Scheme u = ''http'' then ''ws''
                                     else if url_Scheme u = ''https'' then ''wss'' else url_Scheme u),
                      url_Path := (if url_Path u = [] then DefaultStreamPath else url_Path u)\<rparr>))"

definition validStreamChannel :: "string \<Rightarrow> stream_error + unit" where
  "validStreamChannel ch =
     (if trim_space ch = [] then Inl StreamInvalidOptions
      else if maxStreamChannelLen < length ch then Inl StreamInvalidOptions
      else Inr ())"

fun validStreamChannels :: "string list \<Rightarrow> stream_error + unit" where
  "validStreamChannels [] = Inr ()"
| "validStreamChannels (ch # chs) = bindE (validStreamChannel ch) (\<lambda>_. validStreamChannels chs)"

section \<open>Backoff\<close>

record RetryPolicy =
  rp_MaxAttempts :: int
  rp_BaseDelay :: duration
  rp_MaxDelay :: duration

definition DefaultMaxAttempts :: int where "DefaultMaxAttempts = 3"
definition DefaultRetryBaseDelay :: duration where "DefaultRetryBaseDelay = 100 * 10 ^ 6"
definition DefaultRetryMaxDelay :: duration where "DefaultRetryMaxDelay = 2 * second"

definition RetryPolicy_attempts :: "RetryPolicy \<Rightarrow> int" where
  "RetryPolicy_attempts p = (if rp_MaxAttempts p \<le> 0 then DefaultMaxAttempts else rp_MaxAttempts p)"

text \<open>
  Full jitter: a draw of \<open>jitter\<close> from a window that doubles with every attempt. The shift wraps at 64
  bits and panics when its count is negative, and the product with the draw is one of binary64.
\<close>

definition RetryPolicy_delay :: "RetryPolicy \<Rightarrow> f64 \<Rightarrow> int \<Rightarrow> duration option" where
  "RetryPolicy_delay p jitter attempt =
     (if attempt < 1 then None else
      let base = (if rp_BaseDelay p \<le> 0 then DefaultRetryBaseDelay else rp_BaseDelay p);
          maxDelay = (if rp_MaxDelay p \<le> 0 then DefaultRetryMaxDelay else rp_MaxDelay p);
          shifted = wrap64 (base * 2 ^ nat (attempt - 1));
          window = (if maxDelay < shifted \<or> shifted \<le> 0 then maxDelay else shifted)
      in Some (sint (int64_of_float64 (fmul jitter (float64_of_int64 (word_of_int window))))))"

record StreamBackoff =
  sb_BaseDelay :: duration
  sb_MaxDelay :: duration
  sb_MaxAttempts :: int

definition StreamBackoff_delay :: "StreamBackoff \<Rightarrow> f64 \<Rightarrow> int \<Rightarrow> duration option" where
  "StreamBackoff_delay b jitter attempt =
     (let base = (if sb_BaseDelay b \<le> 0 then DefaultStreamBaseDelay else sb_BaseDelay b);
          maxDelay = (if sb_MaxDelay b \<le> 0 then DefaultStreamMaxDelay else sb_MaxDelay b)
      in RetryPolicy_delay \<lparr>rp_MaxAttempts = 0, rp_BaseDelay = base, rp_MaxDelay = maxDelay\<rparr> jitter attempt)"

definition StreamBackoff_maxDelay :: "StreamBackoff \<Rightarrow> duration" where
  "StreamBackoff_maxDelay b = (if sb_MaxDelay b \<le> 0 then DefaultStreamMaxDelay else sb_MaxDelay b)"

definition StreamBackoff_exhausted :: "StreamBackoff \<Rightarrow> int \<Rightarrow> bool" where
  "StreamBackoff_exhausted b attempt = (0 < sb_MaxAttempts b \<and> sb_MaxAttempts b < attempt)"

section \<open>Frames and events\<close>

record RejectedStreamChannel =
  rsc_Channel :: string
  rsc_Reason :: string

text \<open>The struct that \<open>json.Unmarshal\<close> fills; a field that is absent is zero.\<close>

record serverFrame =
  sv_Seq :: uint64
  sv_Type :: string
  sv_TS :: time
  sv_ID :: string
  sv_ConnectionID :: string
  sv_Protocol :: string
  sv_HeartbeatSeconds :: int
  sv_SessionID :: string
  sv_Resumed :: bool
  sv_Authenticated :: bool
  sv_Channels :: "string list"
  sv_Subscribed :: "string list"
  sv_Rejected :: "RejectedStreamChannel list"
  sv_Channel :: string
  sv_Markets :: "string list"
  sv_Market :: string
  sv_Removed :: string
  sv_Complete :: bool
  sv_Reason :: string
  sv_Dropped :: int64
  sv_FromSeq :: uint64
  sv_ToSeq :: uint64
  sv_Code :: string
  sv_Message :: string

record clientFrame =
  cl_Type :: string
  cl_ID :: string
  cl_Channels :: "string list"

datatype StreamEventKind =
    StreamEventHello | StreamEventAck | StreamEventSnapshot | StreamEventDelta | StreamEventResync
  | StreamEventError | StreamEventPong | StreamEventGap | StreamEventDisconnected

record StreamHello =
  sh_ConnectionID :: string
  sh_Protocol :: string
  sh_Heartbeat :: duration
  sh_SessionID :: string
  sh_Resumed :: bool
  sh_Authenticated :: bool
  sh_Channels :: "string list"

record StreamGap =
  sg_From :: uint64
  sg_To :: uint64
  sg_Dropped :: int64
  sg_ServerReported :: bool

record StreamEvent =
  ev_Kind :: StreamEventKind
  ev_Seq :: uint64
  ev_TS :: time
  ev_ID :: string
  ev_ConnectionID :: string
  ev_Channel :: string
  ev_Markets :: "string list"
  ev_Market :: string
  ev_Removed :: string
  ev_Subscribed :: "string list"
  ev_Rejected :: "RejectedStreamChannel list"
  ev_Hello :: "StreamHello option"
  ev_Gap :: "StreamGap option"
  ev_Reason :: string
  ev_Code :: string
  ev_Message :: string
  ev_Err :: "stream_error option"
  ev_Attempt :: int
  ev_RetryIn :: duration

text \<open>An event with a kind and nothing else.\<close>

definition StreamEvent_of :: "StreamEventKind \<Rightarrow> StreamEvent" where
  "StreamEvent_of k = \<lparr>ev_Kind = k, ev_Seq = 0, ev_TS = 0, ev_ID = [], ev_ConnectionID = [], ev_Channel = [],
     ev_Markets = [], ev_Market = [], ev_Removed = [], ev_Subscribed = [], ev_Rejected = [], ev_Hello = None,
     ev_Gap = None, ev_Reason = [], ev_Code = [], ev_Message = [], ev_Err = None, ev_Attempt = 0, ev_RetryIn = 0\<rparr>"

definition IsRemoval :: "StreamEvent \<Rightarrow> bool" where
  "IsRemoval e = (ev_Kind e = StreamEventDelta \<and> ev_Removed e \<noteq> [])"

definition decodeServerFrame :: "(string \<Rightarrow> serverFrame option) \<Rightarrow> string \<Rightarrow> stream_error + serverFrame" where
  "decodeServerFrame unmarshal payload =
     (case unmarshal payload of
        None \<Rightarrow> Inl StreamProtocolError
      | Some f \<Rightarrow> if sv_Seq f = 0 then Inl StreamProtocolError else Inr f)"

definition eventFor :: "string \<Rightarrow> serverFrame \<Rightarrow> stream_error + StreamEvent" where
  "eventFor connID f =
     (let ev = (StreamEvent_of StreamEventPong)\<lparr>ev_Seq := sv_Seq f, ev_TS := sv_TS f, ev_ID := sv_ID f, ev_ConnectionID := connID\<rparr> in
      if sv_Type f = ''hello'' then
        (if sv_Protocol f \<noteq> StreamProtocol then Inl StreamProtocolError
         else Inr (ev\<lparr>ev_Kind := StreamEventHello, ev_ConnectionID := sv_ConnectionID f,
           ev_Hello := Some \<lparr>sh_ConnectionID = sv_ConnectionID f, sh_Protocol = sv_Protocol f,
             sh_Heartbeat = sv_HeartbeatSeconds f * second, sh_SessionID = sv_SessionID f, sh_Resumed = sv_Resumed f,
             sh_Authenticated = sv_Authenticated f, sh_Channels = sv_Channels f\<rparr>\<rparr>))
      else if sv_Type f = ''ack'' then
        Inr (ev\<lparr>ev_Kind := StreamEventAck, ev_Subscribed := sv_Subscribed f, ev_Rejected := sv_Rejected f\<rparr>)
      else if sv_Type f = ''snapshot'' then
        Inr (ev\<lparr>ev_Kind := StreamEventSnapshot, ev_Channel := sv_Channel f, ev_Markets := sv_Markets f\<rparr>)
      else if sv_Type f = ''delta'' then
        (if sv_Market f = [] \<and> sv_Removed f = [] then Inl StreamProtocolError
         else Inr (ev\<lparr>ev_Kind := StreamEventDelta, ev_Channel := sv_Channel f, ev_Market := sv_Market f, ev_Removed := sv_Removed f\<rparr>))
      else if sv_Type f = ''resync'' then
        Inr (ev\<lparr>ev_Kind := StreamEventResync, ev_Reason := sv_Reason f,
          ev_Gap := Some \<lparr>sg_From = sv_FromSeq f, sg_To = sv_ToSeq f, sg_Dropped = sv_Dropped f, sg_ServerReported = True\<rparr>\<rparr>)
      else if sv_Type f = ''error'' then
        Inr (ev\<lparr>ev_Kind := StreamEventError, ev_Code := sv_Code f, ev_Message := sv_Message f\<rparr>)
      else if sv_Type f = ''pong'' then Inr ev
      else Inl StreamProtocolError)"

section \<open>The stream\<close>

text \<open>
  The fields behind the mutex, the context that \<open>Close\<close> cancels, and two logs: the events that were
  queued, of which the application has taken the first \<open>st_taken\<close>, and the frames that were written,
  each with the socket it went to. A socket is named by the number of its dial.
\<close>

record Stream =
  st_sock :: "nat option"
  st_connID :: string
  st_desired :: "string list"
  st_requests :: uint64
  st_err :: "stream_error option"
  st_cancelled :: bool
  st_events :: "StreamEvent list"
  st_taken :: nat
  st_sent :: "(nat \<times> clientFrame) list"

definition nextRequestID :: "Stream \<Rightarrow> string \<times> Stream" where
  "nextRequestID s = (let n = st_requests s + 1 in (''r'' @ format_nat (unat n), s\<lparr>st_requests := n\<rparr>))"

text \<open>\<open>send\<close>: \<open>write\<close> is what the socket answers, if there is one. No socket is no error.\<close>

definition stream_send :: "stream_error option \<Rightarrow> clientFrame \<Rightarrow> Stream \<Rightarrow> stream_error option \<times> Stream" where
  "stream_send write f s =
     (case st_err s of
        Some e \<Rightarrow> (Some e, s)
      | None \<Rightarrow> (case st_sock s of
          None \<Rightarrow> (None, s)
        | Some k \<Rightarrow> (case write of
            Some e \<Rightarrow> (Some e, s)
          | None \<Rightarrow> (None, s\<lparr>st_sent := st_sent s @ [(k, f)]\<rparr>))))"

definition stream_request :: "stream_error option \<Rightarrow> string \<Rightarrow> string list \<Rightarrow> Stream \<Rightarrow> stream_error option \<times> Stream" where
  "stream_request write kind channels s =
     (case nextRequestID s of (i, s) \<Rightarrow> stream_send write \<lparr>cl_Type = kind, cl_ID = i, cl_Channels = channels\<rparr> s)"

definition containsString :: "string list \<Rightarrow> string \<Rightarrow> bool" where
  "containsString haystack needle = list_ex (\<lambda>s. s = needle) haystack"

definition removeStrings :: "string list \<Rightarrow> string list \<Rightarrow> string list" where
  "removeStrings fro rem = filter (\<lambda>s. \<not> containsString rem s) fro"

fun add_desired :: "string list \<Rightarrow> string list \<Rightarrow> string list" where
  "add_desired desired [] = desired"
| "add_desired desired (ch # chs) =
     add_desired (if containsString desired ch then desired else desired @ [ch]) chs"

section \<open>What the application calls\<close>

definition amend :: "stream_error option \<Rightarrow> string \<Rightarrow> string list \<Rightarrow> bool \<Rightarrow> Stream \<Rightarrow> stream_error option \<times> Stream" where
  "amend write kind channels add s =
     (if channels = [] then (Some StreamInvalidOptions, s)
      else case validStreamChannels channels of
        Inl e \<Rightarrow> (Some e, s)
      | Inr _ \<Rightarrow> (case st_err s of
          Some e \<Rightarrow> (Some e, s)
        | None \<Rightarrow> stream_request write kind channels
            (s\<lparr>st_desired := (if add then add_desired (st_desired s) channels else removeStrings (st_desired s) channels)\<rparr>)))"

definition Stream_Subscribe :: "stream_error option \<Rightarrow> string list \<Rightarrow> Stream \<Rightarrow> stream_error option \<times> Stream" where
  "Stream_Subscribe write channels = amend write ''subscribe'' channels True"

definition Stream_Unsubscribe :: "stream_error option \<Rightarrow> string list \<Rightarrow> Stream \<Rightarrow> stream_error option \<times> Stream" where
  "Stream_Unsubscribe write channels = amend write ''unsubscribe'' channels False"

definition Stream_Resync :: "stream_error option \<Rightarrow> string list \<Rightarrow> Stream \<Rightarrow> stream_error option \<times> Stream" where
  "Stream_Resync write channels s =
     (case validStreamChannels channels of
        Inl e \<Rightarrow> (Some e, s)
      | Inr _ \<Rightarrow> stream_request write ''resync'' channels s)"

definition Stream_Ping :: "stream_error option \<Rightarrow> Stream \<Rightarrow> stream_error option \<times> Stream" where
  "Stream_Ping write = stream_request write ''ping'' []"

definition Stream_Channels :: "Stream \<Rightarrow> string list" where "Stream_Channels s = st_desired s"
definition Stream_ConnectionID :: "Stream \<Rightarrow> string" where "Stream_ConnectionID s = st_connID s"

definition Stream_Close :: "Stream \<Rightarrow> Stream" where
  "Stream_Close s =
     s\<lparr>st_err := (if st_err s = None then Some StreamClosed else st_err s), st_sock := None, st_cancelled := True\<rparr>"

text \<open>
  \<open>Next\<close>: the oldest event that is queued, or, once the goroutine is done and nothing is queued, the
  error the stream ended with. A call that would block has no value.
\<close>

definition Stream_Next :: "bool \<Rightarrow> Stream \<Rightarrow> ((stream_error option + StreamEvent) \<times> Stream) option" where
  "Stream_Next finished s =
     (if st_taken s < length (st_events s)
      then Some (Inr (st_events s ! st_taken s), s\<lparr>st_taken := Suc (st_taken s)\<rparr>)
      else if finished then Some (Inl (st_err s), s) else None)"

section \<open>One connection\<close>

text \<open>
  \<open>emit\<close> waits for room in the buffer: the step is one that happens when there is room, and a stream whose
  application does not call \<open>Next\<close> takes no further steps. Only a cancelled context can make it give up, and then it is
  \<open>queued\<close> that says whether it did.
\<close>

definition emit :: "bool \<Rightarrow> StreamEvent \<Rightarrow> Stream \<Rightarrow> bool \<times> Stream" where
  "emit queued ev s =
     (if st_cancelled s \<and> \<not> queued then (False, s)
      else (True, s\<lparr>st_events := st_events s @
        [if ev_ConnectionID ev = [] then ev\<lparr>ev_ConnectionID := st_connID s\<rparr> else ev]\<rparr>))"

definition adopt :: "nat option \<Rightarrow> string \<Rightarrow> Stream \<Rightarrow> Stream" where
  "adopt sock connID s =
     (if st_err s \<noteq> None \<and> sock \<noteq> None then s else s\<lparr>st_sock := sock, st_connID := connID\<rparr>)"

definition finish :: "stream_error option \<Rightarrow> Stream \<Rightarrow> Stream" where
  "finish err s =
     s\<lparr>st_err := (if st_err s = None then Some (case err of None \<Rightarrow> StreamClosed | Some e \<Rightarrow> e) else st_err s),
       st_sock := None\<rparr>"

text \<open>The locals of \<open>serve\<close>: the number that is expected next (0: any), and whether a resync was asked for.\<close>

record serving =
  expect :: uint64
  resyncPending :: bool

text \<open>What one iteration meets: a payload or the end of the connection, and what its emits and its send answer.\<close>

record ServeInput =
  si_receive :: "stream_error + string"
  si_gap_queued :: bool
  si_write :: "stream_error option"
  si_queued :: bool

text \<open>Asking for everything again, unless that was done and not answered.\<close>

definition ask_resync :: "stream_error option \<Rightarrow> serving \<Rightarrow> Stream \<Rightarrow> (stream_error + serving) \<times> Stream" where
  "ask_resync write l s =
     (if resyncPending l then (Inr l, s)
      else case stream_request write ''resync'' [] s of
        (Some e, s) \<Rightarrow> (Inl e, s)
      | (None, s) \<Rightarrow> (Inr (l\<lparr>resyncPending := True\<rparr>), s))"

definition check_sequence :: "ServeInput \<Rightarrow> serverFrame \<Rightarrow> serving \<Rightarrow> Stream \<Rightarrow> (stream_error + serving) \<times> Stream" where
  "check_sequence i f l s =
     (if expect l = 0 \<or> sv_Seq f = expect l then (Inr l, s)
      else if sv_Seq f < expect l then (Inl StreamProtocolError, s)
      else case emit (si_gap_queued i) ((StreamEvent_of StreamEventGap)\<lparr>ev_ConnectionID := st_connID s, ev_TS := sv_TS f,
          ev_Gap := Some \<lparr>sg_From = expect l, sg_To = sv_Seq f - 1, sg_Dropped = sv_Seq f - expect l, sg_ServerReported = False\<rparr>\<rparr>) s of
        (False, s) \<Rightarrow> (Inl StreamClosed, s)
      | (True, s) \<Rightarrow> ask_resync (si_write i) l s)"

text \<open>After the check of its number a frame is turned into its event, acted on, and handed over.\<close>

definition serve_frame :: "ServeInput \<Rightarrow> serverFrame \<Rightarrow> serving \<Rightarrow> Stream \<Rightarrow> (stream_error + serving) \<times> Stream" where
  "serve_frame i f l s =
     (case eventFor (st_connID s) f of
        Inl e \<Rightarrow> (Inl e, s)
      | Inr ev \<Rightarrow>
          if sv_Type f = ''hello'' then (Inl StreamProtocolError, s)
          else case (if sv_Type f = ''snapshot'' then (Inr (l\<lparr>resyncPending := False\<rparr>), s)
                     else if sv_Type f = ''resync'' then ask_resync (si_write i) l s
                     else (Inr l, s)) of
            (Inl e, s) \<Rightarrow> (Inl e, s)
          | (Inr l, s) \<Rightarrow> (case emit (si_queued i) ev s of
              (False, s) \<Rightarrow> (Inl StreamClosed, s)
            | (True, s) \<Rightarrow> (Inr l, s)))"

definition serve_once ::
  "(string \<Rightarrow> serverFrame option) \<Rightarrow> ServeInput \<Rightarrow> serving \<Rightarrow> Stream \<Rightarrow> (stream_error + serving) \<times> Stream" where
  "serve_once unmarshal i l s =
     (case bindE (si_receive i) (decodeServerFrame unmarshal) of
        Inl e \<Rightarrow> (Inl e, s)
      | Inr f \<Rightarrow> (case check_sequence i f l s of
          (Inl e, s) \<Rightarrow> (Inl e, s)
        | (Inr l, s) \<Rightarrow> serve_frame i f (l\<lparr>expect := sv_Seq f + 1\<rparr>) s))"

section \<open>Connecting\<close>

text \<open>
  What a dial meets: the credential (empty for an anonymous stream), whether the dialer connects with
  the offered subprotocols, the subprotocol the server selected, the first payload, and what the subscribe's write answers.
\<close>

record ConnectInput =
  ci_token :: "stream_error + string"
  ci_dial :: "string list \<Rightarrow> stream_error option"
  ci_subprotocol :: string
  ci_receive :: "stream_error + string"
  ci_write :: "stream_error option"

definition offers :: "string \<Rightarrow> string list" where
  "offers token = StreamProtocol # (if token \<noteq> [] then [bearerSubprotocolPrefix @ token] else [])"

definition read_hello :: "(string \<Rightarrow> serverFrame option) \<Rightarrow> ConnectInput \<Rightarrow> string \<Rightarrow> stream_error + StreamEvent" where
  "read_hello unmarshal i connID =
     bindE (ci_token i) (\<lambda>token.
     case ci_dial i (offers token) of
       Some e \<Rightarrow> Inl e
     | None \<Rightarrow>
         if ci_subprotocol i \<noteq> StreamProtocol then Inl StreamProtocolError
         else bindE (bindE (ci_receive i) (decodeServerFrame unmarshal)) (\<lambda>f.
           if sv_Type f = ''error'' then Inl StreamProtocolError
           else if sv_Type f \<noteq> ''hello'' then Inl StreamProtocolError
           else eventFor connID f))"

text \<open>The channels to ask for: those of the desired set that the server did not restore.\<close>

definition wanted :: "Stream \<Rightarrow> string list \<Rightarrow> string list" where
  "wanted s restored = filter (\<lambda>ch. \<not> containsString restored ch) (st_desired s)"

definition hello_channels_of :: "StreamEvent \<Rightarrow> string list" where
  "hello_channels_of ev = (case ev_Hello ev of None \<Rightarrow> [] | Some h \<Rightarrow> sh_Channels h)"

definition hello_connection_of :: "StreamEvent \<Rightarrow> string" where
  "hello_connection_of ev = (case ev_Hello ev of None \<Rightarrow> [] | Some h \<Rightarrow> sh_ConnectionID h)"

definition Stream_connect ::
  "(string \<Rightarrow> serverFrame option) \<Rightarrow> ConnectInput \<Rightarrow> nat \<Rightarrow> Stream \<Rightarrow> (stream_error + StreamEvent) \<times> Stream" where
  "Stream_connect unmarshal i k s =
     (case read_hello unmarshal i (st_connID s) of
        Inl e \<Rightarrow> (Inl e, s)
      | Inr ev \<Rightarrow> (case st_err s of
          Some e \<Rightarrow> (Inl e, s)
        | None \<Rightarrow>
            let want = wanted s (hello_channels_of ev); n = st_requests s + 1;
                s = s\<lparr>st_sock := Some k, st_connID := hello_connection_of ev, st_requests := n\<rparr> in
            if want = [] then (Inr ev, s)
            else (case stream_send (ci_write i)
                \<lparr>cl_Type = ''subscribe'', cl_ID = ''r'' @ format_nat (unat n), cl_Channels = want\<rparr> s of
              (Some e, s) \<Rightarrow> (Inl e, adopt None [] s)
            | (None, s) \<Rightarrow> (Inr ev, s))))"

section \<open>The connection loop\<close>

text \<open>
  Where \<open>run\<close> stands: about to serve a connection, serving it, about to dial, or done, which it also is
  once it has panicked. The other locals
  are the attempt counter, the last failure, the connection that ended last, and the number of dials.
\<close>

datatype run_pc = Opening StreamEvent | Serving StreamEvent serving | Dialling | Done

record Run =
  ru_stream :: Stream
  ru_pc :: run_pc
  ru_attempt :: int
  ru_last :: "stream_error option"
  ru_lastConn :: string
  ru_dials :: nat
  ru_panicked :: bool

record StreamConfig =
  sc_backoff :: StreamBackoff
  sc_reconnect :: bool

text \<open>
  What a step of the loop meets: an iteration of \<open>serve\<close>, how long the connection was served, the dial,
  and what the emits and the sleep answer when the context is cancelled.
\<close>

record RunInput =
  ri_serve :: ServeInput
  ri_served :: duration
  ri_connect :: ConnectInput
  ri_jitter :: f64
  ri_queued :: bool
  ri_slept :: bool

definition run_done :: "stream_error option \<Rightarrow> Run \<Rightarrow> Run" where
  "run_done err r = r\<lparr>ru_stream := finish err (ru_stream r), ru_pc := Done\<rparr>"

definition run_panic :: "Run \<Rightarrow> Run" where
  "run_panic r = r\<lparr>ru_pc := Done, ru_panicked := True\<rparr>"

definition disconnected :: "Run \<Rightarrow> StreamEvent" where
  "disconnected r = (StreamEvent_of StreamEventDisconnected)\<lparr>ev_ConnectionID := ru_lastConn r, ev_Err := ru_last r,
     ev_Attempt := ru_attempt r\<rparr>"

text \<open>The second half of an iteration, from \<open>attempt++\<close> to the dial.\<close>

definition run_retry :: "StreamConfig \<Rightarrow> RunInput \<Rightarrow> Run \<Rightarrow> Run" where
  "run_retry cfg i r0 =
     (let r = r0\<lparr>ru_attempt := ru_attempt r0 + 1\<rparr> in
      if \<not> sc_reconnect cfg then
        run_done (ru_last r) (r\<lparr>ru_stream := snd (emit (ri_queued i) (disconnected r) (ru_stream r))\<rparr>)
      else if StreamBackoff_exhausted (sc_backoff cfg) (ru_attempt r) then
        run_done (Some (ReconnectExhausted (ru_last r)))
          (r\<lparr>ru_stream := snd (emit (ri_queued i) (disconnected r) (ru_stream r))\<rparr>)
      else case StreamBackoff_delay (sc_backoff cfg) (ri_jitter i) (ru_attempt r) of
        None \<Rightarrow> run_panic r
      | Some wait \<Rightarrow>
          (case emit (ri_queued i) ((disconnected r)\<lparr>ev_RetryIn := wait\<rparr>) (ru_stream r) of
             (False, s) \<Rightarrow> run_done (Some StreamClosed) (r\<lparr>ru_stream := s\<rparr>)
           | (True, s) \<Rightarrow>
               if st_cancelled s \<and> \<not> ri_slept i then run_done (Some StreamClosed) (r\<lparr>ru_stream := s\<rparr>)
               else r\<lparr>ru_stream := s, ru_pc := Dialling\<rparr>))"

text \<open>What follows the return of \<open>serve\<close>.\<close>

definition run_ended :: "StreamConfig \<Rightarrow> RunInput \<Rightarrow> StreamEvent \<Rightarrow> stream_error \<Rightarrow> Run \<Rightarrow> Run" where
  "run_ended cfg i hello err r0 =
     (let r = r0\<lparr>ru_stream := adopt None [] (ru_stream r0), ru_last := Some err, ru_lastConn := ev_ConnectionID hello\<rparr> in
      if st_cancelled (ru_stream r) then run_done (Some StreamClosed) r
      else if is_protocol_error err then
        run_done (Some err) (r\<lparr>ru_stream := snd (emit (ri_queued i)
          ((StreamEvent_of StreamEventDisconnected)\<lparr>ev_ConnectionID := ru_lastConn r, ev_Err := Some err\<rparr>) (ru_stream r))\<rparr>)
      else run_retry cfg i
        (if StreamBackoff_maxDelay (sc_backoff cfg) < ri_served i then r\<lparr>ru_attempt := 0\<rparr> else r))"

definition run_step :: "(string \<Rightarrow> serverFrame option) \<Rightarrow> StreamConfig \<Rightarrow> RunInput \<Rightarrow> Run \<Rightarrow> Run" where
  "run_step unmarshal cfg i r =
     (case ru_pc r of
        Done \<Rightarrow> r
      | Opening hello \<Rightarrow>
          (case emit (ri_queued i) hello (adopt (Some (ru_dials r)) (ev_ConnectionID hello) (ru_stream r)) of
             (False, s) \<Rightarrow> run_done (Some StreamClosed) (r\<lparr>ru_stream := s\<rparr>)
           | (True, s) \<Rightarrow> r\<lparr>ru_stream := s, ru_pc := Serving hello \<lparr>expect = ev_Seq hello + 1, resyncPending = False\<rparr>\<rparr>)
      | Serving hello l \<Rightarrow>
          (case serve_once unmarshal (ri_serve i) l (ru_stream r) of
             (Inl e, s) \<Rightarrow> run_ended cfg i hello e (r\<lparr>ru_stream := s\<rparr>)
           | (Inr l, s) \<Rightarrow> r\<lparr>ru_stream := s, ru_pc := Serving hello l\<rparr>)
      | Dialling \<Rightarrow>
          (case Stream_connect unmarshal (ri_connect i) (Suc (ru_dials r)) (ru_stream r) of
             (Inl e, s) \<Rightarrow>
               let r = r\<lparr>ru_stream := s, ru_dials := Suc (ru_dials r)\<rparr> in
               if st_cancelled s then run_done (Some StreamClosed) r
               else run_retry cfg i (r\<lparr>ru_last := Some e\<rparr>)
           | (Inr hello, s) \<Rightarrow> r\<lparr>ru_stream := s, ru_dials := Suc (ru_dials r), ru_pc := Opening hello\<rparr>))"

definition Client_Stream ::
  "(string \<Rightarrow> serverFrame option) \<Rightarrow> string list \<Rightarrow> ConnectInput \<Rightarrow> stream_error + Run" where
  "Client_Stream unmarshal channels i =
     bindE (validStreamChannels channels) (\<lambda>_.
       case Stream_connect unmarshal i 1 \<lparr>st_sock = None, st_connID = [], st_desired = channels, st_requests = 0,
           st_err = None, st_cancelled = False, st_events = [], st_taken = 0, st_sent = []\<rparr> of
         (Inl e, _) \<Rightarrow> Inl e
       | (Inr hello, s) \<Rightarrow> Inr \<lparr>ru_stream = s, ru_pc = Opening hello, ru_attempt = 0, ru_last = None,
           ru_lastConn = [], ru_dials = 1, ru_panicked = False\<rparr>)"

text \<open>What the application does between two steps of the goroutine.\<close>

datatype caller =
    CallSubscribe "string list" "stream_error option"
  | CallUnsubscribe "string list" "stream_error option"
  | CallResync "string list" "stream_error option"
  | CallPing "stream_error option"
  | CallNext
  | CallClose

definition call_step :: "caller \<Rightarrow> Run \<Rightarrow> Run" where
  "call_step c r = r\<lparr>ru_stream := (case c of
      CallSubscribe chs write \<Rightarrow> snd (Stream_Subscribe write chs (ru_stream r))
    | CallUnsubscribe chs write \<Rightarrow> snd (Stream_Unsubscribe write chs (ru_stream r))
    | CallResync chs write \<Rightarrow> snd (Stream_Resync write chs (ru_stream r))
    | CallPing write \<Rightarrow> snd (Stream_Ping write (ru_stream r))
    | CallNext \<Rightarrow> (case Stream_Next (ru_pc r = Done) (ru_stream r) of None \<Rightarrow> ru_stream r | Some (_, s) \<Rightarrow> s)
    | CallClose \<Rightarrow> Stream_Close (ru_stream r))\<rparr>"

text \<open>A history of a stream: steps of its goroutine and calls of the application, in any order.\<close>

fun stream_run ::
  "(string \<Rightarrow> serverFrame option) \<Rightarrow> StreamConfig \<Rightarrow> (RunInput + caller) list \<Rightarrow> Run \<Rightarrow> Run" where
  "stream_run unmarshal cfg [] r = r"
| "stream_run unmarshal cfg (Inl i # steps) r = stream_run unmarshal cfg steps (run_step unmarshal cfg i r)"
| "stream_run unmarshal cfg (Inr c # steps) r = stream_run unmarshal cfg steps (call_step c r)"

end
