(* ===== verification/ClientTrace.thy ===== *)
theory ClientTrace
  imports ClientStream GatewayView
begin

text \<open>
  What an application can conclude from the events of a stream: how they account for the numbers of a
  connection, when a resync is asked for, how long the stream waits, and when it ends.
\<close>

section \<open>Calls and emits\<close>

lemma emit_eq:
  "emit queued ev s = (b, s') \<longleftrightarrow>
     b = (queued \<or> \<not> st_cancelled s) \<and>
     s' = (if b then s\<lparr>st_events := st_events s @
       [if ev_ConnectionID ev = [] then ev\<lparr>ev_ConnectionID := st_connID s\<rparr> else ev]\<rparr> else s)"
  by (auto simp: emit_def)

lemma stream_send_keeps:
  assumes "stream_send write f s = (e, s')"
  shows "st_events s' = st_events s" "st_cancelled s' = st_cancelled s" "st_connID s' = st_connID s"
    "st_desired s' = st_desired s" "st_err s' = st_err s" "st_sock s' = st_sock s" "st_requests s' = st_requests s"
  using assms by (auto simp: stream_send_def split: option.splits)

lemma stream_request_keeps:
  assumes "stream_request write kind chs s = (e, s')"
  shows "st_events s' = st_events s" "st_cancelled s' = st_cancelled s" "st_connID s' = st_connID s"
    "st_desired s' = st_desired s" "st_err s' = st_err s" "st_sock s' = st_sock s"
  using stream_send_keeps assms by (fastforce simp: stream_request_def nextRequestID_def Let_def)+

lemma calls_keep_events [simp]:
  "st_events (snd (amend write kind chs add s)) = st_events s"
  "st_events (snd (Stream_Subscribe write chs s)) = st_events s"
  "st_events (snd (Stream_Unsubscribe write chs s)) = st_events s"
  "st_events (snd (Stream_Resync write chs s)) = st_events s"
  "st_events (snd (Stream_Ping write s)) = st_events s"
  "st_events (Stream_Close s) = st_events s"
proof -
  have r: "st_events (snd (stream_request write kind chs s)) = st_events s" for kind chs s
    using stream_request_keeps(1) by (metis prod.collapse)
  show a: "st_events (snd (amend write kind chs add s)) = st_events s" for kind chs add
    by (simp add: amend_def r split: sum.splits option.splits)
  show "st_events (snd (Stream_Subscribe write chs s)) = st_events s"
    "st_events (snd (Stream_Unsubscribe write chs s)) = st_events s" by (simp_all add: Stream_Subscribe_def Stream_Unsubscribe_def a)
  show "st_events (snd (Stream_Resync write chs s)) = st_events s" by (simp add: Stream_Resync_def r split: sum.splits)
  show "st_events (snd (Stream_Ping write s)) = st_events s" by (simp add: Stream_Ping_def r)
  show "st_events (Stream_Close s) = st_events s" by (simp add: Stream_Close_def)
qed

lemma Stream_Next_events: "Stream_Next fin s = Some (r, s') \<Longrightarrow> st_events s' = st_events s"
  by (auto simp: Stream_Next_def split: if_splits)

lemma call_step_keeps [simp]:
  "ru_pc (call_step c r) = ru_pc r" "ru_dials (call_step c r) = ru_dials r" "ru_attempt (call_step c r) = ru_attempt r"
  "st_events (ru_stream (call_step c r)) = st_events (ru_stream r)"
  by (simp_all add: call_step_def) (cases c; auto simp: Stream_Next_events split: option.splits)

lemma ask_resync_ok:
  assumes "ask_resync write l s = (Inr l', s')"
  shows "l' = l\<lparr>resyncPending := True\<rparr>" "st_events s' = st_events s" "st_connID s' = st_connID s"
proof -
  show "l' = l\<lparr>resyncPending := True\<rparr>"
    using assms by (cases l) (auto simp: ask_resync_def split: if_splits prod.splits option.splits)
  show "st_events s' = st_events s" "st_connID s' = st_connID s"
    using assms stream_request_keeps(1,3) by (auto simp: ask_resync_def split: if_splits prod.splits option.splits)
qed

definition gap_event :: "serverFrame \<Rightarrow> serving \<Rightarrow> Stream \<Rightarrow> StreamEvent \<Rightarrow> bool" where
  "gap_event f l s ev = (ev_Kind ev = StreamEventGap \<and>
     ev_Gap ev = Some \<lparr>sg_From = expect l, sg_To = sv_Seq f - 1, sg_Dropped = sv_Seq f - expect l, sg_ServerReported = False\<rparr>)"

lemma check_sequence_ok:
  assumes "check_sequence i f l s = (Inr l', s')"
  obtains (in_step) "expect l = 0 \<or> sv_Seq f = expect l" "l' = l" "s' = s"
  | (hole) ev where "expect l \<noteq> 0" "expect l < sv_Seq f" "l' = l\<lparr>resyncPending := True\<rparr>" "st_connID s' = st_connID s"
      "st_events s' = st_events s @ [ev]" "gap_event f l s ev"
proof (cases "expect l = 0 \<or> sv_Seq f = expect l")
  case True
  have "check_sequence i f l s = (Inr l, s)" unfolding check_sequence_def by (rule if_P [OF True])
  then show ?thesis using assms by (intro in_step [OF True]) simp_all
next
  case False
  then have nz: "expect l \<noteq> 0" and ne: "sv_Seq f \<noteq> expect l" by simp_all
  have nl: "\<not> sv_Seq f < expect l" using assms nz ne by (cases "sv_Seq f < expect l") (simp_all add: check_sequence_def)
  then have less: "expect l < sv_Seq f" using ne by simp
  let ?ev = "(StreamEvent_of StreamEventGap)\<lparr>ev_ConnectionID := st_connID s, ev_TS := sv_TS f,
          ev_Gap := Some \<lparr>sg_From = expect l, sg_To = sv_Seq f - 1, sg_Dropped = sv_Seq f - expect l, sg_ServerReported = False\<rparr>\<rparr>"
  obtain s1 where e: "emit (si_gap_queued i) ?ev s = (True, s1)" "ask_resync (si_write i) l s1 = (Inr l', s')"
  proof (cases "emit (si_gap_queued i) ?ev s")
    case (Pair b s1)
    then have "b \<and> ask_resync (si_write i) l s1 = (Inr l', s')"
      using assms nz ne nl by (cases b) (simp_all add: check_sequence_def)
    then show ?thesis using Pair that by simp
  qed
  have s1: "\<exists>ev. st_events s1 = st_events s @ [ev] \<and> gap_event f l s ev" "st_connID s1 = st_connID s"
    using e(1) by (auto simp: emit_eq gap_event_def StreamEvent_of_def)
  obtain ev where "st_events s1 = st_events s @ [ev]" "gap_event f l s ev" using s1(1) by blast
  then show ?thesis using ask_resync_ok [OF e(2)] s1(2) less nz hole by simp
qed

section \<open>The numbers an event accounts for\<close>

definition covers :: "StreamEvent \<Rightarrow> nat list" where
  "covers ev = (case ev_Kind ev of
      StreamEventGap \<Rightarrow> (case ev_Gap ev of None \<Rightarrow> [] | Some g \<Rightarrow> [unat (sg_From g)..<Suc (unat (sg_To g))])
    | StreamEventDisconnected \<Rightarrow> []
    | _ \<Rightarrow> [unat (ev_Seq ev)])"

lemma covers_seq: "ev_Kind ev \<noteq> StreamEventGap \<Longrightarrow> ev_Kind ev \<noteq> StreamEventDisconnected \<Longrightarrow> covers ev = [unat (ev_Seq ev)]"
  by (auto simp: covers_def split: StreamEventKind.splits)

lemma covers_named [simp]: "covers (ev\<lparr>ev_ConnectionID := c\<rparr>) = covers ev"
  by (cases "ev_Kind ev") (simp_all add: covers_def)

lemma covers_gap:
  assumes "gap_event f l s ev" "expect l < sv_Seq f"
  shows "covers ev = [unat (expect l)..<unat (sv_Seq f)]"
proof -
  have "unat (expect l) < unat (sv_Seq f)" using assms(2) by (simp add: word_less_nat_alt)
  then have "Suc (unat (sv_Seq f - 1)) = unat (sv_Seq f)"
    by (metis Suc_pred' gr_implies_not0 less_nat_zero_code neq0_conv unat_eq_zero unat_minus_one)
  then show ?thesis using assms(1) by (simp add: covers_def gap_event_def)
qed

lemma eventFor_seq:
  assumes "eventFor c f = Inr ev"
  shows "ev_Seq ev = sv_Seq f" "ev_Kind ev \<noteq> StreamEventGap" "ev_Kind ev \<noteq> StreamEventDisconnected"
  using assms by (auto simp: eventFor_def Let_def StreamEvent_of_def split: if_splits)

lemma serve_frame_ok:
  assumes "serve_frame i f l s = (Inr l', s')"
  obtains ev where "eventFor (st_connID s) f = Inr ev" "sv_Type f \<noteq> ''hello''"
    "st_events s' = st_events s @ [if ev_ConnectionID ev = [] then ev\<lparr>ev_ConnectionID := st_connID s\<rparr> else ev]"
    "expect l' = expect l" "st_connID s' = st_connID s"
    "resyncPending l' = (if sv_Type f = ''snapshot'' then False else if sv_Type f = ''resync'' then True else resyncPending l)"
proof -
  obtain ev where ev: "eventFor (st_connID s) f = Inr ev" "sv_Type f \<noteq> ''hello''"
    using assms by (auto simp: serve_frame_def split: sum.splits if_splits)
  define act where "act = (if sv_Type f = ''snapshot'' then (Inr (l\<lparr>resyncPending := False\<rparr>), s)
                     else if sv_Type f = ''resync'' then ask_resync (si_write i) l s else (Inr l, s))"
  obtain l1 s1 where a: "act = (Inr l1, s1)" "emit (si_queued i) ev s1 = (True, s')" "l' = l1"
    using assms ev unfolding serve_frame_def act_def [symmetric]
    by (auto split: prod.splits sum.splits bool.splits)
  have l1: "expect l1 = expect l" "st_connID s1 = st_connID s" "st_events s1 = st_events s"
    "resyncPending l1 = (if sv_Type f = ''snapshot'' then False else if sv_Type f = ''resync'' then True else resyncPending l)"
    using a(1) ask_resync_ok [of "si_write i" l s l1 s1] unfolding act_def by (auto split: if_splits)
  have e: "st_events s' = st_events s @ [if ev_ConnectionID ev = [] then ev\<lparr>ev_ConnectionID := st_connID s\<rparr> else ev]"
    "st_connID s' = st_connID s" using a(2) l1 by (simp_all add: emit_eq)
  show thesis by (rule that [OF ev e(1) _ e(2)]) (use a(3) l1 in simp_all)
qed

text \<open>An iteration hands over the event of its frame, after that of the gap before it.\<close>

definition named :: "Stream \<Rightarrow> StreamEvent \<Rightarrow> StreamEvent" where
  "named s ev = (if ev_ConnectionID ev = [] then ev\<lparr>ev_ConnectionID := st_connID s\<rparr> else ev)"

lemma named_covers [simp]: "covers (named s ev) = covers ev"
  by (simp add: named_def)

lemma serve_once_event:
  assumes "serve_once unmarshal i l s = (Inr l', s')"
  obtains f ev where "bindE (si_receive i) (decodeServerFrame unmarshal) = Inr f"
    "eventFor (st_connID s) f = Inr ev" "sv_Type f \<noteq> ''hello''" "expect l' = sv_Seq f + 1"
    "(expect l = 0 \<or> expect l = sv_Seq f) \<and> st_events s' = st_events s @ [named s ev] \<or>
      expect l < sv_Seq f \<and> expect l \<noteq> 0 \<and>
        (\<exists>g. gap_event f l s g \<and> st_events s' = st_events s @ [g, named s ev])"
proof -
  obtain f where f: "bindE (si_receive i) (decodeServerFrame unmarshal) = Inr f"
    using assms by (auto simp: serve_once_def split: sum.splits)
  obtain l1 s1 where c: "check_sequence i f l s = (Inr l1, s1)" "serve_frame i f (l1\<lparr>expect := sv_Seq f + 1\<rparr>) s1 = (Inr l', s')"
    using assms by (auto simp: serve_once_def f split: prod.splits sum.splits)
  obtain ev where ev: "eventFor (st_connID s1) f = Inr ev" "sv_Type f \<noteq> ''hello''"
    "st_events s' = st_events s1 @ [named s1 ev]" "expect l' = sv_Seq f + 1"
    by (rule serve_frame_ok [OF c(2)]) (simp add: named_def)
  from c(1) show thesis
  proof (cases rule: check_sequence_ok)
    case in_step
    then show ?thesis using ev by (intro that [OF f, of ev]) auto
  next
    case (hole g)
    then have "named s1 ev = named s ev" by (simp add: named_def)
    then show ?thesis using ev hole by (intro that [OF f, of ev]) auto
  qed
qed

lemma serve_once_ok:
  assumes "serve_once unmarshal i l s = (Inr l', s')"
  obtains f new where "bindE (si_receive i) (decodeServerFrame unmarshal) = Inr f" "st_events s' = st_events s @ new"
    "expect l' = sv_Seq f + 1" "expect l = 0 \<or> expect l \<le> sv_Seq f"
    "concat (map covers new) = (if expect l = 0 then [] else [unat (expect l)..<unat (sv_Seq f)]) @ [unat (sv_Seq f)]"
proof -
  obtain f ev where f: "bindE (si_receive i) (decodeServerFrame unmarshal) = Inr f"
    "eventFor (st_connID s) f = Inr ev" "expect l' = sv_Seq f + 1"
    and e: "(expect l = 0 \<or> expect l = sv_Seq f) \<and> st_events s' = st_events s @ [named s ev] \<or>
      expect l < sv_Seq f \<and> expect l \<noteq> 0 \<and>
        (\<exists>g. gap_event f l s g \<and> st_events s' = st_events s @ [g, named s ev])"
    by (rule serve_once_event [OF assms])
  have cov: "covers ev = [unat (sv_Seq f)]" using eventFor_seq [OF f(2)] by (simp add: covers_seq)
  from e show thesis
  proof
    assume "(expect l = 0 \<or> expect l = sv_Seq f) \<and> st_events s' = st_events s @ [named s ev]"
    then show ?thesis using f cov by (intro that [of f "[named s ev]"]) auto
  next
    assume h: "expect l < sv_Seq f \<and> expect l \<noteq> 0 \<and>
        (\<exists>g. gap_event f l s g \<and> st_events s' = st_events s @ [g, named s ev])"
    then obtain g where g: "gap_event f l s g" "st_events s' = st_events s @ [g, named s ev]" by blast
    then show ?thesis using h f cov covers_gap [OF g(1)] by (intro that [of f "[g, named s ev]"]) (simp_all add: less_imp_le)
  qed
qed

section \<open>A history of the stream\<close>

lemma run_step_dials: "ru_dials r \<le> ru_dials (run_step unmarshal cfg i r)"
  by (simp add: run_step_def run_retry_def run_ended_def run_done_def run_panic_def Let_def
      split: run_pc.split prod.split sum.split bool.split option.split)

lemma stream_run_append:
  "stream_run unmarshal cfg (xs @ ys) r = stream_run unmarshal cfg ys (stream_run unmarshal cfg xs r)"
  by (induction unmarshal cfg xs r rule: stream_run.induct) simp_all

text \<open>An invariant that every step keeps holds in every history.\<close>

lemma stream_run_induct:
  assumes "P r" "\<And>i r. Inl i \<in> set steps \<Longrightarrow> P r \<Longrightarrow> P (run_step unmarshal cfg i r)"
    "\<And>c r. Inr c \<in> set steps \<Longrightarrow> P r \<Longrightarrow> P (call_step c r)"
  shows "P (stream_run unmarshal cfg steps r)"
  using assms
proof (induction steps arbitrary: r)
  case (Cons x steps)
  then show ?case by (cases x) simp_all
qed simp

lemma run_ended_pc: "ru_pc (run_ended cfg i hello e r) \<in> {Dialling, Done}"
  by (simp add: run_ended_def run_retry_def run_done_def run_panic_def Let_def split: prod.split bool.split option.split)

lemma run_retry_pc: "ru_pc (run_retry cfg i r) \<in> {Dialling, Done}"
  by (simp add: run_retry_def run_done_def run_panic_def Let_def split: prod.split bool.split option.split)

lemma run_keeps_dials [simp]:
  "ru_dials (run_done err r) = ru_dials r" "ru_dials (run_retry cfg i r) = ru_dials r"
  "ru_dials (run_ended cfg i h e r) = ru_dials r"
  by (simp_all add: run_done_def run_panic_def run_retry_def run_ended_def Let_def split: prod.split bool.split option.split)

lemma run_step_dialling: "ru_pc r = Dialling \<Longrightarrow> ru_dials (run_step unmarshal cfg i r) = Suc (ru_dials r)"
  by (simp add: run_step_def Let_def split: prod.split sum.split)

text \<open>The events since a connection was opened, in terms of where its loop stands.\<close>

definition accounted :: "StreamEvent list \<Rightarrow> nat \<Rightarrow> StreamEvent \<Rightarrow> Run \<Rightarrow> bool" where
  "accounted evs d hello r =
     (d \<le> ru_dials r \<and>
      (ru_dials r = d \<longrightarrow>
        (case ru_pc r of
           Opening h \<Rightarrow> h = hello \<and> st_events (ru_stream r) = evs
         | Serving h l \<Rightarrow> expect l \<noteq> 0 \<and> unat (ev_Seq hello) \<le> unat (expect l) \<and>
             (\<exists>new. st_events (ru_stream r) = evs @ new \<and>
               concat (map covers new) = [unat (ev_Seq hello)..<unat (expect l)])
         | _ \<Rightarrow> True)))"

lemma accounted_call: "accounted evs d hello r \<Longrightarrow> accounted evs d hello (call_step c r)"
  by (cases "ru_pc r") (simp_all add: accounted_def)

lemma succ_seq: "(x :: uint64) \<noteq> - 1 \<Longrightarrow> x + 1 \<noteq> 0 \<and> unat (x + 1) = Suc (unat x)"
  by (metis add.commute add_eq_0_iff neg_equal_iff_equal minus_minus unatSuc)

lemma upt_glue: "a \<le> b \<Longrightarrow> b \<le> c \<Longrightarrow> [a..<b] @ [b..<c] @ [c] = [a..<Suc c]" for a b c :: nat
  using upt_add_eq_append [of a b "Suc c - b"] by simp

lemma accounted_step:
  assumes inv: "accounted evs d hello r"
    and hello: "ev_Kind hello = StreamEventHello" "ev_Seq hello \<noteq> - 1"
    and seqs: "\<And>p f. unmarshal p = Some f \<Longrightarrow> sv_Seq f \<noteq> - 1"
  shows "accounted evs d hello (run_step unmarshal cfg i r)"
proof (cases "ru_dials (run_step unmarshal cfg i r) = d \<and> ru_pc (run_step unmarshal cfg i r) \<notin> {Dialling, Done}")
  case False
  have "d \<le> ru_dials (run_step unmarshal cfg i r)" using inv run_step_dials [of r unmarshal cfg i] by (simp add: accounted_def)
  then show ?thesis using False by (auto simp: accounted_def split: run_pc.splits)
next
  case True
  let ?r = "run_step unmarshal cfg i r"
  have d: "ru_dials r = d" using True inv run_step_dials [of r unmarshal cfg i] by (simp add: accounted_def)
  show ?thesis
  proof (cases "ru_pc r")
    case (Opening h)
    then have h: "h = hello" "st_events (ru_stream r) = evs" using inv d by (simp_all add: accounted_def)
    let ?s = "adopt (Some (ru_dials r)) (ev_ConnectionID hello) (ru_stream r)"
    obtain b s where e: "emit (ri_queued i) hello ?s = (b, s)" by fastforce
    then have b: b using True Opening h by (cases b) (simp_all add: run_step_def run_done_def)
    have "st_events ?s = evs" using h by (simp add: adopt_def)
    then have "\<exists>ev. st_events s = evs @ [ev] \<and> covers ev = [unat (ev_Seq hello)]"
      using e b hello(1) by (auto simp: emit_eq covers_seq)
    then obtain ev where ev: "st_events s = evs @ [ev]" "covers ev = [unat (ev_Seq hello)]" by blast
    have "?r = r\<lparr>ru_stream := s, ru_pc := Serving hello \<lparr>expect = ev_Seq hello + 1, resyncPending = False\<rparr>\<rparr>"
      using Opening e b h by (simp add: run_step_def)
    then show ?thesis using d ev succ_seq [OF hello(2)] by (auto simp: accounted_def intro!: exI [of _ "[ev]"])
  next
    case (Serving h l)
    then have l: "expect l \<noteq> 0" "unat (ev_Seq hello) \<le> unat (expect l)" using inv d by (simp_all add: accounted_def)
    obtain new where new: "st_events (ru_stream r) = evs @ new" "concat (map covers new) = [unat (ev_Seq hello)..<unat (expect l)]"
      using inv d Serving by (auto simp: accounted_def)
    obtain x s where o1: "serve_once unmarshal (ri_serve i) l (ru_stream r) = (x, s)" by fastforce
    obtain l' where x: "x = Inr l'"
    proof (cases x)
      case (Inl e)
      then have "?r = run_ended cfg i h e (r\<lparr>ru_stream := s\<rparr>)" using Serving o1 by (simp add: run_step_def)
      then show ?thesis using True run_ended_pc [of cfg i h e "r\<lparr>ru_stream := s\<rparr>"] by simp
    qed
    have r': "?r = r\<lparr>ru_stream := s, ru_pc := Serving h l'\<rparr>" using Serving o1 x by (simp add: run_step_def)
    obtain f more where f: "bindE (si_receive (ri_serve i)) (decodeServerFrame unmarshal) = Inr f"
      "st_events s = st_events (ru_stream r) @ more" "expect l' = sv_Seq f + 1" "expect l \<le> sv_Seq f"
      "concat (map covers more) = [unat (expect l)..<unat (sv_Seq f)] @ [unat (sv_Seq f)]"
      by (rule serve_once_ok [OF o1 [unfolded x]], rule that, assumption+) (use l(1) in simp_all)
    have "sv_Seq f \<noteq> - 1"
      using f(1) seqs by (auto simp: result_simps decodeServerFrame_def split: option.splits if_splits)
    then have n: "expect l' \<noteq> 0" "unat (expect l') = Suc (unat (sv_Seq f))" using succ_seq f(3) by simp_all
    have le: "unat (expect l) \<le> unat (sv_Seq f)" using f(4) by (simp add: word_le_nat_alt)
    have "concat (map covers (new @ more)) = [unat (ev_Seq hello)..<unat (expect l')]"
      using new(2) f(5) n(2) upt_glue [OF l(2) le] by simp
    then show ?thesis using r' d n l(2) le new(1) f(2) by (auto simp: accounted_def intro!: exI [of _ "new @ more"])
  next
    case Dialling
    have "ru_pc ?r \<in> {Dialling, Done} \<or> ru_dials ?r = Suc (ru_dials r)"
      using Dialling run_retry_pc by (auto simp: run_step_def run_done_def Let_def split: prod.splits sum.splits)
    then show ?thesis using True d by simp
  next
    case Done
    then show ?thesis using True by (simp add: run_step_def)
  qed
qed

section \<open>The view of an application\<close>

text \<open>
  The struct that \<open>json.Unmarshal\<close> reads from a frame of the gateway: the fields of both sides have the
  same names, a channel is its text, and what a frame leaves out is zero. The type is the one \<open>Render\<close>
  writes, that of the body.
\<close>

definition no_frame :: serverFrame where
  "no_frame = \<lparr>sv_Seq = 0, sv_Type = [], sv_TS = 0, sv_ID = [], sv_ConnectionID = [], sv_Protocol = [],
     sv_HeartbeatSeconds = 0, sv_SessionID = [], sv_Resumed = False, sv_Authenticated = False, sv_Channels = [],
     sv_Subscribed = [], sv_Rejected = [], sv_Channel = [], sv_Markets = [], sv_Market = [], sv_Removed = [],
     sv_Complete = False, sv_Reason = [], sv_Dropped = 0, sv_FromSeq = 0, sv_ToSeq = 0, sv_Code = [], sv_Message = []\<rparr>"

definition wire_fields :: "(RejectReason \<Rightarrow> string) \<Rightarrow> (ResyncReason \<Rightarrow> string) \<Rightarrow> FrameBody \<Rightarrow> serverFrame" where
  "wire_fields reject reason b = (case b of
      HelloFrame c p h sid res auth chs \<Rightarrow> no_frame\<lparr>sv_ConnectionID := c, sv_Protocol := p, sv_HeartbeatSeconds := h,
        sv_SessionID := sid, sv_Resumed := res, sv_Authenticated := auth, sv_Channels := map Channel_String chs\<rparr>
    | AckFrame chs rs \<Rightarrow> no_frame\<lparr>sv_Subscribed := map Channel_String chs,
        sv_Rejected := map (\<lambda>r. \<lparr>rsc_Channel = rc_channel r, rsc_Reason = reject (rc_reason r)\<rparr>) rs\<rparr>
    | SnapshotFrame ch ms c \<Rightarrow> no_frame\<lparr>sv_Channel := Channel_String ch, sv_Markets := ms, sv_Complete := c\<rparr>
    | DeltaFrame ch m rm \<Rightarrow> no_frame\<lparr>sv_Channel := Channel_String ch, sv_Market := m, sv_Removed := rm\<rparr>
    | ResyncFrame r d f t \<Rightarrow> no_frame\<lparr>sv_Reason := reason r, sv_Dropped := d, sv_FromSeq := f, sv_ToSeq := t\<rparr>
    | ErrorFrame c m \<Rightarrow> no_frame\<lparr>sv_Code := ErrorCode_String c, sv_Message := m\<rparr>
    | PongFrame \<Rightarrow> no_frame)"

definition wire_frame :: "(RejectReason \<Rightarrow> string) \<Rightarrow> (ResyncReason \<Rightarrow> string) \<Rightarrow> ServerFrame \<Rightarrow> serverFrame" where
  "wire_frame reject reason f = (wire_fields reject reason (bd_frame f))
     \<lparr>sv_Seq := sf_seq f, sv_Type := MessageKind_String (Kind (bd_frame f)), sv_TS := bd_ts f, sv_ID := bd_id f\<rparr>"

text \<open>An application that keeps one channel: it replaces its view by a snapshot, applies deltas, and
  forgets it when something was lost.\<close>

definition see_event :: "(string \<Rightarrow> Computed option) \<Rightarrow> string \<Rightarrow> StreamEvent \<Rightarrow> view option \<Rightarrow> view option" where
  "see_event decode ch ev v = (case ev_Kind ev of
      StreamEventSnapshot \<Rightarrow> (if ev_Channel ev = ch then Some (fold (add_payload decode) (ev_Markets ev) Map.empty) else v)
    | StreamEventDelta \<Rightarrow>
        (if ev_Channel ev = ch
         then map_option (\<lambda>m. if IsRemoval ev then m(ev_Removed ev := None) else add_payload decode (ev_Market ev) m) v
         else v)
    | StreamEventResync \<Rightarrow> None
    | StreamEventGap \<Rightarrow> None
    | StreamEventDisconnected \<Rightarrow> None
    | _ \<Rightarrow> v)"

lemma named_fields:
  "ev_Kind (named s ev) = ev_Kind ev" "ev_Channel (named s ev) = ev_Channel ev" "ev_Markets (named s ev) = ev_Markets ev"
  "ev_Market (named s ev) = ev_Market ev" "ev_Removed (named s ev) = ev_Removed ev"
  by (simp_all add: named_def)

lemma see_event_named [simp]: "see_event decode ch (named s ev) = see_event decode ch ev"
  unfolding see_event_def IsRemoval_def named_fields ..

lemma string_of_ok:
  assumes "channel_ok ch" "Channel_String c = Channel_String ch"
  shows "c = ch"
proof -
  obtain k i where ch: "ch = chan k i" by (cases ch)
  obtain k' i' where c: "c = chan k' i'" by (cases c)
  have k: "CHR '':'' \<notin> set k" using kind_no_colon [OF channel_ok_kind [OF assms(1)]] by (simp add: ch)
  have i: "CHR '':'' \<notin> set i"
    using channel_ok_id [OF assms(1)]
    by (auto simp: ch validID_ok_iff list_all_iff id_char_def between_def byte_def)
  have "Channel_String ch = k @ CHR '':'' # i" using channel_ok_nonzero [OF assms(1)] by (simp add: Channel_String_def ch)
  moreover from this have "\<not> Channel_IsZero c" using assms(2) by (auto simp: Channel_String_def)
  ultimately have e: "k' @ CHR '':'' # i' = k @ CHR '':'' # i" using assms(2) by (simp add: Channel_String_def c)
  have "CHR '':'' \<notin> set k'"
  proof
    assume "CHR '':'' \<in> set k'"
    then have "2 \<le> count_list (k' @ CHR '':'' # i') CHR '':''" by (simp add: count_list_0_iff Suc_le_eq neq0_conv [symmetric])
    then show False using k i by (simp add: e count_list_0_iff)
  qed
  then have "cut_at CHR '':'' (k @ CHR '':'' # i) = Some (k', i')" using cut_at_append [of "CHR '':''" k' i'] e by simp
  then show ?thesis using cut_at_append [OF k, of i] by (simp add: c ch)
qed

text \<open>A frame of the gateway and the event of it change a view in the same way.\<close>

lemma see_wire:
  assumes "eventFor conn (wire_frame reject reason f) = Inr ev" "channel_ok ch"
  shows "see_event decode (Channel_String ch) ev v = see_frame decode ch (bd_frame f) v"
proof -
  note d = eventFor_def Let_def StreamEvent_of_def wire_frame_def wire_fields_def no_frame_def Kind_def MessageKind_String_def
  have s: "Channel_String c = Channel_String ch \<longleftrightarrow> c = ch" for c using string_of_ok [OF assms(2)] by blast
  show ?thesis
  proof (cases "bd_frame f")
    case (DeltaFrame c m rm)
    then have "ev_Kind ev = StreamEventDelta" "ev_Channel ev = Channel_String c" "ev_Market ev = m" "ev_Removed ev = rm"
      using assms(1) by (auto simp: d split: if_splits)
    then show ?thesis
      by (cases v) (simp_all add: see_event_def see_frame_def DeltaFrame s IsRemoval_def apply_frame_def add_payload_def)
  next
    case (SnapshotFrame c ms b)
    then have "ev_Kind ev = StreamEventSnapshot" "ev_Channel ev = Channel_String c" "ev_Markets ev = ms"
      using assms(1) by (auto simp: d)
    then show ?thesis by (simp add: see_event_def see_frame_def SnapshotFrame s)
  next
    case (HelloFrame a b e g h k l)
    then have "ev_Kind ev = StreamEventHello" using assms(1) by (auto simp: d split: if_splits)
    then show ?thesis by (simp add: see_event_def see_frame_def HelloFrame)
  next
    case (AckFrame a b)
    then have "ev_Kind ev = StreamEventAck" using assms(1) by (auto simp: d)
    then show ?thesis by (simp add: see_event_def see_frame_def AckFrame)
  next
    case (ResyncFrame a b e g)
    then have "ev_Kind ev = StreamEventResync" using assms(1) by (auto simp: d)
    then show ?thesis by (simp add: see_event_def see_frame_def ResyncFrame)
  next
    case (ErrorFrame a b)
    then have "ev_Kind ev = StreamEventError" using assms(1) by (auto simp: d)
    then show ?thesis by (simp add: see_event_def see_frame_def ErrorFrame)
  next
    case PongFrame
    then have "ev_Kind ev = StreamEventPong" using assms(1) by (auto simp: d)
    then show ?thesis by (simp add: see_event_def see_frame_def PongFrame)
  qed
qed

section \<open>Frames read on one connection\<close>

lemma stream_run_dials: "ru_dials r \<le> ru_dials (stream_run unmarshal cfg steps r)"
  by (rule stream_run_induct [where P = "\<lambda>q. ru_dials r \<le> ru_dials q"]) (auto intro: order_trans run_step_dials)

lemma left_connection:
  assumes "ru_pc r \<in> {Dialling, Done}" "ru_dials (stream_run unmarshal cfg steps r) = ru_dials r"
  shows "ru_pc (stream_run unmarshal cfg steps r) \<in> {Dialling, Done}"
proof -
  let ?P = "\<lambda>q. ru_dials r < ru_dials q \<or> ru_dials q = ru_dials r \<and> ru_pc q \<in> {Dialling, Done}"
  have "?P (run_step unmarshal cfg i q)" if "?P q" for i q
  proof (cases "ru_dials r < ru_dials q")
    case True
    then show ?thesis using run_step_dials [of q unmarshal cfg i] by simp
  next
    case False
    then show ?thesis using that run_step_dialling [of q unmarshal cfg i] by (auto simp: run_step_def)
  qed
  then have "?P (stream_run unmarshal cfg steps r)"
    by (intro stream_run_induct [where P = ?P]) (use assms(1) in auto)
  then show ?thesis using assms(2) by simp
qed

text \<open>The payloads that the iterations of the loop are given.\<close>

fun receives :: "(RunInput + caller) list \<Rightarrow> (stream_error + string) list" where
  "receives [] = []"
| "receives (Inl i # steps) = si_receive (ri_serve i) # receives steps"
| "receives (Inr c # steps) = receives steps"

definition shown :: "(string \<Rightarrow> Computed option) \<Rightarrow> Channel \<Rightarrow> Run \<Rightarrow> view option" where
  "shown decode ch r = fold (see_event decode (Channel_String ch)) (st_events (ru_stream r)) None"

lemma serve_once_view:
  assumes "serve_once unmarshal i l s = (Inr l', s')" "channel_ok ch"
    and "si_receive i = Inr p" "unmarshal p = Some (wire_frame reject reason f)"
  shows "\<exists>new. st_events s' = st_events s @ new \<and>
    (fold (see_event decode (Channel_String ch)) new v = None \<or>
     fold (see_event decode (Channel_String ch)) new v = see_frame decode ch (bd_frame f) v)"
proof -
  obtain f' ev where f: "bindE (si_receive i) (decodeServerFrame unmarshal) = Inr f'" "eventFor (st_connID s) f' = Inr ev"
    and e: "(expect l = 0 \<or> expect l = sv_Seq f') \<and> st_events s' = st_events s @ [named s ev] \<or>
      expect l < sv_Seq f' \<and> expect l \<noteq> 0 \<and>
        (\<exists>g. gap_event f' l s g \<and> st_events s' = st_events s @ [g, named s ev])"
    by (rule serve_once_event [OF assms(1)])
  have "f' = wire_frame reject reason f"
    using f(1) assms(3,4) by (simp add: decodeServerFrame_def split: if_splits)
  then have v: "see_event decode (Channel_String ch) ev w = see_frame decode ch (bd_frame f) w" for w
    using see_wire [OF _ assms(2)] f(2) by simp
  have g: "see_event decode (Channel_String ch) g w = None" if "gap_event f' l s g" for g w
    using that by (simp add: see_event_def gap_event_def)
  from e show ?thesis
  proof
    assume "(expect l = 0 \<or> expect l = sv_Seq f') \<and> st_events s' = st_events s @ [named s ev]"
    then show ?thesis by (intro exI [of _ "[named s ev]"]) (simp add: v)
  next
    assume "expect l < sv_Seq f' \<and> expect l \<noteq> 0 \<and>
        (\<exists>g. gap_event f' l s g \<and> st_events s' = st_events s @ [g, named s ev])"
    then obtain g where "gap_event f' l s g" "st_events s' = st_events s @ [g, named s ev]" by blast
    then show ?thesis using see_frame_None by (intro exI [of _ "[g, named s ev]"]) (simp add: v g)
  qed
qed

lemma serve_run_view:
  assumes "ru_pc r = Serving h l" "ru_pc (stream_run unmarshal cfg steps r) = Serving h' l'"
    and "ru_dials (stream_run unmarshal cfg steps r) = ru_dials r" "channel_ok ch"
    and "receives steps = map Inr ps" "map unmarshal ps = map (\<lambda>f. Some (wire_frame reject reason f)) fs"
    and "w = None \<or> w = v"
  shows "\<exists>new. st_events (ru_stream (stream_run unmarshal cfg steps r)) = st_events (ru_stream r) @ new \<and>
    (fold (see_event decode (Channel_String ch)) new w = None \<or>
     fold (see_event decode (Channel_String ch)) new w = fold (\<lambda>f. see_frame decode ch (bd_frame f)) fs v)"
  using assms
proof (induction steps arbitrary: r h l ps fs w v)
  case (Cons x steps)
  show ?case
  proof (cases x)
    case (Inr c)
    have "\<exists>new. st_events (ru_stream (stream_run unmarshal cfg steps (call_step c r))) =
        st_events (ru_stream (call_step c r)) @ new \<and>
      (fold (see_event decode (Channel_String ch)) new w = None \<or>
       fold (see_event decode (Channel_String ch)) new w = fold (\<lambda>f. see_frame decode ch (bd_frame f)) fs v)"
      by (rule Cons.IH) (use Cons.prems Inr in simp_all)
    then show ?thesis using Inr by simp
  next
    case (Inl i)
    obtain p ps' where p: "ps = p # ps'" "si_receive (ri_serve i) = Inr p" "receives steps = map Inr ps'"
      using Cons.prems(5) Inl by (cases ps) simp_all
    obtain f fs' where f: "fs = f # fs'" "unmarshal p = Some (wire_frame reject reason f)"
      "map unmarshal ps' = map (\<lambda>f. Some (wire_frame reject reason f)) fs'"
      using Cons.prems(6) p(1) by (cases fs) simp_all
    let ?r = "run_step unmarshal cfg i r"
    obtain y s where o1: "serve_once unmarshal (ri_serve i) l (ru_stream r) = (y, s)" by fastforce
    obtain l1 where y: "y = Inr l1"
    proof (cases y)
      case (Inl e)
      then have "?r = run_ended cfg i h e (r\<lparr>ru_stream := s\<rparr>)" using Cons.prems(1) o1 by (simp add: run_step_def)
      then have pc: "ru_pc ?r \<in> {Dialling, Done}" using run_ended_pc [of cfg i h e "r\<lparr>ru_stream := s\<rparr>"] by simp
      have "ru_dials r \<le> ru_dials ?r" "ru_dials ?r \<le> ru_dials (stream_run unmarshal cfg steps ?r)"
        by (rule run_step_dials, rule stream_run_dials)
      then have "ru_dials (stream_run unmarshal cfg steps ?r) = ru_dials ?r" using Cons.prems(3) \<open>x = Inl i\<close> by simp
      then show ?thesis using left_connection [OF pc, of unmarshal cfg steps] Cons.prems(2) \<open>x = Inl i\<close> by auto
    qed
    have r': "?r = r\<lparr>ru_stream := s, ru_pc := Serving h l1\<rparr>" using Cons.prems(1) o1 y by (simp add: run_step_def)
    obtain new1 where n1: "st_events s = st_events (ru_stream r) @ new1"
      "fold (see_event decode (Channel_String ch)) new1 w = None \<or>
       fold (see_event decode (Channel_String ch)) new1 w = see_frame decode ch (bd_frame f) w"
      using serve_once_view [OF o1 [unfolded y] Cons.prems(4) p(2) f(2)] by blast
    let ?w = "fold (see_event decode (Channel_String ch)) new1 w"
    have w: "?w = None \<or> ?w = see_frame decode ch (bd_frame f) v"
      using n1(2) Cons.prems(7) see_frame_None [of decode ch "bd_frame f" v] by auto
    have "\<exists>new. st_events (ru_stream (stream_run unmarshal cfg steps ?r)) = st_events (ru_stream ?r) @ new \<and>
      (fold (see_event decode (Channel_String ch)) new ?w = None \<or>
       fold (see_event decode (Channel_String ch)) new ?w =
         fold (\<lambda>f. see_frame decode ch (bd_frame f)) fs' (see_frame decode ch (bd_frame f) v))"
      by (rule Cons.IH) (use Cons.prems p f r' Inl w in simp_all)
    then obtain new where "st_events (ru_stream (stream_run unmarshal cfg steps ?r)) = st_events (ru_stream ?r) @ new"
      "fold (see_event decode (Channel_String ch)) new ?w = None \<or>
       fold (see_event decode (Channel_String ch)) new ?w =
         fold (\<lambda>f. see_frame decode ch (bd_frame f)) fs' (see_frame decode ch (bd_frame f) v)" by blast
    then show ?thesis using Inl r' n1(1) f(1) by (intro exI [of _ "new1 @ new"]) simp
  qed
qed auto

text \<open>From the moment the connection is open: its hello shows nothing, and is handed over before the first frame is read.\<close>

lemma opening_run_view:
  assumes "ru_pc r = Opening hello" "ru_pc (stream_run unmarshal cfg steps r) = Serving h' l'"
    and "ru_dials (stream_run unmarshal cfg steps r) = ru_dials r" "channel_ok ch"
    and "receives steps = x # map Inr ps" "map unmarshal ps = map (\<lambda>f. Some (wire_frame reject reason f)) fs"
    and "ev_Kind hello = StreamEventHello" "shown decode ch r = None"
  shows "shown decode ch (stream_run unmarshal cfg steps r) = None \<or>
    shown decode ch (stream_run unmarshal cfg steps r) = fold (\<lambda>f. see_frame decode ch (bd_frame f)) fs v"
  using assms
proof (induction steps arbitrary: r)
  case (Cons y steps)
  show ?case
  proof (cases y)
    case (Inr c)
    then have "shown decode ch (stream_run unmarshal cfg steps (call_step c r)) = None \<or>
        shown decode ch (stream_run unmarshal cfg steps (call_step c r)) = fold (\<lambda>f. see_frame decode ch (bd_frame f)) fs v"
      using Cons.prems by (intro Cons.IH) (simp_all add: shown_def)
    then show ?thesis using Inr by simp
  next
    case (Inl i)
    let ?r = "run_step unmarshal cfg i r"
    have "ru_dials ?r = ru_dials r"
      using Cons.prems(3) Inl run_step_dials [of r unmarshal cfg i] stream_run_dials [of ?r unmarshal cfg steps] by simp
    then have pc: "ru_pc ?r \<notin> {Dialling, Done}"
      using left_connection [of ?r unmarshal cfg steps] Cons.prems(2,3) Inl by auto
    obtain b s where e: "emit (ri_queued i) hello (adopt (Some (ru_dials r)) (ev_ConnectionID hello) (ru_stream r)) = (b, s)"
      by fastforce
    then have b: b using pc Cons.prems(1) by (cases b) (simp_all add: run_step_def run_done_def)
    have step: "?r = r\<lparr>ru_stream := s, ru_pc := Serving hello \<lparr>expect = ev_Seq hello + 1, resyncPending = False\<rparr>\<rparr>"
      using e b Cons.prems(1) by (simp add: run_step_def)
    have "st_events s = st_events (ru_stream r) @
        [named (adopt (Some (ru_dials r)) (ev_ConnectionID hello) (ru_stream r)) hello]"
      using e b by (simp add: emit_eq named_def) (simp add: adopt_def)
    then have none: "shown decode ch ?r = None"
      using Cons.prems(7,8) by (auto simp: step shown_def) (simp add: see_event_def)
    obtain new where new: "st_events (ru_stream (stream_run unmarshal cfg steps ?r)) = st_events (ru_stream ?r) @ new"
      "fold (see_event decode (Channel_String ch)) new None = None \<or>
       fold (see_event decode (Channel_String ch)) new None = fold (\<lambda>f. see_frame decode ch (bd_frame f)) fs v"
      using serve_run_view [where r = ?r and w = None and v = v and decode = decode and steps = steps and ps = ps and fs = fs]
        Cons.prems step Inl by force
    then show ?thesis using none Inl by (simp add: shown_def)
  qed
qed simp

text \<open>A stream that dials or opens a connection shows nothing, because it was told of the disconnection.\<close>

lemma see_gone [simp]: "ev_Kind ev = StreamEventDisconnected \<Longrightarrow> see_event decode ch ev v = None"
  by (simp add: see_event_def)

lemma emit_shows:
  "emit queued ev s = (True, s') \<Longrightarrow>
    fold (see_event decode ch) (st_events s') v = see_event decode ch ev (fold (see_event decode ch) (st_events s) v)"
  by (auto simp: emit_eq simp flip: named_def)

lemma run_retry_blank: "ru_pc (run_retry cfg i r) = Dialling \<Longrightarrow> shown decode ch (run_retry cfg i r) = None"
  by (auto simp: run_retry_def run_done_def run_panic_def Let_def shown_def disconnected_def StreamEvent_of_def emit_shows
      split: if_splits option.splits prod.splits bool.splits)

lemma connect_events:
  assumes "Stream_connect unmarshal i k s = (x, s')"
  shows "st_events s' = st_events s" "x = Inr hello \<Longrightarrow> ev_Kind hello = StreamEventHello"
proof -
  show "st_events s' = st_events s"
    using assms by (auto simp: Stream_connect_def adopt_def Let_def split: sum.splits option.splits if_splits prod.splits
        dest: stream_send_keeps(1))
  assume "x = Inr hello"
  then have "read_hello unmarshal i (st_connID s) = Inr hello"
    using assms by (auto simp: Stream_connect_def Let_def split: sum.splits option.splits if_splits prod.splits)
  then show "ev_Kind hello = StreamEventHello"
    by (auto simp: read_hello_def eventFor_def Let_def result_simps split: option.splits if_splits)
qed

definition blank :: "(string \<Rightarrow> Computed option) \<Rightarrow> Channel \<Rightarrow> Run \<Rightarrow> bool" where
  "blank decode ch r = (case ru_pc r of
      Opening hello \<Rightarrow> ev_Kind hello = StreamEventHello \<and> shown decode ch r = None
    | Dialling \<Rightarrow> shown decode ch r = None
    | _ \<Rightarrow> True)"

lemma retry_blank: "blank decode ch (run_retry cfg i r)"
  using run_retry_pc [of cfg i r] run_retry_blank [of cfg i r] by (auto simp: blank_def)

lemma done_blank: "blank decode ch (run_done err r)"
  by (simp add: blank_def run_done_def)

lemma step_blank:
  assumes "blank decode ch r"
  shows "blank decode ch (run_step unmarshal cfg i r)"
proof (cases "ru_pc r")
  case (Opening h)
  then show ?thesis by (auto simp: run_step_def done_blank split: prod.split bool.split) (simp add: blank_def)
next
  case (Serving h l)
  have "blank decode ch (run_ended cfg i h e q)" for e q
    by (simp add: run_ended_def Let_def retry_blank done_blank)
  then show ?thesis using Serving by (auto simp: run_step_def split: prod.split sum.split) (simp add: blank_def)
next
  case Dialling
  obtain x s where c: "Stream_connect unmarshal (ri_connect i) (Suc (ru_dials r)) (ru_stream r) = (x, s)" by fastforce
  show ?thesis
  proof (cases x)
    case (Inl e)
    then show ?thesis using Dialling c by (simp add: run_step_def Let_def retry_blank done_blank)
  next
    case (Inr hello)
    then show ?thesis using Dialling c connect_events [OF c] assms by (simp add: run_step_def blank_def shown_def)
  qed
next
  case Done
  then show ?thesis using assms by (simp add: run_step_def)
qed

lemma call_blank: "blank decode ch r \<Longrightarrow> blank decode ch (call_step c r)"
  by (cases "ru_pc r") (simp_all add: blank_def shown_def)

lemma Client_Stream_run:
  assumes "Client_Stream unmarshal channels i = Inr r"
  shows "ru_attempt r = 0" "\<not> ru_panicked r" "blank decode ch r"
proof -
  obtain hello s where c: "Stream_connect unmarshal i 1 \<lparr>st_sock = None, st_connID = [], st_desired = channels, st_requests = 0,
       st_err = None, st_cancelled = False, st_events = [], st_taken = 0, st_sent = []\<rparr> = (Inr hello, s)"
    "r = \<lparr>ru_stream = s, ru_pc = Opening hello, ru_attempt = 0, ru_last = None, ru_lastConn = [], ru_dials = 1, ru_panicked = False\<rparr>"
    using assms by (auto simp: Client_Stream_def bindE_eq_Inr split: prod.splits sum.splits)
  then show "ru_attempt r = 0" "\<not> ru_panicked r" by simp_all
  show "blank decode ch r" using c(2) connect_events [OF c(1)] by (simp add: blank_def shown_def)
qed

lemma Client_Stream_blank:
  assumes "Client_Stream unmarshal channels i = Inr r"
  shows "blank decode ch (stream_run unmarshal cfg steps r)"
  by (rule stream_run_induct [where P = "blank decode ch"]) (simp_all add: Client_Stream_run [OF assms] step_blank call_blank)

section \<open>Frames sent\<close>

lemma emit_sent [simp]: "st_sent (snd (emit b ev s)) = st_sent s"
  by (simp add: emit_def)

lemma finish_sent [simp]: "st_sent (finish err s) = st_sent s"
  by (simp add: finish_def)

lemma adopt_sent [simp]: "st_sent (adopt k c s) = st_sent s"
  by (simp add: adopt_def)

lemma emit_sentD: "emit b ev s = (x, s') \<Longrightarrow> st_sent s' = st_sent s"
  using emit_sent by (metis snd_conv)

lemma ask_resync_pending: "resyncPending l \<Longrightarrow> ask_resync write l s = (Inr l, s)"
  by (simp add: ask_resync_def)

lemma check_sequence_quiet:
  assumes "resyncPending l" "check_sequence i f l s = (x, s')"
  shows "st_sent s' = st_sent s \<and> (\<forall>l'. x = Inr l' \<longrightarrow> resyncPending l')"
proof -
  define ev where "ev = (StreamEvent_of StreamEventGap)\<lparr>ev_ConnectionID := st_connID s, ev_TS := sv_TS f,
          ev_Gap := Some \<lparr>sg_From = expect l, sg_To = sv_Seq f - 1, sg_Dropped = sv_Seq f - expect l, sg_ServerReported = False\<rparr>\<rparr>"
  obtain b t where e: "emit (si_gap_queued i) ev s = (b, t)" by fastforce
  have "check_sequence i f l s = (if expect l = 0 \<or> sv_Seq f = expect l then (Inr l, s)
      else if sv_Seq f < expect l then (Inl StreamProtocolError, s) else if b then (Inr l, t) else (Inl StreamClosed, t))"
    unfolding check_sequence_def ev_def [symmetric] e using ask_resync_pending [OF assms(1)] by (cases b) simp_all
  then show ?thesis using assms emit_sentD [OF e] by (auto split: if_splits)
qed

lemma serve_frame_quiet:
  assumes "resyncPending l" "sv_Type f \<noteq> ''snapshot''" "serve_frame i f l s = (x, s')"
  shows "st_sent s' = st_sent s \<and> (\<forall>l'. x = Inr l' \<longrightarrow> resyncPending l')"
proof (cases "eventFor (st_connID s) f")
  case (Inl e)
  then show ?thesis using assms(3) by (auto simp: serve_frame_def)
next
  case (Inr ev)
  obtain b t where e: "emit (si_queued i) ev s = (b, t)" by fastforce
  have "serve_frame i f l s = (if sv_Type f = ''hello'' then (Inl StreamProtocolError, s)
      else if b then (Inr l, t) else (Inl StreamClosed, t))"
    using assms(2) by (cases b) (simp_all add: serve_frame_def Inr ask_resync_pending [OF assms(1)] e)
  then show ?thesis using assms emit_sentD [OF e] by (auto split: if_splits)
qed

lemma serve_once_quiet:
  assumes "resyncPending l" "\<And>f. bindE (si_receive i) (decodeServerFrame unmarshal) = Inr f \<Longrightarrow> sv_Type f \<noteq> ''snapshot''"
    and "serve_once unmarshal i l s = (x, s')"
  shows "st_sent s' = st_sent s \<and> (\<forall>l'. x = Inr l' \<longrightarrow> resyncPending l')"
proof (cases "bindE (si_receive i) (decodeServerFrame unmarshal)")
  case (Inl e)
  then show ?thesis using assms(3) by (auto simp: serve_once_def)
next
  case (Inr f)
  obtain y s1 where c: "check_sequence i f l s = (y, s1)" by fastforce
  note q = check_sequence_quiet [OF assms(1) c]
  show ?thesis
  proof (cases y)
    case (Inl e)
    then show ?thesis using assms(3) q by (auto simp: serve_once_def Inr c)
  next
    case y: (Inr l1)
    then have "serve_frame i f (l1\<lparr>expect := sv_Seq f + 1\<rparr>) s1 = (x, s')"
      using assms(3) by (simp add: serve_once_def Inr c)
    from serve_frame_quiet [OF _ assms(2) [OF Inr] this] show ?thesis using q y by simp
  qed
qed

lemma run_done_sent [simp]: "st_sent (ru_stream (run_done err r)) = st_sent (ru_stream r)"
  by (simp add: run_done_def)

lemma run_retry_sent [simp]: "st_sent (ru_stream (run_retry cfg i r)) = st_sent (ru_stream r)"
  by (auto simp: run_retry_def run_panic_def Let_def split: prod.splits bool.splits option.splits dest: emit_sentD)

lemma run_ended_sent [simp]: "st_sent (ru_stream (run_ended cfg i h e r)) = st_sent (ru_stream r)"
  by (simp add: run_ended_def Let_def)

end
