(* ===== verification/ClientProperties.thy ===== *)
theory ClientProperties
  imports ClientTrace GatewaySamples
begin

text \<open>
  The properties of the client stream (\<open>pkg/client/stream.go\<close>): how its events account for the numbers
  of a connection, what an application shows that follows them, when it stops reconnecting, how long it
  waits, and three situations in which the client does not do what its comments say.
\<close>

section \<open>Sample frames\<close>

definition quiet_stream :: Stream where
  "quiet_stream = \<lparr>st_sock = Some 1, st_connID = ''c1'', st_desired = [''market:m1''], st_requests = 1, st_err = None,
     st_cancelled = False, st_events = [], st_taken = 0, st_sent = []\<rparr>"

definition hello_frame :: serverFrame where
  "hello_frame = no_frame\<lparr>sv_Seq := 1, sv_Type := ''hello'', sv_ConnectionID := ''c1'', sv_Protocol := ''sharpline.v1''\<rparr>"

definition hello_event :: StreamEvent where
  "hello_event = (StreamEvent_of StreamEventHello)\<lparr>ev_Seq := 1, ev_ConnectionID := ''c1'',
     ev_Hello := Some \<lparr>sh_ConnectionID = ''c1'', sh_Protocol = ''sharpline.v1'', sh_Heartbeat = 0, sh_SessionID = [],
       sh_Resumed = False, sh_Authenticated = False, sh_Channels = []\<rparr>\<rparr>"

definition pong_frame :: "uint64 \<Rightarrow> serverFrame" where
  "pong_frame n = no_frame\<lparr>sv_Seq := n, sv_Type := ''pong''\<rparr>"

text \<open>A decoder of three payloads.\<close>

definition three_payloads :: "string \<Rightarrow> serverFrame option" where
  "three_payloads p = (if p = ''h'' then Some hello_frame else if p = ''2'' then Some (pong_frame 2)
     else if p = ''5'' then Some (pong_frame 5) else None)"

definition reads :: "string \<Rightarrow> ServeInput" where
  "reads p = \<lparr>si_receive = Inr p, si_gap_queued = True, si_write = None, si_queued = True\<rparr>"

definition dialled :: "stream_error + string \<Rightarrow> ConnectInput" where
  "dialled x = \<lparr>ci_token = Inr [], ci_dial = (\<lambda>_. None), ci_subprotocol = ''sharpline.v1'', ci_receive = x, ci_write = None\<rparr>"

definition step_of :: "string \<Rightarrow> RunInput" where
  "step_of p = \<lparr>ri_serve = reads p, ri_served = 0, ri_connect = dialled (Inr p), ri_jitter = Fin 0, ri_queued = True, ri_slept = True\<rparr>"

definition plain_cfg :: "int \<Rightarrow> StreamConfig" where
  "plain_cfg n = \<lparr>sc_backoff = \<lparr>sb_BaseDelay = 0, sb_MaxDelay = 0, sb_MaxAttempts = n\<rparr>, sc_reconnect = True\<rparr>"

definition run_at :: "run_pc \<Rightarrow> Run" where
  "run_at pc = \<lparr>ru_stream = quiet_stream, ru_pc = pc, ru_attempt = 0, ru_last = None, ru_lastConn = [], ru_dials = 1, ru_panicked = False\<rparr>"

lemma sample_hello: "Stream_connect three_payloads (dialled (Inr ''h'')) 1 (quiet_stream\<lparr>st_desired := []\<rparr>) =
    (Inr hello_event, quiet_stream\<lparr>st_desired := [], st_requests := 2\<rparr>)"
  by (simp add: Stream_connect_def read_hello_def dialled_def offers_def StreamProtocol_def decodeServerFrame_def
      three_payloads_def hello_frame_def no_frame_def eventFor_def hello_event_def StreamEvent_of_def quiet_stream_def
      wanted_def hello_channels_of_def hello_connection_of_def Let_def)

section \<open>The numbers of a connection\<close>

lemma connect_hello:
  assumes "Stream_connect unmarshal i k s = (Inr hello, s')"
    and "\<And>p f. unmarshal p = Some f \<Longrightarrow> sv_Seq f \<noteq> - 1"
  shows "ev_Kind hello = StreamEventHello" "ev_Seq hello \<noteq> - 1"
proof -
  have "read_hello unmarshal i (st_connID s) = Inr hello"
    using assms(1) by (auto simp: Stream_connect_def Let_def split: sum.splits option.splits if_splits prod.splits)
  then obtain f p where f: "unmarshal p = Some f" "sv_Type f = ''hello''" "eventFor (st_connID s) f = Inr hello"
    by (auto simp: read_hello_def decodeServerFrame_def result_simps split: option.splits if_splits)
  then show "ev_Kind hello = StreamEventHello" "ev_Seq hello \<noteq> - 1"
    using eventFor_seq(1) [OF f(3)] assms(2) by (auto simp: eventFor_def Let_def split: if_splits)
qed

text \<open>C7: The events of a connection account for all its numbers: while a connection that opened with some
  hello is served, whatever the application calls in between, the events since then run through every
  sequence number from the hello's to the last one read, each once and in order, either as the event of
  the frame with that number or inside a reported gap. (No frame carries the greatest 64-bit number.)\<close>

theorem numbers_accounted:
  assumes "Stream_connect unmarshal i k s = (Inr hello, s')" "ru_pc r = Opening hello"
    and "\<And>p f. unmarshal p = Some f \<Longrightarrow> sv_Seq f \<noteq> - 1"
    and "ru_pc (stream_run unmarshal cfg steps r) = Serving h l"
    and "ru_dials (stream_run unmarshal cfg steps r) = ru_dials r"
  shows "\<exists>new. st_events (ru_stream (stream_run unmarshal cfg steps r)) = st_events (ru_stream r) @ new \<and>
    concat (map covers new) = [unat (ev_Seq hello)..<unat (expect l)]"
proof -
  let ?P = "accounted (st_events (ru_stream r)) (ru_dials r) hello"
  note hello = connect_hello [OF assms(1,3)]
  have "?P (stream_run unmarshal cfg steps r)"
  proof (rule stream_run_induct [where P = ?P])
    show "?P r" using assms(2) by (simp add: accounted_def)
  qed (rule accounted_step [OF _ hello assms(3)] accounted_call; assumption)+
  then show ?thesis using assms(4,5) by (simp add: accounted_def)
qed

definition sample_steps :: "(RunInput + caller) list" where
  "sample_steps = [Inl (step_of []), Inl (step_of ''2''), Inr CallNext, Inl (step_of ''5'')]"

lemmas sample_defs = step_of_def reads_def three_payloads_def pong_frame_def no_frame_def hello_event_def
  quiet_stream_def run_at_def StreamEvent_of_def

theorem numbers_accounted_witness:
  "\<exists>new. st_events (ru_stream (stream_run three_payloads (plain_cfg 0) sample_steps (run_at (Opening hello_event)))) =
      [] @ new \<and> concat (map covers new) = [1..<6]"
proof -
  let ?r = "stream_run three_payloads (plain_cfg 0) sample_steps (run_at (Opening hello_event))"
  have pc: "ru_pc ?r = Serving hello_event \<lparr>expect = 6, resyncPending = True\<rparr> \<and> ru_dials ?r = 1"
    by (simp add: sample_steps_def run_step_def emit_def adopt_def call_step_def Stream_Next_def serve_once_def
        decodeServerFrame_def check_sequence_def serve_frame_def eventFor_def ask_resync_def stream_request_def
        nextRequestID_def stream_send_def Let_def sample_defs)
  have "\<exists>new. st_events (ru_stream ?r) = st_events (ru_stream (run_at (Opening hello_event))) @ new \<and>
      concat (map covers new) = [unat (ev_Seq hello_event)..<unat (expect \<lparr>expect = 6, resyncPending = True\<rparr>)]"
    by (rule numbers_accounted [OF sample_hello]) (use pc in \<open>auto simp: sample_defs hello_frame_def split: if_splits\<close>)
  then show ?thesis by (simp add: sample_defs)
qed

section \<open>What an application shows\<close>

text \<open>C4: From the gateway's slate to the application: take a reachable gateway, a served connection of it
  (not closed, its writer running, its counter not about to wrap) and a channel it holds; and a stream that a client opened,
  at any later connection, that has since handed over the hello and read every frame of the connection's trace after it, and still serves
  the connection. If the application then shows anything of the channel, replacing its view on a snapshot, applying deltas and
  forgetting it on a gap, a resync or a disconnection, it shows every market routed to the channel with its payload, as \<open>json.Marshal\<close>
  rewrites it, and nothing else, except that a market which two handled documents place at different events or leagues may still
  be shown on a channel it left. (The JSON that the gateway writes is read field by field.)\<close>

theorem sdk_shows_the_slate:
  assumes "gateway_reach raw dec parse_time read_client g" "json_law raw dec"
    and "c \<in> hub_conns (gw_hub g)" "ch \<in> set (cn_channels (hub_heap (gw_hub g) c))"
    and "up (hub_heap (gw_hub g) c)" "Suc (cn_count (hub_heap (gw_hub g) c)) < 2 ^ 64"
    and trace: "conn_trace (hub_heap (gw_hub g) c) = first # rest"
    and "map unmarshal ps = map (\<lambda>o1. Some (wire_frame reject reason (ob_payload o1))) rest"
    and opened: "Client_Stream unmarshal channels i = Inr r0" "r = stream_run unmarshal cfg before r0"
    and "ru_pc r = Opening hello" "receives steps = x # map Inr ps"
    and "ru_pc (stream_run unmarshal cfg steps r) = Serving h' l'"
    and "ru_dials (stream_run unmarshal cfg steps r) = ru_dials r"
    and "shown dec ch (stream_run unmarshal cfg steps r) = Some v"
  shows "on_wire raw (board (hub_store (gw_hub g)) ch) \<subseteq>\<^sub>m v \<and>
    (\<forall>i. i \<notin> moved dec (gw_log g) \<longrightarrow> v i = on_wire raw (board (hub_store (gw_hub g)) ch) i)"
proof -
  let ?c = "hub_heap (gw_hub g) c"
  have "hub_wf (gw_hub g)" using gateway_reach_wf [OF assms(1)] by (simp add: gateway_wf_def)
  then have ok: "channel_ok ch" using hub_wf_conn assms(3,4) by (simp add: conn_ok_def)
  have "blank dec ch r" unfolding opened(2) by (rule Client_Stream_blank [OF opened(1)])
  then have start: "ev_Kind hello = StreamEventHello" "shown dec ch r = None" using assms(11) by (simp_all add: blank_def)
  have frames: "map unmarshal ps = map (\<lambda>f. Some (wire_frame reject reason f)) (map ob_payload rest)"
    using assms(8) by (simp add: comp_def)
  have "Some v = fold (\<lambda>f. see_frame dec ch (bd_frame f)) (map ob_payload rest)
      (see_frame dec ch (bd_frame (ob_payload first)) None)"
    using opening_run_view [OF assms(11,13,14) ok assms(12) frames start] assms(15) by fastforce
  then have "watch dec ch ?c = Some v" by (simp add: watch_def trace fold_map comp_def)
  moreover have "live_conn raw (moved dec (gw_log g)) dec (hub_store (gw_hub g)) ?c"
    using gateway_reach_live [OF assms(1,2)] assms(3) by (simp add: seen_live_def live_def)
  ultimately have "agrees raw (moved dec (gw_log g)) (hub_store (gw_hub g)) ch v"
    using assms(4-6) by (auto simp: live_conn_def live_view_def)
  then show ?thesis by (simp add: agrees_def)
qed

definition snapshot_payload :: "string \<Rightarrow> serverFrame option" where
  "snapshot_payload p = (if p = ''s'' then Some (no_frame\<lparr>sv_Seq := 2, sv_Type := ''snapshot'', sv_TS := 70,
     sv_Channel := ''market:m1'', sv_Markets := [''A''], sv_Complete := True\<rparr>)
     else if p = ''h'' then Some hello_frame else None)"

lemma sample_stream:
  "Client_Stream snapshot_payload [] (dialled (Inr ''h'')) = Inr
     \<lparr>ru_stream = \<lparr>st_sock = Some 1, st_connID = ''c1'', st_desired = [], st_requests = 1, st_err = None,
        st_cancelled = False, st_events = [], st_taken = 0, st_sent = []\<rparr>,
      ru_pc = Opening hello_event, ru_attempt = 0, ru_last = None, ru_lastConn = [], ru_dials = 1, ru_panicked = False\<rparr>"
  by (simp add: Client_Stream_def Stream_connect_def read_hello_def dialled_def offers_def StreamProtocol_def decodeServerFrame_def
      snapshot_payload_def hello_frame_def no_frame_def eventFor_def hello_event_def StreamEvent_of_def
      wanted_def hello_channels_of_def hello_connection_of_def Let_def)

theorem sdk_shows_the_slate_witness:
  "[''m1'' \<mapsto> ''A''] = board (hub_store (gw_hub gw_used)) (chan ChannelMarket ''m1'')"
proof -
  let ?ch = "chan ChannelMarket ''m1''"
  let ?o1 = "frame_out 1 \<lparr> bd_type = KindHello, bd_ts = 70, bd_id = [], bd_frame = one_hello \<rparr> KindHello"
  let ?o2 = "frame_out 2 \<lparr> bd_type = KindSnapshot, bd_ts = 70, bd_id = [], bd_frame = one_snapshot \<rparr> KindSnapshot"
  let ?steps = "[Inl (step_of ''h''), Inl (step_of ''s'')] :: (RunInput + caller) list"
  obtain r where r: "Client_Stream snapshot_payload [] (dialled (Inr ''h'')) = Inr r" "ru_pc r = Opening hello_event"
    "r = stream_run snapshot_payload (plain_cfg 0) [] r" "ru_dials r = 1"
    "ru_stream r = \<lparr>st_sock = Some 1, st_connID = ''c1'', st_desired = [], st_requests = 1, st_err = None,
        st_cancelled = False, st_events = [], st_taken = 0, st_sent = []\<rparr>"
    using sample_stream by simp
  have t: "conn_trace (hub_heap (gw_hub gw_used) 7) = ?o1 # [?o2]"
    using gw_used_conn by (simp add: conn_trace_def newConn_def)
  have s: "Channel_String ?ch = ''market:m1''"
    by (simp add: Channel_String_def Channel_IsZero_def channel_kinds)
  have w: "map snapshot_payload [''s''] = map (\<lambda>o1. Some (wire_frame (\<lambda>_. []) (\<lambda>_. []) (ob_payload o1))) [?o2]"
    by (simp add: snapshot_payload_def wire_frame_def wire_fields_def frame_out_def Body_Frame_def one_snapshot_def
        frame_makers Kind_def MessageKind_String_def s no_frame_def)
  have read: "receives ?steps = Inr ''h'' # map Inr [''s'']" by (simp add: step_of_def reads_def)
  have run: "ru_pc (stream_run snapshot_payload (plain_cfg 0) ?steps r) =
        Serving hello_event \<lparr>expect = 3, resyncPending = False\<rparr>"
      "ru_dials (stream_run snapshot_payload (plain_cfg 0) ?steps r) = ru_dials r"
      "shown one_decode ?ch (stream_run snapshot_payload (plain_cfg 0) ?steps r) = Some [''m1'' \<mapsto> ''A'']"
    by (simp_all add: r(2,4,5) run_step_def serve_once_def decodeServerFrame_def snapshot_payload_def check_sequence_def
        serve_frame_def eventFor_def emit_def adopt_def Let_def sample_defs shown_def see_event_def s one_decode_def
        add_payload_def one_doc_def)
  have still: "i \<notin> moved one_decode (gw_log gw_used)" for i by (auto simp: moved_def one_decode_def split: if_splits)
  have "\<forall>i. i \<notin> moved one_decode (gw_log gw_used) \<longrightarrow>
      [''m1'' \<mapsto> ''A''] i = on_wire Some (board (hub_store (gw_hub gw_used)) ?ch) i"
    by (rule sdk_shows_the_slate [OF gw_used_reached plain_law gw_used_facts(1) _ _ _ t w r(1,3,2) read run, THEN conjunct2])
      (simp_all add: gw_used_facts)
  then show ?thesis using still by auto
qed

section \<open>A lost answer\<close>

text \<open>C33: A resync that is not answered is not repeated: once the stream has asked for one, no sequence of
  frames without a snapshot makes it send anything more on that connection, not even frames that report
  a further loss (gaps in the numbers, or the gateway's own resync frames).\<close>

theorem lost_answer_unnoticed:
  assumes "ru_pc r = Serving h l" "resyncPending l"
    and "\<forall>x \<in> set steps. \<exists>i. x = Inl i \<and>
      (\<forall>f. bindE (si_receive (ri_serve i)) (decodeServerFrame unmarshal) = Inr f \<longrightarrow> sv_Type f \<noteq> ''snapshot'')"
    and "ru_dials (stream_run unmarshal cfg steps r) = ru_dials r"
  shows "st_sent (ru_stream (stream_run unmarshal cfg steps r)) = st_sent (ru_stream r)"
proof -
  let ?P = "\<lambda>q. ru_dials r < ru_dials q \<or> st_sent (ru_stream q) = st_sent (ru_stream r) \<and> ru_dials q = ru_dials r \<and>
    (ru_pc q \<in> {Dialling, Done} \<or> (\<exists>h l. ru_pc q = Serving h l \<and> resyncPending l))"
  have step: "?P (run_step unmarshal cfg i q)" if "Inl i \<in> set steps" and q: "?P q" for i q
  proof -
    have f: "sv_Type f \<noteq> ''snapshot''" if "bindE (si_receive (ri_serve i)) (decodeServerFrame unmarshal) = Inr f" for f
      using assms(3) \<open>Inl i \<in> set steps\<close> that by fastforce
    from q consider (later) "ru_dials r < ru_dials q" | (dial) "ru_pc q = Dialling" "ru_dials q = ru_dials r"
      | (over) "ru_pc q = Done" | (serving) h l where "ru_pc q = Serving h l" "resyncPending l" "ru_dials q = ru_dials r"
        "st_sent (ru_stream q) = st_sent (ru_stream r)" by blast
    then show ?thesis
    proof cases
      case later
      then show ?thesis using run_step_dials [of q unmarshal cfg i] by simp
    next
      case dial
      then show ?thesis using run_step_dialling [of q unmarshal cfg i] by simp
    next
      case over
      then show ?thesis using q by (simp add: run_step_def)
    next
      case (serving h l)
      obtain x s where o1: "serve_once unmarshal (ri_serve i) l (ru_stream q) = (x, s)" by fastforce
      have quiet: "st_sent s = st_sent (ru_stream q) \<and> (\<forall>l'. x = Inr l' \<longrightarrow> resyncPending l')"
        by (rule serve_once_quiet [OF serving(2) f o1])
      show ?thesis
      proof (cases x)
        case (Inl e)
        then have "run_step unmarshal cfg i q = run_ended cfg i h e (q\<lparr>ru_stream := s\<rparr>)"
          using serving(1) o1 by (simp add: run_step_def)
        then show ?thesis using run_ended_pc [of cfg i h e "q\<lparr>ru_stream := s\<rparr>"] quiet serving by simp
      next
        case (Inr l')
        then have "run_step unmarshal cfg i q = q\<lparr>ru_stream := s, ru_pc := Serving h l'\<rparr>"
          using serving(1) o1 by (simp add: run_step_def)
        then show ?thesis using quiet Inr serving by simp
      qed
    qed
  qed
  have "?P (stream_run unmarshal cfg steps r)"
    by (rule stream_run_induct [where P = ?P]) (use step assms(1-3) in auto)
  then show ?thesis using assms(4) by auto
qed

text \<open>That is how a client can stay out of step: the snapshots that answer its resync can be in the
  queue that the gateway discards when it overflows again, and then a resync frame is all that is left
  of them. The client below has asked, and the gateway's queue, full with the answer, is discarded.\<close>

definition answering_conn :: conn where
  "answering_conn = (newConn (Options_Normalise plain_opts) ''c'' ''s'' True False)
     \<lparr>cn_capacity := 1, cn_seq := \<lparr>seq_n = 5\<rparr>, cn_count := 5, cn_channels := [chan ChannelMarket ''m1''],
      cn_send := [frame_out 5 \<lparr> bd_type = KindSnapshot, bd_ts = 70, bd_id = ''r2'', bd_frame = one_snapshot \<rparr> KindSnapshot]\<rparr>"

definition overflowed :: conn where
  "overflowed = snd (enqueue [] 80 \<lparr>bd_type = KindDelta, bd_ts = 80, bd_id = [],
     bd_frame = NewDelta (chan ChannelMarket ''m1'') ''A''\<rparr> KindDelta answering_conn)"

definition resync_payload :: "string \<Rightarrow> serverFrame option" where
  "resync_payload p = (if p = ''R'' then Some (no_frame\<lparr>sv_Seq := 7, sv_Type := ''resync'', sv_TS := 80,
     sv_Dropped := 2, sv_FromSeq := 5, sv_ToSeq := 6\<rparr>) else None)"

theorem lost_answer_unnoticed_witness:
  "map (\<lambda>o1. Some (wire_frame (\<lambda>_. []) (\<lambda>_. []) (ob_payload o1))) (cn_send overflowed) = [resync_payload ''R''] \<and>
   st_sent (ru_stream (stream_run resync_payload (plain_cfg 0) [Inl (step_of ''R'')]
     (run_at (Serving hello_event \<lparr>expect = 5, resyncPending = True\<rparr>)))) = []"
proof -
  let ?r = "run_at (Serving hello_event \<lparr>expect = 5, resyncPending = True\<rparr>)"
  let ?steps = "[Inl (step_of ''R'')] :: (RunInput + caller) list"
  have "cn_send overflowed = [frame_out 7 \<lparr>bd_type = KindResync, bd_ts = 80, bd_id = [],
      bd_frame = ResyncFrame ResyncSlowConsumer 2 5 6\<rparr> KindResync]"
    by (simp add: overflowed_def answering_conn_def newConn_def enqueue_def next_seq_def sequence_next_def push_def
        discardLocked_def new_gap_def gap_extend_def resyncFrameLocked_def gap_empty_def Render_def marshals_def
        marshalled_def frame_makers Kind_def time_defs frame_out_def Body_Frame_def Let_def)
  then have w: "map (\<lambda>o1. Some (wire_frame (\<lambda>_. []) (\<lambda>_. []) (ob_payload o1))) (cn_send overflowed) = [resync_payload ''R'']"
    by (simp add: wire_frame_def wire_fields_def frame_out_def Body_Frame_def Kind_def MessageKind_String_def
        resync_payload_def no_frame_def)
  have d: "ru_dials (stream_run resync_payload (plain_cfg 0) ?steps ?r) = ru_dials ?r"
    by (simp add: run_step_def serve_once_def decodeServerFrame_def resync_payload_def check_sequence_def ask_resync_def
        serve_frame_def eventFor_def emit_def Let_def sample_defs)
  have "st_sent (ru_stream (stream_run resync_payload (plain_cfg 0) ?steps ?r)) = st_sent (ru_stream ?r)"
    by (rule lost_answer_unnoticed [where l = "\<lparr>expect = 5, resyncPending = True\<rparr>", OF _ _ _ d])
      (simp_all add: run_at_def step_of_def reads_def decodeServerFrame_def resync_payload_def)
  then show ?thesis using w by (simp add: run_at_def quiet_stream_def)
qed

section \<open>Reconnecting\<close>

lemma run_retry_attempt [simp]: "ru_attempt (run_retry cfg i r) = ru_attempt r + 1"
  by (simp add: run_retry_def run_done_def run_panic_def Let_def split: prod.split bool.split option.split)

lemma run_done_fields [simp]: "ru_attempt (run_done e r) = ru_attempt r" "ru_pc (run_done e r) = Done"
  by (simp_all add: run_done_def)

lemma run_retry_dialling:
  assumes "ru_pc (run_retry cfg i r) = Dialling"
  shows "sc_reconnect cfg" "0 < sb_MaxAttempts (sc_backoff cfg) \<Longrightarrow> ru_attempt r + 1 \<le> sb_MaxAttempts (sc_backoff cfg)"
proof -
  show rec: "sc_reconnect cfg" using assms by (cases "sc_reconnect cfg") (simp_all add: run_retry_def Let_def)
  show "ru_attempt r + 1 \<le> sb_MaxAttempts (sc_backoff cfg)" if "0 < sb_MaxAttempts (sc_backoff cfg)"
  proof (rule ccontr)
    assume "\<not> ru_attempt r + 1 \<le> sb_MaxAttempts (sc_backoff cfg)"
    then have "StreamBackoff_exhausted (sc_backoff cfg) (ru_attempt r + 1)" using that by (simp add: StreamBackoff_exhausted_def)
    then show False using assms rec by (simp add: run_retry_def Let_def)
  qed
qed

text \<open>Where the loop stands, the attempts and the dials of a stream whose connections are short.\<close>

definition short_lived :: "StreamConfig \<Rightarrow> int \<Rightarrow> nat \<Rightarrow> Run \<Rightarrow> bool" where
  "short_lived cfg a d r =
     (a \<le> ru_attempt r \<and>
      (case ru_pc r of
        Dialling \<Rightarrow> ru_attempt r \<le> sb_MaxAttempts (sc_backoff cfg) \<and> int (ru_dials r) - int d \<le> ru_attempt r - a
      | Done \<Rightarrow> int (ru_dials r) - int d \<le> sb_MaxAttempts (sc_backoff cfg) - a + 1
      | _ \<Rightarrow> ru_attempt r \<le> sb_MaxAttempts (sc_backoff cfg) \<and> int (ru_dials r) - int d \<le> ru_attempt r - a + 1))"

lemma short_lived_retry:
  assumes "0 < sb_MaxAttempts (sc_backoff cfg)" "a \<le> ru_attempt r" "ru_attempt r \<le> sb_MaxAttempts (sc_backoff cfg)"
    and "int (ru_dials r) - int d \<le> ru_attempt r - a + 1"
  shows "short_lived cfg a d (run_retry cfg i r)"
proof (cases "ru_pc (run_retry cfg i r) = Dialling")
  case True
  then show ?thesis using assms run_retry_dialling(2) [OF True] by (simp add: short_lived_def)
next
  case False
  then have "ru_pc (run_retry cfg i r) = Done" using run_retry_pc [of cfg i r] by simp
  then show ?thesis using assms by (simp add: short_lived_def)
qed

lemma short_lived_step:
  assumes m: "0 < sb_MaxAttempts (sc_backoff cfg)" and s: "ri_served i \<le> StreamBackoff_maxDelay (sc_backoff cfg)"
    and inv: "short_lived cfg a d r"
  shows "short_lived cfg a d (run_step unmarshal cfg i r)"
proof (cases "ru_pc r")
  case (Opening h)
  then show ?thesis using inv by (simp add: run_step_def short_lived_def split: prod.split bool.split)
next
  case (Serving h l)
  obtain x t where o1: "serve_once unmarshal (ri_serve i) l (ru_stream r) = (x, t)" by fastforce
  show ?thesis
  proof (cases x)
    case (Inl e)
    then have "run_step unmarshal cfg i r = run_ended cfg i h e (r\<lparr>ru_stream := t\<rparr>)" using Serving o1 by (simp add: run_step_def)
    moreover have "short_lived cfg a d (run_done err q)"
      if "ru_attempt q = ru_attempt r" "ru_dials q = ru_dials r" for err q
      using inv Serving that by (simp add: short_lived_def)
    moreover have "short_lived cfg a d (run_retry cfg i q)"
      if "ru_attempt q = ru_attempt r" "ru_dials q = ru_dials r" for q
      using inv Serving that by (intro short_lived_retry [OF m]) (simp_all add: short_lived_def)
    ultimately show ?thesis using s by (simp add: run_ended_def Let_def)
  next
    case (Inr l')
    then show ?thesis using Serving o1 inv by (simp add: run_step_def short_lived_def)
  qed
next
  case Dialling
  then have k: "a \<le> ru_attempt r" "ru_attempt r \<le> sb_MaxAttempts (sc_backoff cfg)"
    "int (ru_dials r) - int d \<le> ru_attempt r - a" using inv by (simp_all add: short_lived_def)
  obtain x t where c: "Stream_connect unmarshal (ri_connect i) (Suc (ru_dials r)) (ru_stream r) = (x, t)" by fastforce
  show ?thesis
  proof (cases x)
    case (Inl e)
    have "short_lived cfg a d (run_retry cfg i q)" if "ru_attempt q = ru_attempt r" "ru_dials q = Suc (ru_dials r)" for q
      using k that by (intro short_lived_retry [OF m]) simp_all
    moreover have "short_lived cfg a d (run_done err q)" if "ru_attempt q = ru_attempt r" "ru_dials q = Suc (ru_dials r)" for err q
      using k that by (simp add: short_lived_def)
    ultimately show ?thesis using Dialling c Inl by (simp add: run_step_def Let_def)
  next
    case (Inr hello)
    then show ?thesis using Dialling c k by (simp add: run_step_def short_lived_def)
  qed
next
  case Done
  then show ?thesis using inv by (simp add: run_step_def)
qed

text \<open>C31: A limit on the attempts limits the dials: while no connection lasts longer than the greatest
  delay, so that the count is never reset, a stream that is about to dial dials at most once more than
  the attempts it has left, whether the dials fail or connect and drop at once, and whatever the
  application calls.\<close>

theorem reconnects_bounded:
  assumes "0 < sb_MaxAttempts (sc_backoff cfg)" "ru_pc r = Dialling"
    and "ru_attempt r \<le> sb_MaxAttempts (sc_backoff cfg)"
    and "\<forall>i. Inl i \<in> set steps \<longrightarrow> ri_served i \<le> StreamBackoff_maxDelay (sc_backoff cfg)"
  shows "int (ru_dials (stream_run unmarshal cfg steps r)) \<le>
    int (ru_dials r) + (sb_MaxAttempts (sc_backoff cfg) - ru_attempt r) + 1"
proof -
  let ?P = "short_lived cfg (ru_attempt r) (ru_dials r)"
  have "?P (stream_run unmarshal cfg steps r)"
  proof (rule stream_run_induct [where P = ?P])
    show "?P r" using assms(2,3) by (simp add: short_lived_def)
    show "?P (run_step unmarshal cfg i q)" if "Inl i \<in> set steps" "?P q" for i q
      using short_lived_step [OF assms(1)] assms(4) that by blast
    show "?P (call_step c q)" if "?P q" for c q
      using that by (cases "ru_pc q") (simp_all add: short_lived_def)
  qed
  then show ?thesis using assms(3) by (cases "ru_pc (stream_run unmarshal cfg steps r)") (simp_all add: short_lived_def)
qed

theorem reconnects_bounded_witness:
  "int (ru_dials (stream_run three_payloads (plain_cfg 1) (replicate 9 (Inl (step_of ''x''))) (run_at Dialling))) \<le> 3"
  using reconnects_bounded [of "plain_cfg 1" "run_at Dialling" "replicate 9 (Inl (step_of ''x''))" three_payloads]
  by (simp add: plain_cfg_def run_at_def step_of_def StreamBackoff_maxDelay_def DefaultStreamMaxDelay_def second_def)

text \<open>A failing dial, and what the loop does with it.\<close>

definition dial_fails :: "(string \<Rightarrow> serverFrame option) \<Rightarrow> RunInput \<Rightarrow> bool" where
  "dial_fails unmarshal i = (\<forall>c. \<exists>e. read_hello unmarshal (ri_connect i) c = Inl e)"

lemma run_step_fails:
  assumes "ru_pc r = Dialling" "dial_fails unmarshal i"
  obtains e where "read_hello unmarshal (ri_connect i) (st_connID (ru_stream r)) = Inl e"
    "run_step unmarshal cfg i r = (if st_cancelled (ru_stream r) then run_done (Some StreamClosed) (r\<lparr>ru_dials := Suc (ru_dials r)\<rparr>)
       else run_retry cfg i (r\<lparr>ru_dials := Suc (ru_dials r), ru_last := Some e\<rparr>))"
proof -
  obtain e where e: "read_hello unmarshal (ri_connect i) (st_connID (ru_stream r)) = Inl e"
    using assms(2) by (auto simp: dial_fails_def)
  then have "Stream_connect unmarshal (ri_connect i) (Suc (ru_dials r)) (ru_stream r) = (Inl e, ru_stream r)"
    by (simp add: Stream_connect_def)
  then show thesis by (intro that [OF e]) (simp add: run_step_def assms(1) Let_def)
qed

text \<open>C32: A stream that can no longer connect ends: with a limit on the attempts, once as many dials have
  failed as there are attempts left and one more, the loop is done, whatever the application calls in
  between.\<close>

theorem reconnects_end:
  assumes "0 < sb_MaxAttempts (sc_backoff cfg)" "ru_pc r = Dialling" "ru_attempt r \<le> sb_MaxAttempts (sc_backoff cfg)"
    and "\<forall>i. Inl i \<in> set steps \<longrightarrow> dial_fails unmarshal i"
    and "sb_MaxAttempts (sc_backoff cfg) - ru_attempt r + 1 \<le> int (length (filter isl steps))"
  shows "ru_pc (stream_run unmarshal cfg steps r) = Done"
proof -
  let ?M = "sb_MaxAttempts (sc_backoff cfg)"
  have "ru_pc (stream_run unmarshal cfg steps r) = Done"
    if "ru_pc r = Done \<or> ru_pc r = Dialling \<and> ru_attempt r \<le> ?M \<and> ?M - ru_attempt r + 1 \<le> int (length (filter isl steps))"
    using that assms(4)
  proof (induction steps arbitrary: r)
    case (Cons x steps)
    show ?case
    proof (cases x)
      case (Inr c)
      then show ?thesis using Cons.IH [of "call_step c r"] Cons.prems by simp
    next
      case (Inl i)
      have "ru_pc (run_step unmarshal cfg i r) = Done \<or> ru_pc (run_step unmarshal cfg i r) = Dialling \<and>
          ru_attempt (run_step unmarshal cfg i r) \<le> ?M \<and>
          ru_attempt (run_step unmarshal cfg i r) = ru_attempt r + 1 \<and> ru_pc r = Dialling"
      proof (cases "ru_pc r = Done")
        case False
        then have d: "ru_pc r = Dialling" using Cons.prems(1) by simp
        obtain e where e: "run_step unmarshal cfg i r = (if st_cancelled (ru_stream r) then run_done (Some StreamClosed) (r\<lparr>ru_dials := Suc (ru_dials r)\<rparr>)
           else run_retry cfg i (r\<lparr>ru_dials := Suc (ru_dials r), ru_last := Some e\<rparr>))"
          by (rule run_step_fails [OF d]) (use Cons.prems(2) Inl in auto)
        then show ?thesis
          using run_retry_pc [of cfg i "r\<lparr>ru_dials := Suc (ru_dials r), ru_last := Some e\<rparr>"]
            run_retry_dialling(2) [of cfg i "r\<lparr>ru_dials := Suc (ru_dials r), ru_last := Some e\<rparr>"] assms(1) d
          by auto
      qed (simp add: run_step_def)
      then show ?thesis using Cons.IH [of "run_step unmarshal cfg i r"] Cons.prems Inl by auto
    qed
  qed (use assms in auto)
  then show ?thesis using assms by simp
qed

lemma sample_dial_fails: "dial_fails three_payloads (step_of ''x'')"
  by (simp add: dial_fails_def read_hello_def step_of_def dialled_def decodeServerFrame_def three_payloads_def StreamProtocol_def)

theorem reconnects_end_witness:
  "ru_pc (stream_run three_payloads (plain_cfg 1) [Inl (step_of ''x''), Inr CallNext, Inl (step_of ''x'')] (run_at Dialling)) = Done"
  by (rule reconnects_end) (auto simp: plain_cfg_def run_at_def sample_dial_fails)

text \<open>Without a limit a stream that is refused goes on dialling for ever, also when each dial fails
  with a protocol error: a protocol error ends the stream only when it is found while serving.\<close>

theorem refusals_redialled:
  assumes "sc_reconnect cfg" "sb_MaxAttempts (sc_backoff cfg) \<le> 0"
    and "ru_pc r = Dialling" "\<not> st_cancelled (ru_stream r)" "0 \<le> ru_attempt r"
    and "\<forall>i \<in> set is. \<forall>c. read_hello unmarshal (ri_connect i) c = Inl StreamProtocolError"
  shows "ru_pc (stream_run unmarshal cfg (map Inl is) r) = Dialling \<and>
    ru_dials (stream_run unmarshal cfg (map Inl is) r) = ru_dials r + length is"
  using assms(3-6)
proof (induction "is" arbitrary: r)
  case (Cons i "is")
  let ?q = "r\<lparr>ru_dials := Suc (ru_dials r), ru_last := Some StreamProtocolError\<rparr>"
  have "dial_fails unmarshal i" using Cons.prems(4) by (simp add: dial_fails_def)
  from run_step_fails [OF Cons.prems(1) this, of cfg]
  have s: "run_step unmarshal cfg i r = run_retry cfg i ?q" using Cons.prems by (metis list.set_intros(1) sum.inject(1))
  have "ru_pc (run_retry cfg i ?q) = Dialling \<and> \<not> st_cancelled (ru_stream (run_retry cfg i ?q))"
    using Cons.prems(2,3) assms(1,2)
    by (simp add: run_retry_def StreamBackoff_exhausted_def StreamBackoff_delay_def RetryPolicy_delay_def emit_def Let_def)
  then show ?case using Cons.IH [of "run_retry cfg i ?q"] Cons.prems(3,4) by (simp add: s)
qed simp

section \<open>Unsubscribing while disconnected\<close>

text \<open>A channel that the application gives up between two connections is not given up at the gateway:
  nothing is sent then, and when the connection comes back with the channel restored, nothing that the
  stream sends while connecting names it, so the gateway goes on sending it.\<close>

theorem unsubscribe_forgotten:
  assumes "st_sock s = None" "st_err s = None" "validStreamChannel ch = Inr ()"
    and "Stream_Unsubscribe write [ch] s = (e, s1)" "Stream_connect unmarshal i k s1 = (Inr hello, s2)"
  shows "e = None \<and> ch \<notin> set (st_desired s2) \<and>
    (\<exists>fs. st_sent s2 = st_sent s @ fs \<and> (\<forall>f \<in> set fs. cl_Type (snd f) = ''subscribe'' \<and> ch \<notin> set (cl_Channels (snd f))))"
proof -
  have u: "e = None" "st_sent s1 = st_sent s" "ch \<notin> set (st_desired s1)" "st_err s1 = None"
    using assms(1-4)
    by (auto simp: Stream_Unsubscribe_def amend_def stream_request_def nextRequestID_def stream_send_def removeStrings_def
        containsString_def Let_def)
  have "st_desired s2 = st_desired s1 \<and> (st_sent s2 = st_sent s1 \<or> (\<exists>n. st_sent s2 = st_sent s1 @
      [(k, \<lparr>cl_Type = ''subscribe'', cl_ID = n, cl_Channels = wanted s1 (hello_channels_of hello)\<rparr>)]))"
    using assms(5) u(4)
    by (auto simp: Stream_connect_def stream_send_def Let_def split: sum.splits option.splits if_splits prod.splits)
  moreover have "ch \<notin> set (wanted s1 cs)" for cs using u(3) by (simp add: wanted_def)
  ultimately show ?thesis using u by auto
qed

section \<open>Waiting\<close>

lemma jitter_part:
  assumes q: "0 \<le> q" "q < 1" and w: "0 < w" "w < 2 ^ 53"
  shows "0 \<le> sint (int64_of_float64 (fmul (Fin q) (float64_of_int64 (word_of_int w))))"
    "sint (int64_of_float64 (fmul (Fin q) (float64_of_int64 (word_of_int w)))) \<le> w"
proof -
  let ?x = "fmul (Fin q) (float64_of_int64 (word_of_int w))"
  have "sint (word_of_int w :: int64) = w" using w by (simp add: sint_of_int64 wrap64_id)
  then have f: "float64_of_int64 (word_of_int w) = Fin (of_int w)"
    using w by (simp add: float64_of_int64_def fround_int)
  have "0 \<le> fval ?x \<and> fval ?x \<le> of_int w"
  proof (cases "q = 0")
    case True
    then show ?thesis using w by (simp add: f fmul_def)
  next
    case False
    then have pos: "0 < q * of_int w" using q(1) w(1) by simp
    have "q * of_int w \<le> of_int w" using q w(1) by (simp add: mult_left_le_one_le)
    then have "rmag (q * of_int w) \<le> of_int w" using rmag_mono [OF pos, of "of_int w"] rmag_int [OF w] by simp
    moreover have "0 \<le> rmag (q * of_int w)" using rmag_nonneg pos by simp
    moreover have "(of_int w :: rat) < pow2 1024"
    proof -
      have "(of_int w :: rat) < of_int (2 ^ 53)" using w(2) by (simp only: of_int_less_iff)
      also have "\<dots> = pow2 53" by (simp add: pow2_def)
      also have "\<dots> \<le> pow2 1024" by (rule pow2_mono) simp
      finally show ?thesis .
    qed
    ultimately show ?thesis using pos False w by (simp add: f fmul_def fround_def abs_of_pos Let_def)
  qed
  then have "0 \<le> rtz (fval ?x)" "rtz (fval ?x) \<le> w"
    using rtz_mono [of 0 "fval ?x"] rtz_mono [of "fval ?x" "of_int w"] rtz_of_int [of 0] by simp_all
  moreover from this have "sint (int64_of_float64 ?x) = rtz (fval ?x)"
    using w by (simp add: int64_of_float64_def sint_of_int64 wrap64_id)
  ultimately show "0 \<le> sint (int64_of_float64 ?x)" "sint (int64_of_float64 ?x) \<le> w" by simp_all
qed

text \<open>C34: The wait before a reconnection is never negative and never longer than the greatest delay, for
  every attempt from the first on, although the doubling wraps at 64 bits, for every draw of the jitter in
  the half-open interval from 0 to 1, when the greatest delay is below \<open>2 ^ 53\<close> nanoseconds (some 104 days).\<close>

theorem backoff_bounded:
  assumes "0 \<le> q" "q < 1" "sb_MaxDelay b < 2 ^ 53" "1 \<le> attempt"
  shows "\<exists>d. StreamBackoff_delay b (Fin q) attempt = Some d \<and> 0 \<le> d \<and> d \<le> StreamBackoff_maxDelay b"
proof -
  let ?max = "StreamBackoff_maxDelay b"
  have max: "0 < ?max" "?max < 2 ^ 53"
    using assms(3) by (auto simp: StreamBackoff_maxDelay_def DefaultStreamMaxDelay_def second_def)
  obtain w where w: "StreamBackoff_delay b (Fin q) attempt =
      Some (sint (int64_of_float64 (fmul (Fin q) (float64_of_int64 (word_of_int w)))))" "0 < w" "w \<le> ?max"
  proof -
    let ?base = "if sb_BaseDelay b \<le> 0 then DefaultStreamBaseDelay else sb_BaseDelay b"
    let ?s = "wrap64 (?base * 2 ^ nat (attempt - 1))"
    let ?w = "if ?max < ?s \<or> ?s \<le> 0 then ?max else ?s"
    have "0 < ?base" by (simp add: DefaultStreamBaseDelay_def)
    then have "StreamBackoff_delay b (Fin q) attempt =
        Some (sint (int64_of_float64 (fmul (Fin q) (float64_of_int64 (word_of_int ?w)))))"
      using max(1) assms(4) by (simp add: StreamBackoff_delay_def RetryPolicy_delay_def StreamBackoff_maxDelay_def Let_def)
    then show thesis by (rule that) (use max in auto)
  qed
  then show ?thesis using jitter_part [OF assms(1,2) w(2)] max(2) by simp
qed

theorem backoff_bounded_witness:
  "\<exists>d. StreamBackoff_delay \<lparr>sb_BaseDelay = 0, sb_MaxDelay = 0, sb_MaxAttempts = 0\<rparr> (Fin (1 / 2)) 40 = Some d \<and> 0 \<le> d"
  using backoff_bounded [of "1 / 2" "\<lparr>sb_BaseDelay = 0, sb_MaxDelay = 0, sb_MaxAttempts = 0\<rparr>" 40] by auto

section \<open>No panic\<close>

text \<open>The attempts of a stream are counted from zero and \<open>run\<close> counts before it waits, so the shift of the
  backoff, which panics for an attempt below one, is never reached with one.\<close>

lemma retry_calm:
  assumes "0 \<le> ru_attempt r" "\<not> ru_panicked r"
  shows "\<not> ru_panicked (run_retry cfg i r)"
proof -
  obtain d where "StreamBackoff_delay (sc_backoff cfg) (ri_jitter i) (ru_attempt r + 1) = Some d"
    using assms(1) by (simp add: StreamBackoff_delay_def RetryPolicy_delay_def Let_def)
  then show ?thesis using assms(2) by (simp add: run_retry_def run_done_def Let_def split: prod.split bool.split)
qed

text \<open>A stream never panics: in no history of a stream that was opened, whatever the gateway sends, the
  network does and the application calls, does the goroutine panic in the shift of its backoff.\<close>

theorem stream_never_panics:
  assumes "Client_Stream unmarshal channels i = Inr r"
  shows "\<not> ru_panicked (stream_run unmarshal cfg steps r)"
proof -
  let ?P = "\<lambda>r. 0 \<le> ru_attempt r \<and> \<not> ru_panicked r"
  have retry: "?P q \<Longrightarrow> ?P (run_retry cfg i q)" for i q
    using retry_calm by simp
  have over: "?P q \<Longrightarrow> ?P (run_done err q)" for err q
    by (simp add: run_done_def)
  have ended: "?P q \<Longrightarrow> ?P (run_ended cfg i h e q)" for i h e q
    using retry over by (simp add: run_ended_def Let_def)
  have "?P (run_step unmarshal cfg i q)" if P: "?P q" for i q
  proof (cases "ru_pc q")
    case (Opening h)
    then show ?thesis using P over by (simp add: run_step_def split: prod.split bool.split)
  next
    case (Serving h l)
    then show ?thesis using P ended by (simp add: run_step_def split: prod.split sum.split)
  next
    case Dialling
    then show ?thesis using P retry over by (simp add: run_step_def Let_def split: prod.split sum.split)
  next
    case Done
    then show ?thesis using P by (simp add: run_step_def)
  qed
  moreover have "?P q \<Longrightarrow> ?P (call_step c q)" for c q by (simp add: call_step_def)
  moreover have "?P r" using Client_Stream_run(1,2) [OF assms] by simp
  ultimately have "?P (stream_run unmarshal cfg steps r)" by (intro stream_run_induct [where P = ?P])
  then show ?thesis by simp
qed

theorem stream_never_panics_witness:
  "\<exists>r. Client_Stream snapshot_payload [] (dialled (Inr ''h'')) = Inr r \<and>
    \<not> ru_panicked (stream_run snapshot_payload (plain_cfg 0) (replicate 5 (Inl (step_of ''x''))) r)"
  using stream_never_panics [OF sample_stream] sample_stream by blast

end
