(* ===== verification/AuthErrors.thy ===== *)
theory AuthErrors
  imports GoText
begin

text \<open>
  \<open>internal/auth/errors.go\<close>: the roots a handler branches on and the sentinels that wrap them. A
  function of the package returns a root, a sentinel, an error of \<open>internal/domain\<close> it passes on, or
  a failure of the store, which wraps none of them. \<open>Panicked\<close> is not an error value: it stands for a
  run-time panic, which unwinds the call.
\<close>

datatype auth_root = Invalid | Conflict | Unauthenticated | Forbidden | Internal

datatype auth_err =
    Root auth_root
  | AuthCredentials
  | AuthSecondFactorRequired
  | AuthSecondFactorInvalid
  | AuthTokenUnknown
  | AuthTokenExpired
  | AuthTokenReuse
  | AuthSessionRevoked
  | AuthAccessTokenInvalid
  | AuthAccountSuspended
  | AuthAccountClosed
  | AuthSelfExcluded
  | AuthEmailTaken
  | AuthTOTPAlreadyEnrolled
  | AuthTOTPNotEnrolled
  | AuthEmailEmpty
  | AuthEmailTooLong
  | AuthEmailTooShort
  | AuthEmailShape
  | AuthPasswordTooShort
  | AuthPasswordTooLong
  | AuthPasswordNotUTF8
  | AuthPasswordUnchanged
  | AuthHashFormat
  | AuthHashAlgorithm
  | AuthHashVersion
  | AuthHashParams
  | AuthParamsInvalid
  | AuthKeyUnknown
  | AuthKeyLength
  | AuthKeyringEmpty
  | AuthKeyringFormat
  | AuthSigningKeyLen
  | AuthDecrypt
  | AuthSecretNotShown
  | DomainFailure
  | StoreFailure
  | Panicked

text \<open>What \<open>errors.Is\<close> answers about the roots.\<close>

fun wraps_root :: "auth_err \<Rightarrow> auth_root option" where
  "wraps_root (Root r) = Some r"
| "wraps_root AuthCredentials = Some Unauthenticated"
| "wraps_root AuthSecondFactorRequired = Some Unauthenticated"
| "wraps_root AuthSecondFactorInvalid = Some Unauthenticated"
| "wraps_root AuthTokenUnknown = Some Unauthenticated"
| "wraps_root AuthTokenExpired = Some Unauthenticated"
| "wraps_root AuthTokenReuse = Some Unauthenticated"
| "wraps_root AuthSessionRevoked = Some Unauthenticated"
| "wraps_root AuthAccessTokenInvalid = Some Unauthenticated"
| "wraps_root AuthAccountSuspended = Some Forbidden"
| "wraps_root AuthAccountClosed = Some Forbidden"
| "wraps_root AuthSelfExcluded = Some Forbidden"
| "wraps_root AuthEmailTaken = Some Conflict"
| "wraps_root AuthTOTPAlreadyEnrolled = Some Conflict"
| "wraps_root AuthTOTPNotEnrolled = Some Conflict"
| "wraps_root AuthEmailEmpty = Some Invalid"
| "wraps_root AuthEmailTooLong = Some Invalid"
| "wraps_root AuthEmailTooShort = Some Invalid"
| "wraps_root AuthEmailShape = Some Invalid"
| "wraps_root AuthPasswordTooShort = Some Invalid"
| "wraps_root AuthPasswordTooLong = Some Invalid"
| "wraps_root AuthPasswordNotUTF8 = Some Invalid"
| "wraps_root AuthPasswordUnchanged = Some Conflict"
| "wraps_root AuthHashFormat = Some Internal"
| "wraps_root AuthHashAlgorithm = Some Internal"
| "wraps_root AuthHashVersion = Some Internal"
| "wraps_root AuthHashParams = Some Internal"
| "wraps_root AuthParamsInvalid = Some Invalid"
| "wraps_root AuthKeyUnknown = Some Internal"
| "wraps_root AuthKeyLength = Some Invalid"
| "wraps_root AuthKeyringEmpty = Some Invalid"
| "wraps_root AuthKeyringFormat = Some Invalid"
| "wraps_root AuthSigningKeyLen = Some Invalid"
| "wraps_root AuthDecrypt = Some Internal"
| "wraps_root AuthSecretNotShown = Some Invalid"
| "wraps_root DomainFailure = None"
| "wraps_root StoreFailure = None"
| "wraps_root Panicked = None"

type_synonym 'a ares = "auth_err + 'a"

text \<open>A value, or a given error when there is none.\<close>

definition some_or :: "'e \<Rightarrow> 'a option \<Rightarrow> 'e + 'a" where
  "some_or e x = (case x of None \<Rightarrow> Inl e | Some y \<Rightarrow> Inr y)"

lemma some_or_simps [simp]: "some_or e None = Inl e" "some_or e (Some y) = Inr y"
  by (simp_all add: some_or_def)

lemma some_or_eq [result_simps]: "some_or e x = Inr y \<longleftrightarrow> x = Some y" "some_or e x = Inl e' \<longleftrightarrow> x = None \<and> e' = e"
  by (auto simp: some_or_def split: option.splits)

text \<open>A result whose error is replaced.\<close>

definition as_error :: "'e \<Rightarrow> 'f + 'a \<Rightarrow> 'e + 'a" where
  "as_error e r = (case r of Inl _ \<Rightarrow> Inl e | Inr x \<Rightarrow> Inr x)"

lemma as_error_simps [simp]: "as_error e (Inl f) = Inl e" "as_error e (Inr x) = Inr x"
  by (simp_all add: as_error_def)

lemma as_error_eq [result_simps]:
  "as_error e r = Inr y \<longleftrightarrow> r = Inr y" "as_error e r = Inl f \<longleftrightarrow> f = e \<and> \<not> is_ok r"
  by (auto simp: as_error_def split: sum.splits)

end
