(* ===== verification/AuthStatus.thy ===== *)
theory AuthStatus
  imports AuthErrors CodedEnum
begin

text \<open>
  \<open>internal/auth/status.go\<close>: the enumerations stored as text in the accounts tables. Each is a
  \<open>coded_enum\<close>; a raw \<open>uint8\<close> outside the constants behaves as \<open>Unknown\<close>.
\<close>

section \<open>Account status\<close>

datatype UserStatus = UserStatusUnknown | UserStatusActive | UserStatusSuspended | UserStatusSelfExcluded | UserStatusClosed

fun UserStatus_String :: "UserStatus \<Rightarrow> string" where
  "UserStatus_String UserStatusActive = ''active''"
| "UserStatus_String UserStatusSuspended = ''suspended''"
| "UserStatus_String UserStatusSelfExcluded = ''self_excluded''"
| "UserStatus_String UserStatusClosed = ''closed''"
| "UserStatus_String UserStatusUnknown = ''unknown''"

fun UserStatus_Valid :: "UserStatus \<Rightarrow> bool" where
  "UserStatus_Valid UserStatusUnknown = False"
| "UserStatus_Valid _ = True"

definition ParseUserStatus :: "string \<Rightarrow> UserStatus ares" where
  "ParseUserStatus s =
     (if s = ''active'' then Inr UserStatusActive
      else if s = ''suspended'' then Inr UserStatusSuspended
      else if s = ''self_excluded'' then Inr UserStatusSelfExcluded
      else if s = ''closed'' then Inr UserStatusClosed
      else Inl (Root Invalid))"

definition UserStatus_MarshalText :: "UserStatus \<Rightarrow> string ares" where
  "UserStatus_MarshalText k = (if \<not> UserStatus_Valid k then Inl (Root Invalid) else Inr (UserStatus_String k))"

definition UserStatus_UnmarshalText :: "string \<Rightarrow> UserStatus ares" where
  "UserStatus_UnmarshalText b = ParseUserStatus b"

interpretation user_status_text: coded_enum UserStatus_String ParseUserStatus UserStatus_Valid
  UserStatus_MarshalText UserStatus_UnmarshalText UserStatusUnknown "Root Invalid"
proof unfold_locales
  show "UserStatus_Valid k \<Longrightarrow> ParseUserStatus (UserStatus_String k) = Inr k" for k
    by (cases k) (simp_all add: ParseUserStatus_def)
  show "\<not> UserStatus_Valid k \<longleftrightarrow> k = UserStatusUnknown" for k by (cases k) simp_all
qed (auto simp: ParseUserStatus_def UserStatus_MarshalText_def UserStatus_UnmarshalText_def split: if_splits)

definition UserStatus_CanAuthenticate :: "UserStatus \<Rightarrow> bool" where
  "UserStatus_CanAuthenticate s = (s = UserStatusActive \<or> s = UserStatusSelfExcluded)"

definition UserStatus_CanWager :: "UserStatus \<Rightarrow> bool" where
  "UserStatus_CanWager s = (s = UserStatusActive)"

section \<open>Why a lineage was revoked\<close>

datatype RevokedReason = RevokedReasonUnknown | RevokedReasonLogout | RevokedReasonReuseDetected | RevokedReasonCredentialChange | RevokedReasonOperator

fun RevokedReason_String :: "RevokedReason \<Rightarrow> string" where
  "RevokedReason_String RevokedReasonLogout = ''logout''"
| "RevokedReason_String RevokedReasonReuseDetected = ''reuse_detected''"
| "RevokedReason_String RevokedReasonCredentialChange = ''credential_change''"
| "RevokedReason_String RevokedReasonOperator = ''operator''"
| "RevokedReason_String RevokedReasonUnknown = ''unknown''"

fun RevokedReason_Valid :: "RevokedReason \<Rightarrow> bool" where
  "RevokedReason_Valid RevokedReasonUnknown = False"
| "RevokedReason_Valid _ = True"

definition ParseRevokedReason :: "string \<Rightarrow> RevokedReason ares" where
  "ParseRevokedReason s =
     (if s = ''logout'' then Inr RevokedReasonLogout
      else if s = ''reuse_detected'' then Inr RevokedReasonReuseDetected
      else if s = ''credential_change'' then Inr RevokedReasonCredentialChange
      else if s = ''operator'' then Inr RevokedReasonOperator
      else Inl (Root Invalid))"

definition RevokedReason_MarshalText :: "RevokedReason \<Rightarrow> string ares" where
  "RevokedReason_MarshalText k = (if \<not> RevokedReason_Valid k then Inl (Root Invalid) else Inr (RevokedReason_String k))"

definition RevokedReason_UnmarshalText :: "string \<Rightarrow> RevokedReason ares" where
  "RevokedReason_UnmarshalText b = ParseRevokedReason b"

interpretation revoked_reason_text: coded_enum RevokedReason_String ParseRevokedReason RevokedReason_Valid
  RevokedReason_MarshalText RevokedReason_UnmarshalText RevokedReasonUnknown "Root Invalid"
proof unfold_locales
  show "RevokedReason_Valid k \<Longrightarrow> ParseRevokedReason (RevokedReason_String k) = Inr k" for k
    by (cases k) (simp_all add: ParseRevokedReason_def)
  show "\<not> RevokedReason_Valid k \<longleftrightarrow> k = RevokedReasonUnknown" for k by (cases k) simp_all
qed (auto simp: ParseRevokedReason_def RevokedReason_MarshalText_def RevokedReason_UnmarshalText_def split: if_splits)

section \<open>Limits\<close>

datatype LimitKind = LimitKindUnknown | LimitKindGrant | LimitKindStake | LimitKindLoss | LimitKindSession

fun LimitKind_String :: "LimitKind \<Rightarrow> string" where
  "LimitKind_String LimitKindGrant = ''grant''"
| "LimitKind_String LimitKindStake = ''stake''"
| "LimitKind_String LimitKindLoss = ''loss''"
| "LimitKind_String LimitKindSession = ''session''"
| "LimitKind_String LimitKindUnknown = ''unknown''"

fun LimitKind_Valid :: "LimitKind \<Rightarrow> bool" where
  "LimitKind_Valid LimitKindUnknown = False"
| "LimitKind_Valid _ = True"

definition ParseLimitKind :: "string \<Rightarrow> LimitKind ares" where
  "ParseLimitKind s =
     (if s = ''grant'' then Inr LimitKindGrant
      else if s = ''stake'' then Inr LimitKindStake
      else if s = ''loss'' then Inr LimitKindLoss
      else if s = ''session'' then Inr LimitKindSession
      else Inl (Root Invalid))"

definition LimitKind_MarshalText :: "LimitKind \<Rightarrow> string ares" where
  "LimitKind_MarshalText k = (if \<not> LimitKind_Valid k then Inl (Root Invalid) else Inr (LimitKind_String k))"

definition LimitKind_UnmarshalText :: "string \<Rightarrow> LimitKind ares" where
  "LimitKind_UnmarshalText b = ParseLimitKind b"

interpretation limit_kind_text: coded_enum LimitKind_String ParseLimitKind LimitKind_Valid
  LimitKind_MarshalText LimitKind_UnmarshalText LimitKindUnknown "Root Invalid"
proof unfold_locales
  show "LimitKind_Valid k \<Longrightarrow> ParseLimitKind (LimitKind_String k) = Inr k" for k
    by (cases k) (simp_all add: ParseLimitKind_def)
  show "\<not> LimitKind_Valid k \<longleftrightarrow> k = LimitKindUnknown" for k by (cases k) simp_all
qed (auto simp: ParseLimitKind_def LimitKind_MarshalText_def LimitKind_UnmarshalText_def split: if_splits)

fun LimitKind_IsMoney :: "LimitKind \<Rightarrow> bool" where
  "LimitKind_IsMoney LimitKindGrant = True"
| "LimitKind_IsMoney LimitKindStake = True"
| "LimitKind_IsMoney LimitKindLoss = True"
| "LimitKind_IsMoney _ = False"

datatype LimitPeriod = LimitPeriodUnknown | LimitPeriodDay | LimitPeriodWeek | LimitPeriodMonth | LimitPeriodSession

fun LimitPeriod_String :: "LimitPeriod \<Rightarrow> string" where
  "LimitPeriod_String LimitPeriodDay = ''day''"
| "LimitPeriod_String LimitPeriodWeek = ''week''"
| "LimitPeriod_String LimitPeriodMonth = ''month''"
| "LimitPeriod_String LimitPeriodSession = ''session''"
| "LimitPeriod_String LimitPeriodUnknown = ''unknown''"

fun LimitPeriod_Valid :: "LimitPeriod \<Rightarrow> bool" where
  "LimitPeriod_Valid LimitPeriodUnknown = False"
| "LimitPeriod_Valid _ = True"

definition ParseLimitPeriod :: "string \<Rightarrow> LimitPeriod ares" where
  "ParseLimitPeriod s =
     (if s = ''day'' then Inr LimitPeriodDay
      else if s = ''week'' then Inr LimitPeriodWeek
      else if s = ''month'' then Inr LimitPeriodMonth
      else if s = ''session'' then Inr LimitPeriodSession
      else Inl (Root Invalid))"

definition LimitPeriod_MarshalText :: "LimitPeriod \<Rightarrow> string ares" where
  "LimitPeriod_MarshalText k = (if \<not> LimitPeriod_Valid k then Inl (Root Invalid) else Inr (LimitPeriod_String k))"

definition LimitPeriod_UnmarshalText :: "string \<Rightarrow> LimitPeriod ares" where
  "LimitPeriod_UnmarshalText b = ParseLimitPeriod b"

interpretation limit_period_text: coded_enum LimitPeriod_String ParseLimitPeriod LimitPeriod_Valid
  LimitPeriod_MarshalText LimitPeriod_UnmarshalText LimitPeriodUnknown "Root Invalid"
proof unfold_locales
  show "LimitPeriod_Valid k \<Longrightarrow> ParseLimitPeriod (LimitPeriod_String k) = Inr k" for k
    by (cases k) (simp_all add: ParseLimitPeriod_def)
  show "\<not> LimitPeriod_Valid k \<longleftrightarrow> k = LimitPeriodUnknown" for k by (cases k) simp_all
qed (auto simp: ParseLimitPeriod_def LimitPeriod_MarshalText_def LimitPeriod_UnmarshalText_def split: if_splits)

definition LimitPairValid :: "LimitKind \<Rightarrow> LimitPeriod \<Rightarrow> bool" where
  "LimitPairValid k p =
     (if \<not> LimitKind_Valid k \<or> \<not> LimitPeriod_Valid p then False
      else (k = LimitKindSession) = (p = LimitPeriodSession))"

text \<open>A money limit is a valid limit that no session period can carry.\<close>

lemma money_limit_pairs:
  "LimitPairValid k p \<Longrightarrow> LimitKind_IsMoney k \<longleftrightarrow> p \<noteq> LimitPeriodSession"
  by (cases k) (auto simp: LimitPairValid_def split: if_splits)

end
