(* ===== verification/GoUnicode.thy ===== *)
theory GoUnicode
  imports GoText
begin

text \<open>
  Encoding of runes and the case mappings of \<open>strings\<close>. What \<open>unicode.ToLower\<close> and
  \<open>unicode.ToUpper\<close> do above ASCII is a table of the Unicode standard and a parameter here; below
  they are written out.
\<close>

section \<open>Encoding\<close>

text \<open>\<open>strings.Builder.WriteRune\<close>: surrogates and numbers past the last code point become U+FFFD.\<close>

definition rune_error :: nat where "rune_error = 65533"

definition encode_rune :: "nat \<Rightarrow> string" where
  "encode_rune r =
     (let r = (if 1114111 < r \<or> (55296 \<le> r \<and> r \<le> 57343) then rune_error else r) in
      map char_of
       (if r < 128 then [r]
        else if r < 2048 then [192 + r div 64, 128 + r mod 64]
        else if r < 65536 then [224 + r div 4096, 128 + (r div 64) mod 64, 128 + r mod 64]
        else [240 + r div 262144, 128 + (r div 4096) mod 64, 128 + (r div 64) mod 64, 128 + r mod 64]))"

text \<open>\<open>strings.Map\<close> with a mapping that drops no rune.\<close>

definition rune_of :: "nat option \<times> string \<Rightarrow> nat" where
  "rune_of p = (case fst p of Some r \<Rightarrow> r | None \<Rightarrow> rune_error)"

definition map_runes :: "(nat \<Rightarrow> nat) \<Rightarrow> string \<Rightarrow> string" where
  "map_runes f s = concat (map (\<lambda>p. encode_rune (f (rune_of p))) (runes s))"

definition lower_rune :: "(nat \<Rightarrow> nat) \<Rightarrow> nat \<Rightarrow> nat" where
  "lower_rune uni r = (if r < 128 then (if 65 \<le> r \<and> r \<le> 90 then r + 32 else r) else uni r)"

definition upper_rune :: "(nat \<Rightarrow> nat) \<Rightarrow> nat \<Rightarrow> nat" where
  "upper_rune uni r = (if r < 128 then (if 97 \<le> r \<and> r \<le> 122 then r - 32 else r) else uni r)"

definition to_lower :: "(nat \<Rightarrow> nat) \<Rightarrow> string \<Rightarrow> string" where
  "to_lower uni = map_runes (lower_rune uni)"

definition to_upper :: "(nat \<Rightarrow> nat) \<Rightarrow> string \<Rightarrow> string" where
  "to_upper uni = map_runes (upper_rune uni)"

section \<open>ASCII strings\<close>

definition lower_char :: "char \<Rightarrow> char" where
  "lower_char c = (if 65 \<le> byte c \<and> byte c \<le> 90 then char_of (byte c + 32) else c)"

definition upper_char :: "char \<Rightarrow> char" where
  "upper_char c = (if 97 \<le> byte c \<and> byte c \<le> 122 then char_of (byte c - 32) else c)"

lemma char_of_byte [simp]: "char_of (byte c) = c"
  by (simp add: byte_def)

lemma encode_rune_ascii: "r < 128 \<Longrightarrow> encode_rune r = [char_of r]"
  by (simp add: encode_rune_def)

lemma map_runes_ascii:
  assumes "ascii s" "\<And>r. r < 128 \<Longrightarrow> f r < 128"
  shows "map_runes f s = map (\<lambda>c. char_of (f (byte c))) s"
proof -
  have "concat (map (\<lambda>c. encode_rune (f (byte c))) s) = map (\<lambda>c. char_of (f (byte c))) s"
    using assms(1) by (induction s) (simp_all add: ascii_def encode_rune_ascii assms(2))
  then show ?thesis by (simp add: map_runes_def runes_ascii [OF assms(1)] rune_of_def comp_def)
qed

lemma to_lower_ascii: "ascii s \<Longrightarrow> to_lower uni s = map lower_char s"
  unfolding to_lower_def by (subst map_runes_ascii) (auto simp: lower_rune_def lower_char_def ascii_def list_all_iff)

lemma to_upper_ascii: "ascii s \<Longrightarrow> to_upper uni s = map upper_char s"
  unfolding to_upper_def by (subst map_runes_ascii) (auto simp: upper_rune_def upper_char_def ascii_def list_all_iff)

lemma lower_char_idem [simp]: "lower_char (lower_char c) = lower_char c"
  by (auto simp: lower_char_def byte_def)

lemma ascii_lower: "ascii s \<Longrightarrow> ascii (map lower_char s)"
  by (auto simp: ascii_def list_all_iff lower_char_def byte_def)

lemma valid_utf8_ascii: "ascii s \<Longrightarrow> valid_utf8 s"
  by (simp add: valid_utf8_def runes_ascii list_all_iff)

lemma ascii_append [simp]: "ascii (s @ t) \<longleftrightarrow> ascii s \<and> ascii t"
  by (simp add: ascii_def)

lemma lower_char_space: "is_space (byte (lower_char c)) \<longleftrightarrow> is_space (byte c)"
  by (auto simp: lower_char_def byte_def is_space_def)

end
