(* ===== verification/Email.thy ===== *)
theory Email
  imports GoUnicode AuthErrors
begin

text \<open>
  \<open>internal/auth/email.go\<close>: the normalised address, the lookup key of an account. The parameter
  \<open>lower\<close> is \<open>unicode.ToLower\<close> above ASCII.
\<close>

type_synonym Email = string

definition MinEmailLen :: nat where "MinEmailLen = 3"
definition MaxEmailLen :: nat where "MaxEmailLen = 254"

definition Email_String :: "Email \<Rightarrow> string" where "Email_String e = e"
definition Email_IsZero :: "Email \<Rightarrow> bool" where "Email_IsZero e = (e = [])"

definition containsSpaceOrControl :: "string \<Rightarrow> bool" where
  "containsSpaceOrControl s =
     list_ex (\<lambda>p. let r = rune_of p in r \<le> 32 \<or> r = 127 \<or> (128 \<le> r \<and> r \<le> 159)) (runes s)"

definition NewEmail :: "(nat \<Rightarrow> nat) \<Rightarrow> string \<Rightarrow> Email ares" where
  "NewEmail lower raw =
     (let trimmed = trim_space raw in
      if trimmed = [] then Inl AuthEmailEmpty
      else if \<not> valid_utf8 trimmed then Inl AuthEmailShape
      else let lowered = to_lower lower trimmed; n = length lowered in
        if n < MinEmailLen then Inl AuthEmailTooShort
        else if MaxEmailLen < n then Inl AuthEmailTooLong
        else case cut_at CHR ''@'' lowered of
          None \<Rightarrow> Inl AuthEmailShape
        | Some (local, domain) \<Rightarrow>
            if local = [] \<or> domain = [] then Inl AuthEmailShape
            else if CHR ''@'' \<in> set domain then Inl AuthEmailShape
            else if containsSpaceOrControl local \<or> containsSpaceOrControl domain then Inl AuthEmailShape
            else Inr lowered)"

text \<open>What an address that was accepted looks like.\<close>

definition email_wf :: "string \<Rightarrow> bool" where
  "email_wf e \<longleftrightarrow> 3 \<le> length e \<and> length e \<le> 254 \<and>
     (\<exists>l d. e = l @ CHR ''@'' # d \<and> l \<noteq> [] \<and> d \<noteq> [] \<and> CHR ''@'' \<notin> set l \<and> CHR ''@'' \<notin> set d \<and>
        \<not> containsSpaceOrControl l \<and> \<not> containsSpaceOrControl d)"

lemma NewEmail_wf:
  assumes "NewEmail lower raw = Inr e"
  shows "email_wf e"
proof -
  obtain l d where c: "cut_at CHR ''@'' e = Some (l, d)" and
    rest: "3 \<le> length e" "length e \<le> 254" "l \<noteq> []" "d \<noteq> []" "CHR ''@'' \<notin> set d"
      "\<not> containsSpaceOrControl l" "\<not> containsSpaceOrControl d"
    using assms by (auto simp: NewEmail_def Let_def MinEmailLen_def MaxEmailLen_def split: if_splits option.splits)
  have "e = l @ CHR ''@'' # d" "CHR ''@'' \<notin> set l" using cut_at_SomeD [OF c] by simp_all
  then show ?thesis unfolding email_wf_def using rest by blast
qed

text \<open>Every refusal is a fault of the address, which a handler answers with 400.\<close>

lemma NewEmail_error: "NewEmail lower raw = Inl e \<Longrightarrow> wraps_root e = Some Invalid"
  by (auto simp: NewEmail_def Let_def split: if_splits option.splits prod.splits)

lemma NewEmail_lower: "NewEmail lower raw = Inr e \<Longrightarrow> e = to_lower lower (trim_space raw)"
  by (auto simp: NewEmail_def Let_def split: if_splits option.splits prod.splits)

text \<open>On ASCII, normalising is idempotent, so a stored address parses to itself.\<close>

lemma space_or_control_ascii:
  "ascii s \<Longrightarrow> containsSpaceOrControl s \<longleftrightarrow> (\<exists>c \<in> set s. byte c \<le> 32 \<or> byte c = 127)"
  by (auto simp: containsSpaceOrControl_def runes_ascii rune_of_def list_ex_iff Let_def ascii_def list_all_iff)

lemma email_ends:
  assumes "email_wf e" "ascii e"
  shows "e \<noteq> []" "\<not> is_space (byte (hd e))" "\<not> is_space (byte (last e))"
proof -
  obtain l d where e: "e = l @ CHR ''@'' # d" "l \<noteq> []" "d \<noteq> []"
    "\<not> containsSpaceOrControl l" "\<not> containsSpaceOrControl d"
    using assms(1) unfolding email_wf_def by blast
  have ascii: "ascii l" "ascii d" using assms(2) e(1) by (auto simp: ascii_def)
  have in_l: "32 < byte c \<and> byte c < 128" if "c \<in> set l" for c
    using that e(4) ascii(1) space_or_control_ascii by (fastforce simp: ascii_def list_all_iff)
  have in_d: "32 < byte c \<and> byte c < 128" if "c \<in> set d" for c
    using that e(5) ascii(2) space_or_control_ascii by (fastforce simp: ascii_def list_all_iff)
  have sp: "\<not> is_space n" if "32 < n \<and> n < 128" for n using that by (auto simp: is_space_def)
  show "e \<noteq> []" using e(1) by simp
  show "\<not> is_space (byte (hd e))" using e(1,2) in_l [of "hd l"] sp by simp
  show "\<not> is_space (byte (last e))" using e(1,3) in_d [of "last d"] sp by simp
qed

lemma NewEmail_idem:
  assumes "ascii (trim_space raw)" "NewEmail lower raw = Inr e"
  shows "NewEmail lower e = Inr e"
proof -
  have e: "e = map lower_char (trim_space raw)"
    using NewEmail_lower [OF assms(2)] to_lower_ascii [OF assms(1)] by simp
  have a: "ascii e" using ascii_lower [OF assms(1)] e by simp
  note ends = email_ends [OF NewEmail_wf [OF assms(2)] a]
  have "trim_space e = e" using ends a by (rule_tac trim_space_ascii) simp_all
  moreover have "to_lower lower e = e" using to_lower_ascii [OF a] e by simp
  moreover have "to_lower lower (trim_space raw) = e" using NewEmail_lower [OF assms(2)] by simp
  ultimately show ?thesis
    using assms(2) valid_utf8_ascii [OF a] ends(1) by (simp add: NewEmail_def Let_def split: if_splits)
qed

text \<open>Addresses that differ in the case of ASCII letters only are one account.\<close>

lemma NewEmail_case:
  assumes "ascii (trim_space a)" "ascii (trim_space b)" "map lower_char (trim_space a) = map lower_char (trim_space b)"
  shows "NewEmail lower a = NewEmail lower b"
proof -
  have "trim_space a = [] \<longleftrightarrow> trim_space b = []" using assms(3) by (metis map_is_Nil_conv)
  then show ?thesis
    using assms to_lower_ascii valid_utf8_ascii by (simp add: NewEmail_def Let_def)
qed

end
