(* ===== verification/GoBase.thy ===== *)
theory GoBase
  imports GoText
begin

text \<open>
  \<open>encoding/base64\<close> and \<open>encoding/base32\<close> as the auth package uses them. Decoding is Go's: line breaks
  are skipped, the unused bits of the last character are not looked at.
\<close>

section \<open>Sextets\<close>

fun to_sextets :: "nat list \<Rightarrow> nat list" where
  "to_sextets [] = []"
| "to_sextets [a] = [a div 4, (a mod 4) * 16]"
| "to_sextets [a, b] = [a div 4, (a mod 4) * 16 + b div 16, (b mod 16) * 4]"
| "to_sextets (a # b # c # bs) =
     (a div 4) # ((a mod 4) * 16 + b div 16) # ((b mod 16) * 4 + c div 64) # (c mod 64) # to_sextets bs"

fun of_sextets :: "nat list \<Rightarrow> nat list option" where
  "of_sextets [] = Some []"
| "of_sextets [a] = None"
| "of_sextets [a, b] = Some [a * 4 + b div 16]"
| "of_sextets [a, b, c] = Some [a * 4 + b div 16, (b mod 16) * 16 + c div 4]"
| "of_sextets (a # b # c # d # cs) =
     map_option (\<lambda>bs. (a * 4 + b div 16) # ((b mod 16) * 16 + c div 4) # ((c mod 4) * 64 + d) # bs) (of_sextets cs)"

lemma sextets_less: "list_all (\<lambda>b. b < 256) bs \<Longrightarrow> list_all (\<lambda>s. s < 64) (to_sextets bs)"
  by (induction bs rule: to_sextets.induct) auto

lemma unpack:
  fixes x y k :: nat
  assumes "y < k"
  shows "(x * k + y) div k = x" "(x * k + y) mod k = y"
  using assms by (simp_all add: div_mult_self3)

lemma of_to_sextets: "list_all (\<lambda>b. b < 256) bs \<Longrightarrow> of_sextets (to_sextets bs) = Some bs"
proof (induction bs rule: to_sextets.induct)
  case (3 a b)
  then have "b div 16 < 16" by (simp add: less_mult_imp_div_less)
  from unpack [OF this, of "a mod 4"] show ?case by simp
next
  case (4 a b c bs)
  then have "b div 16 < 16" "c div 64 < 4" by (simp_all add: less_mult_imp_div_less)
  from unpack [OF this(1), of "a mod 4"] unpack [OF this(2), of "b mod 16"] 4 show ?case by simp
qed simp_all

lemma of_sextets_less:
  "of_sextets ss = Some bs \<Longrightarrow> list_all (\<lambda>s. s < 64) ss \<Longrightarrow> list_all (\<lambda>b. b < 256) bs"
proof (induction ss arbitrary: bs rule: of_sextets.induct)
  case (5 a b c d cs)
  then show ?case by (auto simp: less_mult_imp_div_less)
qed auto

section \<open>Base 64\<close>

text \<open>The two alphabets differ in their last two characters.\<close>

definition sextet_char :: "char \<times> char \<Rightarrow> nat \<Rightarrow> char" where
  "sextet_char alpha n =
     (if n < 26 then char_of (65 + n)
      else if n < 52 then char_of (97 + (n - 26))
      else if n < 62 then char_of (48 + (n - 52))
      else if n = 62 then fst alpha else snd alpha)"

definition char_sextet :: "char \<times> char \<Rightarrow> char \<Rightarrow> nat option" where
  "char_sextet alpha c =
     (if 65 \<le> byte c \<and> byte c \<le> 90 then Some (byte c - 65)
      else if 97 \<le> byte c \<and> byte c \<le> 122 then Some (byte c - 97 + 26)
      else if 48 \<le> byte c \<and> byte c \<le> 57 then Some (byte c - 48 + 52)
      else if c = fst alpha then Some 62
      else if c = snd alpha then Some 63 else None)"

definition std_alphabet :: "char \<times> char" where "std_alphabet = (CHR ''+'', CHR ''/'')"
definition url_alphabet :: "char \<times> char" where "url_alphabet = (CHR ''-'', CHR ''_'')"

definition alphabet_ok :: "char \<times> char \<Rightarrow> bool" where
  "alphabet_ok alpha = (alpha = std_alphabet \<or> alpha = url_alphabet)"

definition newline :: "char \<Rightarrow> bool" where
  "newline c = (byte c = 10 \<or> byte c = 13)"

fun all_some :: "'a option list \<Rightarrow> 'a list option" where
  "all_some [] = Some []"
| "all_some (None # xs) = None"
| "all_some (Some x # xs) = map_option (\<lambda>ys. x # ys) (all_some xs)"

definition raw64_encode :: "char \<times> char \<Rightarrow> string \<Rightarrow> string" where
  "raw64_encode alpha s = map (sextet_char alpha) (to_sextets (map byte s))"

definition raw64_decode :: "char \<times> char \<Rightarrow> string \<Rightarrow> string option" where
  "raw64_decode alpha s =
     (case all_some (map (char_sextet alpha) (filter (\<lambda>c. \<not> newline c) s)) of
        None \<Rightarrow> None
      | Some ss \<Rightarrow> map_option (map char_of) (of_sextets ss))"

text \<open>The padded form: the length is a multiple of four, with at most two \<open>=\<close> at the end.\<close>

definition std64_decode :: "string \<Rightarrow> string option" where
  "std64_decode s =
     (let cs = filter (\<lambda>c. \<not> newline c) s; n = length cs in
      if n mod 4 \<noteq> 0 then None
      else if 4 \<le> n \<and> drop (n - 2) cs = ''=='' then raw64_decode std_alphabet (take (n - 2) cs)
      else if 4 \<le> n \<and> last cs = CHR ''='' then raw64_decode std_alphabet (butlast cs)
      else raw64_decode std_alphabet cs)"

lemma byte_char_of: "n < 256 \<Longrightarrow> byte (char_of n) = n"
  by (simp add: byte_def)

lemma char_sextet_char:
  assumes "alphabet_ok alpha" "n < 64"
  shows "char_sextet alpha (sextet_char alpha n) = Some n" "\<not> newline (sextet_char alpha n)"
    "sextet_char alpha n \<noteq> CHR ''.''" "byte (sextet_char alpha n) < 128"
    "sextet_char alpha n \<noteq> CHR ''$''"
proof -
  have alpha: "byte (fst alpha) = 43 \<and> byte (snd alpha) = 47 \<or> byte (fst alpha) = 45 \<and> byte (snd alpha) = 95"
    using assms(1) by (auto simp: alphabet_ok_def std_alphabet_def url_alphabet_def byte_def)
  then have ne: "fst alpha \<noteq> snd alpha" by auto
  consider "n < 26" | "26 \<le> n" "n < 52" | "52 \<le> n" "n < 62" | "n = 62" | "n = 63" using assms(2) by linarith
  then have "char_sextet alpha (sextet_char alpha n) = Some n \<and>
      byte (sextet_char alpha n) \<noteq> 10 \<and> byte (sextet_char alpha n) \<noteq> 13 \<and>
      byte (sextet_char alpha n) \<noteq> 46 \<and> byte (sextet_char alpha n) < 128 \<and> byte (sextet_char alpha n) \<noteq> 36"
    using alpha ne by cases (auto simp: sextet_char_def char_sextet_def byte_char_of)
  moreover have "byte CHR ''.'' = 46" "byte CHR ''$'' = 36" by (simp_all add: byte_def)
  ultimately show "char_sextet alpha (sextet_char alpha n) = Some n" "\<not> newline (sextet_char alpha n)"
    "sextet_char alpha n \<noteq> CHR ''.''" "byte (sextet_char alpha n) < 128" "sextet_char alpha n \<noteq> CHR ''$''"
    by (auto simp: newline_def)
qed

lemma all_some_map: "all_some (map Some xs) = Some xs"
  by (induction xs) simp_all

lemma map_char_of_byte [simp]: "map char_of (map byte s) = s"
  by (simp add: byte_def comp_def)

theorem raw64_roundtrip:
  assumes "alphabet_ok alpha"
  shows "raw64_decode alpha (raw64_encode alpha s) = Some s"
proof -
  have b: "list_all (\<lambda>b. b < 256) (map byte s)" by (simp add: list_all_iff)
  let ?ss = "to_sextets (map byte s)"
  have lt: "\<forall>x \<in> set ?ss. x < 64" using sextets_less [OF b] by (simp add: list_all_iff)
  have "filter (\<lambda>c. \<not> newline c) (map (sextet_char alpha) ?ss) = map (sextet_char alpha) ?ss"
    using lt char_sextet_char(2) [OF assms] by (auto intro!: filter_True)
  moreover have "map (char_sextet alpha) (map (sextet_char alpha) ?ss) = map Some ?ss"
    using lt char_sextet_char(1) [OF assms] by auto
  ultimately show ?thesis
    by (simp add: raw64_decode_def raw64_encode_def all_some_map of_to_sextets [OF b] del: map_map)
qed

lemma raw64_encode_chars:
  assumes "alphabet_ok alpha"
  shows "CHR ''.'' \<notin> set (raw64_encode alpha s)" "CHR ''$'' \<notin> set (raw64_encode alpha s)"
proof -
  have "\<forall>x \<in> set (to_sextets (map byte s)). x < 64"
    using sextets_less [of "map byte s"] by (simp add: list_all_iff)
  then show "CHR ''.'' \<notin> set (raw64_encode alpha s)" "CHR ''$'' \<notin> set (raw64_encode alpha s)"
    using char_sextet_char(3,5) [OF assms] unfolding raw64_encode_def by (metis (no_types, lifting) imageE list.set_map)+
qed

lemma raw64_encode_inj: "alphabet_ok alpha \<Longrightarrow> raw64_encode alpha s = raw64_encode alpha t \<Longrightarrow> s = t"
  using raw64_roundtrip by (metis option.inject)

lemma alphabets_ok [simp]: "alphabet_ok std_alphabet" "alphabet_ok url_alphabet"
  by (simp_all add: alphabet_ok_def)

section \<open>Base 32\<close>

text \<open>Encoding without padding: five bytes are eight characters of five bits.\<close>

fun to_quintets :: "nat list \<Rightarrow> nat list" where
  "to_quintets [] = []"
| "to_quintets [a] = [a div 8, (a mod 8) * 4]"
| "to_quintets [a, b] = [a div 8, (a mod 8) * 4 + b div 64, (b div 2) mod 32, (b mod 2) * 16]"
| "to_quintets [a, b, c] = [a div 8, (a mod 8) * 4 + b div 64, (b div 2) mod 32, (b mod 2) * 16 + c div 16, (c mod 16) * 2]"
| "to_quintets [a, b, c, d] = [a div 8, (a mod 8) * 4 + b div 64, (b div 2) mod 32, (b mod 2) * 16 + c div 16,
     (c mod 16) * 2 + d div 128, (d div 4) mod 32, (d mod 4) * 8]"
| "to_quintets (a # b # c # d # e # bs) =
     (a div 8) # ((a mod 8) * 4 + b div 64) # ((b div 2) mod 32) # ((b mod 2) * 16 + c div 16) #
     ((c mod 16) * 2 + d div 128) # ((d div 4) mod 32) # ((d mod 4) * 8 + e div 32) # (e mod 32) # to_quintets bs"

definition quintet_char :: "nat \<Rightarrow> char" where
  "quintet_char n = (if n < 26 then char_of (65 + n) else char_of (50 + (n - 26)))"

definition b32_encode :: "string \<Rightarrow> string" where
  "b32_encode s = map quintet_char (to_quintets (map byte s))"

lemma quintets_less: "list_all (\<lambda>b. b < 256) bs \<Longrightarrow> list_all (\<lambda>q. q < 32) (to_quintets bs)"
  by (induction bs rule: to_quintets.induct) auto

lemma quintet_char_alphabet:
  "n < 32 \<Longrightarrow> 65 \<le> byte (quintet_char n) \<and> byte (quintet_char n) \<le> 90 \<or> 50 \<le> byte (quintet_char n) \<and> byte (quintet_char n) \<le> 55"
  by (auto simp: quintet_char_def byte_char_of)

lemma quintets_length: "length bs mod 5 = 0 \<Longrightarrow> length (to_quintets bs) = length bs div 5 * 8"
  by (induction bs rule: to_quintets.induct) auto

end
