(* ===== verification/AuthIds.thy ===== *)
theory AuthIds
  imports GoBase Ids AuthErrors
begin

text \<open>
  \<open>internal/auth/secret.go\<close> and \<open>internal/auth/ids.go\<close>: values that must not be printed, minted
  identifiers and refresh tokens. Entropy is an argument (\<open>None\<close> when reading it failed), SHA-256 is a
  parameter, and so is what \<open>encoding/json\<close> reads from a string literal.
\<close>

section \<open>Secrets\<close>

datatype Secret = NewSecret (Expose: string)

definition Redacted :: string where "Redacted = ''[REDACTED]''"

definition Secret_IsZero :: "Secret \<Rightarrow> bool" where "Secret_IsZero s = (Expose s = [])"
definition Secret_Len :: "Secret \<Rightarrow> nat" where "Secret_Len s = length (Expose s)"
definition Secret_Equal :: "Secret \<Rightarrow> Secret \<Rightarrow> bool" where "Secret_Equal s t = (Expose s = Expose t)"
definition Secret_String :: "Secret \<Rightarrow> string" where "Secret_String s = Redacted"
definition Secret_GoString :: "Secret \<Rightarrow> string" where "Secret_GoString s = Redacted"
definition Secret_LogValue :: "Secret \<Rightarrow> string" where "Secret_LogValue s = Redacted"
definition Secret_MarshalJSON :: "Secret \<Rightarrow> string ares" where "Secret_MarshalJSON s = Inl AuthSecretNotShown"
definition Secret_MarshalText :: "Secret \<Rightarrow> string ares" where "Secret_MarshalText s = Inl AuthSecretNotShown"
definition Secret_UnmarshalText :: "string \<Rightarrow> Secret ares" where "Secret_UnmarshalText b = Inr (NewSecret b)"

definition Secret_UnmarshalJSON :: "(string \<Rightarrow> string option) \<Rightarrow> string \<Rightarrow> Secret ares" where
  "Secret_UnmarshalJSON json b =
     (if b = ''null'' then Inl (Root Invalid)
      else case json b of None \<Rightarrow> Inl (Root Invalid) | Some v \<Rightarrow> Inr (NewSecret v))"

text \<open>No rendering of a secret depends on the value it holds.\<close>

lemma secret_renderings_constant:
  "Secret_String s = Secret_String t" "Secret_GoString s = Secret_GoString t"
  "Secret_LogValue s = Secret_LogValue t" "Secret_MarshalJSON s = Secret_MarshalJSON t"
  "Secret_MarshalText s = Secret_MarshalText t"
  by (simp_all add: Secret_String_def Secret_GoString_def Secret_LogValue_def Secret_MarshalJSON_def Secret_MarshalText_def)

section \<open>Identifiers\<close>

definition IDEntropyBytes :: nat where "IDEntropyBytes = 16"
definition TokenEntropyBytes :: nat where "TokenEntropyBytes = 32"
definition TokenHashLen :: nat where "TokenHashLen = 32"

definition b64id :: "string \<Rightarrow> string" where "b64id = raw64_encode url_alphabet"

definition NewOpaqueID :: "string \<Rightarrow> string option \<Rightarrow> string ares" where
  "NewOpaqueID pre entropy =
     (if pre \<noteq> [] \<and> \<not> list_all id_char pre then Inl (Root Invalid)
      else case entropy of
        None \<Rightarrow> Inl (Root Internal)
      | Some buf \<Rightarrow>
          let id = pre @ b64id buf in
          if MaxIDLen < length id then Inl (Root Invalid) else Inr id)"

definition userIDPrefix :: string where "userIDPrefix = ''usr_''"
definition familyIDPrefix :: string where "familyIDPrefix = ''fam_''"
definition tokenIDPrefix :: string where "tokenIDPrefix = ''rt_''"

text \<open>A constructor of \<open>internal/domain\<close> called from this package.\<close>

definition from_domain :: "'a res \<Rightarrow> 'a ares" where
  "from_domain r = as_error DomainFailure r"

definition NewUserID :: "string option \<Rightarrow> string ares" where
  "NewUserID entropy = bindE (NewOpaqueID userIDPrefix entropy) (\<lambda>s. from_domain (new_id s))"

definition NewFamilyID :: "string option \<Rightarrow> string ares" where
  "NewFamilyID = NewOpaqueID familyIDPrefix"

definition NewTokenID :: "string option \<Rightarrow> string ares" where
  "NewTokenID = NewOpaqueID tokenIDPrefix"

definition NewRefreshTokenSecret :: "string option \<Rightarrow> Secret ares" where
  "NewRefreshTokenSecret entropy =
     (case entropy of None \<Rightarrow> Inl (Root Internal) | Some buf \<Rightarrow> Inr (NewSecret (b64id buf)))"

definition HashToken :: "(string \<Rightarrow> string) \<Rightarrow> Secret \<Rightarrow> string" where
  "HashToken sha256 token = sha256 (Expose token)"

section \<open>What a minted identifier is\<close>

lemma sextet_id_char: "n < 64 \<Longrightarrow> id_char (sextet_char url_alphabet n)"
proof -
  have b: "byte CHR ''a'' = 97" "byte CHR ''z'' = 122" "byte CHR ''A'' = 65" "byte CHR ''Z'' = 90"
    by (simp_all add: byte_def)
  assume "n < 64"
  then consider "n < 26" | "26 \<le> n" "n < 52" | "52 \<le> n" "n < 62" | "n = 62" | "n = 63" by linarith
  then show ?thesis
    by cases (auto simp: sextet_char_def id_char_def between_code byte_char_of b url_alphabet_def)
qed

lemma b64id_chars: "list_all id_char (b64id s)"
  using sextets_less [of "map byte s"] sextet_id_char
  by (auto simp: b64id_def raw64_encode_def list_all_iff)

lemma to_sextets_length: "length (to_sextets bs) = (4 * length bs + 2) div 3"
  by (induction bs rule: to_sextets.induct) auto

lemma b64id_length: "length (b64id s) = (4 * length s + 2) div 3"
  by (simp add: b64id_def raw64_encode_def to_sextets_length)

lemma b64id_inj [simp]: "b64id s = b64id t \<longleftrightarrow> s = t"
  using raw64_encode_inj [of url_alphabet] by (auto simp: b64id_def)

lemma id_char_prefix: "list_all id_char userIDPrefix" "list_all id_char familyIDPrefix" "list_all id_char tokenIDPrefix"
  by (simp_all add: userIDPrefix_def familyIDPrefix_def tokenIDPrefix_def id_char_def between_code) (simp_all add: byte_def)

text \<open>A minted identifier passes the validation of \<open>internal/domain\<close>, which every column of the schema repeats.\<close>

lemma minted_valid:
  assumes "NewOpaqueID pre entropy = Inr s" "entropy = Some buf" "length buf = IDEntropyBytes"
  shows "validID s = Inr ()" "s = pre @ b64id buf"
proof -
  have s: "s = pre @ b64id buf" "list_all id_char pre" "length s \<le> 128"
    using assms by (auto simp: NewOpaqueID_def Let_def MaxIDLen_def split: if_splits)
  then show "s = pre @ b64id buf" "validID s = Inr ()"
    using assms(3) b64id_chars [of buf] b64id_length [of buf] by (auto simp: validID_ok_iff IDEntropyBytes_def)
qed

text \<open>The three minters never fail once the entropy is read, and no two of their results collide.\<close>

lemma minters:
  assumes "length buf = IDEntropyBytes"
  shows "NewUserID (Some buf) = Inr (userIDPrefix @ b64id buf)"
    "NewFamilyID (Some buf) = Inr (familyIDPrefix @ b64id buf)"
    "NewTokenID (Some buf) = Inr (tokenIDPrefix @ b64id buf)"
proof -
  have "length (b64id buf) = 22" using assms by (simp add: b64id_length IDEntropyBytes_def)
  then show "NewUserID (Some buf) = Inr (userIDPrefix @ b64id buf)"
    "NewFamilyID (Some buf) = Inr (familyIDPrefix @ b64id buf)"
    "NewTokenID (Some buf) = Inr (tokenIDPrefix @ b64id buf)"
    using id_char_prefix b64id_chars [of buf]
    by (simp_all add: NewUserID_def NewFamilyID_def NewTokenID_def NewOpaqueID_def Let_def MaxIDLen_def
        from_domain_def new_id_def validID_def userIDPrefix_def familyIDPrefix_def tokenIDPrefix_def)
qed

lemma minters_fail:
  "NewUserID None = Inl (Root Internal)" "NewFamilyID None = Inl (Root Internal)"
  "NewTokenID None = Inl (Root Internal)" "NewRefreshTokenSecret None = Inl (Root Internal)"
  using id_char_prefix
  by (simp_all add: NewUserID_def NewFamilyID_def NewTokenID_def NewOpaqueID_def NewRefreshTokenSecret_def)

end
