(* ===== verification/Totp.thy ===== *)
theory Totp
  imports GoUnicode GoBase GoInt AuthIds
begin

text \<open>
  \<open>internal/auth/totp.go\<close> without the replay guard: the configuration, RFC 6238 codes, their
  validation over a window of steps, the provisioning URI and recovery codes. HMAC-SHA1 and SHA-256
  are parameters; a duration is a number of nanoseconds.
\<close>

unbundle bit_operations_syntax

section \<open>Configuration\<close>

definition time_second :: duration where "time_second = 10 ^ 9"

definition TOTPPeriod :: duration where "TOTPPeriod = 30 * time_second"
definition TOTPDigits :: int where "TOTPDigits = 6"
definition TOTPSkewSteps :: int where "TOTPSkewSteps = 1"
definition TOTPSecretBytes :: nat where "TOTPSecretBytes = 20"

record TOTPConfig =
  Period :: duration
  Digits :: int
  SkewSteps :: int
  exactSkew :: bool

definition WithExactSkew :: "TOTPConfig \<Rightarrow> TOTPConfig" where
  "WithExactSkew c = c\<lparr>SkewSteps := 0, exactSkew := True\<rparr>"

definition TOTPConfig_normalise :: "TOTPConfig \<Rightarrow> TOTPConfig ares" where
  "TOTPConfig_normalise c =
     (let c = (if Period c = 0 then c\<lparr>Period := TOTPPeriod\<rparr> else c) in
      if Period c \<le> 0 then Inl (Root Invalid)
      else let c = (if Digits c = 0 then c\<lparr>Digits := TOTPDigits\<rparr> else c) in
        if Digits c < 6 \<or> 8 < Digits c then Inl (Root Invalid)
        else if SkewSteps c < 0 then Inl (Root Invalid)
        else let c = (if SkewSteps c = 0 \<and> \<not> exactSkew c then c\<lparr>SkewSteps := TOTPSkewSteps\<rparr> else c) in
          if 10 < SkewSteps c then Inl (Root Invalid) else Inr c)"

definition config_wf :: "TOTPConfig \<Rightarrow> bool" where
  "config_wf c = (0 < Period c \<and> 6 \<le> Digits c \<and> Digits c \<le> 8 \<and> 0 \<le> SkewSteps c \<and> SkewSteps c \<le> 10 \<and>
     (SkewSteps c = 0 \<longrightarrow> exactSkew c))"

lemma normalise_wf: "TOTPConfig_normalise c = Inr d \<Longrightarrow> config_wf d"
  by (auto simp: TOTPConfig_normalise_def config_wf_def Let_def TOTPPeriod_def TOTPDigits_def TOTPSkewSteps_def
      time_second_def split: if_splits)

lemma normalise_id: "config_wf c \<Longrightarrow> TOTPConfig_normalise c = Inr c"
  by (auto simp: TOTPConfig_normalise_def config_wf_def Let_def)

lemma normalise_error: "TOTPConfig_normalise c = Inl e \<Longrightarrow> e = Root Invalid"
  by (auto simp: TOTPConfig_normalise_def Let_def split: if_splits)

definition NewTOTPSecret :: "string option \<Rightarrow> string ares" where
  "NewTOTPSecret entropy = (case entropy of None \<Rightarrow> Inl (Root Internal) | Some buf \<Rightarrow> Inr buf)"

section \<open>Codes\<close>

text \<open>\<open>Time.Unix\<close>: seconds since 1970, rounded down.\<close>

definition time_unix :: "time \<Rightarrow> int" where
  "time_unix t = t div 10 ^ 9 - 62135596800"

text \<open>\<open>None\<close> is the panic of a division by zero: the period in whole seconds may be none.\<close>

definition totpStep :: "time \<Rightarrow> duration \<Rightarrow> int option" where
  "totpStep t period =
     (let p = period sdiv time_second in if p = 0 then None else Some (time_unix t sdiv p))"

definition be_bytes :: "int \<Rightarrow> string" where
  "be_bytes step = map (\<lambda>i. char_of (nat (step div 256 ^ (7 - i) mod 256))) [0..<8]"

definition truncate31 :: "string \<Rightarrow> 32 word" where
  "truncate31 mac =
     (let offset = byte (last mac) mod 16; b = (\<lambda>i. word_of_nat (byte (mac ! (offset + i))) :: 32 word) in
      push_bit 24 (b 0 AND 127) OR push_bit 16 (b 1) OR push_bit 8 (b 2) OR b 3)"

text \<open>\<open>%0*d\<close> of a number below 2^32.\<close>

definition zero_padded :: "nat \<Rightarrow> nat \<Rightarrow> string" where
  "zero_padded w n = replicate (w - length (format_nat n)) CHR ''0'' @ format_nat n"

definition totpCodeForStep :: "(string \<Rightarrow> string \<Rightarrow> string) \<Rightarrow> string \<Rightarrow> int \<Rightarrow> int \<Rightarrow> string" where
  "totpCodeForStep hmac secret step digits =
     (let m = ((*) 10 ^^ nat digits) 1 :: 32 word
      in zero_padded (nat digits) (unat (truncate31 (hmac secret (be_bytes step)) mod m)))"

definition TOTPCodeAt :: "(string \<Rightarrow> string \<Rightarrow> string) \<Rightarrow> string \<Rightarrow> time \<Rightarrow> TOTPConfig \<Rightarrow> string ares" where
  "TOTPCodeAt hmac secret t cfg =
     bindE (TOTPConfig_normalise cfg) (\<lambda>cfg.
       if secret = [] then Inl (Root Invalid)
       else case totpStep t (Period cfg) of
         None \<Rightarrow> Inl Panicked
       | Some step \<Rightarrow> Inr (totpCodeForStep hmac secret step (Digits cfg)))"

section \<open>Validation\<close>

definition normaliseCode :: "string \<Rightarrow> string" where
  "normaliseCode code =
     concat (map (\<lambda>p. let r = rune_of p in if 48 \<le> r \<and> r \<le> 57 then encode_rune r else []) (runes code))"

text \<open>The loop never breaks: a later matching step replaces an earlier one.\<close>

definition try_step :: "(int \<Rightarrow> string) \<Rightarrow> string \<Rightarrow> int \<times> bool \<Rightarrow> int \<Rightarrow> int \<times> bool" where
  "try_step code presented acc step =
     (let eq = (code step = presented) in (if eq then step else fst acc, snd acc \<or> eq))"

definition ValidateTOTPCode ::
  "(string \<Rightarrow> string \<Rightarrow> string) \<Rightarrow> string \<Rightarrow> string \<Rightarrow> time \<Rightarrow> TOTPConfig \<Rightarrow> (int \<times> bool) ares" where
  "ValidateTOTPCode hmac secret code t cfg =
     bindE (TOTPConfig_normalise cfg) (\<lambda>cfg.
       if secret = [] then Inl (Root Invalid)
       else let presented = normaliseCode code in
         if int (length presented) \<noteq> Digits cfg then Inr (0, False)
         else case totpStep t (Period cfg) of
           None \<Rightarrow> Inl Panicked
         | Some current \<Rightarrow>
             Inr (foldl (try_step (\<lambda>step. totpCodeForStep hmac secret step (Digits cfg)) presented) (0, False)
               (map (\<lambda>delta. current + delta) [- SkewSteps cfg .. SkewSteps cfg])))"

lemma foldl_try_step:
  "foldl (try_step code p) acc steps =
     (case find (\<lambda>s. code s = p) (rev steps) of None \<Rightarrow> acc | Some s \<Rightarrow> (s, True))"
  by (induction steps arbitrary: acc rule: rev_induct) (auto simp: try_step_def Let_def)

lemma find_SomeD: "find P xs = Some x \<Longrightarrow> x \<in> set xs \<and> P x"
  by (auto simp: find_Some_iff)

lemma loop_scan:
  fixes c k :: int
  assumes "foldl (try_step code p) (0, False) (map (\<lambda>d. c + d) [- k .. k]) = (s, hit)"
  shows "hit \<Longrightarrow> \<bar>s - c\<bar> \<le> k \<and> code s = p" "\<not> hit \<Longrightarrow> \<bar>u - c\<bar> \<le> k \<Longrightarrow> code u \<noteq> p"
proof -
  let ?steps = "rev (map (\<lambda>d. c + d) [- k .. k])"
  have mem: "x \<in> set ?steps \<longleftrightarrow> \<bar>x - c\<bar> \<le> k" for x
    using image_iff [of x "\<lambda>d. c + d" "{- k .. k}"] by (auto intro: rev_image_eqI [of "x - c"])
  show "hit \<Longrightarrow> \<bar>s - c\<bar> \<le> k \<and> code s = p"
    using assms mem by (auto simp: foldl_try_step simp del: rev_map set_rev dest!: find_SomeD split: option.splits)
  show "\<not> hit \<Longrightarrow> \<bar>u - c\<bar> \<le> k \<Longrightarrow> code u \<noteq> p"
    using assms mem by (auto simp: foldl_try_step find_None_iff split: option.splits)
qed

text \<open>A code has exactly the configured number of digits.\<close>

lemma format_nat_length: "0 < w \<Longrightarrow> n < 10 ^ w \<Longrightarrow> length (format_nat n) \<le> w"
proof (induction w arbitrary: n)
  case (Suc w)
  show ?case
  proof (cases "n < 10")
    case True
    then show ?thesis by (simp add: format_nat.simps [of n])
  next
    case False
    then have "0 < w" using Suc.prems(2) by (cases w) auto
    moreover have "n div 10 < 10 ^ w" using Suc.prems(2) by (simp add: less_mult_imp_div_less mult.commute)
    ultimately show ?thesis using Suc.IH [of "n div 10"] False by (simp add: format_nat.simps [of n])
  qed
qed simp

lemma funpow_times_power: "((*) a ^^ n) 1 = (a :: 'a :: comm_monoid_mult) ^ n"
  by (induction n) simp_all

lemma power10_word: "d \<in> {6, 7, 8} \<Longrightarrow> unat ((((*) 10 ^^ d) 1) :: 32 word) = 10 ^ d"
  by (auto simp: funpow_times_power)

lemma totp_code_shape:
  assumes "6 \<le> digits" "digits \<le> 8"
  shows "int (length (totpCodeForStep hmac secret step digits)) = digits"
    and "list_all is_digit (totpCodeForStep hmac secret step digits)"
proof -
  let ?w = "nat digits" let ?m = "((*) 10 ^^ ?w) 1 :: 32 word"
  define n where "n = unat (truncate31 (hmac secret (be_bytes step)) mod ?m)"
  have w: "?w \<in> {6, 7, 8}" "0 < ?w" using assms by auto
  have "n < 10 ^ ?w" using power10_word [OF w(1)] by (simp add: n_def unat_mod)
  then have "length (format_nat n) \<le> ?w" by (rule format_nat_length [OF w(2)])
  then show "int (length (totpCodeForStep hmac secret step digits)) = digits"
    using assms by (simp add: totpCodeForStep_def zero_padded_def Let_def flip: n_def)
  have "is_digit CHR ''0''" by (simp add: is_digit_def)
  then show "list_all is_digit (totpCodeForStep hmac secret step digits)"
    using format_nat_digits [of n] by (simp add: totpCodeForStep_def zero_padded_def Let_def list_all_iff set_replicate_conv_if flip: n_def)
qed

lemma validate_wf:
  assumes "config_wf cfg" "secret \<noteq> []" "totpStep t (Period cfg) = Some c"
  obtains s hit where "ValidateTOTPCode hmac secret code t cfg = Inr (s, hit)"
    "hit \<Longrightarrow> \<bar>s - c\<bar> \<le> SkewSteps cfg \<and> totpCodeForStep hmac secret s (Digits cfg) = normaliseCode code"
    "\<And>u. \<not> hit \<Longrightarrow> \<bar>u - c\<bar> \<le> SkewSteps cfg \<Longrightarrow> totpCodeForStep hmac secret u (Digits cfg) \<noteq> normaliseCode code"
proof (cases "int (length (normaliseCode code)) = Digits cfg")
  case True
  let ?r = "foldl (try_step (\<lambda>step. totpCodeForStep hmac secret step (Digits cfg)) (normaliseCode code)) (0, False)
       (map (\<lambda>delta. c + delta) [- SkewSteps cfg .. SkewSteps cfg])"
  obtain s hit where r: "?r = (s, hit)" by (cases ?r)
  have "ValidateTOTPCode hmac secret code t cfg = Inr (s, hit)"
    using assms True r by (simp add: ValidateTOTPCode_def normalise_id)
  then show thesis using loop_scan [OF r] that by metis
next
  case False
  have "6 \<le> Digits cfg" "Digits cfg \<le> 8" using assms(1) by (simp_all add: config_wf_def)
  note shape = totp_code_shape(1) [OF this]
  have "ValidateTOTPCode hmac secret code t cfg = Inr (0, False)"
    using assms False by (simp add: ValidateTOTPCode_def normalise_id Let_def)
  then show thesis using shape False that by metis
qed

text \<open>
  What validation accepts, on every input: the code of a step at most \<open>SkewSteps\<close> away from the
  current one, and the step it names.
\<close>

lemma validate_accepts:
  assumes "config_wf cfg" "ValidateTOTPCode hmac secret code t cfg = Inr (s, True)"
  obtains c where "totpStep t (Period cfg) = Some c" "\<bar>s - c\<bar> \<le> SkewSteps cfg"
    "totpCodeForStep hmac secret s (Digits cfg) = normaliseCode code" "secret \<noteq> []"
proof -
  have ne: "secret \<noteq> []" using assms by (auto simp: ValidateTOTPCode_def normalise_id)
  have "totpStep t (Period cfg) \<noteq> None"
    using assms by (auto simp: ValidateTOTPCode_def normalise_id Let_def split: if_splits option.splits)
  then obtain c where c: "totpStep t (Period cfg) = Some c" by blast
  show thesis using validate_wf [OF assms(1) ne c, of hmac code] assms(2) c ne that by (metis Pair_inject sum.inject(2))
qed

section \<open>Provisioning\<close>

text \<open>\<open>url.QueryEscape\<close>, and \<open>URL.EscapedPath\<close> of a path that starts with a slash.\<close>

definition unreserved :: "char \<Rightarrow> bool" where
  "unreserved c = (between CHR ''a'' CHR ''z'' c \<or> between CHR ''A'' CHR ''Z'' c \<or> between CHR ''0'' CHR ''9'' c
     \<or> c \<in> set ''-_.~'')"

definition upper_hex :: "nat \<Rightarrow> char" where
  "upper_hex n = (if n < 10 then char_of (48 + n) else char_of (65 + (n - 10)))"

definition percent :: "char \<Rightarrow> string" where
  "percent c = [CHR 0x25, upper_hex (byte c div 16), upper_hex (byte c mod 16)]"

definition query_escape :: "string \<Rightarrow> string" where
  "query_escape s = concat (map (\<lambda>c. if unreserved c then [c] else if c = CHR '' '' then ''+'' else percent c) s)"

definition path_escape :: "string \<Rightarrow> string" where
  "path_escape s = concat (map (\<lambda>c. if unreserved c \<or> c \<in> set ''$&+,/:;=@'' then [c] else percent c) s)"

definition ProvisioningURI :: "string \<Rightarrow> string \<Rightarrow> string \<Rightarrow> TOTPConfig \<Rightarrow> Secret ares" where
  "ProvisioningURI issuer account secret cfg =
     bindE (TOTPConfig_normalise cfg) (\<lambda>cfg.
       if issuer = [] \<or> account = [] \<or> secret = [] then Inl (Root Invalid)
       else if CHR '':'' \<in> set issuer \<or> CHR '':'' \<in> set account then Inl (Root Invalid)
       else Inr (NewSecret (''otpauth://totp'' @ path_escape (''/'' @ issuer @ '':'' @ account) @
         ''?algorithm=SHA1&digits='' @ query_escape (format_nat (nat (Digits cfg))) @
         ''&issuer='' @ query_escape issuer @
         ''&period='' @ query_escape (format_nat (nat (Period cfg sdiv time_second))) @
         ''&secret='' @ query_escape (b32_encode secret))))"

section \<open>Recovery codes\<close>

definition RecoveryCodeCount :: nat where "RecoveryCodeCount = 10"
definition RecoveryCodeBytes :: nat where "RecoveryCodeBytes = 15"
definition recoveryGroupLen :: nat where "recoveryGroupLen = 4"

definition normaliseRecoveryCode :: "(nat \<Rightarrow> nat) \<Rightarrow> string \<Rightarrow> string" where
  "normaliseRecoveryCode upper s =
     concat (map (\<lambda>p. let r = rune_of p in
        if r = 45 \<or> r = 32 \<or> r = 9 then []
        else if r = 48 then ''O'' else if r = 49 then ''I'' else if r = 56 then ''B''
        else encode_rune r) (runes (to_upper upper s)))"

text \<open>The separator goes before every rune at a positive byte offset that the group length divides.\<close>

fun group_runes :: "nat \<Rightarrow> string \<Rightarrow> nat \<Rightarrow> (nat option \<times> string) list \<Rightarrow> string" where
  "group_runes n sep i [] = []"
| "group_runes n sep i (p # ps) =
     (if 0 < i \<and> i mod n = 0 then sep else []) @ encode_rune (rune_of p) @
     group_runes n sep (i + length (snd p)) ps"

definition groupString :: "string \<Rightarrow> nat \<Rightarrow> string \<Rightarrow> string" where
  "groupString s n sep = (if n \<le> 0 \<or> length s \<le> n then s else group_runes n sep 0 (runes s))"

definition HashRecoveryCode :: "(string \<Rightarrow> string) \<Rightarrow> (nat \<Rightarrow> nat) \<Rightarrow> Secret \<Rightarrow> string" where
  "HashRecoveryCode sha256 upper code = sha256 (normaliseRecoveryCode upper (Expose code))"

definition new_recovery_code :: "(string \<Rightarrow> string) \<Rightarrow> (nat \<Rightarrow> nat) \<Rightarrow> string option \<Rightarrow> (Secret \<times> string) ares" where
  "new_recovery_code sha256 upper entropy =
     (case entropy of
        None \<Rightarrow> Inl (Root Internal)
      | Some buf \<Rightarrow>
          let raw = b32_encode buf in
          Inr (NewSecret (groupString raw recoveryGroupLen ''-''), HashRecoveryCode sha256 upper (NewSecret raw)))"

fun recovery_loop :: "(string \<Rightarrow> string) \<Rightarrow> (nat \<Rightarrow> nat) \<Rightarrow> string option list \<Rightarrow> (Secret \<times> string) list ares" where
  "recovery_loop sha256 upper [] = Inr []"
| "recovery_loop sha256 upper (e # es) =
     bindE (new_recovery_code sha256 upper e) (\<lambda>c. bindE (recovery_loop sha256 upper es) (\<lambda>cs. Inr (c # cs)))"

definition NewRecoveryCodes ::
  "(string \<Rightarrow> string) \<Rightarrow> (nat \<Rightarrow> nat) \<Rightarrow> int \<Rightarrow> (nat \<Rightarrow> string option) \<Rightarrow> (Secret list \<times> string list) ares" where
  "NewRecoveryCodes sha256 upper n entropy =
     (if n \<le> 0 \<or> 64 < n then Inl (Root Invalid)
      else bindE (recovery_loop sha256 upper (map entropy [0..<nat n])) (\<lambda>cs. Inr (map fst cs, map snd cs)))"

definition match_digest :: "string \<Rightarrow> int \<Rightarrow> nat \<times> string \<Rightarrow> int" where
  "match_digest want found d = (if snd d = want then int (fst d) else found)"

definition MatchRecoveryCode :: "(string \<Rightarrow> string) \<Rightarrow> (nat \<Rightarrow> nat) \<Rightarrow> string list \<Rightarrow> Secret \<Rightarrow> int" where
  "MatchRecoveryCode sha256 upper digests presented =
     foldl (match_digest (HashRecoveryCode sha256 upper presented)) (- 1) (enumerate 0 digests)"

text \<open>Which digest a presented code matches: the last equal one, and none only when none is equal.\<close>

lemma match_loop:
  "foldl (match_digest w) f (enumerate k ds) =
     (if w \<in> set ds then int (k + (GREATEST i. i < length ds \<and> ds ! i = w)) else f)"
proof (induction ds rule: rev_induct)
  case (snoc d ds)
  let ?P = "\<lambda>i. i < Suc (length ds) \<and> (ds @ [d]) ! i = w"
  show ?case
  proof (cases "d = w")
    case True
    then have "Greatest ?P = length ds" by (intro Greatest_equality) auto
    then show ?thesis using True by (simp add: enumerate_append_eq match_digest_def)
  next
    case False
    then have "?P = (\<lambda>i. i < length ds \<and> ds ! i = w)" by (auto simp: fun_eq_iff nth_append less_Suc_eq)
    then show ?thesis using snoc False by (simp add: enumerate_append_eq match_digest_def)
  qed
qed simp

lemma match_recovery:
  assumes "MatchRecoveryCode sha256 upper digests presented = i"
  shows "i < 0 \<longleftrightarrow> HashRecoveryCode sha256 upper presented \<notin> set digests"
    and "0 \<le> i \<Longrightarrow> nat i < length digests \<and> digests ! nat i = HashRecoveryCode sha256 upper presented"
proof -
  let ?w = "HashRecoveryCode sha256 upper presented" let ?P = "\<lambda>i. i < length digests \<and> digests ! i = ?w"
  have i: "i = (if ?w \<in> set digests then int (Greatest ?P) else - 1)"
    using assms by (auto simp: MatchRecoveryCode_def match_loop)
  show "i < 0 \<longleftrightarrow> ?w \<notin> set digests" using i by simp
  have "?P (Greatest ?P)" if mem: "?w \<in> set digests"
  proof -
    obtain j where "j < length digests" "digests ! j = ?w" using mem unfolding in_set_conv_nth by blast
    then have "?P j" by simp
    then show ?thesis by (rule GreatestI_nat [where b = "length digests"]) simp
  qed
  then show "0 \<le> i \<Longrightarrow> nat i < length digests \<and> digests ! nat i = ?w" using i by (auto split: if_splits)
qed

text \<open>A code is found however it is typed: case, dashes, spaces and tabs do not matter.\<close>

definition separator :: "char \<Rightarrow> bool" where
  "separator c = (byte c = 45 \<or> byte c = 32 \<or> byte c = 9)"

definition typed_form :: "string \<Rightarrow> string" where
  "typed_form s = map lower_char (filter (\<lambda>c. \<not> separator c) s)"

definition recovery_char :: "char \<Rightarrow> string" where
  "recovery_char c =
     (if separator c then []
      else if byte c = 48 then ''O'' else if byte c = 49 then ''I'' else if byte c = 56 then ''B''
      else [upper_char c])"

lemma upper_char_code: "byte (upper_char c) = (if 97 \<le> byte c \<and> byte c \<le> 122 then byte c - 32 else byte c)"
  using byte_less [of c] byte_char_of [of "byte c - 32"] by (auto simp: upper_char_def simp del: byte_less)

lemma normalise_recovery_ascii:
  assumes "ascii s"
  shows "normaliseRecoveryCode upper s = concat (map recovery_char s)"
proof -
  have "ascii (map upper_char s)" using assms by (auto simp: ascii_def list_all_iff upper_char_code)
  then have "normaliseRecoveryCode upper s =
      concat (map (\<lambda>c. let r = byte (upper_char c) in
        if r = 45 \<or> r = 32 \<or> r = 9 then []
        else if r = 48 then ''O'' else if r = 49 then ''I'' else if r = 56 then ''B''
        else encode_rune r) s)"
    using assms by (simp add: normaliseRecoveryCode_def to_upper_ascii runes_ascii rune_of_def comp_def)
  moreover have "(let r = byte (upper_char c) in
        if r = 45 \<or> r = 32 \<or> r = 9 then []
        else if r = 48 then ''O'' else if r = 49 then ''I'' else if r = 56 then ''B''
        else encode_rune r) = recovery_char c" if "c \<in> set s" for c
  proof -
    have "byte c < 128" using that assms by (simp add: ascii_def list_all_iff)
    then have "encode_rune (byte (upper_char c)) = [upper_char c]"
      by (simp add: encode_rune_ascii upper_char_code) (simp add: upper_char_def)
    then show ?thesis by (auto simp: recovery_char_def separator_def upper_char_code Let_def)
  qed
  ultimately show ?thesis by (metis (no_types, lifting) map_eq_conv)
qed

lemma recovery_char_lower: "recovery_char (lower_char c) = recovery_char c"
  by (auto simp: recovery_char_def lower_char_def separator_def upper_char_def byte_def)

lemma recovery_typed_form:
  "concat (map recovery_char s) = concat (map recovery_char (typed_form s))"
proof (induction s)
  case (Cons c s)
  have "separator c \<Longrightarrow> recovery_char c = []" by (simp add: recovery_char_def)
  then show ?case using Cons by (simp add: typed_form_def recovery_char_lower)
qed (simp add: typed_form_def)

lemma group_typed:
  "ascii s \<Longrightarrow> filter P sep = [] \<Longrightarrow> filter P (group_runes n sep i (map (\<lambda>c. ascii_rune c) s)) = filter P s"
  by (induction s arbitrary: i) (auto simp: rune_of_def encode_rune_ascii ascii_def)

lemma group_ascii: "ascii s \<Longrightarrow> ascii sep \<Longrightarrow> ascii (group_runes n sep i (map (\<lambda>c. ascii_rune c) s))"
  by (induction s arbitrary: i) (auto simp: rune_of_def encode_rune_ascii ascii_def)

lemma quintet_ascii: "ascii (b32_encode buf)"
proof -
  have "list_all (\<lambda>q. q < 32) (to_quintets (map byte buf))" by (rule quintets_less) (simp add: list_all_iff)
  then show ?thesis
    using quintet_char_alphabet by (fastforce simp: b32_encode_def ascii_def list_all_iff)
qed

lemma recovery_code_typed:
  assumes "new_recovery_code sha256 upper (Some buf) = Inr (code, digest)"
    "ascii typed" "typed_form typed = typed_form (Expose code)"
  shows "HashRecoveryCode sha256 upper (NewSecret typed) = digest"
proof -
  let ?raw = "b32_encode buf"
  have sep: "separator CHR ''-''" "ascii ''-''" by (simp_all add: separator_def ascii_def byte_def)
  have "filter (\<lambda>c. \<not> separator c) (groupString ?raw recoveryGroupLen ''-'') = filter (\<lambda>c. \<not> separator c) ?raw"
    using quintet_ascii [of buf] sep(1) by (simp add: groupString_def runes_ascii group_typed)
  then have "typed_form typed = typed_form ?raw"
    using assms by (auto simp: new_recovery_code_def Let_def typed_form_def)
  then have "concat (map recovery_char typed) = concat (map recovery_char ?raw)"
    using recovery_typed_form by metis
  then show ?thesis
    using assms quintet_ascii [of buf] by (auto simp: new_recovery_code_def Let_def HashRecoveryCode_def normalise_recovery_ascii)
qed

end
