(* ===== verification/RedisKey.thy ===== *)
theory RedisKey
  imports GoInt Ids
begin

text \<open>
  Building of Redis keys in \<open>internal/platform/redis/redis.go\<close>: every part is made safe and the parts
  are joined with colons.
\<close>

unbundle bit_operations_syntax

definition maxKeyPartLen :: nat where "maxKeyPartLen = 96"

definition isSafeKeyByte :: "char \<Rightarrow> bool" where
  "isSafeKeyByte b =
     (between CHR ''a'' CHR ''z'' b \<or> between CHR ''A'' CHR ''Z'' b \<or> between CHR ''0'' CHR ''9'' b
      \<or> b = CHR ''.'' \<or> b = CHR ''_'' \<or> b = CHR ''-'')"

definition fnv1a :: "string \<Rightarrow> uint64" where
  "fnv1a s = foldl (\<lambda>h c. (h XOR word_of_nat (byte c)) * 1099511628211) 14695981039346656037 s"

definition hex_char :: "nat \<Rightarrow> char" where
  "hex_char n = (if n < 10 then char_of (48 + n) else char_of (97 + (n - 10)))"

definition fnv1aHex :: "string \<Rightarrow> string" where
  "fnv1aHex s = map (\<lambda>i. hex_char (unat (drop_bit (4 * (15 - i)) (fnv1a s) AND 15))) [0..<16]"

definition sanitiseKeyPart :: "string \<Rightarrow> string" where
  "sanitiseKeyPart s =
     (if s = [] then ''_''
      else if list_all isSafeKeyByte s \<and> length s \<le> maxKeyPartLen then s
      else map (\<lambda>c. if isSafeKeyByte c then c else CHR ''_'') (take maxKeyPartLen s) @ ''.'' @ fnv1aHex s)"

fun join_with :: "string \<Rightarrow> string list \<Rightarrow> string" where
  "join_with sep [] = []"
| "join_with sep [p] = p"
| "join_with sep (p # q # ps) = p @ sep @ join_with sep (q # ps)"

definition Client_Key :: "string \<Rightarrow> string list \<Rightarrow> string" where
  "Client_Key keyPrefix parts =
     join_with '':'' ((if keyPrefix \<noteq> [] then [keyPrefix] else []) @ map sanitiseKeyPart parts)"

section \<open>Parts do not leak into each other\<close>

lemma safe_id_char: "isSafeKeyByte c = id_char c"
  by (auto simp: isSafeKeyByte_def id_char_def)

lemma hex_char_safe: "n < 16 \<Longrightarrow> isSafeKeyByte (hex_char n)"
proof -
  have "byte CHR ''a'' = 97" "byte CHR ''z'' = 122" "byte CHR ''0'' = 48" "byte CHR ''9'' = 57"
    by (simp_all add: byte_def)
  then show "n < 16 \<Longrightarrow> isSafeKeyByte (hex_char n)"
    by (auto simp: isSafeKeyByte_def hex_char_def between_code byte_def)
qed

lemma low_nibble: "unat (x AND (15 :: uint64)) < 16"
proof -
  have "x AND 15 \<le> 15" by (simp add: word_and_le1)
  then show ?thesis by (simp add: word_le_nat_alt)
qed

lemma sanitised_safe: "list_all isSafeKeyByte (sanitiseKeyPart s)"
proof -
  have "isSafeKeyByte CHR ''_''" "isSafeKeyByte CHR ''.''" by (simp_all add: isSafeKeyByte_def)
  then show ?thesis
    using hex_char_safe low_nibble by (auto simp: sanitiseKeyPart_def fnv1aHex_def list_all_iff)
qed

lemma sanitised_no_colon: "CHR '':'' \<notin> set (sanitiseKeyPart s)"
  using sanitised_safe [of s] by (auto simp: list_all_iff safe_id_char)

lemma sanitised_id: "validID s = Inr () \<Longrightarrow> length s \<le> maxKeyPartLen \<Longrightarrow> sanitiseKeyPart s = s"
  by (simp add: sanitiseKeyPart_def validID_ok_iff safe_id_char [abs_def])

text \<open>A key determines its parts: no value can address a namespace that is not its own.\<close>

lemma join_inj:
  assumes "join_with '':'' ps = join_with '':'' qs" "length ps = length qs"
    "\<forall>p \<in> set ps. CHR '':'' \<notin> set p" "\<forall>q \<in> set qs. CHR '':'' \<notin> set q"
  shows "ps = qs"
  using assms
proof (induction ps arbitrary: qs rule: induct_list012)
  case (3 p p' ps)
  then obtain q q' qs' where qs: "qs = q # q' # qs'" by (cases qs; cases "tl qs") auto
  have "p = q \<and> join_with '':'' (p' # ps) = join_with '':'' (q' # qs')"
    using 3(3,5,6) qs by (intro append_sep_inj [of p "CHR '':''"]) auto
  then show ?case using 3 qs by auto
next
  case (2 p)
  then obtain q where "qs = [q]" by (cases qs) auto
  then show ?case using 2 by simp
qed simp

lemma Client_Key_inj:
  assumes "Client_Key pre ps = Client_Key pre qs" "length ps = length qs"
  shows "map sanitiseKeyPart ps = map sanitiseKeyPart qs"
proof (cases "pre = []")
  case True
  then show ?thesis
    using assms sanitised_no_colon by (intro join_inj) (auto simp: Client_Key_def)
next
  case False
  show ?thesis
  proof (cases "ps = []")
    case True
    then show ?thesis using assms(2) by simp
  next
    case nonempty: False
    obtain p ps' q qs' where e: "ps = p # ps'" "qs = q # qs'"
      using nonempty assms(2) by (cases ps; cases qs) auto
    have "pre @ '':'' @ join_with '':'' (map sanitiseKeyPart ps) = pre @ '':'' @ join_with '':'' (map sanitiseKeyPart qs)"
      using assms(1) False e by (simp add: Client_Key_def)
    then show ?thesis
      using assms(2) sanitised_no_colon by (intro join_inj) auto
  qed
qed

end
