(* ===== verification/ReplayGuard.thy ===== *)
theory ReplayGuard
  imports Totp RedisKey
begin

text \<open>
  The replay guards: the interface \<open>ReplayGuard\<close> of \<open>internal/auth/totp.go\<close> as a locale, its
  in-memory implementation of the same file and the Redis implementation of
  \<open>internal/auth/redisguard/guard.go\<close> as interpretations, and what single use of a step needs.
\<close>

section \<open>The in-memory guard\<close>

type_synonym replay_key = "string \<times> int"

type_synonym MemoryReplayGuard = "replay_key \<rightharpoonup> time"

definition NewMemoryReplayGuard :: MemoryReplayGuard where "NewMemoryReplayGuard = Map.empty"

definition sweep :: "time \<Rightarrow> MemoryReplayGuard \<Rightarrow> MemoryReplayGuard" where
  "sweep now used = (\<lambda>k. case used k of None \<Rightarrow> None | Some gone \<Rightarrow> if now < gone then Some gone else None)"

definition MemoryReplayGuard_Consume ::
  "bool \<Rightarrow> time \<Rightarrow> MemoryReplayGuard \<Rightarrow> string \<Rightarrow> int \<Rightarrow> time \<Rightarrow> bool ares \<times> MemoryReplayGuard" where
  "MemoryReplayGuard_Consume cancelled now used user step expiry =
     (if cancelled then (Inl (Root Internal), used)
      else let used = sweep now used; key = (user, step) in
        case used key of
          Some gone \<Rightarrow> if now < gone then (Inr False, used) else (Inr True, used(key \<mapsto> expiry))
        | None \<Rightarrow> (Inr True, used(key \<mapsto> expiry)))"

section \<open>The Redis guard\<close>

text \<open>
  Redis is a map from keys to the instant an entry goes. \<open>life\<close> is how long an entry written with a
  given TTL stays, which the client and the server decide. A call may fail before or after the server
  has applied it.
\<close>

datatype call_fault = NoFault | FailBefore | FailAfter

definition keyScope :: string where "keyScope = ''auth:totp:step''"
definition maxTTL :: duration where "maxTTL = 10 * (60 * time_second)"

definition format_int :: "int \<Rightarrow> string" where
  "format_int i = (if i < 0 then ''-'' @ format_nat (nat (- i)) else format_nat (nat i))"

definition step_key :: "string \<Rightarrow> string \<Rightarrow> int \<Rightarrow> string" where
  "step_key pre user step = Client_Key pre [keyScope, user, format_int step]"

definition set_nx :: "(duration \<Rightarrow> duration) \<Rightarrow> time \<Rightarrow> string \<Rightarrow> duration \<Rightarrow> (string \<rightharpoonup> time) \<Rightarrow> bool \<times> (string \<rightharpoonup> time)" where
  "set_nx life now key ttl r =
     (case r key of
        Some gone \<Rightarrow> if now < gone then (False, r) else (True, r(key \<mapsto> now + life ttl))
      | None \<Rightarrow> (True, r(key \<mapsto> now + life ttl)))"

definition Guard_Consume ::
  "(duration \<Rightarrow> duration) \<Rightarrow> string \<Rightarrow> call_fault \<Rightarrow> time \<Rightarrow> (string \<rightharpoonup> time) \<Rightarrow> string \<Rightarrow> int \<Rightarrow> time
     \<Rightarrow> bool ares \<times> (string \<rightharpoonup> time)" where
  "Guard_Consume life pre fault now r user step expiry =
     (let ttl = time_sub expiry now in
      if ttl \<le> 0 then (Inl (Root Invalid), r)
      else let ttl = (if maxTTL < ttl then maxTTL else ttl) in
        case fault of
          FailBefore \<Rightarrow> (Inl StoreFailure, r)
        | FailAfter \<Rightarrow> (Inl StoreFailure, snd (set_nx life now (step_key pre user step) ttl r))
        | NoFault \<Rightarrow> (case set_nx life now (step_key pre user step) ttl r of (created, r') \<Rightarrow> (Inr created, r')))"

section \<open>The contract\<close>

text \<open>The answers to a sequence of calls: the fault, the guard's clock, the user, the step and the expiry of each.\<close>

fun guard_answers ::
  "('f \<Rightarrow> time \<Rightarrow> 's \<Rightarrow> string \<Rightarrow> int \<Rightarrow> time \<Rightarrow> bool ares \<times> 's) \<Rightarrow> 's
     \<Rightarrow> ('f \<times> time \<times> string \<times> int \<times> time) list \<Rightarrow> bool ares list" where
  "guard_answers consume g [] = []"
| "guard_answers consume g ((f, now, u, k, e) # calls) =
     (case consume f now g u k e of (r, g') \<Rightarrow> r # guard_answers consume g' calls)"

text \<open>
  What a caller relies on: a step is consumed by one caller, and stays burnt until a horizon that the
  expiry it passed determines. \<open>known\<close> are the steps the guard can tell apart.
\<close>

locale replay_guard =
  fixes consume :: "'f \<Rightarrow> time \<Rightarrow> 's \<Rightarrow> string \<Rightarrow> int \<Rightarrow> time \<Rightarrow> bool ares \<times> 's"
    and burnt :: "time \<Rightarrow> 's \<Rightarrow> string \<Rightarrow> int \<Rightarrow> bool"
    and horizon :: "time \<Rightarrow> time \<Rightarrow> time"
    and known :: "string \<Rightarrow> int \<Rightarrow> bool"
  assumes first: "consume f now g u k e = (Inr True, g') \<Longrightarrow> \<not> burnt now g u k"
    and burns: "consume f now g u k e = (Inr True, g') \<Longrightarrow> now \<le> t \<Longrightarrow> t < horizon now e \<Longrightarrow> burnt t g' u k"
    and again: "consume f now g u k e = (Inr False, g') \<Longrightarrow> burnt now g u k"
    and keeps: "consume f now g u k e = (r, g') \<Longrightarrow> burnt t g v j \<Longrightarrow> now \<le> t \<Longrightarrow> burnt t g' v j"
    and apart: "consume f now g u k e = (Inr True, g') \<Longrightarrow> known u k \<Longrightarrow> known v j \<Longrightarrow> (u, k) \<noteq> (v, j) \<Longrightarrow>
      burnt t g' v j \<Longrightarrow> burnt t g v j"
begin

lemma burnt_refuses:
  assumes "burnt t g u k" "sorted (map (\<lambda>(f, now, _). now) calls)" "\<forall>(f, now, _) \<in> set calls. now \<le> t"
    "i < length calls" "calls ! i = (f, t, u, k, e)"
  shows "guard_answers consume g calls ! i \<noteq> Inr True"
  using assms
proof (induction calls arbitrary: g i)
  case (Cons c calls)
  obtain f' now u' k' e' where c: "c = (f', now, u', k', e')" by (cases c) auto
  obtain r g' where r: "consume f' now g u' k' e' = (r, g')" by (cases "consume f' now g u' k' e'")
  show ?case
  proof (cases i)
    case 0
    then have "c = (f, t, u, k, e)" using Cons.prems(5) by simp
    then show ?thesis using 0 Cons.prems(1) first [of f t g u k e] by (auto split: prod.splits)
  next
    case (Suc j)
    have "burnt t g' u k" using keeps [OF r Cons.prems(1)] Cons.prems(3) c by simp
    then have "guard_answers consume g' calls ! j \<noteq> Inr True" using Cons.prems Suc by (intro Cons.IH) auto
    then show ?thesis using Suc r c by simp
  qed
qed simp

text \<open>Of two calls for one step, the second before the horizon of the first, at most one is told it was first.\<close>

lemma consumed_once:
  assumes "sorted (map (\<lambda>(f, now, _). now) calls)" "i < j" "j < length calls"
    "calls ! i = (f, now, u, k, e)" "calls ! j = (f', t, u, k, e')" "t < horizon now e"
    "guard_answers consume g calls ! i = Inr True"
  shows "guard_answers consume g calls ! j \<noteq> Inr True"
  using assms
proof (induction calls arbitrary: g i j)
  case (Cons c calls)
  obtain f1 n1 u1 k1 e1 where c: "c = (f1, n1, u1, k1, e1)" by (cases c) auto
  obtain r g' where r: "consume f1 n1 g u1 k1 e1 = (r, g')" by (cases "consume f1 n1 g u1 k1 e1")
  obtain j' where j: "j = Suc j'" using Cons.prems(2) by (cases j) auto
  show ?case
  proof (cases i)
    case 0
    then have same: "(f1, n1, u1, k1, e1) = (f, now, u, k, e)" "r = Inr True" using Cons.prems(4,7) c r by auto
    have at_j: "calls ! j' = (f', t, u, k, e')" "j' < length calls" using Cons.prems(3,5) j by auto
    have "now \<le> t" using Cons.prems(1) at_j c same nth_mem [OF at_j(2)] by fastforce
    then have b: "burnt t g' u k" using burns [of f1 n1 g u1 k1 e1 g' t] r same Cons.prems(6) by simp
    let ?pre = "take (Suc j') calls"
    have "sorted (map (\<lambda>(f, now, _). now) ?pre)" using Cons.prems(1) by (simp add: sorted_wrt_take flip: take_map)
    moreover have "\<forall>(f, now, _) \<in> set ?pre. now \<le> t"
    proof -
      have "sorted (map (\<lambda>(f, now, _). now) calls)" using Cons.prems(1) by simp
      then have "\<forall>m \<le> j'. (case calls ! m of (f, now, _) \<Rightarrow> now) \<le> t"
        using at_j sorted_nth_mono [of "map (\<lambda>(f, now, _). now) calls" _ j'] by (fastforce split: prod.splits)
      then show ?thesis using at_j(2) by (fastforce simp: in_set_conv_nth less_Suc_eq_le split: prod.splits)
    qed
    moreover have "?pre ! j' = (f', t, u, k, e')" using at_j by simp
    ultimately have "guard_answers consume g' ?pre ! j' \<noteq> Inr True"
      using b at_j(2) by (intro burnt_refuses [of t g' u k _ _ f' e']) simp_all
    moreover have "guard_answers consume g' ?pre ! j' = guard_answers consume g' calls ! j'"
    proof -
      have "guard_answers consume h (take n cs) = take n (guard_answers consume h cs)" for h n cs
        by (induction consume h cs arbitrary: n rule: guard_answers.induct) (auto simp: take_Cons split: nat.splits prod.splits)
      then show ?thesis by simp
    qed
    ultimately show ?thesis using j r c by simp
  next
    case (Suc i')
    have "guard_answers consume g' calls ! j' \<noteq> Inr True"
      using Cons.prems Suc j c r by (intro Cons.IH [of i' j' g']) auto
    then show ?thesis using j r c by simp
  qed
qed simp

end

section \<open>Both guards keep the contract\<close>

definition memory_burnt :: "time \<Rightarrow> MemoryReplayGuard \<Rightarrow> string \<Rightarrow> int \<Rightarrow> bool" where
  "memory_burnt t used u k = (case used (u, k) of None \<Rightarrow> False | Some gone \<Rightarrow> t < gone)"

lemma memory_burnt_sweep: "now \<le> t \<Longrightarrow> memory_burnt t (sweep now used) u k = memory_burnt t used u k"
  by (auto simp: memory_burnt_def sweep_def split: option.splits)

lemma memory_consume_cases:
  "MemoryReplayGuard_Consume c now used u k e =
     (if c then (Inl (Root Internal), used)
      else if memory_burnt now used u k then (Inr False, sweep now used)
      else (Inr True, (sweep now used)((u, k) \<mapsto> e)))"
  by (auto simp: MemoryReplayGuard_Consume_def memory_burnt_def sweep_def Let_def split: option.splits)

interpretation memory_guard: replay_guard MemoryReplayGuard_Consume memory_burnt "\<lambda>now e. e" "\<lambda>u k. True"
proof unfold_locales
  fix c now used u k e used' r t v j
  show "MemoryReplayGuard_Consume c now used u k e = (Inr True, used') \<Longrightarrow> \<not> memory_burnt now used u k"
    by (auto simp: memory_consume_cases split: if_splits)
  show "MemoryReplayGuard_Consume c now used u k e = (Inr True, used') \<Longrightarrow> now \<le> t \<Longrightarrow> t < e \<Longrightarrow> memory_burnt t used' u k"
    by (auto simp: memory_consume_cases memory_burnt_def split: if_splits)
  show "MemoryReplayGuard_Consume c now used u k e = (Inr False, used') \<Longrightarrow> memory_burnt now used u k"
    by (auto simp: memory_consume_cases split: if_splits)
  show "MemoryReplayGuard_Consume c now used u k e = (r, used') \<Longrightarrow> memory_burnt t used v j \<Longrightarrow> now \<le> t \<Longrightarrow> memory_burnt t used' v j"
    by (auto simp: memory_consume_cases memory_burnt_def sweep_def split: if_splits option.splits)
  show "MemoryReplayGuard_Consume c now used u k e = (Inr True, used') \<Longrightarrow> True \<Longrightarrow> True \<Longrightarrow> (u, k) \<noteq> (v, j) \<Longrightarrow>
      memory_burnt t used' v j \<Longrightarrow> memory_burnt t used v j"
    by (auto simp: memory_consume_cases memory_burnt_def sweep_def split: if_splits option.splits)
qed

text \<open>Keys of users whose identifier is short enough not to be hashed determine the user and the step.\<close>

definition guard_user :: "string \<Rightarrow> int \<Rightarrow> bool" where
  "guard_user u k = (validID u = Inr () \<and> length u \<le> maxKeyPartLen \<and> \<bar>k\<bar> < 10 ^ 90)"

lemma format_nat_inj [simp]: "format_nat m = format_nat n \<longleftrightarrow> m = n"
  using read_format_nat by metis

lemma minus_not_digits: "CHR ''-'' # s \<noteq> format_nat n"
  using format_nat_digits [of n] not_is_digit(2) by (metis list.pred_inject(2))

lemma format_int_inj: "format_int i = format_int j \<longleftrightarrow> i = j"
  using minus_not_digits minus_not_digits [symmetric] by (auto simp: format_int_def)

lemma format_int_safe:
  assumes "\<bar>k\<bar> < 10 ^ 90"
  shows "sanitiseKeyPart (format_int k) = format_int k"
proof -
  have "length (format_nat (nat \<bar>k\<bar>)) \<le> 90" using assms by (intro format_nat_length) (simp_all add: nat_less_iff)
  then have "length (format_int k) \<le> 91" by (auto simp: format_int_def)
  moreover have "list_all isSafeKeyByte (format_int k)"
  proof -
    have "isSafeKeyByte c" if "is_digit c" for c using that by (simp add: isSafeKeyByte_def is_digit_def between_def)
    then have "list_all isSafeKeyByte (format_nat n)" for n
      using format_nat_digits [of n] by (auto simp: list_all_iff)
    then show ?thesis by (simp add: format_int_def isSafeKeyByte_def)
  qed
  moreover have "format_int k \<noteq> []" by (simp add: format_int_def)
  ultimately show ?thesis by (simp add: sanitiseKeyPart_def maxKeyPartLen_def)
qed

lemma step_key_inj:
  assumes "guard_user u k" "guard_user v j" "step_key pre u k = step_key pre v j"
  shows "u = v \<and> k = j"
proof -
  have "map sanitiseKeyPart [keyScope, u, format_int k] = map sanitiseKeyPart [keyScope, v, format_int j]"
    using assms(3) unfolding step_key_def by (rule Client_Key_inj) simp
  then show ?thesis
    using assms(1,2) by (simp add: guard_user_def sanitised_id format_int_safe format_int_inj)
qed

definition redis_burnt :: "string \<Rightarrow> time \<Rightarrow> (string \<rightharpoonup> time) \<Rightarrow> string \<Rightarrow> int \<Rightarrow> bool" where
  "redis_burnt pre t r u k = (case r (step_key pre u k) of None \<Rightarrow> False | Some gone \<Rightarrow> t < gone)"

definition redis_horizon :: "(duration \<Rightarrow> duration) \<Rightarrow> time \<Rightarrow> time \<Rightarrow> time" where
  "redis_horizon life now e = now + life (min maxTTL (time_sub e now))"

lemma redis_consume_cases:
  "Guard_Consume life pre fault now r u k e =
     (let ttl = time_sub e now; taken = redis_burnt pre now r u k;
          r' = (if taken then r else r(step_key pre u k \<mapsto> redis_horizon life now e)) in
      if ttl \<le> 0 then (Inl (Root Invalid), r)
      else if fault = FailBefore then (Inl StoreFailure, r)
      else if fault = FailAfter then (Inl StoreFailure, r')
      else (Inr (\<not> taken), r'))"
  by (cases fault) (auto simp: Guard_Consume_def set_nx_def redis_burnt_def redis_horizon_def Let_def min_def
      split: option.splits)

interpretation redis_guard: replay_guard "Guard_Consume life pre" "redis_burnt pre" "redis_horizon life" guard_user
  for life pre
proof unfold_locales
  fix f now r u k e r' x t v j
  show "Guard_Consume life pre f now r u k e = (Inr True, r') \<Longrightarrow> \<not> redis_burnt pre now r u k"
    by (auto simp: redis_consume_cases Let_def split: if_splits)
  show "Guard_Consume life pre f now r u k e = (Inr True, r') \<Longrightarrow> now \<le> t \<Longrightarrow> t < redis_horizon life now e \<Longrightarrow>
      redis_burnt pre t r' u k"
    by (auto simp: redis_consume_cases Let_def redis_burnt_def split: if_splits)
  show "Guard_Consume life pre f now r u k e = (Inr False, r') \<Longrightarrow> redis_burnt pre now r u k"
    by (auto simp: redis_consume_cases Let_def split: if_splits)
  show "Guard_Consume life pre f now r u k e = (x, r') \<Longrightarrow> redis_burnt pre t r v j \<Longrightarrow> now \<le> t \<Longrightarrow> redis_burnt pre t r' v j"
    by (auto simp: redis_consume_cases Let_def redis_burnt_def split: if_splits option.splits)
  show "Guard_Consume life pre f now r u k e = (Inr True, r') \<Longrightarrow> guard_user u k \<Longrightarrow> guard_user v j \<Longrightarrow> (u, k) \<noteq> (v, j) \<Longrightarrow>
      redis_burnt pre t r' v j \<Longrightarrow> redis_burnt pre t r v j"
    using step_key_inj by (fastforce simp: redis_consume_cases Let_def redis_burnt_def split: if_splits)
qed

section \<open>When a code is good once\<close>

text \<open>
  A code that \<open>consumeTOTPCode\<close> hands to the guard was validated at an instant \<open>t\<close>, names a step, and
  is kept until \<open>(SkewSteps + 2) * Period\<close> after \<open>t\<close>.
\<close>

definition replay_expiry :: "TOTPConfig \<Rightarrow> time \<Rightarrow> time" where
  "replay_expiry cfg t = t + (SkewSteps cfg + 2) * Period cfg"

text \<open>The instants at which a step validates lie within one window of \<open>2 * SkewSteps + 1\<close> periods.\<close>

lemma step_window:
  assumes "config_wf cfg" "Period cfg = n * time_second" "totpStep t (Period cfg) = Some c" "62135596800 * 10 ^ 9 \<le> t"
    "\<bar>s - c\<bar> \<le> SkewSteps cfg"
  shows "62135596800 * 10 ^ 9 + (s - SkewSteps cfg) * Period cfg \<le> t"
    "t < 62135596800 * 10 ^ 9 + (s + SkewSteps cfg + 1) * Period cfg"
proof -
  define u where "u = time_unix t"
  have n: "0 < n" using assms(1,2) by (simp add: config_wf_def time_second_def)
  have u: "0 \<le> u" using assms(4) by (simp add: u_def time_unix_def)
  have "Period cfg sdiv time_second = n"
    using assms(2) n by (simp add: time_second_def signed_divide_int_def sgn_mult)
  then have c: "c = u div n" using assms(3) n u by (simp add: totpStep_def Let_def u_def signed_divide_int_def split: if_splits) (auto simp: sgn_if)
  have un: "u * 10 ^ 9 \<le> t - 62135596800 * 10 ^ 9" "t - 62135596800 * 10 ^ 9 < (u + 1) * 10 ^ 9"
    by (simp_all add: u_def time_unix_def algebra_simps)
  have "u = c * n + u mod n" "0 \<le> u mod n" "u mod n < n" using n by (simp_all add: c)
  then have cu: "c * n \<le> u" "u + 1 \<le> (c + 1) * n" by (simp_all add: distrib_right)
  have "(s - SkewSteps cfg) * n \<le> c * n" "(c + 1) * n \<le> (s + SkewSteps cfg + 1) * n"
    using assms(5) n by (auto intro!: mult_right_mono)
  then have "(s - SkewSteps cfg) * n \<le> u" "u + 1 \<le> (s + SkewSteps cfg + 1) * n" using cu by linarith+
  then have "(s - SkewSteps cfg) * n * 10 ^ 9 \<le> u * 10 ^ 9" "(u + 1) * 10 ^ 9 \<le> (s + SkewSteps cfg + 1) * n * 10 ^ 9"
    by (auto intro!: mult_right_mono)
  then show "62135596800 * 10 ^ 9 + (s - SkewSteps cfg) * Period cfg \<le> t"
    "t < 62135596800 * 10 ^ 9 + (s + SkewSteps cfg + 1) * Period cfg"
    using un by (simp_all add: assms(2) time_second_def mult.assoc)
qed

end
