(* ===== verification/Keyring.thy ===== *)
theory Keyring
  imports GoBase AuthIds
begin

text \<open>
  \<open>internal/auth/keyring.go\<close>: the encryption keys of the second-factor secrets. AES-GCM is a pair of
  parameters, \<open>seal\<close> and \<open>open\<close> (key, nonce, text, associated data). A ring is the list of its keys in
  the order a Go map iterates over them.
\<close>

definition AESKeyLen :: nat where "AESKeyLen = 32"
definition gcm_nonce_size :: nat where "gcm_nonce_size = 12"
definition aadLabel :: string where "aadLabel = ''sharpline/auth/totp-secret/v1''"

record Keyring =
  ring :: "(string \<times> string) list"
  activeID :: string

definition validKeyID :: "string \<Rightarrow> unit ares" where
  "validKeyID s =
     (if s = [] \<or> MaxIDLen < length s then Inl (Root Invalid)
      else if \<not> list_all id_char s then Inl (Root Invalid) else Inr ())"

fun check_keys :: "(string \<times> string) list \<Rightarrow> unit ares" where
  "check_keys [] = Inr ()"
| "check_keys ((k, key) # ks) =
     bindE (validKeyID k) (\<lambda>_. if length key \<noteq> AESKeyLen then Inl AuthKeyLength else check_keys ks)"

definition NewKeyring :: "(string \<times> string) list \<Rightarrow> string \<Rightarrow> Keyring ares" where
  "NewKeyring keys active =
     (if keys = [] then Inl AuthKeyringEmpty
      else if map_of keys active = None then Inl (Root Invalid)
      else bindE (check_keys keys) (\<lambda>_. Inr \<lparr>ring = keys, activeID = active\<rparr>))"

definition decodeKey :: "string \<Rightarrow> string ares" where
  "decodeKey encoded =
     bindE (some_or AuthKeyringFormat
       (case std64_decode encoded of Some key \<Rightarrow> Some key | None \<Rightarrow> raw64_decode std_alphabet encoded)) (\<lambda>key.
     if length key \<noteq> AESKeyLen then Inl AuthKeyLength else Inr key)"

fun parse_entries :: "(string \<times> string) list \<Rightarrow> string \<Rightarrow> string list \<Rightarrow> ((string \<times> string) list \<times> string) ares" where
  "parse_entries keys active [] = Inr (keys, active)"
| "parse_entries keys active (entry # entries) =
     (let entry = trim_space entry in
      if entry = [] then parse_entries keys active entries
      else bindE (some_or AuthKeyringFormat (cut_at CHR '':'' entry)) (\<lambda>(kid, encoded).
        let kid = trim_space kid in
        bindE (validKeyID kid) (\<lambda>_.
        if map_of keys kid \<noteq> None then Inl (Root Invalid)
        else bindE (as_error AuthKeyringFormat (decodeKey (trim_space encoded))) (\<lambda>key.
          parse_entries (keys @ [(kid, key)]) (if active = [] then kid else active) entries))))"

definition ParseKeyring :: "string \<Rightarrow> Keyring ares" where
  "ParseKeyring spec =
     (let spec = trim_space spec in
      if spec = [] then Inl AuthKeyringEmpty
      else bindE (parse_entries [] [] (split_on CHR '','' spec)) (\<lambda>(keys, active).
        if active = [] then Inl AuthKeyringEmpty else NewKeyring keys active))"

definition ActiveKeyID :: "Keyring \<Rightarrow> string" where "ActiveKeyID kr = activeID kr"
definition KeyIDs :: "Keyring \<Rightarrow> string list" where "KeyIDs kr = map fst (ring kr)"

definition Keyring_String :: "Keyring \<Rightarrow> string" where
  "Keyring_String kr = ''Keyring{active='' @ activeID kr @ '', keys='' @ format_nat (length (ring kr)) @ ''}''"

definition Keyring_GoString :: "Keyring \<Rightarrow> string" where "Keyring_GoString kr = Keyring_String kr"

record Sealed =
  Ciphertext :: string
  Nonce :: string
  KeyID :: string

definition aad :: "string \<Rightarrow> string \<Rightarrow> string" where
  "aad keyID owner = aadLabel @ [char_of (0 :: nat)] @ keyID @ [char_of (0 :: nat)] @ owner"

definition aead :: "Keyring \<Rightarrow> string \<Rightarrow> string ares" where
  "aead kr keyID =
     bindE (some_or AuthKeyUnknown (map_of (ring kr) keyID)) (\<lambda>key.
     if length key \<in> {16, 24, 32} then Inr key else Inl (Root Internal))"

type_synonym gcm = "string \<Rightarrow> string \<Rightarrow> string \<Rightarrow> string \<Rightarrow> string"
type_synonym gcm_inverse = "string \<Rightarrow> string \<Rightarrow> string \<Rightarrow> string \<Rightarrow> string option"

definition Keyring_Seal :: "gcm \<Rightarrow> Keyring \<Rightarrow> string option \<Rightarrow> string \<Rightarrow> string \<Rightarrow> Sealed ares" where
  "Keyring_Seal seal kr entropy owner plaintext =
     (if owner = [] \<or> plaintext = [] then Inl (Root Invalid)
      else bindE (aead kr (activeID kr)) (\<lambda>key.
        bindE (some_or (Root Internal) entropy) (\<lambda>nonce.
          Inr \<lparr>Ciphertext = seal key nonce plaintext (aad (activeID kr) owner), Nonce = nonce, KeyID = activeID kr\<rparr>)))"

definition Keyring_Open :: "gcm_inverse \<Rightarrow> Keyring \<Rightarrow> string \<Rightarrow> Sealed \<Rightarrow> string ares" where
  "Keyring_Open opn kr owner sealed =
     (if owner = [] then Inl (Root Invalid)
      else bindE (aead kr (KeyID sealed)) (\<lambda>key.
        if length (Nonce sealed) \<noteq> gcm_nonce_size then Inl AuthDecrypt
        else some_or AuthDecrypt (opn key (Nonce sealed) (Ciphertext sealed) (aad (KeyID sealed) owner))))"

definition NeedsReseal :: "Keyring \<Rightarrow> string \<Rightarrow> bool" where
  "NeedsReseal kr keyID = (keyID \<noteq> activeID kr)"

section \<open>Well-formed rings\<close>

definition keyring_wf :: "Keyring \<Rightarrow> bool" where
  "keyring_wf kr = (distinct (map fst (ring kr)) \<and> map_of (ring kr) (activeID kr) \<noteq> None \<and>
     (\<forall>(k, key) \<in> set (ring kr). validID k = Inr () \<and> length key = 32))"

lemma check_keys_ok:
  "check_keys ks = Inr () \<longleftrightarrow> (\<forall>(k, key) \<in> set ks. validKeyID k = Inr () \<and> length key = 32)"
  by (induction ks rule: check_keys.induct) (auto simp: result_simps AESKeyLen_def)

lemma validKeyID_ok: "validKeyID k = Inr () \<longleftrightarrow> validID k = Inr ()"
  by (auto simp: validKeyID_def validID_ok_iff MaxIDLen_def)

lemma NewKeyring_wf:
  "NewKeyring keys active = Inr kr \<Longrightarrow> distinct (map fst keys) \<Longrightarrow> keyring_wf kr \<and> ring kr = keys \<and> activeID kr = active"
  by (auto simp: NewKeyring_def keyring_wf_def result_simps check_keys_ok validKeyID_ok)

lemma parse_entries_distinct:
  "parse_entries keys active es = Inr (keys', active') \<Longrightarrow> distinct (map fst keys) \<Longrightarrow> distinct (map fst keys')"
proof (induction es arbitrary: keys active)
  case (Cons e es)
  show ?case
  proof (cases "trim_space e = []")
    case True
    then show ?thesis using Cons by simp
  next
    case False
    obtain kid encoded key where kid: "cut_at CHR '':'' (trim_space e) = Some (kid, encoded)" "validKeyID (trim_space kid) = Inr ()"
      "map_of keys (trim_space kid) = None" "decodeKey (trim_space encoded) = Inr key" and
      rest: "parse_entries (keys @ [(trim_space kid, key)]) (if active = [] then trim_space kid else active) es = Inr (keys', active')"
      using Cons.prems(1) False by (auto simp: result_simps Let_def simp del: if_split)
    have "distinct (map fst (keys @ [(trim_space kid, key)]))"
      using Cons.prems(2) kid(3) by (auto simp: map_of_eq_None_iff)
    then show ?thesis using Cons.IH [OF rest] by simp
  qed
qed simp

lemma ParseKeyring_wf: "ParseKeyring spec = Inr kr \<Longrightarrow> keyring_wf kr"
  using parse_entries_distinct NewKeyring_wf
  by (fastforce simp: ParseKeyring_def result_simps Let_def split: if_splits)

section \<open>Sealing binds the owner and the key\<close>

text \<open>What AES-GCM is relied on for: what was sealed opens, and under no other associated data.\<close>

definition gcm_opens :: "gcm \<Rightarrow> gcm_inverse \<Rightarrow> bool" where
  "gcm_opens seal opn = (\<forall>k n p a. opn k n (seal k n p a) a = Some p)"

definition gcm_binds :: "gcm \<Rightarrow> gcm_inverse \<Rightarrow> bool" where
  "gcm_binds seal opn = (\<forall>k n p a b. a \<noteq> b \<longrightarrow> opn k n (seal k n p a) b = None)"

lemma id_no_nul: "validID k = Inr () \<Longrightarrow> char_of (0 :: nat) \<notin> set k"
proof -
  have "\<not> id_char (char_of (0 :: nat))" by (simp add: id_char_def between_def byte_def flip: byte_inj)
  then show "validID k = Inr () \<Longrightarrow> char_of (0 :: nat) \<notin> set k" by (auto simp: validID_ok_iff list_all_iff)
qed

lemma aad_inj:
  assumes "validID k = Inr ()" "validID k' = Inr ()" "aad k u = aad k' v"
  shows "k = k' \<and> u = v"
proof -
  define z :: char where "z = char_of (0 :: nat)"
  have z: "z \<notin> set k" "z \<notin> set k'" using id_no_nul assms(1,2) unfolding z_def by blast+
  have "k @ z # u = k' @ z # v" using assms(3) unfolding aad_def z_def [symmetric] by simp
  then show ?thesis using z by (rule append_sep_inj)
qed

lemma aead_wf:
  assumes "keyring_wf kr" "map_of (ring kr) k = Some key"
  shows "aead kr k = Inr key"
proof -
  have "length key = 32" using assms(1) map_of_SomeD [OF assms(2)] by (auto simp: keyring_wf_def)
  then show ?thesis by (simp add: aead_def assms(2))
qed

lemma sealed:
  assumes "keyring_wf kr" "owner \<noteq> []" "plaintext \<noteq> []" "length nonce = gcm_nonce_size"
  obtains key where "map_of (ring kr) (activeID kr) = Some key"
    "Keyring_Seal seal kr (Some nonce) owner plaintext =
       Inr \<lparr>Ciphertext = seal key nonce plaintext (aad (activeID kr) owner), Nonce = nonce, KeyID = activeID kr\<rparr>"
proof -
  obtain key where key: "map_of (ring kr) (activeID kr) = Some key" using assms(1) by (auto simp: keyring_wf_def)
  then show thesis using assms aead_wf [OF assms(1) key] that by (simp add: Keyring_Seal_def)
qed

lemma open_seal:
  assumes "keyring_wf kr" "gcm_opens seal opn" "owner \<noteq> []" "plaintext \<noteq> []" "length nonce = gcm_nonce_size"
  shows "bindE (Keyring_Seal seal kr (Some nonce) owner plaintext) (Keyring_Open opn kr owner) = Inr plaintext"
proof -
  obtain key where k: "map_of (ring kr) (activeID kr) = Some key"
    "Keyring_Seal seal kr (Some nonce) owner plaintext =
       Inr \<lparr>Ciphertext = seal key nonce plaintext (aad (activeID kr) owner), Nonce = nonce, KeyID = activeID kr\<rparr>"
    using sealed [OF assms(1,3,4,5)] by blast
  then show ?thesis
    using assms aead_wf [OF assms(1) k(1)] by (simp add: Keyring_Open_def gcm_opens_def)
qed

lemma open_other_owner:
  assumes "keyring_wf kr" "gcm_binds seal opn" "owner \<noteq> []" "plaintext \<noteq> []" "length nonce = gcm_nonce_size"
    "thief \<noteq> owner" "thief \<noteq> []"
  shows "bindE (Keyring_Seal seal kr (Some nonce) owner plaintext) (Keyring_Open opn kr thief) = Inl AuthDecrypt"
proof -
  obtain key where k: "map_of (ring kr) (activeID kr) = Some key"
    "Keyring_Seal seal kr (Some nonce) owner plaintext =
       Inr \<lparr>Ciphertext = seal key nonce plaintext (aad (activeID kr) owner), Nonce = nonce, KeyID = activeID kr\<rparr>"
    using sealed [OF assms(1,3,4,5)] by blast
  have "validID (activeID kr) = Inr ()" using assms(1) map_of_SomeD [OF k(1)] by (auto simp: keyring_wf_def)
  then have "aad (activeID kr) owner \<noteq> aad (activeID kr) thief" using aad_inj assms(6) by metis
  then show ?thesis
    using k(2) assms aead_wf [OF assms(1) k(1)] by (simp add: Keyring_Open_def gcm_binds_def)
qed

end
