(* ===== verification/AuthStore.thy ===== *)
theory AuthStore
  imports AuthStatus Email ReplayGuard Keyring
begin

text \<open>
  \<open>internal/auth/store.go\<close> and \<open>internal/auth/pgstore/store.go\<close>: the accounts tables with the
  constraints of \<open>migrations/00005\<close>, and the operations on them. A table is the list of its rows. A
  single statement and a transaction are atomic: the row locks of a rotation order it against every
  other writer of the same rows. \<open>pg_email\<close> stands for the three CHECKs on an address, which
  PostgreSQL evaluates in its own locale.
\<close>

section \<open>Tables\<close>

record UserRow =
  u_id :: string
  u_email :: string
  u_hash :: string
  u_changed :: time
  u_status :: string
  u_created :: time

record FamilyRow =
  f_id :: string
  f_user :: string
  f_started :: time
  f_revoked :: "time option"
  f_reason :: "string option"

record TokenRow =
  t_id :: string
  t_family :: string
  t_parent :: "string option"
  t_hash :: string
  t_issued :: time
  t_expires :: time
  t_used :: "time option"

record TotpRow =
  s_user :: string
  s_sealed :: Sealed
  s_confirmed :: "time option"

record DB =
  users :: "UserRow list"
  families :: "FamilyRow list"
  tokens :: "TokenRow list"
  totps :: "TotpRow list"

definition user_checks :: "(string \<Rightarrow> bool) \<Rightarrow> UserRow \<Rightarrow> bool" where
  "user_checks pg_email u =
     (validID (u_id u) = Inr () \<and> pg_email (u_email u) \<and> take 10 (u_hash u) = ''$argon2id$'' \<and>
      40 \<le> length (u_hash u) \<and> length (u_hash u) \<le> 512 \<and>
      u_status u \<in> {''active'', ''suspended'', ''self_excluded'', ''closed''})"

definition family_checks :: "FamilyRow \<Rightarrow> bool" where
  "family_checks f =
     (validID (f_id f) = Inr () \<and>
      (case f_reason f of None \<Rightarrow> True | Some r \<Rightarrow> r \<in> {''logout'', ''reuse_detected'', ''credential_change'', ''operator''}) \<and>
      (f_revoked f = None) = (f_reason f = None) \<and>
      (case f_revoked f of None \<Rightarrow> True | Some t \<Rightarrow> f_started f \<le> t))"

definition token_checks :: "TokenRow \<Rightarrow> bool" where
  "token_checks t =
     (validID (t_id t) = Inr () \<and> t_parent t \<noteq> Some (t_id t) \<and> length (t_hash t) = 32 \<and>
      t_issued t < t_expires t \<and> (case t_used t of None \<Rightarrow> True | Some u \<Rightarrow> t_issued t \<le> u))"

definition totp_checks :: "TotpRow \<Rightarrow> bool" where
  "totp_checks r =
     (Ciphertext (s_sealed r) \<noteq> [] \<and> 12 \<le> length (Nonce (s_sealed r)) \<and> length (Nonce (s_sealed r)) \<le> 32 \<and>
      validID (KeyID (s_sealed r)) = Inr ())"

section \<open>Statements\<close>

text \<open>How a statement fails: a unique constraint, by its name, or anything else.\<close>

datatype sql_error = UniqueViolation string | OtherSQL

text \<open>A statement returns its result, here the number of rows or the rows read, and the new tables.\<close>

type_synonym 'a stmt = "DB \<Rightarrow> sql_error + 'a \<times> DB"

definition insert_user :: "(string \<Rightarrow> bool) \<Rightarrow> UserRow \<Rightarrow> nat stmt" where
  "insert_user pg_email u db =
     (if \<not> user_checks pg_email u then Inl OtherSQL
      else if u_id u \<in> u_id ` set (users db) then Inl (UniqueViolation ''users_pkey'')
      else if u_email u \<in> u_email ` set (users db) then Inl (UniqueViolation ''users_email_key'')
      else Inr (1, db\<lparr>users := users db @ [u]\<rparr>))"

definition update_users :: "(string \<Rightarrow> bool) \<Rightarrow> (UserRow \<Rightarrow> bool) \<Rightarrow> (UserRow \<Rightarrow> UserRow) \<Rightarrow> nat stmt" where
  "update_users pg_email p f db =
     (if list_all (\<lambda>u. p u \<longrightarrow> user_checks pg_email (f u)) (users db)
      then Inr (length (filter p (users db)), db\<lparr>users := map (\<lambda>u. if p u then f u else u) (users db)\<rparr>)
      else Inl OtherSQL)"

definition insert_family :: "FamilyRow \<Rightarrow> nat stmt" where
  "insert_family f db =
     (if \<not> family_checks f then Inl OtherSQL
      else if f_id f \<in> f_id ` set (families db) then Inl (UniqueViolation ''refresh_token_families_pkey'')
      else if f_user f \<notin> u_id ` set (users db) then Inl OtherSQL
      else Inr (1, db\<lparr>families := families db @ [f]\<rparr>))"

definition update_families :: "(FamilyRow \<Rightarrow> bool) \<Rightarrow> (FamilyRow \<Rightarrow> FamilyRow) \<Rightarrow> nat stmt" where
  "update_families p f db =
     (if list_all (\<lambda>r. p r \<longrightarrow> family_checks (f r)) (families db)
      then Inr (length (filter p (families db)), db\<lparr>families := map (\<lambda>r. if p r then f r else r) (families db)\<rparr>)
      else Inl OtherSQL)"

definition insert_token :: "TokenRow \<Rightarrow> nat stmt" where
  "insert_token t db =
     (if \<not> token_checks t then Inl OtherSQL
      else if t_id t \<in> t_id ` set (tokens db) then Inl (UniqueViolation ''refresh_tokens_pkey'')
      else if t_hash t \<in> t_hash ` set (tokens db) then Inl (UniqueViolation ''refresh_tokens_token_hash_key'')
      else if t_parent t \<noteq> None \<and> t_parent t \<in> t_parent ` set (tokens db)
        then Inl (UniqueViolation ''refresh_tokens_one_successor'')
      else if t_parent t = None \<and> list_ex (\<lambda>r. t_parent r = None \<and> t_family r = t_family t) (tokens db)
        then Inl (UniqueViolation ''refresh_tokens_one_root'')
      else if t_family t \<notin> f_id ` set (families db) then Inl OtherSQL
      else if t_parent t \<noteq> None \<and> \<not> list_ex (\<lambda>r. Some (t_id r) = t_parent t \<and> t_family r = t_family t) (tokens db)
        then Inl OtherSQL
      else Inr (1, db\<lparr>tokens := tokens db @ [t]\<rparr>))"

definition update_tokens :: "(TokenRow \<Rightarrow> bool) \<Rightarrow> (TokenRow \<Rightarrow> TokenRow) \<Rightarrow> nat stmt" where
  "update_tokens p f db =
     (if list_all (\<lambda>r. p r \<longrightarrow> token_checks (f r)) (tokens db)
      then Inr (length (filter p (tokens db)), db\<lparr>tokens := map (\<lambda>r. if p r then f r else r) (tokens db)\<rparr>)
      else Inl OtherSQL)"

text \<open>One statement on the pool, and one transaction. The outcome of a failed call may have been applied.\<close>

definition run_stmt :: "call_fault \<Rightarrow> 'a stmt \<Rightarrow> DB \<Rightarrow> (sql_error + 'a) \<times> DB" where
  "run_stmt fault s db =
     (case fault of
        FailBefore \<Rightarrow> (Inl OtherSQL, db)
      | _ \<Rightarrow> (case s db of
          Inl e \<Rightarrow> (Inl e, db)
        | Inr (x, db') \<Rightarrow> (if fault = FailAfter then Inl OtherSQL else Inr x, db')))"

datatype 'a tx_end = TxCommit 'a DB | TxRollback 'a | TxError auth_err

definition inTx :: "call_fault \<Rightarrow> (DB \<Rightarrow> 'a tx_end) \<Rightarrow> DB \<Rightarrow> 'a ares \<times> DB" where
  "inTx fault body db =
     (if fault = FailBefore then (Inl StoreFailure, db)
      else case body db of
        TxCommit x db' \<Rightarrow> (if fault = FailAfter then Inl StoreFailure else Inr x, db')
      | TxRollback x \<Rightarrow> (Inr x, db)
      | TxError e \<Rightarrow> (Inl e, db))"

section \<open>Users\<close>

record UserRecord =
  ur_id :: string
  ur_email :: Email
  ur_status :: UserStatus
  ur_created :: time
  ur_hash :: string
  ur_changed :: time

record NewUserRecord =
  nu_id :: string
  nu_email :: Email
  nu_hash :: string
  nu_changed :: time
  nu_status :: UserStatus

definition names_email :: "string \<Rightarrow> bool" where
  "names_email s = list_ex (\<lambda>i. take 5 (drop i s) = ''email'') [0..<length s]"

definition isEmailConflict :: "sql_error \<Rightarrow> bool" where
  "isEmailConflict e = (case e of UniqueViolation name \<Rightarrow> names_email name | OtherSQL \<Rightarrow> False)"

definition Store_CreateUser ::
  "(string \<Rightarrow> bool) \<Rightarrow> call_fault \<Rightarrow> time \<Rightarrow> NewUserRecord \<Rightarrow> DB \<Rightarrow> unit ares \<times> DB" where
  "Store_CreateUser pg_email fault now u db =
     (case run_stmt fault (insert_user pg_email \<lparr>u_id = nu_id u, u_email = Email_String (nu_email u), u_hash = nu_hash u,
         u_changed = nu_changed u, u_status = UserStatus_String (nu_status u), u_created = now\<rparr>) db of
        (Inl e, db') \<Rightarrow> (Inl (if isEmailConflict e then AuthEmailTaken else StoreFailure), db')
      | (Inr _, db') \<Rightarrow> (Inr (), db'))"

definition scanUser :: "(nat \<Rightarrow> nat) \<Rightarrow> call_fault \<Rightarrow> (UserRow \<Rightarrow> bool) \<Rightarrow> DB \<Rightarrow> UserRecord option ares" where
  "scanUser lower fault p db =
     (if fault \<noteq> NoFault then Inl StoreFailure
      else case find p (users db) of
        None \<Rightarrow> Inr None
      | Some u \<Rightarrow>
          bindE (from_domain (new_id (u_id u))) (\<lambda>uid.
          bindE (NewEmail lower (u_email u)) (\<lambda>email.
          bindE (ParseUserStatus (u_status u)) (\<lambda>status.
            Inr (Some \<lparr>ur_id = uid, ur_email = email, ur_status = status, ur_created = u_created u,
              ur_hash = u_hash u, ur_changed = u_changed u\<rparr>)))))"

definition Store_UserByEmail :: "(nat \<Rightarrow> nat) \<Rightarrow> call_fault \<Rightarrow> Email \<Rightarrow> DB \<Rightarrow> UserRecord option ares" where
  "Store_UserByEmail lower fault email = scanUser lower fault (\<lambda>u. u_email u = Email_String email)"

definition Store_UserByID :: "(nat \<Rightarrow> nat) \<Rightarrow> call_fault \<Rightarrow> string \<Rightarrow> DB \<Rightarrow> UserRecord option ares" where
  "Store_UserByID lower fault uid = scanUser lower fault (\<lambda>u. u_id u = uid)"

definition Store_UserStatus :: "call_fault \<Rightarrow> string \<Rightarrow> DB \<Rightarrow> UserStatus option ares" where
  "Store_UserStatus fault uid db =
     (if fault \<noteq> NoFault then Inl StoreFailure
      else case find (\<lambda>u. u_id u = uid) (users db) of
        None \<Rightarrow> Inr None
      | Some u \<Rightarrow> bindE (ParseUserStatus (u_status u)) (\<lambda>status. Inr (Some status)))"

text \<open>What \<open>SetPassword\<close> and \<open>RehashPassword\<close> answer: no row is an internal error.\<close>

definition one_user :: "(sql_error + nat) \<times> DB \<Rightarrow> unit ares \<times> DB" where
  "one_user r = (case r of
     (Inl _, db') \<Rightarrow> (Inl StoreFailure, db')
   | (Inr n, db') \<Rightarrow> (if n = 0 then Inl (Root Internal) else Inr (), db'))"

definition Store_SetPassword ::
  "(string \<Rightarrow> bool) \<Rightarrow> call_fault \<Rightarrow> string \<Rightarrow> string \<Rightarrow> time \<Rightarrow> DB \<Rightarrow> unit ares \<times> DB" where
  "Store_SetPassword pg_email fault uid hash changedAt db =
     one_user (run_stmt fault
       (update_users pg_email (\<lambda>u. u_id u = uid) (\<lambda>u. u\<lparr>u_hash := hash, u_changed := changedAt\<rparr>)) db)"

definition Store_RehashPassword :: "(string \<Rightarrow> bool) \<Rightarrow> call_fault \<Rightarrow> string \<Rightarrow> string \<Rightarrow> DB \<Rightarrow> unit ares \<times> DB" where
  "Store_RehashPassword pg_email fault uid hash db =
     one_user (run_stmt fault (update_users pg_email (\<lambda>u. u_id u = uid) (\<lambda>u. u\<lparr>u_hash := hash\<rparr>)) db)"

section \<open>Sessions\<close>

record SessionRecord =
  sr_user :: string
  sr_family :: string
  sr_started :: time
  sr_token :: string
  sr_expires :: time
  sr_status :: UserStatus

record NewSession =
  ns_family :: string
  ns_user :: string
  ns_started :: time
  ns_token :: string
  ns_hash :: string
  ns_issued :: time
  ns_expires :: time

record RotateRequest =
  rq_presented :: string
  rq_now :: time
  rq_successor :: string
  rq_hash :: string
  rq_expires :: time
  rq_lifetime :: duration

datatype RotateOutcome =
    RotateUnknown | RotateOK | RotateNotFound | RotateExpired | RotateRevoked | RotateReuse | RotateCredentialChange

fun RotateOutcome_String :: "RotateOutcome \<Rightarrow> string" where
  "RotateOutcome_String RotateOK = ''ok''"
| "RotateOutcome_String RotateNotFound = ''not_found''"
| "RotateOutcome_String RotateExpired = ''expired''"
| "RotateOutcome_String RotateRevoked = ''revoked''"
| "RotateOutcome_String RotateReuse = ''reuse''"
| "RotateOutcome_String RotateCredentialChange = ''credential_change''"
| "RotateOutcome_String RotateUnknown = ''unknown''"

text \<open>The zero value of a session record, before the scan fills it.\<close>

definition zero_SessionRecord :: SessionRecord where
  "zero_SessionRecord = \<lparr>sr_user = [], sr_family = [], sr_started = 0, sr_token = [], sr_expires = 0,
     sr_status = UserStatusUnknown\<rparr>"

definition create_session_tx :: "NewSession \<Rightarrow> DB \<Rightarrow> unit tx_end" where
  "create_session_tx ns db =
     (case insert_family \<lparr>f_id = ns_family ns, f_user = ns_user ns, f_started = ns_started ns, f_revoked = None, f_reason = None\<rparr> db of
        Inl _ \<Rightarrow> TxError StoreFailure
      | Inr (_, db) \<Rightarrow>
          (case insert_token \<lparr>t_id = ns_token ns, t_family = ns_family ns, t_parent = None, t_hash = ns_hash ns,
              t_issued = ns_issued ns, t_expires = ns_expires ns, t_used = None\<rparr> db of
             Inl _ \<Rightarrow> TxError StoreFailure
           | Inr (_, db) \<Rightarrow> TxCommit () db))"

definition Store_CreateSession :: "call_fault \<Rightarrow> NewSession \<Rightarrow> DB \<Rightarrow> unit ares \<times> DB" where
  "Store_CreateSession fault ns = inTx fault (create_session_tx ns)"

text \<open>The join of \<open>selectPresentedTokenSQL\<close>.\<close>

definition find_presented :: "string \<Rightarrow> DB \<Rightarrow> (TokenRow \<times> FamilyRow \<times> UserRow) option" where
  "find_presented hash db =
     (case find (\<lambda>t. t_hash t = hash) (tokens db) of
        None \<Rightarrow> None
      | Some t \<Rightarrow>
          (case find (\<lambda>f. f_id f = t_family t) (families db) of
             None \<Rightarrow> None
           | Some f \<Rightarrow>
               (case find (\<lambda>u. u_id u = f_user f) (users db) of
                  None \<Rightarrow> None
                | Some u \<Rightarrow> Some (t, f, u))))"

definition cappedExpiry :: "RotateRequest \<Rightarrow> time \<Rightarrow> time" where
  "cappedExpiry req familyStarted =
     (if rq_lifetime req \<le> 0 then rq_expires req
      else let limit = familyStarted + rq_lifetime req in
        if time_before limit (rq_expires req) then limit else rq_expires req)"

definition markTokenUsedSQL :: "string \<Rightarrow> time \<Rightarrow> nat stmt" where
  "markTokenUsedSQL tid inst =
     update_tokens (\<lambda>t. t_id t = tid \<and> t_used t = None) (\<lambda>t. t\<lparr>t_used := Some inst\<rparr>)"

type_synonym rotation = "SessionRecord \<times> RotateOutcome \<times> RevokedReason"

text \<open>The redemption proper: the token is marked used and its successor inserted, or nothing happens.\<close>

definition redeem :: "RotateRequest \<Rightarrow> SessionRecord \<Rightarrow> DB \<Rightarrow> rotation tx_end" where
  "redeem req rec db =
     (let reuse = TxRollback (rec, RotateReuse, RevokedReasonReuseDetected) in
      case markTokenUsedSQL (sr_token rec) (rq_now req) db of
        Inl _ \<Rightarrow> TxError StoreFailure
      | Inr (n, db) \<Rightarrow>
          if n = 0 then reuse
          else let expires = cappedExpiry req (sr_started rec) in
            (case insert_token \<lparr>t_id = rq_successor req, t_family = sr_family rec, t_parent = Some (sr_token rec),
                t_hash = rq_hash req, t_issued = rq_now req, t_expires = expires, t_used = None\<rparr> db of
               Inl (UniqueViolation _) \<Rightarrow> reuse
             | Inl OtherSQL \<Rightarrow> TxError StoreFailure
             | Inr (_, db) \<Rightarrow> TxCommit (rec\<lparr>sr_expires := expires\<rparr>, RotateOK, RevokedReasonUnknown) db))"

definition rotate_tx :: "RotateRequest \<Rightarrow> DB \<Rightarrow> rotation tx_end" where
  "rotate_tx req db =
     (case find_presented (rq_presented req) db of
        None \<Rightarrow> TxCommit (zero_SessionRecord, RotateNotFound, RevokedReasonUnknown) db
      | Some (t, f, u) \<Rightarrow>
          (case (from_domain (new_id (f_user f)), ParseUserStatus (u_status u)) of
             (Inl e, _) \<Rightarrow> TxError e
           | (_, Inl e) \<Rightarrow> TxError e
           | (Inr owner, Inr status) \<Rightarrow>
               let rec = \<lparr>sr_user = owner, sr_family = f_id f, sr_started = f_started f, sr_token = t_id t,
                     sr_expires = 0, sr_status = status\<rparr> in
               if f_revoked f \<noteq> None then TxCommit (rec, RotateRevoked, RevokedReasonUnknown) db
               else if time_before (f_started f) (u_changed u)
                 then TxCommit (rec, RotateCredentialChange, RevokedReasonCredentialChange) db
               else if \<not> rq_now req < t_expires t then TxCommit (rec, RotateExpired, RevokedReasonUnknown) db
               else if t_used t \<noteq> None then TxCommit (rec, RotateReuse, RevokedReasonReuseDetected) db
               else redeem req rec db))"

definition rotateAttempt :: "call_fault \<Rightarrow> RotateRequest \<Rightarrow> DB \<Rightarrow> rotation ares \<times> DB" where
  "rotateAttempt fault req = inTx fault (rotate_tx req)"

definition revoke_row :: "time \<Rightarrow> string \<Rightarrow> FamilyRow \<Rightarrow> FamilyRow" where
  "revoke_row inst reason f = f\<lparr>f_revoked := Some inst, f_reason := Some reason\<rparr>"

definition revokeFamilySQL :: "string \<Rightarrow> time \<Rightarrow> string \<Rightarrow> nat stmt" where
  "revokeFamilySQL fid inst reason = update_families (\<lambda>f. f_id f = fid \<and> f_revoked f = None) (revoke_row inst reason)"

definition Store_RevokeFamily :: "call_fault \<Rightarrow> string \<Rightarrow> time \<Rightarrow> RevokedReason \<Rightarrow> DB \<Rightarrow> unit ares \<times> DB" where
  "Store_RevokeFamily fault fid inst reason db =
     (if \<not> RevokedReason_Valid reason then (Inl (Root Invalid), db)
      else case run_stmt fault (revokeFamilySQL fid inst (RevokedReason_String reason)) db of
        (Inl _, db') \<Rightarrow> (Inl StoreFailure, db')
      | (Inr _, db') \<Rightarrow> (Inr (), db'))"

definition revoke_by_token_tx :: "string \<Rightarrow> time \<Rightarrow> RevokedReason \<Rightarrow> DB \<Rightarrow> SessionRecord option tx_end" where
  "revoke_by_token_tx hash inst reason db =
     (case find (\<lambda>t. t_hash t = hash) (tokens db) of
        None \<Rightarrow> TxCommit None db
      | Some t \<Rightarrow>
          (case find (\<lambda>f. f_id f = t_family t) (families db) of
             None \<Rightarrow> TxCommit None db
           | Some f \<Rightarrow>
               (case from_domain (new_id (f_user f)) of
                  Inl e \<Rightarrow> TxError e
                | Inr owner \<Rightarrow>
                    (case revokeFamilySQL (f_id f) inst (RevokedReason_String reason) db of
                       Inl _ \<Rightarrow> TxError StoreFailure
                     | Inr (_, db) \<Rightarrow>
                         TxCommit (Some (zero_SessionRecord\<lparr>sr_user := owner, sr_family := f_id f, sr_started := f_started f\<rparr>)) db))))"

definition Store_RevokeByToken ::
  "call_fault \<Rightarrow> string \<Rightarrow> time \<Rightarrow> RevokedReason \<Rightarrow> DB \<Rightarrow> SessionRecord option ares \<times> DB" where
  "Store_RevokeByToken fault hash inst reason db =
     (if \<not> RevokedReason_Valid reason then (Inl (Root Invalid), db)
      else inTx fault (revoke_by_token_tx hash inst reason) db)"

definition Store_RevokeUserSessions :: "call_fault \<Rightarrow> string \<Rightarrow> time \<Rightarrow> RevokedReason \<Rightarrow> DB \<Rightarrow> nat ares \<times> DB" where
  "Store_RevokeUserSessions fault uid inst reason db =
     (if \<not> RevokedReason_Valid reason then (Inl (Root Invalid), db)
      else case run_stmt fault
          (update_families (\<lambda>f. f_user f = uid \<and> f_revoked f = None) (revoke_row inst (RevokedReason_String reason))) db of
        (Inl _, db') \<Rightarrow> (Inl StoreFailure, db')
      | (Inr n, db') \<Rightarrow> (Inr n, db'))"

section \<open>The second factor\<close>

record TOTPRecord =
  tr_user :: string
  tr_sealed :: Sealed
  tr_confirmed :: time

definition Confirmed :: "TOTPRecord \<Rightarrow> bool" where
  "Confirmed r = (\<not> time_is_zero (tr_confirmed r))"

definition Store_LoadTOTP :: "call_fault \<Rightarrow> string \<Rightarrow> DB \<Rightarrow> TOTPRecord option ares" where
  "Store_LoadTOTP fault uid db =
     (if fault \<noteq> NoFault then Inl StoreFailure
      else case find (\<lambda>r. s_user r = uid) (totps db) of
        None \<Rightarrow> Inr None
      | Some r \<Rightarrow> Inr (Some \<lparr>tr_user = uid, tr_sealed = s_sealed r,
          tr_confirmed = (case s_confirmed r of None \<Rightarrow> 0 | Some t \<Rightarrow> t)\<rparr>))"

text \<open>\<open>INSERT ... ON CONFLICT (user_id) DO UPDATE ... WHERE confirmed_at IS NULL\<close>\<close>

definition upsertTOTPSQL :: "TotpRow \<Rightarrow> nat stmt" where
  "upsertTOTPSQL r db =
     (if \<not> totp_checks r then Inl OtherSQL
      else if s_user r \<in> s_user ` set (totps db) then
        Inr (length (filter (\<lambda>q. s_user q = s_user r \<and> s_confirmed q = None) (totps db)),
          db\<lparr>totps := map (\<lambda>q. if s_user q = s_user r \<and> s_confirmed q = None
            then q\<lparr>s_sealed := s_sealed r, s_confirmed := None\<rparr> else q) (totps db)\<rparr>)
      else if s_user r \<notin> u_id ` set (users db) then Inl OtherSQL
      else Inr (1, db\<lparr>totps := totps db @ [r]\<rparr>))"

definition Store_SaveTOTP :: "call_fault \<Rightarrow> TOTPRecord \<Rightarrow> DB \<Rightarrow> unit ares \<times> DB" where
  "Store_SaveTOTP fault rec db =
     (case run_stmt fault (upsertTOTPSQL \<lparr>s_user = tr_user rec, s_sealed = tr_sealed rec, s_confirmed = None\<rparr>) db of
        (Inl _, db') \<Rightarrow> (Inl StoreFailure, db')
      | (Inr n, db') \<Rightarrow> (if n = 0 then Inl AuthTOTPAlreadyEnrolled else Inr (), db'))"

definition confirmTOTPSQL :: "string \<Rightarrow> time \<Rightarrow> nat stmt" where
  "confirmTOTPSQL uid inst db =
     Inr (length (filter (\<lambda>q. s_user q = uid \<and> s_confirmed q = None) (totps db)),
       db\<lparr>totps := map (\<lambda>q. if s_user q = uid \<and> s_confirmed q = None then q\<lparr>s_confirmed := Some inst\<rparr> else q) (totps db)\<rparr>)"

definition Store_ConfirmTOTP :: "call_fault \<Rightarrow> string \<Rightarrow> time \<Rightarrow> DB \<Rightarrow> unit ares \<times> DB" where
  "Store_ConfirmTOTP fault uid inst db =
     (case run_stmt fault (confirmTOTPSQL uid inst) db of
        (Inl _, db') \<Rightarrow> (Inl StoreFailure, db')
      | (Inr n, db') \<Rightarrow> (if n = 0 then Inl AuthTOTPNotEnrolled else Inr (), db'))"

definition deleteTOTPSQL :: "string \<Rightarrow> nat stmt" where
  "deleteTOTPSQL uid db =
     Inr (length (filter (\<lambda>q. s_user q = uid) (totps db)), db\<lparr>totps := filter (\<lambda>q. s_user q \<noteq> uid) (totps db)\<rparr>)"

definition Store_DeleteTOTP :: "call_fault \<Rightarrow> string \<Rightarrow> DB \<Rightarrow> unit ares \<times> DB" where
  "Store_DeleteTOTP fault uid db =
     (case run_stmt fault (deleteTOTPSQL uid) db of
        (Inl _, db') \<Rightarrow> (Inl StoreFailure, db')
      | (Inr _, db') \<Rightarrow> (Inr (), db'))"

end
