(* ===== verification/Password.thy ===== *)
theory Password
  imports GoBase GoInt AuthIds
begin

text \<open>
  \<open>internal/auth/password.go\<close>: the cost parameters, their textual form, hashing and verification. The
  KDF is the parameter \<open>argon\<close> (password, salt, passes, memory, lanes, length of the key); a call is
  \<open>cancelled\<close> when its context ends before the concurrency limiter admits it.
\<close>

section \<open>Cost parameters\<close>

definition MinPasswordLen :: nat where "MinPasswordLen = 12"
definition MaxPasswordLen :: nat where "MaxPasswordLen = 1024"

record Params =
  MemoryKiB :: "32 word"
  Passes :: "32 word"
  Parallelism :: "8 word"
  SaltLen :: "32 word"
  DigestLen :: "32 word"

definition DefaultParams :: Params where
  "DefaultParams = \<lparr>MemoryKiB = 64 * 1024, Passes = 3, Parallelism = 2, SaltLen = 16, DigestLen = 32\<rparr>"

definition zero_Params :: Params where
  "zero_Params = \<lparr>MemoryKiB = 0, Passes = 0, Parallelism = 0, SaltLen = 0, DigestLen = 0\<rparr>"

definition minMemoryKiB :: "32 word" where "minMemoryKiB = 8 * 1024"
definition maxMemoryKiB :: "32 word" where "maxMemoryKiB = 1024 * 1024"
definition minTime :: "32 word" where "minTime = 1"
definition maxTime :: "32 word" where "maxTime = 16"
definition minSaltLen :: "32 word" where "minSaltLen = 8"
definition maxSaltLen :: "32 word" where "maxSaltLen = 64"
definition minKeyLen :: "32 word" where "minKeyLen = 16"
definition maxKeyLen :: "32 word" where "maxKeyLen = 64"

definition Params_Validate :: "Params \<Rightarrow> unit ares" where
  "Params_Validate p =
     (if MemoryKiB p < minMemoryKiB \<or> maxMemoryKiB < MemoryKiB p then Inl AuthParamsInvalid
      else if Passes p < minTime \<or> maxTime < Passes p then Inl AuthParamsInvalid
      else if Parallelism p = 0 then Inl AuthParamsInvalid
      else if SaltLen p < minSaltLen \<or> maxSaltLen < SaltLen p then Inl AuthParamsInvalid
      else if DigestLen p < minKeyLen \<or> maxKeyLen < DigestLen p then Inl AuthParamsInvalid
      else if MemoryKiB p div 8 < ucast (Parallelism p) then Inl AuthParamsInvalid
      else Inr ())"

definition AtLeastAsStrongAs :: "Params \<Rightarrow> Params \<Rightarrow> bool" where
  "AtLeastAsStrongAs p policy =
     (MemoryKiB policy \<le> MemoryKiB p \<and> Passes policy \<le> Passes p \<and> Parallelism p = Parallelism policy \<and>
      SaltLen policy \<le> SaltLen p \<and> DigestLen policy \<le> DigestLen p)"

definition argon2_Version :: nat where "argon2_Version = 19"
definition phcPrefix :: string where "phcPrefix = ''$argon2id$''"

definition b64 :: "string \<Rightarrow> string" where "b64 = raw64_encode std_alphabet"

definition Params_String :: "Params \<Rightarrow> string" where
  "Params_String p =
     ''m='' @ format_nat (unat (MemoryKiB p)) @ '',t='' @ format_nat (unat (Passes p)) @
     '',p='' @ format_nat (unat (Parallelism p))"

definition Params_Encode :: "Params \<Rightarrow> string" where
  "Params_Encode p = phcPrefix @ ''v='' @ format_nat argon2_Version @ ''$'' @ Params_String p @ ''$''"

section \<open>Parsing a stored hash\<close>

text \<open>\<open>fmt.Sscanf\<close> with \<open>v=%d\<close>: leading spaces are skipped, what follows the digits is not read.\<close>

definition scan_int :: "string \<Rightarrow> int option" where
  "scan_int s =
     (let s = concat (map snd (dropWhile (\<lambda>p. space_chunk p \<and> fst p \<noteq> Some 10) (runes s)));
          neg = (s \<noteq> [] \<and> hd s = CHR ''-'');
          body = (if s \<noteq> [] \<and> (hd s = CHR ''-'' \<or> hd s = CHR ''+'') then tl s else s);
          ds = takeWhile is_digit body; n = int (read_digits 0 ds); v = (if neg then - n else n) in
      if ds = [] \<or> v < - (2 ^ 63) \<or> 2 ^ 63 \<le> v then None else Some v)"

text \<open>\<open>strconv.ParseUint(s, 10, bits)\<close>: digits only, no sign.\<close>

definition parse_uint :: "nat \<Rightarrow> string \<Rightarrow> nat option" where
  "parse_uint bits s =
     (if s = [] \<or> \<not> list_all is_digit s then None
      else let n = read_digits 0 s in if n < 2 ^ bits then Some n else None)"

record cost_fields =
  cost_m :: "32 word option"
  cost_t :: "32 word option"
  cost_p :: "8 word option"

definition cost_field :: "cost_fields \<Rightarrow> string \<Rightarrow> cost_fields ares" where
  "cost_field acc f =
     (case cut_at CHR ''='' f of
        None \<Rightarrow> Inl AuthHashFormat
      | Some (name, v) \<Rightarrow>
          if name = ''m'' then
            bindE (some_or AuthHashFormat (parse_uint 32 v)) (\<lambda>n. Inr (acc\<lparr>cost_m := Some (word_of_nat n)\<rparr>))
          else if name = ''t'' then
            bindE (some_or AuthHashFormat (parse_uint 32 v)) (\<lambda>n. Inr (acc\<lparr>cost_t := Some (word_of_nat n)\<rparr>))
          else if name = ''p'' then
            bindE (some_or AuthHashFormat (parse_uint 8 v)) (\<lambda>n. Inr (acc\<lparr>cost_p := Some (word_of_nat n)\<rparr>))
          else Inl AuthHashFormat)"

fun cost_loop :: "cost_fields \<Rightarrow> string list \<Rightarrow> cost_fields ares" where
  "cost_loop acc [] = Inr acc"
| "cost_loop acc (f # fs) = bindE (cost_field acc f) (\<lambda>acc. cost_loop acc fs)"

definition decodeCostTriple :: "string \<Rightarrow> (32 word \<times> 32 word \<times> 8 word) ares" where
  "decodeCostTriple s =
     (let fields = split_on CHR '','' s in
      if length fields \<noteq> 3 then Inl AuthHashFormat
      else bindE (cost_loop \<lparr>cost_m = None, cost_t = None, cost_p = None\<rparr> fields) (\<lambda>acc.
        case (cost_m acc, cost_t acc, cost_p acc) of
          (Some m, Some t, Some p) \<Rightarrow> Inr (m, t, p)
        | _ \<Rightarrow> Inl AuthHashFormat))"

definition DecodeHash :: "string \<Rightarrow> (Params \<times> string \<times> string) ares" where
  "DecodeHash encoded =
     (case split_on CHR ''$'' encoded of
        [p0, p1, p2, p3, p4, p5] \<Rightarrow>
          if p0 \<noteq> [] then Inl AuthHashFormat
          else if p1 \<noteq> ''argon2id'' then Inl AuthHashAlgorithm
          else bindE (some_or AuthHashFormat (if take 2 p2 = ''v='' then scan_int (drop 2 p2) else None)) (\<lambda>version.
            if version \<noteq> int argon2_Version then Inl AuthHashVersion
            else bindE (decodeCostTriple p3) (\<lambda>(m, t, p).
              bindE (some_or AuthHashFormat (raw64_decode std_alphabet p4)) (\<lambda>salt.
              bindE (some_or AuthHashFormat (raw64_decode std_alphabet p5)) (\<lambda>digest.
                let params = \<lparr>MemoryKiB = m, Passes = t, Parallelism = p,
                      SaltLen = word_of_nat (length salt), DigestLen = word_of_nat (length digest)\<rparr> in
                if is_ok (Params_Validate params) then Inr (params, salt, digest) else Inl AuthHashParams))))
      | _ \<Rightarrow> Inl AuthHashFormat)"

section \<open>Hashing\<close>

type_synonym kdf = "string \<Rightarrow> string \<Rightarrow> nat \<Rightarrow> nat \<Rightarrow> nat \<Rightarrow> nat \<Rightarrow> string"

record Hasher =
  policy :: Params
  decoy :: string

definition kdf_run :: "kdf \<Rightarrow> string \<Rightarrow> string \<Rightarrow> Params \<Rightarrow> string" where
  "kdf_run argon password salt p =
     argon password salt (unat (Passes p)) (unat (MemoryKiB p)) (unat (Parallelism p)) (unat (DigestLen p))"

definition Hasher_hash :: "kdf \<Rightarrow> Params \<Rightarrow> string option \<Rightarrow> string \<Rightarrow> string ares" where
  "Hasher_hash argon params salt password =
     (case salt of
        None \<Rightarrow> Inl (Root Internal)
      | Some salt \<Rightarrow> Inr (Params_Encode params @ b64 salt @ ''$'' @ b64 (kdf_run argon password salt params)))"

definition ValidatePassword :: "Secret \<Rightarrow> unit ares" where
  "ValidatePassword password =
     (let n = Secret_Len password in
      if n < MinPasswordLen then Inl AuthPasswordTooShort
      else if MaxPasswordLen < n then Inl AuthPasswordTooLong
      else if \<not> valid_utf8 (Expose password) then Inl AuthPasswordNotUTF8 else Inr ())"

definition acquire :: "bool \<Rightarrow> unit ares" where
  "acquire cancelled = (if cancelled then Inl (Root Internal) else Inr ())"

definition Hasher_Hash :: "kdf \<Rightarrow> Hasher \<Rightarrow> bool \<Rightarrow> string option \<Rightarrow> Secret \<Rightarrow> string ares" where
  "Hasher_Hash argon h cancelled salt password =
     bindE (ValidatePassword password) (\<lambda>_.
     bindE (acquire cancelled) (\<lambda>_. Hasher_hash argon (policy h) salt (Expose password)))"

definition Hasher_Verify :: "kdf \<Rightarrow> bool \<Rightarrow> string \<Rightarrow> Secret \<Rightarrow> bool ares" where
  "Hasher_Verify argon cancelled encoded password =
     bindE (DecodeHash encoded) (\<lambda>(params, salt, want).
       if MaxPasswordLen < Secret_Len password then Inl AuthPasswordTooLong
       else bindE (acquire cancelled) (\<lambda>_. Inr (kdf_run argon (Expose password) salt params = want)))"

definition VerifyDecoy :: "kdf \<Rightarrow> Hasher \<Rightarrow> bool \<Rightarrow> Secret \<Rightarrow> unit ares" where
  "VerifyDecoy argon h cancelled password = bindE (Hasher_Verify argon cancelled (decoy h) password) (\<lambda>_. Inr ())"

definition NeedsRehash :: "Hasher \<Rightarrow> string \<Rightarrow> bool ares" where
  "NeedsRehash h encoded = bindE (DecodeHash encoded) (\<lambda>(params, _, _). Inr (\<not> AtLeastAsStrongAs params (policy h)))"

definition NewHasher :: "kdf \<Rightarrow> Params \<Rightarrow> int \<Rightarrow> string option \<Rightarrow> string option \<Rightarrow> Hasher ares" where
  "NewHasher argon opts concurrency seed salt =
     (let params = (if opts = zero_Params then DefaultParams else opts) in
      bindE (Params_Validate params) (\<lambda>_.
        if concurrency < 0 then Inl (Root Invalid)
        else case seed of
          None \<Rightarrow> Inl (Root Internal)
        | Some seed \<Rightarrow>
            bindE (Hasher_hash argon params salt seed) (\<lambda>d. Inr \<lparr>policy = params, decoy = d\<rparr>)))"

section \<open>A hash decodes to what it was made from\<close>

text \<open>What the KDF and the entropy source are relied on for: they return as many bytes as asked for.\<close>

definition kdf_length :: "kdf \<Rightarrow> bool" where
  "kdf_length argon = (\<forall>pw salt t m p n. length (argon pw salt t m p n) = n)"

lemma format_nat_chars: "c \<notin> set (format_nat n)" if "\<not> is_digit c"
  using format_nat_digits [of n] that by (auto simp: list_all_iff)

lemma not_digit_chars [simp]: "\<not> is_digit CHR '',''" "\<not> is_digit CHR ''=''" "\<not> is_digit CHR ''$''"
  by (simp_all add: is_digit_def) (simp_all add: byte_def)

lemma parse_format: "n < 2 ^ bits \<Longrightarrow> parse_uint bits (format_nat n) = Some n"
  by (simp add: parse_uint_def format_nat_digits read_format_nat)

lemma decode_cost_triple: "decodeCostTriple (Params_String p) = Inr (MemoryKiB p, Passes p, Parallelism p)"
proof -
  let ?m = "format_nat (unat (MemoryKiB p))" and ?t = "format_nat (unat (Passes p))" and ?p = "format_nat (unat (Parallelism p))"
  have b: "unat (MemoryKiB p) < 2 ^ 32" "unat (Passes p) < 2 ^ 32" "unat (Parallelism p) < 2 ^ 8"
    by (rule less_le_trans [OF unsigned_less], simp)+
  have "split_on CHR '','' ((''m='' @ ?m) @ CHR '','' # ((''t='' @ ?t) @ CHR '','' # (''p='' @ ?p))) =
      [''m='' @ ?m, ''t='' @ ?t, ''p='' @ ?p]"
    by (subst split_on_append, simp add: format_nat_chars)+ (simp add: split_on_none format_nat_chars)
  then have s: "split_on CHR '','' (Params_String p) = [''m='' @ ?m, ''t='' @ ?t, ''p='' @ ?p]"
    by (simp add: Params_String_def)
  have "cut_at CHR ''='' (''m='' @ ?m) = Some (''m'', ?m)" "cut_at CHR ''='' (''t='' @ ?t) = Some (''t'', ?t)"
    "cut_at CHR ''='' (''p='' @ ?p) = Some (''p'', ?p)"
    by simp_all
  then show ?thesis
    by (simp add: decodeCostTriple_def s cost_field_def parse_format [OF b(1)] parse_format [OF b(2)] parse_format [OF b(3)])
qed

lemma scan_format: "scan_int (format_nat n) = Some (int n)" if "n < 2 ^ 63"
proof -
  have ascii: "ascii (format_nat n)"
    using format_nat_digits [of n] by (auto simp: ascii_def is_digit_def list_all_iff)
  have hd: "is_digit (hd (format_nat n))"
    using format_nat_digits [of n] by (cases "format_nat n") auto
  then have "\<not> is_space (byte (hd (format_nat n)))" "hd (format_nat n) \<noteq> CHR ''-''" "hd (format_nat n) \<noteq> CHR ''+''"
    using not_is_digit by (auto simp: is_digit_def is_space_def)
  moreover have "concat (map (snd \<circ> (\<lambda>c. ascii_rune c)) s) = s" for s by (induction s) simp_all
  moreover have "dropWhile P (map f xs) = map f xs" if "xs \<noteq> []" "\<not> P (f (hd xs))" for P and f :: "char \<Rightarrow> nat option \<times> string" and xs
    using that by (cases xs) auto
  moreover have tw: "takeWhile is_digit (format_nat n) = format_nat n"
    using format_nat_digits [of n] by (simp add: list_all_iff)
  ultimately show ?thesis
    using that by (simp add: scan_int_def tw runes_ascii [OF ascii] space_chunk_def Let_def read_format_nat)
qed

lemma decode_hash_of:
  assumes "Params_Validate params = Inr ()" "length salt = unat (SaltLen params)" "length key = unat (DigestLen params)"
  shows "DecodeHash (Params_Encode params @ b64 salt @ ''$'' @ b64 key) = Inr (params, salt, key)"
proof -
  have chars: "CHR ''$'' \<notin> set (b64 x)" for x using raw64_encode_chars [of std_alphabet] by (simp add: b64_def)
  have par: "CHR ''$'' \<notin> set (Params_String params)" by (simp add: Params_String_def format_nat_chars)
  have v: "CHR ''$'' \<notin> set (''v='' @ format_nat argon2_Version)" by (simp add: format_nat_chars)
  let ?v = "''v='' @ format_nat argon2_Version" and ?p = "Params_String params"
  let ?joined = "[] @ CHR ''$'' # (''argon2id'' @ CHR ''$'' # (?v @ CHR ''$'' # (?p @ CHR ''$'' # (b64 salt @ CHR ''$'' # b64 key))))"
  have joined: "Params_Encode params @ b64 salt @ ''$'' @ b64 key = ?joined"
    by (simp add: Params_Encode_def phcPrefix_def)
  have "split_on CHR ''$'' ?joined = [[], ''argon2id'', ?v, ?p, b64 salt, b64 key]"
    by (subst split_on_append, simp add: chars par format_nat_chars del: append.simps)+ (simp add: split_on_none chars)
  then have s: "split_on CHR ''$'' (Params_Encode params @ b64 salt @ ''$'' @ b64 key) =
      [[], ''argon2id'', ?v, ?p, b64 salt, b64 key]"
    unfolding joined .
  have "scan_int (format_nat argon2_Version) = Some (int argon2_Version)"
    by (rule scan_format) (simp add: argon2_Version_def)
  moreover have "raw64_decode std_alphabet (b64 x) = Some x" for x by (simp add: b64_def raw64_roundtrip)
  moreover have "params\<lparr>SaltLen := word_of_nat (length salt), DigestLen := word_of_nat (length key)\<rparr> = params"
    using assms(2,3) by simp
  ultimately show ?thesis
    unfolding DecodeHash_def s using assms decode_cost_triple [of params]
    by (cases params) (simp add: Let_def)
qed

text \<open>The bounds of what a stored hash can make the server compute.\<close>

lemma decode_bounds:
  assumes "DecodeHash encoded = Inr (params, salt, digest)"
  shows "Params_Validate params = Inr ()"
  using assms by (auto simp: DecodeHash_def result_simps Let_def is_ok_iff split: list.splits if_splits)

lemma validate_bounds:
  assumes "Params_Validate p = Inr ()"
  shows "8192 \<le> unat (MemoryKiB p)" "unat (MemoryKiB p) \<le> 1048576" "1 \<le> unat (Passes p)" "unat (Passes p) \<le> 16"
    "1 \<le> unat (Parallelism p)"
  using assms
  by (auto simp: Params_Validate_def minMemoryKiB_def maxMemoryKiB_def minTime_def maxTime_def word_le_nat_alt
      word_less_nat_alt unat_gt_0 Suc_le_eq split: if_splits)

section \<open>Verification\<close>

lemma hash_decodes:
  assumes "Params_Validate params = Inr ()" "kdf_length argon" "length salt = unat (SaltLen params)"
    "Hasher_hash argon params (Some salt) pw = Inr encoded"
  shows "DecodeHash encoded = Inr (params, salt, kdf_run argon pw salt params)"
  using assms decode_hash_of [OF assms(1,3), of "kdf_run argon pw salt params"]
  by (simp add: Hasher_hash_def kdf_length_def kdf_run_def)

lemma verify_hashed:
  assumes "Params_Validate params = Inr ()" "kdf_length argon" "length salt = unat (SaltLen params)"
    "Hasher_hash argon params (Some salt) pw = Inr encoded" "Secret_Len candidate \<le> MaxPasswordLen"
  shows "Hasher_Verify argon False encoded candidate =
     Inr (kdf_run argon (Expose candidate) salt params = kdf_run argon pw salt params)"
  using assms(5) hash_decodes [OF assms(1-4)] by (simp add: Hasher_Verify_def acquire_def)

text \<open>A fresh hash never needs a rehash.\<close>

lemma fresh_hash_current:
  assumes "Params_Validate (policy h) = Inr ()" "kdf_length argon" "length salt = unat (SaltLen (policy h))"
    "Hasher_hash argon (policy h) (Some salt) pw = Inr encoded"
  shows "NeedsRehash h encoded = Inr False"
  using hash_decodes [OF assms] by (simp add: NeedsRehash_def AtLeastAsStrongAs_def)

end
