(* ===== verification/Jwt.thy ===== *)
theory Jwt
  imports GoBase AuthIds Totp
begin

text \<open>
  \<open>internal/auth/jwt.go\<close>: access tokens. HMAC-SHA256 and \<open>encoding/json\<close> are parameters; the latter
  is a record of the encoders and strict decoders of the two structures and of the audience.
\<close>

section \<open>Data\<close>

definition MinSigningKeyLen :: nat where "MinSigningKeyLen = 32"
definition DefaultIssuer :: string where "DefaultIssuer = ''sharpline''"
definition DefaultAudience :: string where "DefaultAudience = ''sharpline-api''"
definition DefaultAccessTTL :: duration where "DefaultAccessTTL = 10 * (60 * time_second)"
definition jwtAlg :: string where "jwtAlg = ''HS256''"
definition jwtTyp :: string where "jwtTyp = ''JWT''"

record Claims =
  Issuer :: string
  Subject :: string
  Audience :: string
  ID :: string
  SessionID :: string
  IssuedAt :: time
  NotBefore :: time
  ExpiresAt :: time

record wireClaims =
  w_iss :: string
  w_sub :: string
  w_aud :: string
  w_jti :: string
  w_sid :: string
  w_iat :: int
  w_nbf :: int
  w_exp :: int

record wireHeader =
  h_alg :: string
  h_typ :: string
  h_crit :: string

record json =
  put_header :: "wireHeader \<Rightarrow> string"
  get_header :: "string \<Rightarrow> wireHeader option"
  put_claims :: "wireClaims \<Rightarrow> string"
  get_claims :: "string \<Rightarrow> wireClaims option"
  put_string :: "string \<Rightarrow> string"
  get_string :: "string \<Rightarrow> string option"
  get_strings :: "string \<Rightarrow> string list option"

record TokenIssuer =
  ti_key :: string
  ti_issuer :: string
  ti_audience :: string
  ti_ttl :: duration
  ti_leeway :: duration

definition NewTokenIssuer :: "TokenIssuer \<Rightarrow> TokenIssuer ares" where
  "NewTokenIssuer opts =
     (if length (ti_key opts) < MinSigningKeyLen then Inl AuthSigningKeyLen
      else let iss = (if ti_issuer opts = [] then DefaultIssuer else ti_issuer opts);
          aud = (if ti_audience opts = [] then DefaultAudience else ti_audience opts);
          ttl = (if ti_ttl opts = 0 then DefaultAccessTTL else ti_ttl opts) in
        if ttl \<le> 0 then Inl (Root Invalid)
        else if ti_leeway opts < 0 then Inl (Root Invalid)
        else Inr \<lparr>ti_key = ti_key opts, ti_issuer = iss, ti_audience = aud, ti_ttl = ttl, ti_leeway = ti_leeway opts\<rparr>)"

section \<open>Issue\<close>

definition unix_time :: "int \<Rightarrow> time" where
  "unix_time s = (s + 62135596800) * 10 ^ 9"

definition truncate_to :: "duration \<Rightarrow> time \<Rightarrow> time" where
  "truncate_to d t = t - t mod d"

definition b64url :: "string \<Rightarrow> string" where "b64url = raw64_encode url_alphabet"

definition sign :: "(string \<Rightarrow> string \<Rightarrow> string) \<Rightarrow> TokenIssuer \<Rightarrow> string \<Rightarrow> string" where
  "sign hmac ti signingInput = hmac (ti_key ti) signingInput"

definition TokenIssuer_Issue ::
  "(string \<Rightarrow> string \<Rightarrow> string) \<Rightarrow> json \<Rightarrow> TokenIssuer \<Rightarrow> string option \<Rightarrow> time \<Rightarrow> string \<Rightarrow> string \<Rightarrow> (Secret \<times> Claims) ares" where
  "TokenIssuer_Issue hmac js ti entropy now userID sessionID =
     (if userID = [] then Inl (Root Invalid)
      else bindE (as_error (Root Internal) (NewOpaqueID [] entropy)) (\<lambda>jti.
        let issued = truncate_to time_second now;
            claims = \<lparr>Issuer = ti_issuer ti, Subject = userID, Audience = ti_audience ti, ID = jti,
              SessionID = sessionID, IssuedAt = issued, NotBefore = issued, ExpiresAt = issued + ti_ttl ti\<rparr>;
            payload = put_claims js \<lparr>w_iss = Issuer claims, w_sub = Subject claims, w_aud = put_string js (Audience claims),
              w_jti = ID claims, w_sid = SessionID claims, w_iat = time_unix (IssuedAt claims),
              w_nbf = time_unix (NotBefore claims), w_exp = time_unix (ExpiresAt claims)\<rparr>;
            header = put_header js \<lparr>h_alg = jwtAlg, h_typ = jwtTyp, h_crit = []\<rparr>;
            signingInput = b64url header @ ''.'' @ b64url payload in
        Inr (NewSecret (signingInput @ ''.'' @ b64url (sign hmac ti signingInput)), claims)))"

section \<open>Verify\<close>

definition decodeAudience :: "json \<Rightarrow> string \<Rightarrow> string list ares" where
  "decodeAudience js raw =
     (if raw = [] then Inl AuthAccessTokenInvalid
      else case get_string js raw of
        Some one \<Rightarrow> Inr [one]
      | None \<Rightarrow> some_or AuthAccessTokenInvalid (get_strings js raw))"

fun containsAudience :: "string list \<Rightarrow> string \<Rightarrow> bool" where
  "containsAudience [] want = False"
| "containsAudience (a # aud) want = (if a = want then True else containsAudience aud want)"

definition token_segments :: "Secret \<Rightarrow> (string \<times> string \<times> string) ares" where
  "token_segments token =
     bindE (some_or AuthAccessTokenInvalid (cut_at CHR ''.'' (Expose token))) (\<lambda>(headerB64, rest).
     bindE (some_or AuthAccessTokenInvalid (cut_at CHR ''.'' rest)) (\<lambda>(payloadB64, sigB64).
     if CHR ''.'' \<in> set sigB64 then Inl AuthAccessTokenInvalid else Inr (headerB64, payloadB64, sigB64)))"

definition check_header :: "wireHeader \<Rightarrow> unit ares" where
  "check_header hdr =
     (if h_alg hdr \<noteq> jwtAlg then Inl AuthAccessTokenInvalid
      else if h_typ hdr \<noteq> jwtTyp then Inl AuthAccessTokenInvalid
      else if h_crit hdr \<noteq> [] then Inl AuthAccessTokenInvalid else Inr ())"

definition check_claims :: "json \<Rightarrow> TokenIssuer \<Rightarrow> time \<Rightarrow> wireClaims \<Rightarrow> Claims ares" where
  "check_claims js ti now wc =
     (if w_iss wc \<noteq> ti_issuer ti then Inl AuthAccessTokenInvalid
      else bindE (decodeAudience js (w_aud wc)) (\<lambda>aud.
        if \<not> containsAudience aud (ti_audience ti) then Inl AuthAccessTokenInvalid
        else bindE (as_error AuthAccessTokenInvalid (new_id (w_sub wc))) (\<lambda>subject.
          let exp_at = unix_time (w_exp wc); nbf = unix_time (w_nbf wc) in
          if \<not> time_before now (exp_at + ti_leeway ti) then Inl AuthAccessTokenInvalid
          else if time_before now (nbf - ti_leeway ti) then Inl AuthAccessTokenInvalid
          else Inr \<lparr>Issuer = w_iss wc, Subject = subject, Audience = ti_audience ti, ID = w_jti wc,
            SessionID = w_sid wc, IssuedAt = unix_time (w_iat wc), NotBefore = nbf, ExpiresAt = exp_at\<rparr>)))"

definition TokenIssuer_Verify ::
  "(string \<Rightarrow> string \<Rightarrow> string) \<Rightarrow> json \<Rightarrow> TokenIssuer \<Rightarrow> time \<Rightarrow> Secret \<Rightarrow> Claims ares" where
  "TokenIssuer_Verify hmac js ti now token =
     bindE (token_segments token) (\<lambda>(headerB64, payloadB64, sigB64).
     bindE (some_or AuthAccessTokenInvalid (raw64_decode url_alphabet sigB64)) (\<lambda>gotSig.
     if gotSig \<noteq> sign hmac ti (headerB64 @ ''.'' @ payloadB64) then Inl AuthAccessTokenInvalid
     else bindE (some_or AuthAccessTokenInvalid (raw64_decode url_alphabet headerB64)) (\<lambda>headerJSON.
     bindE (some_or AuthAccessTokenInvalid (get_header js headerJSON)) (\<lambda>hdr.
     bindE (check_header hdr) (\<lambda>_.
     bindE (some_or AuthAccessTokenInvalid (raw64_decode url_alphabet payloadB64)) (\<lambda>payloadJSON.
     bindE (some_or AuthAccessTokenInvalid (get_claims js payloadJSON)) (check_claims js ti now)))))))"

section \<open>What a verified token is\<close>

text \<open>
  What \<open>encoding/json\<close> is relied on for: it reads back what it wrote, provided the strings are valid UTF-8
  (other bytes it replaces), the numbers fit 64 bits, and a raw message is itself a string it wrote (it rewrites others).
\<close>

definition fits_int64 :: "int \<Rightarrow> bool" where
  "fits_int64 i = (- (2 ^ 63) \<le> i \<and> i < 2 ^ 63)"

definition claims_writable :: "json \<Rightarrow> wireClaims \<Rightarrow> bool" where
  "claims_writable js c =
     (valid_utf8 (w_iss c) \<and> valid_utf8 (w_sub c) \<and> valid_utf8 (w_jti c) \<and> valid_utf8 (w_sid c) \<and>
      fits_int64 (w_iat c) \<and> fits_int64 (w_nbf c) \<and> fits_int64 (w_exp c) \<and>
      (\<exists>a. valid_utf8 a \<and> w_aud c = put_string js a))"

definition json_ok :: "json \<Rightarrow> bool" where
  "json_ok js \<longleftrightarrow>
     (\<forall>h. valid_utf8 (h_alg h) \<longrightarrow> valid_utf8 (h_typ h) \<longrightarrow> h_crit h = [] \<longrightarrow> get_header js (put_header js h) = Some h) \<and>
     (\<forall>c. claims_writable js c \<longrightarrow> get_claims js (put_claims js c) = Some c) \<and>
     (\<forall>s. valid_utf8 s \<longrightarrow> get_string js (put_string js s) = Some s \<and> put_string js s \<noteq> [])"

lemma valid_utf8_id: "list_all id_char s \<Longrightarrow> valid_utf8 s"
  by (rule valid_utf8_ascii) (auto simp: ascii_def list_all_iff id_char_def between_def byte_def)

lemma time_unix_time: "unix_time (time_unix (truncate_to time_second t)) = truncate_to time_second t"
  by (simp add: unix_time_def time_unix_def truncate_to_def time_second_def minus_mod_eq_mult_div)

lemma b64url_no_dot: "CHR ''.'' \<notin> set (b64url s)"
  by (simp add: b64url_def raw64_encode_chars)

lemma token_segments_append:
  "CHR ''.'' \<notin> set s \<Longrightarrow>
   token_segments (NewSecret (b64url h @ ''.'' @ b64url p @ ''.'' @ s)) = Inr (b64url h, b64url p, s)"
  by (simp add: token_segments_def cut_at_append b64url_no_dot)

lemma token_segmentsD: "token_segments token = Inr (h, p, s) \<Longrightarrow> Expose token = (h @ ''.'' @ p) @ ''.'' @ s"
  by (auto simp: token_segments_def result_simps split: if_splits dest!: cut_at_SomeD)

text \<open>The claims on the wire of a token that was issued, and how its verification goes.\<close>

definition issued_wire :: "json \<Rightarrow> TokenIssuer \<Rightarrow> Claims \<Rightarrow> wireClaims" where
  "issued_wire js ti c = \<lparr>w_iss = ti_issuer ti, w_sub = Subject c, w_aud = put_string js (ti_audience ti), w_jti = ID c,
     w_sid = SessionID c, w_iat = time_unix (IssuedAt c), w_nbf = time_unix (NotBefore c), w_exp = time_unix (ExpiresAt c)\<rparr>"

definition issuer_writable :: "TokenIssuer \<Rightarrow> Claims \<Rightarrow> bool" where
  "issuer_writable ti c =
     (valid_utf8 (ti_issuer ti) \<and> valid_utf8 (ti_audience ti) \<and> valid_utf8 (SessionID c) \<and>
      fits_int64 (time_unix (IssuedAt c)) \<and> fits_int64 (time_unix (ExpiresAt c)))"

lemma issued_checks:
  assumes "json_ok js" "TokenIssuer_Issue hmac js ti entropy now userID sessionID = Inr (token, claims)"
    "validID userID = Inr ()" "issuer_writable ti claims"
  shows "TokenIssuer_Verify hmac js ti later token = check_claims js ti later (issued_wire js ti claims)"
    "Issuer claims = ti_issuer ti" "Subject claims = userID" "Audience claims = ti_audience ti"
    "IssuedAt claims = truncate_to time_second now" "NotBefore claims = IssuedAt claims" "ExpiresAt claims = IssuedAt claims + ti_ttl ti"
proof -
  define issued where "issued = truncate_to time_second now"
  define header where "header = put_header js \<lparr>h_alg = jwtAlg, h_typ = jwtTyp, h_crit = []\<rparr>"
  obtain jti where jti: "NewOpaqueID [] entropy = Inr jti"
    and claims: "claims = \<lparr>Issuer = ti_issuer ti, Subject = userID, Audience = ti_audience ti, ID = jti,
      SessionID = sessionID, IssuedAt = issued, NotBefore = issued, ExpiresAt = issued + ti_ttl ti\<rparr>"
    and token: "token = NewSecret (b64url header @ ''.'' @ b64url (put_claims js (issued_wire js ti claims)) @ ''.'' @
      b64url (sign hmac ti (b64url header @ ''.'' @ b64url (put_claims js (issued_wire js ti claims)))))"
    using assms(2) unfolding TokenIssuer_Issue_def issued_def header_def issued_wire_def
    by (auto simp: result_simps Let_def split: if_splits)
  show "Issuer claims = ti_issuer ti" "Subject claims = userID" "Audience claims = ti_audience ti"
    "IssuedAt claims = truncate_to time_second now" "NotBefore claims = IssuedAt claims" "ExpiresAt claims = IssuedAt claims + ti_ttl ti"
    by (simp_all add: claims issued_def)
  have "list_all id_char jti"
    using jti b64id_chars by (auto simp: NewOpaqueID_def Let_def split: option.splits if_splits)
  moreover have "list_all id_char userID" using assms(3) by (simp add: validID_ok_iff)
  ultimately have "claims_writable js (issued_wire js ti claims)"
    using assms(4) by (auto simp: claims_writable_def issued_wire_def issuer_writable_def claims valid_utf8_id)
  then have pay: "get_claims js (put_claims js (issued_wire js ti claims)) = Some (issued_wire js ti claims)"
    using assms(1) by (simp add: json_ok_def)
  have "valid_utf8 jwtAlg" "valid_utf8 jwtTyp"
    by (rule valid_utf8_ascii, simp add: jwtAlg_def jwtTyp_def ascii_def byte_def)+
  then have hdr: "get_header js header = Some \<lparr>h_alg = jwtAlg, h_typ = jwtTyp, h_crit = []\<rparr>"
    using assms(1) by (simp add: json_ok_def header_def)
  have dec: "raw64_decode url_alphabet (b64url x) = Some x" for x by (simp add: b64url_def raw64_roundtrip)
  have "check_header \<lparr>h_alg = jwtAlg, h_typ = jwtTyp, h_crit = []\<rparr> = Inr ()" by (simp add: check_header_def)
  then show "TokenIssuer_Verify hmac js ti later token = check_claims js ti later (issued_wire js ti claims)"
    unfolding TokenIssuer_Verify_def token token_segments_append [OF b64url_no_dot]
    by (simp add: dec hdr pay)
qed

lemma issued_verifies:
  assumes "json_ok js" "TokenIssuer_Issue hmac js ti entropy now userID sessionID = Inr (token, claims)"
    "validID userID = Inr ()" "issuer_writable ti claims" "ti_ttl ti mod time_second = 0"
    "NotBefore claims - ti_leeway ti \<le> later" "later < ExpiresAt claims + ti_leeway ti"
  shows "TokenIssuer_Verify hmac js ti later token = Inr claims"
proof -
  note c = issued_checks [OF assms(1-4)]
  obtain n where n: "ti_ttl ti = time_second * n" using assms(5) by (auto simp: mod_eq_0_iff_dvd)
  have "ExpiresAt claims = truncate_to time_second (now + ti_ttl ti)" using c by (simp add: truncate_to_def n)
  then have times: "unix_time (time_unix (ExpiresAt claims)) = ExpiresAt claims" "unix_time (time_unix (IssuedAt claims)) = IssuedAt claims"
    using c by (simp_all add: time_unix_time)
  have aud: "get_string js (put_string js (ti_audience ti)) = Some (ti_audience ti)" "put_string js (ti_audience ti) \<noteq> []"
    using assms(1,4) by (simp_all add: issuer_writable_def json_ok_def)
  have "check_claims js ti later (issued_wire js ti claims) = Inr \<lparr>Issuer = Issuer claims, Subject = Subject claims,
      Audience = Audience claims, ID = ID claims, SessionID = SessionID claims, IssuedAt = IssuedAt claims,
      NotBefore = NotBefore claims, ExpiresAt = ExpiresAt claims\<rparr>"
    using assms(3,6,7) c(2-4,6) times
    by (simp add: check_claims_def issued_wire_def decodeAudience_def aud new_id_def time_before_def Let_def)
  then show ?thesis using c(1) by simp
qed

text \<open>Whole seconds are all that is written: a lifetime below one second is over before it began.\<close>

lemma short_ttl_refused:
  assumes "json_ok js" "TokenIssuer_Issue hmac js ti entropy now userID sessionID = Inr (token, claims)"
    "validID userID = Inr ()" "issuer_writable ti claims" "ti_ttl ti < time_second" "ti_leeway ti = 0"
  shows "TokenIssuer_Verify hmac js ti later token = Inl AuthAccessTokenInvalid"
proof -
  note c = issued_checks [OF assms(1-4)]
  have a: "truncate_to time_second now = unix_time (time_unix (IssuedAt claims))" "IssuedAt claims = truncate_to time_second now"
    using c by (simp_all add: time_unix_time)
  have "(truncate_to time_second now + ti_ttl ti) div 10 ^ 9 \<le> truncate_to time_second now div 10 ^ 9"
  proof -
    have "truncate_to time_second now = 10 ^ 9 * (now div 10 ^ 9)"
      by (simp add: truncate_to_def time_second_def minus_mod_eq_mult_div)
    moreover have "ti_ttl ti div 10 ^ 9 \<le> 0" using assms(5) by (simp add: time_second_def)
    ultimately show ?thesis by simp
  qed
  then have "unix_time (time_unix (ExpiresAt claims)) \<le> unix_time (time_unix (IssuedAt claims))"
    using c by (simp add: time_unix_def unix_time_def)
  moreover have "get_string js (put_string js (ti_audience ti)) = Some (ti_audience ti)" "put_string js (ti_audience ti) \<noteq> []"
    using assms(1,4) by (simp_all add: issuer_writable_def json_ok_def)
  ultimately have "check_claims js ti later (issued_wire js ti claims) = Inl AuthAccessTokenInvalid"
    using assms(3,6) c(3,6)
    by (simp add: check_claims_def issued_wire_def decodeAudience_def new_id_def time_before_def Let_def)
  then show ?thesis using c(1) by simp
qed

text \<open>
  Whatever verifies carries a signature of this issuer's key over its own header and payload, is meant
  for this audience, names a user and is inside its validity interval.
\<close>

lemma check_claims_ok:
  assumes "check_claims js ti now wc = Inr claims"
  shows "Issuer claims = ti_issuer ti" "validID (Subject claims) = Inr ()"
    "now < ExpiresAt claims + ti_leeway ti" "NotBefore claims - ti_leeway ti \<le> now"
  using assms unfolding check_claims_def
  by (auto simp: result_simps Let_def time_before_def)

lemma verified:
  assumes "TokenIssuer_Verify hmac js ti now token = Inr claims"
  obtains input sig where "Expose token = input @ ''.'' @ sig"
    "raw64_decode url_alphabet sig = Some (hmac (ti_key ti) input)"
    "Issuer claims = ti_issuer ti" "validID (Subject claims) = Inr ()"
    "now < ExpiresAt claims + ti_leeway ti" "NotBefore claims - ti_leeway ti \<le> now"
proof -
  obtain h p s wc where c: "token_segments token = Inr (h, p, s)"
    "raw64_decode url_alphabet s = Some (sign hmac ti (h @ ''.'' @ p))" "check_claims js ti now wc = Inr claims"
    using assms unfolding TokenIssuer_Verify_def by (auto simp: result_simps)
  show thesis
    using that [of "h @ ''.'' @ p" s] token_segmentsD [OF c(1)] c(2) check_claims_ok [OF c(3)] by (simp add: sign_def)
qed

lemma decodeAudience_error: "decodeAudience js raw = Inl e \<Longrightarrow> e = AuthAccessTokenInvalid"
  by (auto simp: decodeAudience_def result_simps split: if_splits option.splits)

lemma verify_error:
  assumes "TokenIssuer_Verify hmac js ti now token = Inl e"
  shows "e = AuthAccessTokenInvalid"
proof -
  have seg: "token_segments token = Inl e \<Longrightarrow> e = AuthAccessTokenInvalid" for e
    unfolding token_segments_def by (auto simp: result_simps split: if_splits)
  have hdr: "check_header h = Inl e \<Longrightarrow> e = AuthAccessTokenInvalid" for h e
    by (auto simp: check_header_def split: if_splits)
  have cl: "check_claims js ti now wc = Inl e \<Longrightarrow> e = AuthAccessTokenInvalid" for wc e
    unfolding check_claims_def by (auto simp: result_simps Let_def dest: decodeAudience_error split: if_splits)
  show ?thesis
    using assms seg hdr cl unfolding TokenIssuer_Verify_def by (auto simp: result_simps split: if_splits)
qed

end
