(* ===== verification/GoProc.thy ===== *)
theory GoProc
  imports Prelude
begin

text \<open>
  Request handlers that share a database with other handlers. A handler is a process: it has
  returned, or it performs its next atomic action, which reads an input of the environment (the
  clock, entropy, whether a call fails) and the shared world, changes the world and continues. Between
  two actions of one handler any number of actions of others may happen.
\<close>

datatype ('i, 'w, 'a) proc =
    Ret 'a
  | Act "'i \<Rightarrow> 'w \<Rightarrow> ('i, 'w, 'a) proc \<times> 'w"

text \<open>Sequencing, and sequencing with the early return of \<open>if err != nil\<close>.\<close>

primrec thenP :: "('i, 'w, 'a) proc \<Rightarrow> ('a \<Rightarrow> ('i, 'w, 'b) proc) \<Rightarrow> ('i, 'w, 'b) proc" where
  "thenP (Ret x) k = k x"
| "thenP (Act f) k = Act (\<lambda>i w. map_prod (\<lambda>p. thenP p k) (\<lambda>w. w) (f i w))"

definition bindP :: "('i, 'w, 'e + 'a) proc \<Rightarrow> ('a \<Rightarrow> ('i, 'w, 'e + 'b) proc) \<Rightarrow> ('i, 'w, 'e + 'b) proc" where
  "bindP p k = thenP p (\<lambda>r. case r of Inl e \<Rightarrow> Ret (Inl e) | Inr x \<Rightarrow> k x)"

definition act :: "('i \<Rightarrow> 'w \<Rightarrow> 'a \<times> 'w) \<Rightarrow> ('i, 'w, 'a) proc" where
  "act f = Act (\<lambda>i w. map_prod Ret (\<lambda>w. w) (f i w))"

lemma bindP_simps [simp]:
  "bindP (Ret (Inl e)) k = Ret (Inl e)" "bindP (Ret (Inr x)) k = k x"
  by (simp_all add: bindP_def)

lemma thenP_act: "thenP (act f) k = Act (\<lambda>i w. map_prod k (\<lambda>w. w) (f i w))"
  by (simp add: act_def prod.map_comp comp_def)

section \<open>Running one handler\<close>

text \<open>A handler run alone on a list of inputs, one for each action.\<close>

fun run_proc :: "'i list \<Rightarrow> ('i, 'w, 'a) proc \<Rightarrow> 'w \<Rightarrow> ('i, 'w, 'a) proc \<times> 'w" where
  "run_proc [] p w = (p, w)"
| "run_proc (i # is) (Ret x) w = (Ret x, w)"
| "run_proc (i # is) (Act f) w = (case f i w of (p, w') \<Rightarrow> run_proc is p w')"

lemma run_proc_Ret [simp]: "run_proc is (Ret x) w = (Ret x, w)"
  by (cases "is") simp_all

lemma run_proc_append: "run_proc (is @ js) p w = (case run_proc is p w of (p', w') \<Rightarrow> run_proc js p' w')"
  by (induction "is" p w rule: run_proc.induct) (simp_all split: prod.splits)

text \<open>A run of a sequence that returns splits where its first part returns.\<close>

lemma run_thenP_Ret:
  assumes "run_proc is (thenP p k) w = (Ret y, w')"
  obtains x u "is1" "is2" where "is = is1 @ is2" "run_proc is1 p w = (Ret x, u)"
    "run_proc is2 (k x) u = (Ret y, w')"
  using assms
proof (induction "is" arbitrary: p w thesis)
  case Nil
  then show ?case by (cases p) (auto intro: Nil(1) [of "[]" "[]"])
next
  case (Cons i "is")
  show ?case
  proof (cases p)
    case (Ret x)
    then show ?thesis using Cons.prems by (intro Cons.prems(1) [of "[]" "i # is" x w]) simp_all
  next
    case (Act f)
    obtain p' u where f: "f i w = (p', u)" by (cases "f i w")
    then have "run_proc is (thenP p' k) u = (Ret y, w')" using Cons.prems(2) Act by simp
    then obtain x v is1 is2 where "is = is1 @ is2" "run_proc is1 p' u = (Ret x, v)" "run_proc is2 (k x) v = (Ret y, w')"
      using Cons.IH by blast
    then show ?thesis using f Act by (intro Cons.prems(1) [of "i # is1" is2 x v]) simp_all
  qed
qed

lemma run_bindP_Inr:
  assumes "run_proc is (bindP p k) w = (Ret (Inr y), w')"
  obtains x u "is1" "is2" where "is = is1 @ is2" "run_proc is1 p w = (Ret (Inr x), u)"
    "run_proc is2 (k x) u = (Ret (Inr y), w')"
proof -
  from assms obtain r u is1 is2 where s: "is = is1 @ is2" "run_proc is1 p w = (Ret r, u)"
    "run_proc is2 (case r of Inl e \<Rightarrow> Ret (Inl e) | Inr x \<Rightarrow> k x) u = (Ret (Inr y), w')"
    unfolding bindP_def by (rule run_thenP_Ret)
  show thesis using s by (cases r) (auto intro: that)
qed

lemma run_act_Ret:
  assumes "run_proc is (act f) w = (Ret x, w')"
  obtains i "js" where "is = i # js" "f i w = (x, w')"
  using assms by (cases "is") (auto simp: act_def map_prod_def split: prod.splits)

section \<open>What every action of a handler respects\<close>

inductive obeys :: "('i \<Rightarrow> 'w \<Rightarrow> 'w \<Rightarrow> bool) \<Rightarrow> ('i, 'w, 'a) proc \<Rightarrow> bool" for R where
  ret [simp, intro]: "obeys R (Ret x)"
| act_step: "(\<And>i w. R i w (snd (f i w)) \<and> obeys R (fst (f i w))) \<Longrightarrow> obeys R (Act f)"

inductive_cases obeys_ActE: "obeys R (Act f)"

lemma obeys_step: "obeys R (Act f) \<Longrightarrow> f i w = (p, w') \<Longrightarrow> R i w w' \<and> obeys R p"
  by (erule obeys_ActE) (metis fst_conv snd_conv)

lemma obeys_act: "(\<And>i w. R i w (snd (f i w))) \<Longrightarrow> obeys R (act f)"
  unfolding act_def by (rule act_step) simp

lemma obeys_thenP: "obeys R p \<Longrightarrow> (\<And>x. obeys R (k x)) \<Longrightarrow> obeys R (thenP p k)"
  by (induction rule: obeys.induct) (auto intro: act_step)

lemma obeys_bindP: "obeys R p \<Longrightarrow> (\<And>x. obeys R (k x)) \<Longrightarrow> obeys R (bindP p k)"
  unfolding bindP_def by (rule obeys_thenP) (auto split: sum.splits)

lemmas obeys_intros = obeys.ret obeys_bindP obeys_thenP

section \<open>What one handler sees\<close>

text \<open>
  A completed run of one handler among others: the input of each of its actions and the world before
  and after it. What happens between two actions is left open, so the world before an action need not
  be the world after the previous one.
\<close>

inductive runs :: "('i, 'w, 'a) proc \<Rightarrow> ('i \<times> 'w \<times> 'w) list \<Rightarrow> 'a \<Rightarrow> bool" where
  finished: "runs (Ret x) [] x"
| action: "f i w = (p, w') \<Longrightarrow> runs p tr x \<Longrightarrow> runs (Act f) ((i, w, w') # tr) x"

inductive_simps runs_Ret [simp]: "runs (Ret x) tr y"
inductive_cases runs_ActE: "runs (Act f) tr y"

lemma runs_act: "runs (act f) tr y \<longleftrightarrow> (\<exists>i w w'. tr = [(i, w, w')] \<and> f i w = (y, w'))"
proof
  assume "runs (act f) tr y"
  then show "\<exists>i w w'. tr = [(i, w, w')] \<and> f i w = (y, w')"
    unfolding act_def by (rule runs_ActE) (auto simp: map_prod_def split: prod.splits)
next
  assume "\<exists>i w w'. tr = [(i, w, w')] \<and> f i w = (y, w')"
  then show "runs (act f) tr y" unfolding act_def by (auto intro!: runs.intros)
qed

lemma runs_thenP:
  "runs (thenP p k) tr y \<longleftrightarrow> (\<exists>tr1 tr2 x. tr = tr1 @ tr2 \<and> runs p tr1 x \<and> runs (k x) tr2 y)"
proof
  show "runs (thenP p k) tr y \<Longrightarrow> \<exists>tr1 tr2 x. tr = tr1 @ tr2 \<and> runs p tr1 x \<and> runs (k x) tr2 y"
  proof (induction p arbitrary: tr)
    case (Act f)
    then obtain i w q w' tr' where r: "tr = (i, w, w') # tr'" "map_prod (\<lambda>p. thenP p k) (\<lambda>w. w) (f i w) = (q, w')" "runs q tr' y"
      by (auto elim: runs_ActE)
    obtain p' where p': "f i w = (p', w')" "q = thenP p' k" using r(2) by (cases "f i w") auto
    have mem: "p' \<in> Basic_BNFs.fsts (f i w)" using p' by (simp add: prod_set_simps)
    have "runs (thenP p' k) tr' y" using r(3) p'(2) by simp
    then have "\<exists>tr1 tr2 x. tr' = tr1 @ tr2 \<and> runs p' tr1 x \<and> runs (k x) tr2 y"
      by (rule Act.IH [OF rangeI rangeI mem])
    then obtain tr1 tr2 x where "tr' = tr1 @ tr2" "runs p' tr1 x" "runs (k x) tr2 y" by blast
    then have "tr = ((i, w, w') # tr1) @ tr2" "runs (Act f) ((i, w, w') # tr1) x" "runs (k x) tr2 y"
      using r(1) runs.action [where f = f, OF p'(1)] by auto
    then show ?case by blast
  qed auto
  have "runs p tr1 x \<Longrightarrow> runs (k x) tr2 y \<Longrightarrow> runs (thenP p k) (tr1 @ tr2) y" for tr1 tr2 x
    by (induction rule: runs.induct) (auto intro!: runs.intros)
  then show "\<exists>tr1 tr2 x. tr = tr1 @ tr2 \<and> runs p tr1 x \<and> runs (k x) tr2 y \<Longrightarrow> runs (thenP p k) tr y" by blast
qed

lemma runs_bindP:
  "runs (bindP p k) tr r \<longleftrightarrow>
     (\<exists>e. r = Inl e \<and> runs p tr (Inl e)) \<or> (\<exists>tr1 tr2 x. tr = tr1 @ tr2 \<and> runs p tr1 (Inr x) \<and> runs (k x) tr2 r)"
proof
  assume "runs (bindP p k) tr r"
  then obtain tr1 tr2 z where z: "tr = tr1 @ tr2" "runs p tr1 z"
    "runs (case z of Inl e \<Rightarrow> Ret (Inl e) | Inr x \<Rightarrow> k x) tr2 r"
    unfolding bindP_def runs_thenP by blast
  then show "(\<exists>e. r = Inl e \<and> runs p tr (Inl e)) \<or>
      (\<exists>tr1 tr2 x. tr = tr1 @ tr2 \<and> runs p tr1 (Inr x) \<and> runs (k x) tr2 r)"
    by (cases z) auto
next
  assume "(\<exists>e. r = Inl e \<and> runs p tr (Inl e)) \<or>
      (\<exists>tr1 tr2 x. tr = tr1 @ tr2 \<and> runs p tr1 (Inr x) \<and> runs (k x) tr2 r)"
  then show "runs (bindP p k) tr r"
  proof
    assume "\<exists>e. r = Inl e \<and> runs p tr (Inl e)"
    then obtain e where e: "r = Inl e" "runs p tr (Inl e)" by blast
    then show ?thesis unfolding bindP_def runs_thenP by (intro exI [of _ tr] exI [of _ "[]"] exI [of _ "Inl e"]) simp
  next
    assume "\<exists>tr1 tr2 x. tr = tr1 @ tr2 \<and> runs p tr1 (Inr x) \<and> runs (k x) tr2 r"
    then obtain tr1 tr2 x where "tr = tr1 @ tr2" "runs p tr1 (Inr x)" "runs (k x) tr2 r" by blast
    then show ?thesis unfolding bindP_def runs_thenP by (intro exI [of _ tr1] exI [of _ tr2] exI [of _ "Inr x"]) simp
  qed
qed

text \<open>A handler run alone is such a run.\<close>

lemma run_proc_runs:
  "run_proc is p w = (Ret x, w') \<Longrightarrow> \<exists>tr. runs p tr x"
proof (induction "is" p w rule: run_proc.induct)
  case (3 i "is" f w)
  then show ?case by (auto intro: runs.action split: prod.splits)
qed (auto intro: runs.finished)

section \<open>Handlers side by side\<close>

text \<open>
  Threads over one world. A step takes any thread that has not returned and performs its next action
  on an admissible input; new threads start at any time.
\<close>

inductive threads_reach ::
  "('i \<Rightarrow> 'w \<Rightarrow> bool) \<Rightarrow> ('i, 'w, 'a) proc set \<Rightarrow> (nat \<rightharpoonup> ('i, 'w, 'a) proc) \<Rightarrow> 'w
     \<Rightarrow> (nat \<rightharpoonup> ('i, 'w, 'a) proc) \<Rightarrow> 'w \<Rightarrow> bool"
  for ok starts ts0 w0 where
  idle: "threads_reach ok starts ts0 w0 ts0 w0"
| spawn: "threads_reach ok starts ts0 w0 ts w \<Longrightarrow> p \<in> starts \<Longrightarrow> ts t = None \<Longrightarrow>
    threads_reach ok starts ts0 w0 (ts(t \<mapsto> p)) w"
| step: "threads_reach ok starts ts0 w0 ts w \<Longrightarrow> ts t = Some (Act f) \<Longrightarrow> ok i w \<Longrightarrow> f i w = (p, w') \<Longrightarrow>
    threads_reach ok starts ts0 w0 (ts(t \<mapsto> p)) w'"

abbreviation "all_obey R ts \<equiv> \<forall>t p. ts t = Some p \<longrightarrow> obeys R p"

lemma threads_obey:
  assumes "threads_reach ok starts ts0 w0 ts w" "\<And>p. p \<in> starts \<Longrightarrow> obeys R p" "all_obey R ts0"
  shows "all_obey R ts"
  using assms(1)
proof (induction rule: threads_reach.induct)
  case (step ts w t f i p w')
  then show ?case using obeys_step by (metis fun_upd_apply option.inject)
qed (use assms(2,3) in auto)

text \<open>An invariant that every action preserves holds in every world that threads reach.\<close>

lemma threads_invariant:
  assumes reach: "threads_reach ok starts ts0 w0 ts w" and starts: "\<And>p. p \<in> starts \<Longrightarrow> obeys R p"
    and ts0: "all_obey R ts0" and init: "I w0" and keep: "\<And>i w w'. R i w w' \<Longrightarrow> ok i w \<Longrightarrow> I w \<Longrightarrow> I w'"
  shows "I w"
  using reach
proof (induction rule: threads_reach.induct)
  case (step ts w t f i p w')
  have "obeys R (Act f)" using threads_obey [OF step(1) starts ts0] step(2) by blast
  then have "R i w w'" using step(4) obeys_step by metis
  then show ?case using keep step by blast
qed (use init in auto)

text \<open>A schedule: which thread acts next, on which input.\<close>

fun run_threads :: "(nat \<times> 'i) list \<Rightarrow> (nat \<rightharpoonup> ('i, 'w, 'a) proc) \<Rightarrow> 'w \<Rightarrow> (nat \<rightharpoonup> ('i, 'w, 'a) proc) \<times> 'w" where
  "run_threads [] ts w = (ts, w)"
| "run_threads ((t, i) # sched) ts w =
     (case ts t of
        Some (Act f) \<Rightarrow> (case f i w of (p, w') \<Rightarrow> run_threads sched (ts(t \<mapsto> p)) w')
      | _ \<Rightarrow> run_threads sched ts w)"

lemma run_threads_reach:
  assumes "\<And>t i w. (t, i) \<in> set sched \<Longrightarrow> ok i w" "threads_reach ok starts ts0 w0 ts w"
    "run_threads sched ts w = (ts', w')"
  shows "threads_reach ok starts ts0 w0 ts' w'"
  using assms
proof (induction sched arbitrary: ts w)
  case (Cons c sched)
  obtain t i where c: "c = (t, i)" by (cases c)
  show ?case
  proof (cases "\<exists>f. ts t = Some (Act f)")
    case True
    then obtain f where f: "ts t = Some (Act f)" by blast
    obtain p v where p: "f i w = (p, v)" by (cases "f i w")
    have "threads_reach ok starts ts0 w0 (ts(t \<mapsto> p)) v"
      by (rule threads_reach.step [OF Cons.prems(2) f _ p]) (rule Cons.prems(1) [of t], simp add: c)
    moreover have "run_threads sched (ts(t \<mapsto> p)) v = (ts', w')" using Cons.prems(3) c f p by simp
    moreover have "\<And>t i w. (t, i) \<in> set sched \<Longrightarrow> ok i w" using Cons.prems(1) by (meson list.set_intros(2))
    ultimately show ?thesis using Cons.IH by blast
  next
    case False
    have "run_threads sched ts w = (ts', w')"
    proof (cases "ts t")
      case None
      then show ?thesis using Cons.prems(3) c by simp
    next
      case (Some q)
      then show ?thesis using Cons.prems(3) c False by (cases q) simp_all
    qed
    moreover have "\<And>t i w. (t, i) \<in> set sched \<Longrightarrow> ok i w" using Cons.prems(1) by (meson list.set_intros(2))
    ultimately show ?thesis using Cons.IH Cons.prems(2) by blast
  qed
qed simp

end
