(* ===== verification/AuthService.thy ===== *)
theory AuthService
  imports AuthStore Password Jwt GoProc
begin

text \<open>
  \<open>internal/auth/service.go\<close> and \<open>internal/auth/enrolment.go\<close>: the handlers, each a process over the
  database, the replay guard and the recovery codes. Every call on the store, every reading of the
  clock or of entropy and every password computation is one action; other handlers run between any
  two. Logging and metrics are left out.
\<close>

section \<open>The world and its inputs\<close>

text \<open>One action reads whether its call fails, the clock and fresh entropy.\<close>

record Input =
  in_fault :: call_fault
  in_now :: time
  in_rand :: "nat \<Rightarrow> char"
  in_rand_ok :: bool

text \<open>\<open>w_work\<close> records the parameters of every argon2id computation performed.\<close>

record ('g, 'r) World =
  w_db :: DB
  w_guard :: 'g
  w_codes :: 'r
  w_work :: "Params list"

type_synonym ('g, 'r, 'a) handler = "(Input, ('g, 'r) World, 'a ares) proc"

record 'r recovery_store =
  rs_replace :: "call_fault \<Rightarrow> string \<Rightarrow> string list \<Rightarrow> time \<Rightarrow> 'r \<Rightarrow> unit ares \<times> 'r"
  rs_consume :: "call_fault \<Rightarrow> string \<Rightarrow> string \<Rightarrow> time \<Rightarrow> 'r \<Rightarrow> bool ares \<times> 'r"
  rs_unused :: "call_fault \<Rightarrow> string \<Rightarrow> 'r \<Rightarrow> string list ares"

text \<open>The primitives outside the repository: cryptography, Unicode tables, JSON, the CHECKs on an address.\<close>

record primitives =
  c_lower :: "nat \<Rightarrow> nat"
  c_upper :: "nat \<Rightarrow> nat"
  c_sha256 :: "string \<Rightarrow> string"
  c_hmac1 :: "string \<Rightarrow> string \<Rightarrow> string"
  c_hmac256 :: "string \<Rightarrow> string \<Rightarrow> string"
  c_argon :: kdf
  c_seal :: gcm
  c_open :: gcm_inverse
  c_json :: json
  c_email :: "string \<Rightarrow> bool"

record ('g, 'r) Service =
  prim :: primitives
  hasher :: Hasher
  issuer :: TokenIssuer
  keyring :: "Keyring option"
  replay :: "call_fault \<Rightarrow> time \<Rightarrow> 'g \<Rightarrow> string \<Rightarrow> int \<Rightarrow> time \<Rightarrow> bool ares \<times> 'g"
  recovery :: "'r recovery_store option"
  totpCfg :: TOTPConfig
  totpIssuer :: string
  refreshTTL :: duration
  sessionLifetime :: duration

definition DefaultRefreshTTL :: duration where "DefaultRefreshTTL = 7 * (24 * (3600 * time_second))"
definition DefaultSessionLifetime :: duration where "DefaultSessionLifetime = 30 * (24 * (3600 * time_second))"

definition NewService :: "('g, 'r) Service \<Rightarrow> ('g, 'r) Service ares" where
  "NewService opts =
     bindE (TOTPConfig_normalise (totpCfg opts)) (\<lambda>cfg.
       let ttl = (if refreshTTL opts = 0 then DefaultRefreshTTL else refreshTTL opts) in
       if ttl \<le> 0 then Inl (Root Invalid)
       else let lifetime = (if sessionLifetime opts = 0 then DefaultSessionLifetime else sessionLifetime opts) in
         if lifetime < 0 then Inl (Root Invalid)
         else if 0 < lifetime \<and> lifetime < ttl then Inl (Root Invalid)
         else Inr (opts\<lparr>totpCfg := cfg, totpIssuer := (if totpIssuer opts = [] then DefaultIssuer else totpIssuer opts),
           refreshTTL := ttl, sessionLifetime := lifetime\<rparr>))"

section \<open>Actions\<close>

definition db_act :: "(Input \<Rightarrow> DB \<Rightarrow> 'a \<times> DB) \<Rightarrow> (Input, ('g, 'r) World, 'a) proc" where
  "db_act f = act (\<lambda>i w. case f i (w_db w) of (r, db) \<Rightarrow> (r, w\<lparr>w_db := db\<rparr>))"

definition db_read :: "(Input \<Rightarrow> DB \<Rightarrow> 'a) \<Rightarrow> (Input, ('g, 'r) World, 'a) proc" where
  "db_read f = act (\<lambda>i w. (f i (w_db w), w))"

definition clock :: "(Input, ('g, 'r) World, 'e + time) proc" where
  "clock = act (\<lambda>i w. (Inr (in_now i), w))"

definition entropy_of :: "nat \<Rightarrow> Input \<Rightarrow> string option" where
  "entropy_of n i = (if in_rand_ok i then Some (map (in_rand i) [0..<n]) else None)"

definition minting :: "nat \<Rightarrow> (string option \<Rightarrow> 'a ares) \<Rightarrow> ('g, 'r, 'a) handler" where
  "minting n mint = act (\<lambda>i w. (mint (entropy_of n i), w))"

text \<open>\<open>Service.instant\<close>: the clock, truncated to what a column holds.\<close>

definition Service_instant :: "(Input, ('g, 'r) World, 'e + time) proc" where
  "Service_instant = act (\<lambda>i w. (Inr (truncate_to 1000 (time_utc (in_now i))), w))"

definition kdf_params :: "string \<Rightarrow> Params list" where
  "kdf_params encoded = (case DecodeHash encoded of Inl _ \<Rightarrow> [] | Inr (p, _, _) \<Rightarrow> [p])"

definition worked :: "Params list \<Rightarrow> 'a ares \<Rightarrow> ('g, 'r) World \<Rightarrow> ('g, 'r) World" where
  "worked ps r w = (if is_ok r then w\<lparr>w_work := w_work w @ ps\<rparr> else w)"

definition Service_hashPassword :: "('g, 'r) Service \<Rightarrow> Secret \<Rightarrow> ('g, 'r, string) handler" where
  "Service_hashPassword s password = act (\<lambda>i w.
     let r = Hasher_Hash (c_argon (prim s)) (hasher s) (in_fault i \<noteq> NoFault)
         (entropy_of (unat (SaltLen (policy (hasher s)))) i) password
     in (r, worked [policy (hasher s)] r w))"

definition Service_verifyPassword :: "('g, 'r) Service \<Rightarrow> string \<Rightarrow> Secret \<Rightarrow> ('g, 'r, bool) handler" where
  "Service_verifyPassword s encoded password = act (\<lambda>i w.
     let r = Hasher_Verify (c_argon (prim s)) (in_fault i \<noteq> NoFault) encoded password
     in (r, worked (kdf_params encoded) r w))"

definition verify_decoy :: "('g, 'r) Service \<Rightarrow> Secret \<Rightarrow> ('g, 'r, unit) handler" where
  "verify_decoy s password = act (\<lambda>i w.
     let r = VerifyDecoy (c_argon (prim s)) (hasher s) (in_fault i \<noteq> NoFault) password
     in (r, worked (kdf_params (decoy (hasher s))) r w))"

text \<open>The store, as the service calls it.\<close>

definition user_by_email :: "('g, 'r) Service \<Rightarrow> Email \<Rightarrow> ('g, 'r, UserRecord option) handler" where
  "user_by_email s email = db_read (\<lambda>i. Store_UserByEmail (c_lower (prim s)) (in_fault i) email)"

definition user_by_id :: "('g, 'r) Service \<Rightarrow> string \<Rightarrow> ('g, 'r, UserRecord option) handler" where
  "user_by_id s uid = db_read (\<lambda>i. Store_UserByID (c_lower (prim s)) (in_fault i) uid)"

definition load_totp :: "string \<Rightarrow> ('g, 'r, TOTPRecord option) handler" where
  "load_totp uid = db_read (\<lambda>i. Store_LoadTOTP (in_fault i) uid)"

definition Store_Rotate :: "RotateRequest \<Rightarrow> ('g, 'r, SessionRecord \<times> RotateOutcome) handler" where
  "Store_Rotate req =
     bindP (db_act (\<lambda>i. rotateAttempt (in_fault i) req)) (\<lambda>(rec, outcome, revokeWith).
     if revokeWith = RevokedReasonUnknown then Ret (Inr (rec, outcome))
     else bindP (db_act (\<lambda>i. Store_RevokeFamily (in_fault i) (sr_family rec) (rq_now req) revokeWith)) (\<lambda>_.
       Ret (Inr (rec, outcome))))"

section \<open>Status\<close>

fun statusError :: "UserStatus \<Rightarrow> auth_err" where
  "statusError UserStatusSelfExcluded = AuthSelfExcluded"
| "statusError UserStatusSuspended = AuthAccountSuspended"
| "statusError UserStatusClosed = AuthAccountClosed"
| "statusError UserStatusActive = Root Forbidden"
| "statusError UserStatusUnknown = Root Forbidden"

definition Service_AuthorizeWagering :: "string \<Rightarrow> ('g, 'r, unit) handler" where
  "Service_AuthorizeWagering uid =
     bindP (db_read (\<lambda>i. Store_UserStatus (in_fault i) uid)) (\<lambda>found.
     case found of
       None \<Rightarrow> Ret (Inl (Root Forbidden))
     | Some status \<Rightarrow> if UserStatus_CanWager status then Ret (Inr ()) else Ret (Inl (statusError status)))"

section \<open>Registration\<close>

definition Service_Register :: "('g, 'r) Service \<Rightarrow> string \<Rightarrow> Secret \<Rightarrow> ('g, 'r, UserRecord) handler" where
  "Service_Register s rawEmail password =
     bindP (Ret (NewEmail (c_lower (prim s)) rawEmail)) (\<lambda>email.
     bindP (Ret (ValidatePassword password)) (\<lambda>_.
     bindP (Service_hashPassword s password) (\<lambda>hash.
     bindP (minting IDEntropyBytes NewUserID) (\<lambda>uid.
     bindP Service_instant (\<lambda>now.
     let rec = \<lparr>ur_id = uid, ur_email = email, ur_status = UserStatusActive, ur_created = now, ur_hash = hash, ur_changed = now\<rparr> in
     bindP (db_act (\<lambda>i. Store_CreateUser (c_email (prim s)) (in_fault i) (in_now i)
       \<lparr>nu_id = ur_id rec, nu_email = ur_email rec, nu_hash = ur_hash rec, nu_changed = ur_changed rec, nu_status = ur_status rec\<rparr>))
       (\<lambda>_. Ret (Inr rec)))))))"

section \<open>The second factor\<close>

definition Service_consumeTOTPCode :: "('g, 'r) Service \<Rightarrow> string \<Rightarrow> TOTPRecord \<Rightarrow> string \<Rightarrow> ('g, 'r, unit) handler" where
  "Service_consumeTOTPCode s uid rec code =
     (case keyring s of
        None \<Rightarrow> Ret (Inl (Root Internal))
      | Some kr \<Rightarrow>
          bindP (Ret (Keyring_Open (c_open (prim s)) kr uid (tr_sealed rec))) (\<lambda>secret.
          bindP clock (\<lambda>now.
          bindP (Ret (ValidateTOTPCode (c_hmac1 (prim s)) secret code now (totpCfg s))) (\<lambda>(step, valid).
          if \<not> valid then Ret (Inl AuthSecondFactorInvalid)
          else let expiry = replay_expiry (totpCfg s) now in
            bindP (act (\<lambda>i w. case replay s (in_fault i) (in_now i) (w_guard w) uid step expiry of
                (r, g) \<Rightarrow> (r, w\<lparr>w_guard := g\<rparr>))) (\<lambda>first.
            if \<not> first then Ret (Inl AuthSecondFactorInvalid) else Ret (Inr ()))))))"

definition codes_act :: "(Input \<Rightarrow> 'r \<Rightarrow> 'a \<times> 'r) \<Rightarrow> (Input, ('g, 'r) World, 'a) proc" where
  "codes_act f = act (\<lambda>i w. case f i (w_codes w) of (r, cs) \<Rightarrow> (r, w\<lparr>w_codes := cs\<rparr>))"

definition unused_codes :: "'r recovery_store \<Rightarrow> string \<Rightarrow> ('g, 'r, string list) handler" where
  "unused_codes rs uid = act (\<lambda>i w. (rs_unused rs (in_fault i) uid (w_codes w), w))"

definition Service_consumeRecoveryCode :: "('g, 'r) Service \<Rightarrow> string \<Rightarrow> Secret \<Rightarrow> ('g, 'r, unit) handler" where
  "Service_consumeRecoveryCode s uid code =
     (case recovery s of
        None \<Rightarrow> Ret (Inl AuthSecondFactorInvalid)
      | Some rs \<Rightarrow>
          bindP (unused_codes rs uid) (\<lambda>digests.
          let idx = MatchRecoveryCode (c_sha256 (prim s)) (c_upper (prim s)) digests code in
          if idx < 0 then Ret (Inl AuthSecondFactorInvalid)
          else bindP Service_instant (\<lambda>now.
            bindP (codes_act (\<lambda>i. rs_consume rs (in_fault i) uid (digests ! nat idx) now)) (\<lambda>used.
            if \<not> used then Ret (Inl AuthSecondFactorInvalid) else Ret (Inr ())))))"

record LoginRequest =
  lr_email :: string
  lr_password :: Secret
  lr_totp :: string
  lr_recovery :: Secret

definition Service_checkSecondFactor :: "('g, 'r) Service \<Rightarrow> string \<Rightarrow> LoginRequest \<Rightarrow> ('g, 'r, unit) handler" where
  "Service_checkSecondFactor s uid req =
     bindP (load_totp uid) (\<lambda>found.
     case found of
       None \<Rightarrow> Ret (Inr ())
     | Some rec \<Rightarrow>
         if \<not> Confirmed rec then Ret (Inr ())
         else if \<not> Secret_IsZero (lr_recovery req) then Service_consumeRecoveryCode s uid (lr_recovery req)
         else if lr_totp req = [] then Ret (Inl AuthSecondFactorRequired)
         else Service_consumeTOTPCode s uid rec (lr_totp req))"

section \<open>Sessions\<close>

record Session =
  se_user :: UserRecord
  se_access :: Secret
  se_claims :: Claims
  se_refresh :: Secret
  se_expires :: time
  se_id :: string

definition Service_cappedExpiry :: "('g, 'r) Service \<Rightarrow> time \<Rightarrow> time \<Rightarrow> time" where
  "Service_cappedExpiry s issued familyStarted =
     (let expires = issued + refreshTTL s in
      if sessionLifetime s \<le> 0 then expires
      else let limit = familyStarted + sessionLifetime s in
        if time_before limit expires then limit else expires)"

definition issue_token :: "('g, 'r) Service \<Rightarrow> string \<Rightarrow> string \<Rightarrow> ('g, 'r, Secret \<times> Claims) handler" where
  "issue_token s uid sid = act (\<lambda>i w.
     (TokenIssuer_Issue (c_hmac256 (prim s)) (c_json (prim s)) (issuer s) (entropy_of IDEntropyBytes i) (in_now i) uid sid, w))"

definition Service_openSession :: "('g, 'r) Service \<Rightarrow> UserRecord \<Rightarrow> ('g, 'r, Session) handler" where
  "Service_openSession s user =
     bindP (minting IDEntropyBytes NewFamilyID) (\<lambda>familyID.
     bindP (minting IDEntropyBytes NewTokenID) (\<lambda>tokenID.
     bindP (minting TokenEntropyBytes NewRefreshTokenSecret) (\<lambda>refresh.
     bindP Service_instant (\<lambda>now.
     let expires = Service_cappedExpiry s now now in
     bindP (db_act (\<lambda>i. Store_CreateSession (in_fault i) \<lparr>ns_family = familyID, ns_user = ur_id user, ns_started = now,
         ns_token = tokenID, ns_hash = HashToken (c_sha256 (prim s)) refresh, ns_issued = now, ns_expires = expires\<rparr>)) (\<lambda>_.
     bindP (issue_token s (ur_id user) familyID) (\<lambda>(access, claims).
     Ret (Inr \<lparr>se_user = user, se_access = access, se_claims = claims, se_refresh = refresh,
       se_expires = expires, se_id = familyID\<rparr>)))))))"

text \<open>Every failure of a rehash is swallowed.\<close>

definition Service_maybeRehash :: "('g, 'r) Service \<Rightarrow> UserRecord \<Rightarrow> Secret \<Rightarrow> (Input, ('g, 'r) World, unit) proc" where
  "Service_maybeRehash s user password =
     (case NeedsRehash (hasher s) (ur_hash user) of
        Inl _ \<Rightarrow> Ret ()
      | Inr needs \<Rightarrow>
          if \<not> needs then Ret ()
          else thenP (Service_hashPassword s password) (\<lambda>r. case r of
              Inl _ \<Rightarrow> Ret ()
            | Inr hash \<Rightarrow>
                thenP (db_act (\<lambda>i. Store_RehashPassword (c_email (prim s)) (in_fault i) (ur_id user) hash)) (\<lambda>_. Ret ())))"

definition bad_credentials :: "('g, 'r) Service \<Rightarrow> Secret \<Rightarrow> ('g, 'r, Session) handler" where
  "bad_credentials s password = bindP (verify_decoy s password) (\<lambda>_. Ret (Inl AuthCredentials))"

text \<open>What a login does once the account is loaded.\<close>

definition login_user :: "('g, 'r) Service \<Rightarrow> LoginRequest \<Rightarrow> UserRecord \<Rightarrow> ('g, 'r, Session) handler" where
  "login_user s req user =
     bindP (Service_verifyPassword s (ur_hash user) (lr_password req)) (\<lambda>matches.
     if \<not> matches then Ret (Inl AuthCredentials)
     else if \<not> UserStatus_CanAuthenticate (ur_status user) then Ret (Inl (statusError (ur_status user)))
     else bindP (Service_checkSecondFactor s (ur_id user) req) (\<lambda>_.
       thenP (Service_maybeRehash s user (lr_password req)) (\<lambda>_. Service_openSession s user)))"

definition Service_login :: "('g, 'r) Service \<Rightarrow> LoginRequest \<Rightarrow> ('g, 'r, Session) handler" where
  "Service_login s req =
     (if MaxPasswordLen < Secret_Len (lr_password req) then Ret (Inl AuthCredentials)
      else case NewEmail (c_lower (prim s)) (lr_email req) of
        Inl _ \<Rightarrow> bad_credentials s (lr_password req)
      | Inr email \<Rightarrow>
          bindP (user_by_email s email) (\<lambda>found.
          case found of
            None \<Rightarrow> bad_credentials s (lr_password req)
          | Some user \<Rightarrow> login_user s req user))"

definition refresh_request :: "('g, 'r) Service \<Rightarrow> Secret \<Rightarrow> string \<Rightarrow> Secret \<Rightarrow> time \<Rightarrow> RotateRequest" where
  "refresh_request s presented successorID successor now =
     \<lparr>rq_presented = HashToken (c_sha256 (prim s)) presented, rq_now = now, rq_successor = successorID,
      rq_hash = HashToken (c_sha256 (prim s)) successor, rq_expires = now + refreshTTL s, rq_lifetime = sessionLifetime s\<rparr>"

fun refusal :: "RotateOutcome \<Rightarrow> auth_err option" where
  "refusal RotateOK = None"
| "refusal RotateNotFound = Some AuthTokenUnknown"
| "refusal RotateExpired = Some AuthTokenExpired"
| "refusal RotateRevoked = Some AuthSessionRevoked"
| "refusal RotateCredentialChange = Some AuthSessionRevoked"
| "refusal RotateReuse = Some AuthTokenReuse"
| "refusal RotateUnknown = Some (Root Internal)"

definition refreshed :: "('g, 'r) Service \<Rightarrow> Secret \<Rightarrow> time \<Rightarrow> SessionRecord \<Rightarrow> ('g, 'r, Session) handler" where
  "refreshed s successor now rec =
     (if \<not> UserStatus_CanAuthenticate (sr_status rec) then
        thenP (db_act (\<lambda>i. Store_RevokeFamily (in_fault i) (sr_family rec) now RevokedReasonOperator)) (\<lambda>_.
          Ret (Inl (statusError (sr_status rec))))
      else bindP (user_by_id s (sr_user rec)) (\<lambda>found.
        case found of
          None \<Rightarrow> Ret (Inl AuthSessionRevoked)
        | Some user \<Rightarrow>
            bindP (issue_token s (ur_id user) (sr_family rec)) (\<lambda>(access, claims).
            Ret (Inr \<lparr>se_user = user, se_access = access, se_claims = claims, se_refresh = successor,
              se_expires = sr_expires rec, se_id = sr_family rec\<rparr>))))"

definition Service_Refresh :: "('g, 'r) Service \<Rightarrow> Secret \<Rightarrow> ('g, 'r, Session) handler" where
  "Service_Refresh s presented =
     (if Secret_IsZero presented then Ret (Inl AuthTokenUnknown)
      else bindP (minting IDEntropyBytes NewTokenID) (\<lambda>successorID.
        bindP (minting TokenEntropyBytes NewRefreshTokenSecret) (\<lambda>successor.
        bindP Service_instant (\<lambda>now.
        bindP (Store_Rotate (refresh_request s presented successorID successor now)) (\<lambda>(rec, outcome).
        case refusal outcome of
          Some e \<Rightarrow> Ret (Inl e)
        | None \<Rightarrow> refreshed s successor now rec)))))"

definition Service_Logout :: "('g, 'r) Service \<Rightarrow> Secret \<Rightarrow> ('g, 'r, unit) handler" where
  "Service_Logout s presented =
     (if Secret_IsZero presented then Ret (Inr ())
      else bindP Service_instant (\<lambda>now.
        bindP (db_act (\<lambda>i. Store_RevokeByToken (in_fault i) (HashToken (c_sha256 (prim s)) presented) now RevokedReasonLogout))
          (\<lambda>_. Ret (Inr ()))))"

definition Service_LogoutEverywhere :: "string \<Rightarrow> RevokedReason \<Rightarrow> ('g, 'r, nat) handler" where
  "Service_LogoutEverywhere uid reason =
     (if \<not> RevokedReason_Valid reason then Ret (Inl (Root Invalid))
      else bindP Service_instant (\<lambda>now.
        db_act (\<lambda>i. Store_RevokeUserSessions (in_fault i) uid now reason)))"

section \<open>Passwords\<close>

text \<open>The end of a change: the new hash is stored, then every session that is still open is revoked.\<close>

definition store_password :: "('g, 'r) Service \<Rightarrow> string \<Rightarrow> string \<Rightarrow> ('g, 'r, unit) handler" where
  "store_password s uid hash =
     bindP Service_instant (\<lambda>now.
     bindP (db_act (\<lambda>i. Store_SetPassword (c_email (prim s)) (in_fault i) uid hash now)) (\<lambda>_.
     thenP (db_act (\<lambda>i. Store_RevokeUserSessions (in_fault i) uid now RevokedReasonCredentialChange))
       (\<lambda>_. Ret (Inr ()))))"

definition new_password :: "('g, 'r) Service \<Rightarrow> string \<Rightarrow> UserRecord \<Rightarrow> Secret \<Rightarrow> ('g, 'r, unit) handler" where
  "new_password s uid user new =
     bindP (Ret (ValidatePassword new)) (\<lambda>_.
     bindP (Service_verifyPassword s (ur_hash user) new) (\<lambda>same.
     if same then Ret (Inl AuthPasswordUnchanged)
     else bindP (Service_hashPassword s new) (store_password s uid)))"

definition Service_ChangePassword :: "('g, 'r) Service \<Rightarrow> string \<Rightarrow> Secret \<Rightarrow> Secret \<Rightarrow> ('g, 'r, unit) handler" where
  "Service_ChangePassword s uid current new =
     bindP (user_by_id s uid) (\<lambda>found.
     case found of
       None \<Rightarrow> Ret (Inl AuthCredentials)
     | Some user \<Rightarrow>
         if MaxPasswordLen < Secret_Len current then Ret (Inl AuthCredentials)
         else bindP (Service_verifyPassword s (ur_hash user) current) (\<lambda>matches.
           if \<not> matches then Ret (Inl AuthCredentials) else new_password s uid user new))"

definition Service_requirePassword :: "('g, 'r) Service \<Rightarrow> string \<Rightarrow> Secret \<Rightarrow> ('g, 'r, unit) handler" where
  "Service_requirePassword s uid password =
     (if MaxPasswordLen < Secret_Len password then Ret (Inl AuthCredentials)
      else bindP (user_by_id s uid) (\<lambda>found.
        case found of
          None \<Rightarrow> Ret (Inl AuthCredentials)
        | Some user \<Rightarrow>
            bindP (Service_verifyPassword s (ur_hash user) password) (\<lambda>matches.
            if \<not> matches then Ret (Inl AuthCredentials) else Ret (Inr ()))))"

definition Service_VerifyAccessToken :: "('g, 'r) Service \<Rightarrow> time \<Rightarrow> Secret \<Rightarrow> Claims ares" where
  "Service_VerifyAccessToken s now token = TokenIssuer_Verify (c_hmac256 (prim s)) (c_json (prim s)) (issuer s) now token"

section \<open>Enrolment\<close>

record TOTPEnrolment =
  te_uri :: Secret
  te_secret :: Secret

record TOTPStatus =
  ts_enrolled :: bool
  ts_pending :: bool
  ts_recovery :: int

definition Service_BeginTOTPEnrolment :: "('g, 'r) Service \<Rightarrow> string \<Rightarrow> ('g, 'r, TOTPEnrolment) handler" where
  "Service_BeginTOTPEnrolment s uid =
     (case keyring s of
        None \<Rightarrow> Ret (Inl (Root Internal))
      | Some kr \<Rightarrow>
          bindP (user_by_id s uid) (\<lambda>found.
          case found of
            None \<Rightarrow> Ret (Inl (Root Forbidden))
          | Some user \<Rightarrow>
              bindP (load_totp uid) (\<lambda>existing.
              if (case existing of None \<Rightarrow> False | Some e \<Rightarrow> Confirmed e) then Ret (Inl AuthTOTPAlreadyEnrolled)
              else bindP (minting TOTPSecretBytes NewTOTPSecret) (\<lambda>secret.
                bindP (minting gcm_nonce_size (\<lambda>nonce. Keyring_Seal (c_seal (prim s)) kr nonce uid secret)) (\<lambda>sealed.
                bindP (db_act (\<lambda>i. Store_SaveTOTP (in_fault i) \<lparr>tr_user = uid, tr_sealed = sealed, tr_confirmed = 0\<rparr>)) (\<lambda>_.
                bindP (Ret (ProvisioningURI (totpIssuer s) (Email_String (ur_email user)) secret (totpCfg s))) (\<lambda>uri.
                Ret (Inr \<lparr>te_uri = uri, te_secret = NewSecret (b32_encode secret)\<rparr>))))))))"

text \<open>The entropy of each code is a reading of its own; they are taken together here, before the store is called.\<close>

definition code_entropy :: "Input \<Rightarrow> nat \<Rightarrow> string option" where
  "code_entropy i k =
     (if in_rand_ok i then Some (map (\<lambda>j. in_rand i (k * RecoveryCodeBytes + j)) [0..<RecoveryCodeBytes]) else None)"

definition Service_mintRecoveryCodes :: "('g, 'r) Service \<Rightarrow> string \<Rightarrow> time \<Rightarrow> ('g, 'r, Secret list) handler" where
  "Service_mintRecoveryCodes s uid inst =
     (case recovery s of
        None \<Rightarrow> Ret (Inr [])
      | Some rs \<Rightarrow>
          bindP (act (\<lambda>i w. (NewRecoveryCodes (c_sha256 (prim s)) (c_upper (prim s)) (int RecoveryCodeCount) (code_entropy i), w)))
            (\<lambda>(codes, digests).
          bindP (codes_act (\<lambda>i. rs_replace rs (in_fault i) uid digests inst)) (\<lambda>_. Ret (Inr codes))))"

definition Service_ConfirmTOTPEnrolment :: "('g, 'r) Service \<Rightarrow> string \<Rightarrow> string \<Rightarrow> ('g, 'r, Secret list) handler" where
  "Service_ConfirmTOTPEnrolment s uid code =
     (if keyring s = None then Ret (Inl (Root Internal))
      else bindP (load_totp uid) (\<lambda>found.
        case found of
          None \<Rightarrow> Ret (Inl AuthTOTPNotEnrolled)
        | Some rec \<Rightarrow>
            if Confirmed rec then Ret (Inl AuthTOTPAlreadyEnrolled)
            else bindP (Service_consumeTOTPCode s uid rec code) (\<lambda>_.
              bindP Service_instant (\<lambda>now.
              bindP (db_act (\<lambda>i. Store_ConfirmTOTP (in_fault i) uid now)) (\<lambda>_.
              thenP (Service_mintRecoveryCodes s uid now) (\<lambda>r. case r of
                  Inl _ \<Rightarrow> Ret (Inr [])
                | Inr codes \<Rightarrow> Ret (Inr codes)))))))"

definition Service_RegenerateRecoveryCodes :: "('g, 'r) Service \<Rightarrow> string \<Rightarrow> Secret \<Rightarrow> ('g, 'r, Secret list) handler" where
  "Service_RegenerateRecoveryCodes s uid password =
     (if recovery s = None then Ret (Inl (Root Internal))
      else bindP (Service_requirePassword s uid password) (\<lambda>_.
        bindP (load_totp uid) (\<lambda>found.
        if (case found of None \<Rightarrow> True | Some rec \<Rightarrow> \<not> Confirmed rec) then Ret (Inl AuthTOTPNotEnrolled)
        else bindP Service_instant (\<lambda>now. Service_mintRecoveryCodes s uid now))))"

definition Service_removeSecondFactor :: "('g, 'r) Service \<Rightarrow> string \<Rightarrow> ('g, 'r, unit) handler" where
  "Service_removeSecondFactor s uid =
     bindP (db_act (\<lambda>i. Store_DeleteTOTP (in_fault i) uid)) (\<lambda>_.
     case recovery s of
       None \<Rightarrow> Ret (Inr ())
     | Some rs \<Rightarrow>
         bindP Service_instant (\<lambda>now.
         thenP (codes_act (\<lambda>i. rs_replace rs (in_fault i) uid [] now)) (\<lambda>_. Ret (Inr ()))))"

definition Service_DisableTOTP :: "('g, 'r) Service \<Rightarrow> string \<Rightarrow> Secret \<Rightarrow> ('g, 'r, unit) handler" where
  "Service_DisableTOTP s uid password =
     bindP (Service_requirePassword s uid password) (\<lambda>_.
     bindP (load_totp uid) (\<lambda>found.
     if found = None then Ret (Inl AuthTOTPNotEnrolled) else Service_removeSecondFactor s uid))"

definition Service_DisableTOTPWithCode :: "('g, 'r) Service \<Rightarrow> string \<Rightarrow> string \<Rightarrow> ('g, 'r, unit) handler" where
  "Service_DisableTOTPWithCode s uid code =
     bindP (load_totp uid) (\<lambda>found.
     case found of
       None \<Rightarrow> Ret (Inl AuthTOTPNotEnrolled)
     | Some rec \<Rightarrow> bindP (Service_consumeTOTPCode s uid rec code) (\<lambda>_. Service_removeSecondFactor s uid))"

definition Service_TOTPStatus :: "('g, 'r) Service \<Rightarrow> string \<Rightarrow> ('g, 'r, TOTPStatus) handler" where
  "Service_TOTPStatus s uid =
     bindP (load_totp uid) (\<lambda>found.
     let status = \<lparr>ts_enrolled = (case found of None \<Rightarrow> False | Some rec \<Rightarrow> Confirmed rec),
         ts_pending = (case found of None \<Rightarrow> False | Some rec \<Rightarrow> \<not> Confirmed rec), ts_recovery = - 1\<rparr> in
     case recovery s of
       None \<Rightarrow> Ret (Inr status)
     | Some rs \<Rightarrow> bindP (unused_codes rs uid) (\<lambda>digests. Ret (Inr (status\<lparr>ts_recovery := int (length digests)\<rparr>))))"

end
