(* ===== verification/AuthInvariant.thy ===== *)
theory AuthInvariant
  imports AuthService
begin

text \<open>
  The invariant of the accounts tables and what every handler keeps: constraints and rotation chains
  hold, no row of a lineage is lost, a redemption and a revocation are final, no token outlives its
  session.
\<close>

section \<open>Tables that only grow\<close>

definition grows :: "('a \<Rightarrow> 'a \<Rightarrow> bool) \<Rightarrow> 'a list \<Rightarrow> 'a list \<Rightarrow> bool" where
  "grows P xs ys \<longleftrightarrow> (\<exists>zs ws. ys = zs @ ws \<and> list_all2 P xs zs)"

lemma grows_append: "(\<And>x. P x x) \<Longrightarrow> grows P xs (xs @ ws)"
  by (auto simp: grows_def list.rel_refl)

lemma grows_more: "grows P xs ys \<Longrightarrow> grows P xs (ys @ ws)"
  unfolding grows_def by (metis append.assoc)

lemma grows_refl: "(\<And>x. P x x) \<Longrightarrow> grows P xs xs"
  using grows_append [of P xs "[]"] by simp

lemma grows_map: "(\<And>x. x \<in> set xs \<Longrightarrow> P x (f x)) \<Longrightarrow> grows P xs (map f xs)"
  unfolding grows_def by (intro exI [of _ "map f xs"] exI [of _ "[]"]) (simp add: list_all2_conv_all_nth)

lemma grows_trans:
  assumes "grows P xs ys" "grows P ys zs" "\<And>x y z. P x y \<Longrightarrow> P y z \<Longrightarrow> P x z"
  shows "grows P xs zs"
proof -
  obtain ys1 ys2 where y: "ys = ys1 @ ys2" "list_all2 P xs ys1" using assms(1) by (auto simp: grows_def)
  obtain zs1 zs2 where z: "zs = zs1 @ zs2" "list_all2 P ys zs1" using assms(2) by (auto simp: grows_def)
  obtain as bs where ab: "zs1 = as @ bs" "list_all2 P ys1 as" using z(2) y(1) by (auto simp: list_all2_append1)
  have "list_all2 P xs as" using list_all2_trans [OF assms(3) y(2) ab(2)] by simp
  then show ?thesis unfolding grows_def z(1) ab(1) by (metis append.assoc)
qed

lemma grows_mem:
  assumes "grows P xs ys" "x \<in> set xs"
  shows "\<exists>y \<in> set ys. P x y"
proof -
  obtain zs ws where z: "ys = zs @ ws" "list_all2 P xs zs" using assms(1) by (auto simp: grows_def)
  then have "\<exists>y \<in> set zs. P x y" using assms(2) by (fastforce simp: list_all2_conv_all_nth in_set_conv_nth)
  then show ?thesis using z(1) by auto
qed

lemma image_set_map: "map k (map g xs) = map k xs \<Longrightarrow> k ` set (map g xs) = k ` set xs"
  by (metis list.set_map)

definition user_kept :: "UserRow \<Rightarrow> UserRow \<Rightarrow> bool" where
  "user_kept u v \<longleftrightarrow> u_id v = u_id u \<and> u_email v = u_email u \<and> u_status v = u_status u"

definition family_kept :: "FamilyRow \<Rightarrow> FamilyRow \<Rightarrow> bool" where
  "family_kept f g \<longleftrightarrow> f_id g = f_id f \<and> f_user g = f_user f \<and> f_started g = f_started f \<and> (f_revoked f \<noteq> None \<longrightarrow> g = f)"

definition token_kept :: "TokenRow \<Rightarrow> TokenRow \<Rightarrow> bool" where
  "token_kept t r \<longleftrightarrow> t_id r = t_id t \<and> t_family r = t_family t \<and> t_parent r = t_parent t \<and> t_hash r = t_hash t \<and>
     t_issued r = t_issued t \<and> t_expires r = t_expires t \<and> (t_used t \<noteq> None \<longrightarrow> r = t)"

definition db_kept :: "DB \<Rightarrow> DB \<Rightarrow> bool" where
  "db_kept db db' \<longleftrightarrow> grows user_kept (users db) (users db') \<and> grows family_kept (families db) (families db') \<and>
     grows token_kept (tokens db) (tokens db')"

lemma kept_refl [simp]: "user_kept u u" "family_kept f f" "token_kept t t"
  by (simp_all add: user_kept_def family_kept_def token_kept_def)

lemma kept_trans:
  "user_kept u v \<Longrightarrow> user_kept v w \<Longrightarrow> user_kept u w"
  "family_kept f g \<Longrightarrow> family_kept g h \<Longrightarrow> family_kept f h"
  "token_kept t r \<Longrightarrow> token_kept r q \<Longrightarrow> token_kept t q"
  by (auto simp: user_kept_def family_kept_def token_kept_def)

lemma db_kept_refl [simp]: "db_kept db db"
  by (simp add: db_kept_def grows_refl)

lemma db_kept_trans: "db_kept db db' \<Longrightarrow> db_kept db' db'' \<Longrightarrow> db_kept db db''"
  unfolding db_kept_def using grows_trans kept_trans by meson

section \<open>The invariant\<close>

text \<open>What the schema says of every table: the CHECKs of each row, keys, references.\<close>

definition db_typed :: "(string \<Rightarrow> bool) \<Rightarrow> DB \<Rightarrow> bool" where
  "db_typed pg_email db \<longleftrightarrow>
     list_all (user_checks pg_email) (users db) \<and> distinct (map u_id (users db)) \<and> distinct (map u_email (users db)) \<and>
     list_all family_checks (families db) \<and> distinct (map f_id (families db)) \<and>
     f_user ` set (families db) \<subseteq> u_id ` set (users db) \<and>
     list_all token_checks (tokens db) \<and> distinct (map t_id (tokens db)) \<and> distinct (map t_hash (tokens db)) \<and>
     t_family ` set (tokens db) \<subseteq> f_id ` set (families db) \<and>
     list_all totp_checks (totps db) \<and> distinct (map s_user (totps db)) \<and>
     s_user ` set (totps db) \<subseteq> u_id ` set (users db)"

text \<open>
  Tokens form chains: a family has exactly one token that was not redeemed, and a token was redeemed
  exactly when it has a successor, of the same family, which is then the only one.
\<close>

definition unused_of :: "string \<Rightarrow> TokenRow \<Rightarrow> bool" where
  "unused_of fid t \<longleftrightarrow> t_family t = fid \<and> t_used t = None"

definition db_chained :: "DB \<Rightarrow> bool" where
  "db_chained db \<longleftrightarrow>
     (\<forall>fid \<in> f_id ` set (families db). length (filter (unused_of fid) (tokens db)) = 1) \<and>
     distinct (filter (\<lambda>p. p \<noteq> None) (map t_parent (tokens db))) \<and>
     (\<forall>t \<in> set (tokens db). t_used t \<noteq> None \<longleftrightarrow> Some (t_id t) \<in> t_parent ` set (tokens db)) \<and>
     (\<forall>c \<in> set (tokens db). \<forall>p. t_parent c = Some p \<longrightarrow>
        (\<exists>t \<in> set (tokens db). t_id t = p \<and> t_family t = t_family c))"

text \<open>No token outlives the absolute lifetime of its session.\<close>

definition db_capped :: "duration \<Rightarrow> DB \<Rightarrow> bool" where
  "db_capped lifetime db \<longleftrightarrow> (0 < lifetime \<longrightarrow>
     (\<forall>t \<in> set (tokens db). \<forall>f \<in> set (families db). f_id f = t_family t \<longrightarrow> t_expires t \<le> f_started f + lifetime))"

definition db_ok :: "(string \<Rightarrow> bool) \<Rightarrow> duration \<Rightarrow> DB \<Rightarrow> bool" where
  "db_ok pg_email lifetime db \<longleftrightarrow> db_typed pg_email db \<and> db_chained db \<and> db_capped lifetime db"

definition db_step :: "(string \<Rightarrow> bool) \<Rightarrow> duration \<Rightarrow> DB \<Rightarrow> DB \<Rightarrow> bool" where
  "db_step pg_email lifetime db db' \<longleftrightarrow>
     db_kept db db' \<and> (db_ok pg_email lifetime db \<longrightarrow> db_ok pg_email lifetime db')"

lemma db_step_refl [simp]: "db_step e l db db"
  by (simp add: db_step_def)

lemma db_step_trans: "db_step e l db db' \<Longrightarrow> db_step e l db' db'' \<Longrightarrow> db_step e l db db''"
  unfolding db_step_def using db_kept_trans by blast

lemma run_stmt_step:
  "(\<And>x db'. s db = Inr (x, db') \<Longrightarrow> db_step e l db db') \<Longrightarrow> db_step e l db (snd (run_stmt fault s db))"
  by (auto simp: run_stmt_def split: call_fault.splits sum.splits)

lemma inTx_step:
  "(\<And>x db'. body db = TxCommit x db' \<Longrightarrow> db_step e l db db') \<Longrightarrow> db_step e l db (snd (inTx fault body db))"
  by (auto simp: inTx_def split: tx_end.splits)

section \<open>Each statement keeps it\<close>

lemma insert_user_step:
  assumes "insert_user pg u db = Inr (n, db')"
  shows "db_step pg l db db'"
proof -
  have u: "db' = db\<lparr>users := users db @ [u]\<rparr>" "user_checks pg u" "u_id u \<notin> u_id ` set (users db)" "u_email u \<notin> u_email ` set (users db)"
    using assms by (auto simp: insert_user_def split: if_splits)
  have "db_kept db db'" by (simp add: u(1) db_kept_def grows_append grows_refl)
  moreover have "db_typed pg db \<Longrightarrow> db_typed pg db'" using u by (auto simp: db_typed_def)
  moreover have "db_chained db' = db_chained db" "db_capped l db' = db_capped l db"
    by (simp_all add: u(1) db_chained_def db_capped_def)
  ultimately show ?thesis by (simp add: db_step_def db_ok_def)
qed

lemma update_users_step:
  assumes "update_users pg p f db = Inr (n, db')" "\<And>u. user_kept u (f u)"
  shows "db_step pg l db db'"
proof -
  let ?f = "\<lambda>u. if p u then f u else u"
  have db': "db' = db\<lparr>users := map ?f (users db)\<rparr>" and c: "\<forall>u \<in> set (users db). p u \<longrightarrow> user_checks pg (f u)"
    using assms(1) by (auto simp: update_users_def list_all_iff split: if_splits)
  have k: "u_id (?f u) = u_id u" "u_email (?f u) = u_email u" for u using assms(2) [of u] by (simp_all add: user_kept_def)
  have "map u_id (map ?f us) = map u_id us" "map u_email (map ?f us) = map u_email us" for us using k by simp_all
  moreover have "u_id ` set (map ?f us) = u_id ` set us" for us using k by (intro image_set_map) simp
  moreover have "list_all (user_checks pg) (users db) \<Longrightarrow> list_all (user_checks pg) (map ?f (users db))"
    using c by (auto simp: list_all_iff)
  moreover have "grows user_kept (users db) (map ?f (users db))" using assms(2) by (intro grows_map) simp
  ultimately show ?thesis
    unfolding db_step_def db' by (auto simp: db_kept_def db_ok_def db_typed_def db_chained_def db_capped_def grows_refl simp del: map_map set_map)
qed

lemma update_families_step:
  assumes "update_families p f db = Inr (n, db')" "\<And>r. p r \<Longrightarrow> family_kept r (f r)"
  shows "db_step pg l db db'"
proof -
  let ?f = "\<lambda>r. if p r then f r else r"
  have db': "db' = db\<lparr>families := map ?f (families db)\<rparr>" and c: "\<forall>r \<in> set (families db). p r \<longrightarrow> family_checks (f r)"
    using assms(1) by (auto simp: update_families_def list_all_iff split: if_splits)
  have k: "f_id (?f r) = f_id r" "f_user (?f r) = f_user r" "f_started (?f r) = f_started r" for r
    using assms(2) [of r] by (auto simp: family_kept_def)
  have "map f_id (map ?f rs) = map f_id rs" for rs using k by simp
  moreover have "f_user ` set (map ?f rs) = f_user ` set rs" "f_id ` set (map ?f rs) = f_id ` set rs" for rs
    using k by (intro image_set_map; simp)+
  moreover have "list_all family_checks (families db) \<Longrightarrow> list_all family_checks (map ?f (families db))"
    using c by (auto simp: list_all_iff)
  moreover have "grows family_kept (families db) (map ?f (families db))" using assms(2) by (intro grows_map) simp
  moreover have "f_id ` set (families db') = f_id ` set (families db)"
    unfolding db' by (simp del: set_map, rule image_set_map, simp add: k)
  then have "db_chained db \<Longrightarrow> db_chained db'" unfolding db_chained_def by (simp add: db')
  moreover have "db_capped l db \<Longrightarrow> db_capped l db'"
  proof -
    have "p r \<Longrightarrow> f_id (f r) = f_id r \<and> f_started (f r) = f_started r" for r using assms(2) [of r] by (simp add: family_kept_def)
    then show "db_capped l db \<Longrightarrow> db_capped l db'" by (auto simp: db_capped_def db')
  qed
  ultimately show ?thesis
    unfolding db_step_def by (auto simp: db' db_kept_def db_ok_def db_typed_def grows_refl simp del: map_map set_map)
qed

lemma revoke_kept: "f_revoked f = None \<Longrightarrow> family_kept f (revoke_row t r f)"
  by (simp add: family_kept_def revoke_row_def)

lemma totps_step:
  assumes "db_typed pg db \<Longrightarrow>
    list_all totp_checks ts \<and> distinct (map s_user ts) \<and> s_user ` set ts \<subseteq> u_id ` set (users db)"
  shows "db_step pg l db (db\<lparr>totps := ts\<rparr>)"
proof -
  have "db_typed pg db \<Longrightarrow> db_typed pg (db\<lparr>totps := ts\<rparr>)"
    using assms unfolding db_typed_def by simp
  then show ?thesis by (simp add: db_step_def db_kept_def db_ok_def db_chained_def db_capped_def grows_refl)
qed

section \<open>Sessions are opened and rotated\<close>

lemma create_session_step:
  assumes "create_session_tx ns db = TxCommit x db'" "0 < l \<Longrightarrow> ns_expires ns \<le> ns_started ns + l"
  shows "db_step pg l db db'"
proof -
  define f where "f = \<lparr>f_id = ns_family ns, f_user = ns_user ns, f_started = ns_started ns, f_revoked = None, f_reason = None\<rparr>"
  define t where "t = \<lparr>t_id = ns_token ns, t_family = ns_family ns, t_parent = None, t_hash = ns_hash ns,
      t_issued = ns_issued ns, t_expires = ns_expires ns, t_used = None\<rparr>"
  obtain db1 n m where ins: "insert_family f db = Inr (n, db1)" "insert_token t db1 = Inr (m, db')"
    using assms(1) unfolding create_session_tx_def f_def t_def by (auto split: sum.splits)
  have f: "db1 = db\<lparr>families := families db @ [f]\<rparr>" "family_checks f" "f_id f \<notin> f_id ` set (families db)"
    "f_user f \<in> u_id ` set (users db)"
    using ins(1) by (auto simp: insert_family_def split: if_splits)
  have t: "db' = db1\<lparr>tokens := tokens db @ [t]\<rparr>" "token_checks t" "t_id t \<notin> t_id ` set (tokens db)"
    "t_hash t \<notin> t_hash ` set (tokens db)"
    using ins(2) by (auto simp: insert_token_def f(1) split: if_splits)
  have db': "db' = db\<lparr>families := families db @ [f], tokens := tokens db @ [t]\<rparr>" by (simp add: t(1) f(1))
  have tf: "t_family t = f_id f" "t_parent t = None" "t_used t = None" "t_expires t = ns_expires ns" "f_started f = ns_started ns"
    by (simp_all add: t_def f_def)
  have "db_kept db db'" by (simp add: db' db_kept_def grows_append grows_refl)
  moreover have "db_typed pg db'" if "db_typed pg db" using that f t tf by (auto simp: db_typed_def db')
  moreover have "db_chained db'" if c: "db_chained db" and ty: "db_typed pg db"
  proof -
    have old: "t_family r \<noteq> f_id f" if "r \<in> set (tokens db)" for r
    proof -
      have "t_family r \<in> f_id ` set (families db)" using that ty unfolding db_typed_def by blast
      then show ?thesis using f(3) by metis
    qed
    then have "filter (unused_of (f_id f)) (tokens db) = []" by (auto simp: filter_empty_conv unused_of_def)
    moreover have "filter (unused_of fid) [t] = []" if "fid \<in> f_id ` set (families db)" for fid
      using that f(3) tf by (auto simp: unused_of_def)
    moreover have "Some (t_id t) \<notin> t_parent ` set (tokens db)"
      using c t(3) unfolding db_chained_def by (metis (no_types, lifting) image_iff)
    ultimately show ?thesis using c tf by (auto simp: db_chained_def db' unused_of_def)
  qed
  moreover have "db_capped l db'" if c: "db_capped l db" and ty: "db_typed pg db"
  proof -
    have new: "f_id g \<noteq> f_id f" if "g \<in> set (families db)" for g using that f(3) by (metis imageI)
    have "t_family r \<noteq> f_id f" if "r \<in> set (tokens db)" for r
      using that ty f(3) unfolding db_typed_def by (metis imageI subsetD)
    then have "\<forall>r \<in> set (tokens db). f_id f \<noteq> t_family r" "\<forall>g \<in> set (families db). f_id g \<noteq> f_id f" using new by metis+
    then show ?thesis using c assms(2) tf by (auto simp: db_capped_def db')
  qed
  ultimately show ?thesis by (simp add: db_step_def db_ok_def)
qed

text \<open>A row with a given key, and the table with that row redeemed.\<close>

lemma split_row:
  assumes "distinct (map t_id ts)" "t \<in> set ts" "t_used t = None"
  obtains as bs where "ts = as @ t # bs"
    "map (\<lambda>r. if t_id r = t_id t \<and> t_used r = None then r\<lparr>t_used := u\<rparr> else r) ts = as @ t\<lparr>t_used := u\<rparr> # bs"
proof -
  obtain as bs where ab: "ts = as @ t # bs" using assms(2) by (meson split_list)
  have "t_id t \<notin> t_id ` set as" "t_id t \<notin> t_id ` set bs" using assms(1) ab by auto
  then have "t_id r \<noteq> t_id t" if "r \<in> set as \<union> set bs" for r using that by (metis UnE imageI)
  then have "map (\<lambda>r. if t_id r = t_id t \<and> t_used r = None then r\<lparr>t_used := u\<rparr> else r) ts = as @ t\<lparr>t_used := u\<rparr> # bs"
    using assms(3) by (auto simp: ab intro!: map_idI)
  then show thesis using ab that by blast
qed

lemma redeem_commit:
  assumes "redeem req rec db = TxCommit x db'"
  obtains n where "x = (rec\<lparr>sr_expires := cappedExpiry req (sr_started rec)\<rparr>, RotateOK, RevokedReasonUnknown)"
    "n = \<lparr>t_id = rq_successor req, t_family = sr_family rec, t_parent = Some (sr_token rec), t_hash = rq_hash req,
       t_issued = rq_now req, t_expires = cappedExpiry req (sr_started rec), t_used = None\<rparr>"
    "token_checks n" "t_id n \<notin> t_id ` set (tokens db)" "t_hash n \<notin> t_hash ` set (tokens db)"
    "Some (sr_token rec) \<notin> t_parent ` set (tokens db)" "t_family n \<in> f_id ` set (families db)"
    "\<forall>r \<in> set (tokens db). t_id r = sr_token rec \<and> t_used r = None \<longrightarrow> token_checks (r\<lparr>t_used := Some (rq_now req)\<rparr>)"
    "\<exists>r \<in> set (tokens db). t_id r = sr_token rec \<and> t_used r = None"
    "db' = db\<lparr>tokens := map (\<lambda>r. if t_id r = sr_token rec \<and> t_used r = None then r\<lparr>t_used := Some (rq_now req)\<rparr> else r) (tokens db) @ [n]\<rparr>"
proof -
  let ?p = "\<lambda>r. t_id r = sr_token rec \<and> t_used r = None" and ?u = "\<lambda>r. r\<lparr>t_used := Some (rq_now req)\<rparr>"
  let ?ts = "map (\<lambda>r. if ?p r then ?u r else r) (tokens db)"
  let ?n = "\<lparr>t_id = rq_successor req, t_family = sr_family rec, t_parent = Some (sr_token rec), t_hash = rq_hash req,
       t_issued = rq_now req, t_expires = cappedExpiry req (sr_started rec), t_used = None\<rparr>"
  obtain m where mark: "markTokenUsedSQL (sr_token rec) (rq_now req) db = Inr (m, db\<lparr>tokens := ?ts\<rparr>)"
    "m = length (filter ?p (tokens db))" "list_all (\<lambda>r. ?p r \<longrightarrow> token_checks (?u r)) (tokens db)"
    using assms by (auto simp: redeem_def Let_def markTokenUsedSQL_def update_tokens_def split: if_splits)
  have m: "0 < m" and ins: "insert_token ?n (db\<lparr>tokens := ?ts\<rparr>) = Inr (1, db')"
    and x: "x = (rec\<lparr>sr_expires := cappedExpiry req (sr_started rec)\<rparr>, RotateOK, RevokedReasonUnknown)"
    using assms mark(1) by (auto simp: redeem_def Let_def insert_token_def split: if_splits sum.splits sql_error.splits)
  have same: "t_id ` set ?ts = t_id ` set (tokens db)" "t_hash ` set ?ts = t_hash ` set (tokens db)"
    "t_parent ` set ?ts = t_parent ` set (tokens db)"
    by (rule image_set_map, simp)+
  have n: "token_checks ?n" "t_id ?n \<notin> t_id ` set (tokens db)" "t_hash ?n \<notin> t_hash ` set (tokens db)"
    "Some (sr_token rec) \<notin> t_parent ` set (tokens db)" "t_family ?n \<in> f_id ` set (families db)"
    "db' = db\<lparr>tokens := ?ts @ [?n]\<rparr>"
    using ins unfolding insert_token_def by (simp_all add: same del: set_map split: if_splits)
  have "\<exists>r \<in> set (tokens db). ?p r" using m mark(2) by (auto simp: filter_empty_conv)
  then show thesis using that [OF x refl n(1-5) _ _ n(6)] mark(3) by (simp add: list_all_iff)
qed

lemma cappedExpiry_le: "0 < rq_lifetime req \<Longrightarrow> cappedExpiry req started \<le> started + rq_lifetime req"
  by (simp add: cappedExpiry_def Let_def time_before_def)

lemma redeem_step:
  assumes "redeem req rec db = TxCommit x db'" "rq_lifetime req = l"
    "t \<in> set (tokens db)" "t_id t = sr_token rec" "t_family t = sr_family rec" "t_used t = None"
    "f \<in> set (families db)" "f_id f = sr_family rec" "f_started f = sr_started rec"
  shows "db_step pg l db db'"
proof -
  obtain n where n: "n = \<lparr>t_id = rq_successor req, t_family = sr_family rec, t_parent = Some (sr_token rec), t_hash = rq_hash req,
       t_issued = rq_now req, t_expires = cappedExpiry req (sr_started rec), t_used = None\<rparr>"
    "token_checks n" "t_id n \<notin> t_id ` set (tokens db)" "t_hash n \<notin> t_hash ` set (tokens db)"
    "Some (sr_token rec) \<notin> t_parent ` set (tokens db)" "t_family n \<in> f_id ` set (families db)"
    "\<forall>r \<in> set (tokens db). t_id r = sr_token rec \<and> t_used r = None \<longrightarrow> token_checks (r\<lparr>t_used := Some (rq_now req)\<rparr>)"
    "db' = db\<lparr>tokens := map (\<lambda>r. if t_id r = sr_token rec \<and> t_used r = None then r\<lparr>t_used := Some (rq_now req)\<rparr> else r) (tokens db) @ [n]\<rparr>"
    using assms(1) by (rule redeem_commit)
  let ?t = "t\<lparr>t_used := Some (rq_now req)\<rparr>"
  let ?upd = "\<lambda>r. if t_id r = t_id t \<and> t_used r = None then r\<lparr>t_used := Some (rq_now req)\<rparr> else r"
  have db': "db' = db\<lparr>tokens := map ?upd (tokens db) @ [n]\<rparr>" using n(8) assms(4) by simp
  have "grows token_kept (tokens db) (map ?upd (tokens db))"
    by (rule grows_map) (auto simp: token_kept_def)
  then have "grows token_kept (tokens db) (map ?upd (tokens db) @ [n])" by (rule grows_more)
  then have kept: "db_kept db db'" by (simp add: db' db_kept_def grows_refl)
  have "db_ok pg l db'" if ok: "db_ok pg l db"
  proof -
    have ty: "db_typed pg db" and ch: "db_chained db" and cap: "db_capped l db" using ok by (simp_all add: db_ok_def)
    have d: "distinct (map t_id (tokens db))" using ty by (simp add: db_typed_def)
    obtain as bs where ab: "tokens db = as @ t # bs" "map ?upd (tokens db) = as @ ?t # bs"
      by (rule split_row [OF d assms(3,6), of "Some (rq_now req)"])
    have db'': "db' = db\<lparr>tokens := as @ ?t # bs @ [n]\<rparr>" by (simp add: db' ab(2))
    have nf: "t_family n = t_family t" "t_parent n = Some (t_id t)" "t_used n = None" using n(1) assms(4,5) by simp_all
    have ids: "t_id n \<notin> t_id ` set as" "t_id n \<noteq> t_id t" "t_id n \<notin> t_id ` set bs"
      "t_hash n \<notin> t_hash ` set as" "t_hash n \<noteq> t_hash t" "t_hash n \<notin> t_hash ` set bs"
      "Some (t_id t) \<notin> t_parent ` set as" "t_parent t \<noteq> Some (t_id t)" "Some (t_id t) \<notin> t_parent ` set bs"
      using n(3-5) unfolding ab(1) assms(4) [symmetric] by auto
    have tc: "token_checks ?t" using n(7) assms(3,4,6) by simp
    have "db_typed pg db'"
      using ty ids n(2,6) tc unfolding db_typed_def db'' ab(1) by (simp add: nf(1))
    moreover have "db_chained db'"
    proof -
      have cnt: "length (filter (unused_of fid) (as @ ?t # bs @ [n])) = length (filter (unused_of fid) (tokens db))" for fid
        using nf assms(6) by (simp add: ab(1) unused_of_def)
      have par: "map t_parent (as @ ?t # bs @ [n]) = map t_parent (tokens db) @ [Some (t_id t)]"
        using nf by (simp add: ab(1))
      have dp: "distinct (filter (\<lambda>p. p \<noteq> None) (map t_parent (tokens db)))" using ch by (simp add: db_chained_def)
      have nonew: "Some (t_id n) \<notin> t_parent ` set (tokens db)"
        using ch n(3) unfolding db_chained_def by (metis (no_types, lifting) image_iff)
      have oth: "t_id r \<noteq> t_id t" if "r \<in> set as \<union> set bs" for r
        using that d by (auto simp: ab(1)) (metis imageI)+
      have used: "\<forall>r \<in> set as \<union> {t} \<union> set bs. t_used r \<noteq> None \<longleftrightarrow> Some (t_id r) \<in> t_parent ` set (tokens db)"
        using ch by (simp add: db_chained_def ab(1))
      have sp: "t_parent ` set (as @ ?t # bs @ [n]) = insert (Some (t_id t)) (t_parent ` set (tokens db))"
        using nf by (auto simp: ab(1))
      show ?thesis
        unfolding db_chained_def
      proof (intro conjI)
        show "\<forall>fid \<in> f_id ` set (families db'). length (filter (unused_of fid) (tokens db')) = 1"
          using ch cnt by (simp add: db'' db_chained_def)
        show "distinct (filter (\<lambda>p. p \<noteq> None) (map t_parent (tokens db')))"
          using dp n(5) assms(4) unfolding db'' by (simp add: par del: map_append list.map)
        show "\<forall>r \<in> set (tokens db'). t_used r \<noteq> None \<longleftrightarrow> Some (t_id r) \<in> t_parent ` set (tokens db')"
          using used oth nonew nf ids(2) unfolding db'' by (simp add: sp del: set_append) auto
        show "\<forall>c \<in> set (tokens db'). \<forall>p. t_parent c = Some p \<longrightarrow> (\<exists>t \<in> set (tokens db'). t_id t = p \<and> t_family t = t_family c)"
          using ch nf unfolding db_chained_def by (auto simp: db'' ab(1))
      qed
    qed
    moreover have "db_capped l db'"
    proof -
      have "cappedExpiry req (f_started f) \<le> f_started f + l" if "0 < l" using cappedExpiry_le that assms(2) by blast
      moreover have "g = f" if "g \<in> set (families db)" "f_id g = f_id f" for g
        using that assms(7) ty unfolding db_typed_def by (meson distinct_map inj_onD)
      ultimately show ?thesis
        using cap nf assms(5,8,9) n(1) unfolding db_capped_def by (auto simp: db'' ab(1))
    qed
    ultimately show ?thesis by (simp add: db_ok_def)
  qed
  then show ?thesis using kept by (simp add: db_step_def)
qed

lemma find_member: "find P xs = Some x \<Longrightarrow> x \<in> set xs \<and> P x"
  by (rule find_SomeD)

lemma find_presentedD:
  assumes "find_presented h db = Some (t, f, u)"
  shows "t \<in> set (tokens db)" "t_hash t = h" "f \<in> set (families db)" "f_id f = t_family t"
    "u \<in> set (users db)" "u_id u = f_user f"
  using assms by (auto simp: find_presented_def split: option.splits dest!: find_member)

lemma new_id_domain: "from_domain (new_id s) = Inr t \<longleftrightarrow> validID s = Inr () \<and> t = s"
  by (auto simp: from_domain_def result_simps)

lemma rotate_tx_cases:
  assumes "rotate_tx req db = TxCommit x db'"
  obtains (same) "db' = db" "fst (snd x) \<noteq> RotateOK"
  | (ok) t f u status where "find_presented (rq_presented req) db = Some (t, f, u)" "f_revoked f = None"
      "u_changed u \<le> f_started f" "rq_now req < t_expires t" "t_used t = None"
      "ParseUserStatus (u_status u) = Inr status"
      "redeem req \<lparr>sr_user = f_user f, sr_family = f_id f, sr_started = f_started f, sr_token = t_id t,
         sr_expires = 0, sr_status = status\<rparr> db = TxCommit x db'"
proof (cases "find_presented (rq_presented req) db")
  case None
  then show thesis using assms same by (auto simp: rotate_tx_def)
next
  case (Some tfu)
  obtain t f u where p: "tfu = (t, f, u)" by (cases tfu)
  obtain owner status where o: "from_domain (new_id (f_user f)) = Inr owner" "ParseUserStatus (u_status u) = Inr status"
    using assms Some p by (auto simp: rotate_tx_def split: sum.splits)
  then have "owner = f_user f" by (simp add: new_id_domain)
  then show thesis
    using assms Some p o same ok [of t f u status]
    by (auto simp: rotate_tx_def Let_def time_before_def not_less split: if_splits)
qed

lemma rotate_tx_step:
  assumes "rotate_tx req db = TxCommit x db'" "rq_lifetime req = l"
  shows "db_step pg l db db'"
  using assms(1)
proof (cases rule: rotate_tx_cases)
  case (ok t f u status)
  note p = find_presentedD [OF ok(1)]
  show ?thesis by (rule redeem_step [OF ok(7) assms(2) p(1) _ _ ok(5) p(3)]) (simp_all add: p)
qed simp

lemma revoke_by_token_step:
  "revoke_by_token_tx h t r db = TxCommit x db' \<Longrightarrow> db_step pg l db db'"
  unfolding revoke_by_token_tx_def revokeFamilySQL_def
  by (auto split: option.splits sum.splits intro!: update_families_step revoke_kept)

section \<open>Every handler keeps it\<close>

definition auth_step :: "('g, 'r) Service \<Rightarrow> Input \<Rightarrow> ('g, 'r) World \<Rightarrow> ('g, 'r) World \<Rightarrow> bool" where
  "auth_step s i w w' = db_step (c_email (prim s)) (sessionLifetime s) (w_db w) (w_db w')"

lemma obeys_db_act:
  assumes "\<And>i db. db_step (c_email (prim s)) (sessionLifetime s) db (snd (f i db))"
  shows "obeys (auth_step s) (db_act f)"
  unfolding db_act_def
proof (rule obeys_act)
  fix i and w :: "('a, 'b) World"
  show "auth_step s i w (snd (case f i (w_db w) of (r, db) \<Rightarrow> (r, w\<lparr>w_db := db\<rparr>)))"
    using assms [of "w_db w" i] by (simp add: auth_step_def case_prod_beta)
qed

lemma obeys_elsewhere:
  assumes "\<And>i w. w_db (snd (f i w)) = w_db w"
  shows "obeys (auth_step s) (act f)"
  by (rule obeys_act) (simp add: auth_step_def assms)

lemma worked_db [simp]: "w_db (worked ps r w) = w_db w"
  by (simp add: worked_def)

lemma obeys_local [intro!]:
  "obeys (auth_step s) (db_read f)" "obeys (auth_step s) clock" "obeys (auth_step s) (minting n mint)"
  "obeys (auth_step s) Service_instant" "obeys (auth_step s) (Service_hashPassword s pw)"
  "obeys (auth_step s) (Service_verifyPassword s enc pw)" "obeys (auth_step s) (verify_decoy s pw)"
  "obeys (auth_step s) (unused_codes rs uid)" "obeys (auth_step s) (issue_token s uid sid)"
  "obeys (auth_step s) (codes_act g)"
  unfolding db_read_def clock_def minting_def Service_instant_def Service_hashPassword_def Service_verifyPassword_def
    verify_decoy_def unused_codes_def issue_token_def codes_act_def
  by (rule obeys_elsewhere, simp add: Let_def split: prod.splits)+

lemma obeys_lookup [intro!]:
  "obeys (auth_step s) (user_by_email s e)" "obeys (auth_step s) (user_by_id s uid)" "obeys (auth_step s) (load_totp uid)"
  unfolding user_by_email_def user_by_id_def load_totp_def by (rule obeys_local)+

lemma one_user_db [simp]: "snd (one_user r) = snd r"
  by (simp add: one_user_def split: prod.splits sum.splits)

lemma snd_case_sum: "snd (case p of (Inl e, db) \<Rightarrow> (f e, db) | (Inr x, db) \<Rightarrow> (g x, db)) = snd p"
  by (cases p; cases "fst p") auto

lemma obeys_user_store [intro!]:
  "obeys (auth_step s) (db_act (\<lambda>i. Store_CreateUser (c_email (prim s)) (in_fault i) (in_now i) u))"
  "obeys (auth_step s) (db_act (\<lambda>i. Store_SetPassword (c_email (prim s)) (in_fault i) uid hash t))"
  "obeys (auth_step s) (db_act (\<lambda>i. Store_RehashPassword (c_email (prim s)) (in_fault i) uid hash))"
  by (rule obeys_db_act; simp add: Store_CreateUser_def Store_SetPassword_def Store_RehashPassword_def snd_case_sum;
      rule run_stmt_step; (erule insert_user_step | erule update_users_step; simp add: user_kept_def))+

lemma obeys_session_store [intro!]:
  "obeys (auth_step s) (db_act (\<lambda>i. Store_RevokeFamily (in_fault i) fid t r))"
  "obeys (auth_step s) (db_act (\<lambda>i. Store_RevokeUserSessions (in_fault i) uid t r))"
  "obeys (auth_step s) (db_act (\<lambda>i. Store_RevokeByToken (in_fault i) h t r))"
  "rq_lifetime req = sessionLifetime s \<Longrightarrow> obeys (auth_step s) (db_act (\<lambda>i. rotateAttempt (in_fault i) req))"
  "(0 < sessionLifetime s \<Longrightarrow> ns_expires ns \<le> ns_started ns + sessionLifetime s) \<Longrightarrow>
     obeys (auth_step s) (db_act (\<lambda>i. Store_CreateSession (in_fault i) ns))"
proof -
  show "obeys (auth_step s) (db_act (\<lambda>i. Store_RevokeFamily (in_fault i) fid t r))"
    "obeys (auth_step s) (db_act (\<lambda>i. Store_RevokeUserSessions (in_fault i) uid t r))"
    unfolding Store_RevokeFamily_def Store_RevokeUserSessions_def revokeFamilySQL_def
    by (rule obeys_db_act; simp add: snd_case_sum; intro impI run_stmt_step; erule update_families_step; simp add: revoke_kept)+
  show "obeys (auth_step s) (db_act (\<lambda>i. Store_RevokeByToken (in_fault i) h t r))"
    unfolding Store_RevokeByToken_def
    by (rule obeys_db_act; simp; intro impI inTx_step; erule revoke_by_token_step)
  show "obeys (auth_step s) (db_act (\<lambda>i. rotateAttempt (in_fault i) req))" if "rq_lifetime req = sessionLifetime s"
    unfolding rotateAttempt_def by (rule obeys_db_act, rule inTx_step, erule rotate_tx_step, rule that)
  show "obeys (auth_step s) (db_act (\<lambda>i. Store_CreateSession (in_fault i) ns))"
    if "0 < sessionLifetime s \<Longrightarrow> ns_expires ns \<le> ns_started ns + sessionLifetime s"
    unfolding Store_CreateSession_def by (rule obeys_db_act, rule inTx_step, erule create_session_step, erule that)
qed

lemma totps_map_step:
  assumes "\<And>q. s_user (f q) = s_user q" "\<And>q. totp_checks q \<Longrightarrow> totp_checks (f q)"
  shows "db_step pg l db (db\<lparr>totps := map f (totps db)\<rparr>)"
proof (rule totps_step)
  have m: "map s_user (map f (totps db)) = map s_user (totps db)" using assms(1) by simp
  assume "db_typed pg db"
  then show "list_all totp_checks (map f (totps db)) \<and> distinct (map s_user (map f (totps db))) \<and>
      s_user ` set (map f (totps db)) \<subseteq> u_id ` set (users db)"
    unfolding m image_set_map [OF m] using assms(2) by (auto simp: db_typed_def list_all_iff)
qed

lemma upsert_totp_step:
  assumes "upsertTOTPSQL r db = Inr (n, db')"
  shows "db_step pg l db db'"
proof (cases "s_user r \<in> s_user ` set (totps db)")
  case True
  then have db': "db' = db\<lparr>totps := map (\<lambda>q. if s_user q = s_user r \<and> s_confirmed q = None
      then q\<lparr>s_sealed := s_sealed r, s_confirmed := None\<rparr> else q) (totps db)\<rparr>" and c: "totp_checks r"
    using assms by (auto simp: upsertTOTPSQL_def split: if_splits)
  show ?thesis unfolding db' by (rule totps_map_step) (use c in \<open>auto simp: totp_checks_def\<close>)
next
  case False
  then have "db' = db\<lparr>totps := totps db @ [r]\<rparr>" "totp_checks r" "s_user r \<in> u_id ` set (users db)"
    using assms by (auto simp: upsertTOTPSQL_def split: if_splits)
  then show ?thesis using False by (auto simp: db_typed_def image_subset_iff intro!: totps_step)
qed

lemma obeys_totp_store [intro!]:
  "obeys (auth_step s) (db_act (\<lambda>i. Store_SaveTOTP (in_fault i) rec))"
  "obeys (auth_step s) (db_act (\<lambda>i. Store_ConfirmTOTP (in_fault i) uid t))"
  "obeys (auth_step s) (db_act (\<lambda>i. Store_DeleteTOTP (in_fault i) uid))"
proof -
  show "obeys (auth_step s) (db_act (\<lambda>i. Store_SaveTOTP (in_fault i) rec))"
    unfolding Store_SaveTOTP_def
    by (rule obeys_db_act, simp add: snd_case_sum, rule run_stmt_step, erule upsert_totp_step)
  show "obeys (auth_step s) (db_act (\<lambda>i. Store_ConfirmTOTP (in_fault i) uid t))"
    unfolding Store_ConfirmTOTP_def
  proof (rule obeys_db_act, simp add: snd_case_sum, rule run_stmt_step)
    fix db x db'
    assume "confirmTOTPSQL uid t db = Inr (x, db')"
    then show "db_step (c_email (prim s)) (sessionLifetime s) db db'"
      by (auto simp: confirmTOTPSQL_def totp_checks_def intro!: totps_map_step)
  qed
  show "obeys (auth_step s) (db_act (\<lambda>i. Store_DeleteTOTP (in_fault i) uid))"
    unfolding Store_DeleteTOTP_def
  proof (rule obeys_db_act, simp add: snd_case_sum, rule run_stmt_step)
    fix db x db'
    assume "deleteTOTPSQL uid db = Inr (x, db')"
    then have "db' = db\<lparr>totps := filter (\<lambda>q. s_user q \<noteq> uid) (totps db)\<rparr>" by (simp add: deleteTOTPSQL_def)
    then show "db_step (c_email (prim s)) (sessionLifetime s) db db'"
      by (auto simp: db_typed_def list_all_iff distinct_map_filter image_subset_iff intro!: totps_step)
  qed
qed

lemma obeys_act_guard [intro!]:
  "obeys (auth_step s) (act (\<lambda>i w. case f i w of (r, g) \<Rightarrow> (r, w\<lparr>w_guard := g\<rparr>)))"
  by (rule obeys_elsewhere) (simp split: prod.splits)

lemma obeys_act_pure [intro!]: "obeys (auth_step s) (act (\<lambda>i w. (f i w, w)))"
  by (rule obeys_elsewhere) simp

lemma Service_cappedExpiry_le: "0 < sessionLifetime s \<Longrightarrow> Service_cappedExpiry s now started \<le> started + sessionLifetime s"
  by (simp add: Service_cappedExpiry_def Let_def time_before_def)

lemmas handler_defs = Service_AuthorizeWagering_def Service_Register_def Service_consumeTOTPCode_def
  Service_consumeRecoveryCode_def Service_checkSecondFactor_def Service_openSession_def Service_maybeRehash_def
  bad_credentials_def login_user_def Service_login_def refreshed_def Store_Rotate_def Service_Refresh_def
  Service_Logout_def Service_LogoutEverywhere_def Service_ChangePassword_def new_password_def store_password_def Service_requirePassword_def
  Service_BeginTOTPEnrolment_def Service_mintRecoveryCodes_def Service_ConfirmTOTPEnrolment_def
  Service_RegenerateRecoveryCodes_def Service_removeSecondFactor_def Service_DisableTOTP_def
  Service_DisableTOTPWithCode_def Service_TOTPStatus_def

text \<open>The handlers of a service, with whatever a request carries.\<close>

definition forget :: "('i, 'w, 'a) proc \<Rightarrow> ('i, 'w, unit) proc" where
  "forget p = thenP p (\<lambda>_. Ret ())"

inductive_set handlers :: "('g, 'r) Service \<Rightarrow> (Input, ('g, 'r) World, unit) proc set" for s where
  "forget (Service_Register s email pw) \<in> handlers s"
| "forget (Service_login s req) \<in> handlers s"
| "forget (Service_Refresh s token) \<in> handlers s"
| "forget (Service_Logout s token) \<in> handlers s"
| "forget (Service_LogoutEverywhere uid reason) \<in> handlers s"
| "forget (Service_ChangePassword s uid current new) \<in> handlers s"
| "forget (Service_AuthorizeWagering uid) \<in> handlers s"
| "forget (Service_BeginTOTPEnrolment s uid) \<in> handlers s"
| "forget (Service_ConfirmTOTPEnrolment s uid code) \<in> handlers s"
| "forget (Service_RegenerateRecoveryCodes s uid pw) \<in> handlers s"
| "forget (Service_DisableTOTP s uid pw) \<in> handlers s"
| "forget (Service_DisableTOTPWithCode s uid code) \<in> handlers s"
| "forget (Service_TOTPStatus s uid) \<in> handlers s"

lemma handler_obeys:
  assumes "p \<in> handlers s"
  shows "obeys (auth_step s) p"
  using assms
  by cases (auto simp: forget_def handler_defs refresh_request_def Let_def Service_cappedExpiry_le
      intro!: obeys_bindP obeys_thenP split: option.splits sum.splits)

end
