(* ===== verification/AuthFacts.thy ===== *)
theory AuthFacts
  imports AuthInvariant
begin

text \<open>
  What the transactions and handlers of the auth service do: rotation on every branch, the finality of
  a redemption and of a revocation, what a successful login, refresh and password change went through.
\<close>

section \<open>Rotation\<close>

lemma presented_unique:
  assumes "db_typed pg db" "t \<in> set (tokens db)" "f \<in> set (families db)" "f_id f = t_family t"
    "find_presented (t_hash t) db = Some (t', f', u')"
  shows "t' = t \<and> f' = f"
proof -
  note p = find_presentedD [OF assms(5)]
  have "t' = t" using assms(1,2) p(1,2) unfolding db_typed_def by (meson distinct_map inj_onD)
  moreover have "f' = f" using assms(1,3,4) p(3,4) calculation unfolding db_typed_def by (metis distinct_map inj_onD)
  ultimately show ?thesis by simp
qed

lemma find_unique: "distinct (map k xs) \<Longrightarrow> x \<in> set xs \<Longrightarrow> find (\<lambda>y. k y = k x) xs = Some x"
  by (induction xs) (auto simp: rev_image_eqI)

lemma present:
  assumes "db_typed pg db" "t \<in> set (tokens db)" "f \<in> set (families db)" "u \<in> set (users db)"
    "f_id f = t_family t" "u_id u = f_user f" "t_hash t = h"
  shows "find_presented h db = Some (t, f, u)"
proof -
  have "find (\<lambda>r. t_hash r = h) (tokens db) = Some t" "find (\<lambda>r. f_id r = t_family t) (families db) = Some f"
    "find (\<lambda>r. u_id r = f_user f) (users db) = Some u"
    using assms find_unique [of t_hash "tokens db" t] find_unique [of f_id "families db" f] find_unique [of u_id "users db" u]
    by (simp_all add: db_typed_def)
  then show ?thesis by (simp add: find_presented_def)
qed

lemma typed_user:
  assumes "db_typed pg db" "u \<in> set (users db)"
  shows "\<exists>status. ParseUserStatus (u_status u) = Inr status \<and> validID (u_id u) = Inr ()"
  using assms by (auto simp: db_typed_def list_all_iff user_checks_def ParseUserStatus_def)

lemma rotate_outcome:
  assumes "rotateAttempt fault req db = (Inr (rec, outcome, why), db')"
  shows "(\<exists>db'. rotate_tx req db = TxCommit (rec, outcome, why) db') \<or> rotate_tx req db = TxRollback (rec, outcome, why)"
  using assms by (auto simp: rotateAttempt_def inTx_def split: tx_end.splits if_splits)

text \<open>What a successful rotation found, and what it left behind.\<close>

lemma redeem_never_reuses: "redeem req rec db = TxRollback x \<Longrightarrow> x = (rec, RotateReuse, RevokedReasonReuseDetected)"
  by (auto simp: redeem_def Let_def split: sum.splits if_splits sql_error.splits)

lemma rotate_rollback:
  assumes "rotate_tx req db = TxRollback x"
  obtains rec where "x = (rec, RotateReuse, RevokedReasonReuseDetected)"
proof (cases "find_presented (rq_presented req) db")
  case None
  then show thesis using assms by (simp add: rotate_tx_def)
next
  case (Some p)
  obtain t f u where p: "p = (t, f, u)" by (cases p) auto
  show thesis using assms Some p
    by (auto simp: rotate_tx_def Let_def split: sum.splits if_splits dest: redeem_never_reuses intro: that)
qed

lemma rotated:
  assumes "rotateAttempt fault req db = (Inr (rec, RotateOK, why), db')"
  obtains t f u status where "find_presented (rq_presented req) db = Some (t, f, u)" "f_revoked f = None"
    "u_changed u \<le> f_started f" "rq_now req < t_expires t" "t_used t = None"
    "ParseUserStatus (u_status u) = Inr status"
    "redeem req \<lparr>sr_user = f_user f, sr_family = f_id f, sr_started = f_started f, sr_token = t_id t,
       sr_expires = 0, sr_status = status\<rparr> db = TxCommit (rec, RotateOK, why) db'"
proof -
  have "rotate_tx req db \<noteq> TxRollback (rec, RotateOK, why)"
  proof
    assume "rotate_tx req db = TxRollback (rec, RotateOK, why)"
    then obtain rec' where "(rec, RotateOK, why) = (rec', RotateReuse, RevokedReasonReuseDetected)" by (rule rotate_rollback)
    then show False by simp
  qed
  then have c: "rotate_tx req db = TxCommit (rec, RotateOK, why) db'"
    using assms by (auto simp: rotateAttempt_def inTx_def split: tx_end.splits if_splits)
  then show thesis by (cases rule: rotate_tx_cases) (use that in auto)
qed

lemma rotated_used:
  assumes "rotateAttempt fault req db = (Inr (rec, RotateOK, why), db')" "db_typed pg db"
  obtains t t' where "t \<in> set (tokens db)" "t_hash t = rq_presented req" "t' \<in> set (tokens db')"
    "t_hash t' = rq_presented req" "t_used t' = Some (rq_now req)"
proof -
  obtain t f u status where r: "find_presented (rq_presented req) db = Some (t, f, u)" "t_used t = None"
    "redeem req \<lparr>sr_user = f_user f, sr_family = f_id f, sr_started = f_started f, sr_token = t_id t,
       sr_expires = 0, sr_status = status\<rparr> db = TxCommit (rec, RotateOK, why) db'"
    using assms(1) by (rule rotated)
  note p = find_presentedD [OF r(1)]
  obtain n where "db' = db\<lparr>tokens := map (\<lambda>r. if t_id r = t_id t \<and> t_used r = None
      then r\<lparr>t_used := Some (rq_now req)\<rparr> else r) (tokens db) @ [n]\<rparr>"
    using r(3) by (rule redeem_commit) auto
  then have "t\<lparr>t_used := Some (rq_now req)\<rparr> \<in> set (tokens db')" using p(1) r(2) by (force simp: image_iff)
  then show thesis using that [of t "t\<lparr>t_used := Some (rq_now req)\<rparr>"] p by simp
qed

text \<open>A token that was used is never redeemed again, whatever happened since.\<close>

lemma used_not_rotated:
  assumes "db_typed pg db" "t \<in> set (tokens db)" "t_hash t = rq_presented req" "t_used t \<noteq> None"
  shows "fst (rotateAttempt fault req db) \<noteq> Inr (rec, RotateOK, why)"
proof
  assume "fst (rotateAttempt fault req db) = Inr (rec, RotateOK, why)"
  then have "rotateAttempt fault req db = (Inr (rec, RotateOK, why), snd (rotateAttempt fault req db))" by (metis prod.collapse)
  then obtain t' f u where t': "find_presented (rq_presented req) db = Some (t', f, u)" "t_used t' = None" by (rule rotated)
  have "t' = t" using find_presentedD(1,2) [OF t'(1)] assms(1-3) unfolding db_typed_def by (metis distinct_map inj_onD)
  then show False using t'(2) assms(4) by simp
qed

text \<open>A revoked family, and a family older than the password, never rotate.\<close>

lemma dead_not_rotated:
  assumes "db_typed pg db" "t \<in> set (tokens db)" "t_hash t = rq_presented req" "f \<in> set (families db)" "f_id f = t_family t"
    "f_revoked f \<noteq> None \<or> (\<exists>u \<in> set (users db). u_id u = f_user f \<and> f_started f < u_changed u)"
  shows "fst (rotateAttempt fault req db) \<noteq> Inr (rec, RotateOK, why)"
proof
  assume "fst (rotateAttempt fault req db) = Inr (rec, RotateOK, why)"
  then have "rotateAttempt fault req db = (Inr (rec, RotateOK, why), snd (rotateAttempt fault req db))" by (metis prod.collapse)
  then obtain t' f' u' where r: "find_presented (rq_presented req) db = Some (t', f', u')" "f_revoked f' = None"
    "u_changed u' \<le> f_started f'" by (rule rotated)
  have "f' = f" using presented_unique [OF assms(1,2,4,5)] r(1) assms(3) by simp
  moreover have "u' = u" if "u \<in> set (users db)" "u_id u = f_user f" for u
    using that find_presentedD(5,6) [OF r(1)] calculation assms(1) unfolding db_typed_def by (metis distinct_map inj_onD)
  ultimately show False using r(2,3) assms(6) by auto
qed

section \<open>From one world to a later one\<close>

lemma reach_step:
  assumes "threads_reach ok (handlers s) ts0 w0 ts w" "all_obey (auth_step s) ts0"
  shows "db_step (c_email (prim s)) (sessionLifetime s) (w_db w0) (w_db w)"
  using assms(1) handler_obeys assms(2)
proof (rule threads_invariant [where R = "auth_step s"])
  show "db_step (c_email (prim s)) (sessionLifetime s) (w_db w0) (w_db w0)" by simp
  show "db_step (c_email (prim s)) (sessionLifetime s) (w_db w0) (w_db w')"
    if "auth_step s i w w'" "db_step (c_email (prim s)) (sessionLifetime s) (w_db w0) (w_db w)" for i w w'
    using that db_step_trans unfolding auth_step_def by blast
qed

lemma later_token:
  assumes "threads_reach ok (handlers s) ts0 w0 ts w" "all_obey (auth_step s) ts0" "t \<in> set (tokens (w_db w0))"
  obtains t' where "t' \<in> set (tokens (w_db w))" "token_kept t t'"
  using reach_step [OF assms(1,2)] assms(3) grows_mem unfolding db_step_def db_kept_def by metis

lemma later_family:
  assumes "threads_reach ok (handlers s) ts0 w0 ts w" "all_obey (auth_step s) ts0" "f \<in> set (families (w_db w0))"
  obtains f' where "f' \<in> set (families (w_db w))" "family_kept f f'"
  using reach_step [OF assms(1,2)] assms(3) grows_mem unfolding db_step_def db_kept_def by metis

lemma later_ok:
  assumes "threads_reach ok (handlers s) ts0 w0 ts w" "all_obey (auth_step s) ts0"
    "db_ok (c_email (prim s)) (sessionLifetime s) (w_db w0)"
  shows "db_ok (c_email (prim s)) (sessionLifetime s) (w_db w)"
  using reach_step [OF assms(1,2)] assms(3) unfolding db_step_def by blast

section \<open>What reuse detection commits\<close>

lemma runs_db_act:
  "runs (db_act f) tr x \<longleftrightarrow> (\<exists>i w db. tr = [(i, w, w\<lparr>w_db := db\<rparr>)] \<and> f i (w_db w) = (x, db))"
proof
  assume "runs (db_act f) tr x"
  then obtain i w w' where "tr = [(i, w, w')]" "(case f i (w_db w) of (r, db) \<Rightarrow> (r, w\<lparr>w_db := db\<rparr>)) = (x, w')"
    unfolding db_act_def runs_act by blast
  then show "\<exists>i w db. tr = [(i, w, w\<lparr>w_db := db\<rparr>)] \<and> f i (w_db w) = (x, db)" by (cases "f i (w_db w)") auto
next
  assume "\<exists>i w db. tr = [(i, w, w\<lparr>w_db := db\<rparr>)] \<and> f i (w_db w) = (x, db)"
  then show "runs (db_act f) tr x" unfolding db_act_def runs_act by fastforce
qed

fun reason_of :: "RotateOutcome \<Rightarrow> RevokedReason" where
  "reason_of RotateReuse = RevokedReasonReuseDetected"
| "reason_of RotateCredentialChange = RevokedReasonCredentialChange"
| "reason_of _ = RevokedReasonUnknown"

lemma redeem_reason: "redeem req r db = TxCommit (rec, outcome, why) d \<Longrightarrow> why = reason_of outcome"
  by (erule redeem_commit) simp

lemma rotate_reason:
  assumes "rotateAttempt fault req db = (Inr (rec, outcome, why), db')"
  shows "why = reason_of outcome"
  using rotate_outcome [OF assms]
proof (elim disjE exE)
  fix d
  assume c: "rotate_tx req db = TxCommit (rec, outcome, why) d"
  show ?thesis
  proof (cases "find_presented (rq_presented req) db")
    case None
    then show ?thesis using c by (auto simp: rotate_tx_def)
  next
    case (Some p)
    obtain t f u where p: "p = (t, f, u)" by (cases p) auto
    obtain owner where o: "from_domain (new_id (f_user f)) = Inr owner" using c Some p by (auto simp: rotate_tx_def split: sum.splits)
    obtain status where st: "ParseUserStatus (u_status u) = Inr status" using c Some p o by (auto simp: rotate_tx_def split: sum.splits)
    show ?thesis
      using c unfolding rotate_tx_def Some p o st option.case prod.case sum.case Let_def
      by (auto split: if_split_asm dest!: redeem_reason)
  qed
next
  assume "rotate_tx req db = TxRollback (rec, outcome, why)"
  then show ?thesis by (rule rotate_rollback) simp
qed

lemma revoked_after:
  assumes "Store_RevokeFamily fault fid t reason db = (Inr (), db')" "f \<in> set (families db')" "f_id f = fid"
  shows "f_revoked f \<noteq> None"
proof -
  obtain n where "run_stmt fault (revokeFamilySQL fid t (RevokedReason_String reason)) db = (Inr n, db')"
    using assms(1) unfolding Store_RevokeFamily_def by (auto split: if_split_asm prod.splits sum.splits)
  then have "revokeFamilySQL fid t (RevokedReason_String reason) db = Inr (n, db')"
    unfolding run_stmt_def by (auto split: call_fault.splits sum.splits if_split_asm)
  then have db': "families db' = map (\<lambda>r. if f_id r = fid \<and> f_revoked r = None
      then revoke_row t (RevokedReason_String reason) r else r) (families db)"
    unfolding revokeFamilySQL_def update_families_def by (simp split: if_split_asm) force
  obtain r where "r \<in> set (families db)" "f = (if f_id r = fid \<and> f_revoked r = None
      then revoke_row t (RevokedReason_String reason) r else r)" using assms(2) unfolding db' by auto
  then show ?thesis using assms(3) by (auto simp: revoke_row_def split: if_splits)
qed

lemma reuse_revoked:
  assumes "runs (Store_Rotate req :: (Input, ('g, 'r) World, _) proc) tr (Inr (rec, RotateReuse))"
  obtains i w w' where "last tr = (i, w, w')" "tr \<noteq> []" "\<forall>f \<in> set (families (w_db w')). f_id f = sr_family rec \<longrightarrow> f_revoked f \<noteq> None"
proof -
  obtain tr1 tr2 rec' outcome why where r: "tr = tr1 @ tr2"
    "runs (db_act (\<lambda>i. rotateAttempt (in_fault i) req) :: (Input, ('g, 'r) World, _) proc) tr1 (Inr (rec', outcome, why))"
    "runs (if why = RevokedReasonUnknown then Ret (Inr (rec', outcome)) else
       bindP (db_act (\<lambda>i. Store_RevokeFamily (in_fault i) (sr_family rec') (rq_now req) why)) (\<lambda>_. Ret (Inr (rec', outcome)))
       :: (Input, ('g, 'r) World, _) proc)
       tr2 (Inr (rec, RotateReuse))"
    using assms unfolding Store_Rotate_def runs_bindP by auto
  have "outcome = RotateReuse" using r(3) by (auto simp: runs_bindP split: if_splits)
  then have why: "why = RevokedReasonReuseDetected" using r(2) by (auto simp: runs_db_act dest!: rotate_reason)
  then obtain i w db where "tr2 = [(i, w, w\<lparr>w_db := db\<rparr>)]" "rec' = rec"
    "Store_RevokeFamily (in_fault i) (sr_family rec) (rq_now req) why (w_db w) = (Inr (), db)"
    using r(3) by (auto simp: runs_bindP runs_db_act)
  then show thesis using that r(1) revoked_after by simp
qed

end
