(* ===== verification/AuthFlow.thy ===== *)
theory AuthFlow
  imports AuthFacts
begin

text \<open>
  What a handler of the auth service went through when it succeeded, stated over the actions it
  performed, and what a login that is refused costs.
\<close>

section \<open>The actions of a run\<close>

lemma runs_read: "runs (db_read f) tr x \<longleftrightarrow> (\<exists>i w. tr = [(i, w, w)] \<and> f i (w_db w) = x)"
  unfolding db_read_def runs_act by auto

lemma runs_pure: "runs (act (\<lambda>i w. (f i w, w))) tr x \<longleftrightarrow> (\<exists>i w. tr = [(i, w, w)] \<and> f i w = x)"
  unfolding runs_act by auto

lemma runs_clock: "runs clock tr (Inr t) \<longleftrightarrow> (\<exists>i w. tr = [(i, w, w)] \<and> in_now i = t)"
  unfolding clock_def runs_act by auto

lemma runs_instant: "runs Service_instant tr (Inr t) \<longleftrightarrow> (\<exists>i w. tr = [(i, w, w)] \<and> truncate_to 1000 (in_now i) = t)"
  unfolding Service_instant_def runs_act by (auto simp: time_utc_def)

lemma runs_minting: "runs (minting n mint) tr x \<longleftrightarrow> (\<exists>i w. tr = [(i, w, w)] \<and> mint (entropy_of n i) = x)"
  unfolding minting_def by (rule runs_pure)

text \<open>A sequence that returned a value went on after each of its parts.\<close>

lemma runs_bindP_Inr:
  "runs (bindP p k) tr (Inr y) \<longleftrightarrow> (\<exists>tr1 tr2 x. tr = tr1 @ tr2 \<and> runs p tr1 (Inr x) \<and> runs (k x) tr2 (Inr y))"
  unfolding runs_bindP by auto

lemma runs_bindE:
  assumes "runs (bindP p k) tr (Inr y)"
  obtains tr1 tr2 x where "tr = tr1 @ tr2" "runs p tr1 (Inr x)" "runs (k x) tr2 (Inr y)"
  using assms unfolding runs_bindP_Inr by blast

lemma runs_bind_Ret: "runs (bindP (Ret r) k) tr (Inr y) \<longleftrightarrow> (\<exists>x. r = Inr x \<and> runs (k x) tr (Inr y))"
  by (cases r) simp_all

lemma runs_if_Inl: "runs (if b then Ret (Inl e) else p) tr (Inr y) \<longleftrightarrow> \<not> b \<and> runs p tr (Inr y)"
  by simp

lemma runs_require:
  "runs (bindP p (\<lambda>b. if \<not> b then Ret (Inl e) else Ret (Inr ()))) tr (Inr ()) \<longleftrightarrow> runs p tr (Inr True)"
proof
  assume "runs (bindP p (\<lambda>b. if \<not> b then Ret (Inl e) else Ret (Inr ()))) tr (Inr ())"
  then obtain tr1 tr2 b where "tr = tr1 @ tr2" "runs p tr1 (Inr b)" "runs (if \<not> b then Ret (Inl e) else Ret (Inr ())) tr2 (Inr ())"
    by (rule runs_bindE)
  then show "runs p tr (Inr True)" by (cases b) simp_all
next
  assume "runs p tr (Inr True)"
  then show "runs (bindP p (\<lambda>b. if \<not> b then Ret (Inl e) else Ret (Inr ()))) tr (Inr ())"
    unfolding runs_bindP_Inr by (intro exI [of _ tr] exI [of _ "[]"] exI [of _ True]) simp
qed

section \<open>A password was verified\<close>

definition password_shown ::
  "('g, 'r) Service \<Rightarrow> string \<Rightarrow> Secret \<Rightarrow> (Input \<times> ('g, 'r) World \<times> ('g, 'r) World) list \<Rightarrow> bool" where
  "password_shown s hash password tr \<longleftrightarrow>
     (\<exists>(i, w, w') \<in> set tr. Hasher_Verify (c_argon (prim s)) (in_fault i \<noteq> NoFault) hash password = Inr True)"

lemma runs_verify:
  assumes "runs (Service_verifyPassword s hash password) tr (Inr True)"
  shows "password_shown s hash password tr"
  using assms unfolding Service_verifyPassword_def runs_act password_shown_def by (auto simp: Let_def)

lemma password_shown_append [simp]:
  "password_shown s h pw (tr1 @ tr2) \<longleftrightarrow> password_shown s h pw tr1 \<or> password_shown s h pw tr2"
  by (auto simp: password_shown_def)

section \<open>A second factor was consumed\<close>

definition totp_shown ::
  "('g, 'r) Service \<Rightarrow> string \<Rightarrow> TOTPRecord \<Rightarrow> string \<Rightarrow> (Input \<times> ('g, 'r) World \<times> ('g, 'r) World) list \<Rightarrow> bool" where
  "totp_shown s uid rec code tr \<longleftrightarrow>
     (\<exists>kr secret step. \<exists>(j, _, _) \<in> set tr. \<exists>(i, w, w') \<in> set tr.
        keyring s = Some kr \<and> Keyring_Open (c_open (prim s)) kr uid (tr_sealed rec) = Inr secret \<and>
        ValidateTOTPCode (c_hmac1 (prim s)) secret code (in_now j) (totpCfg s) = Inr (step, True) \<and>
        replay s (in_fault i) (in_now i) (w_guard w) uid step (replay_expiry (totpCfg s) (in_now j)) = (Inr True, w_guard w'))"

definition recovery_shown ::
  "('g, 'r) Service \<Rightarrow> string \<Rightarrow> Secret \<Rightarrow> (Input \<times> ('g, 'r) World \<times> ('g, 'r) World) list \<Rightarrow> bool" where
  "recovery_shown s uid code tr \<longleftrightarrow>
     (\<exists>rs now. \<exists>(i, w, w') \<in> set tr. recovery s = Some rs \<and>
        rs_consume rs (in_fault i) uid (HashRecoveryCode (c_sha256 (prim s)) (c_upper (prim s)) code) now (w_codes w)
          = (Inr True, w_codes w'))"

text \<open>Whether the account has a second factor is read in one of the actions; when it has, one was consumed.\<close>

definition second_factor_shown ::
  "('g, 'r) Service \<Rightarrow> string \<Rightarrow> LoginRequest \<Rightarrow> (Input \<times> ('g, 'r) World \<times> ('g, 'r) World) list \<Rightarrow> bool" where
  "second_factor_shown s uid req tr \<longleftrightarrow>
     (\<exists>(i, w, w') \<in> set tr.
        case Store_LoadTOTP (in_fault i) uid (w_db w) of
          Inl _ \<Rightarrow> False
        | Inr None \<Rightarrow> True
        | Inr (Some rec) \<Rightarrow> \<not> Confirmed rec \<or>
            (if Secret_IsZero (lr_recovery req) then totp_shown s uid rec (lr_totp req) tr
             else recovery_shown s uid (lr_recovery req) tr))"

lemma runs_consume_totp:
  assumes "runs (Service_consumeTOTPCode s uid rec code) tr (Inr ())"
  shows "totp_shown s uid rec code tr"
proof -
  obtain kr where kr: "keyring s = Some kr" using assms by (auto simp: Service_consumeTOTPCode_def split: option.splits)
  obtain secret where secret: "Keyring_Open (c_open (prim s)) kr uid (tr_sealed rec) = Inr secret"
    using assms unfolding Service_consumeTOTPCode_def kr option.case runs_bind_Ret by blast
  obtain tr1 tr2 now where c: "tr = tr1 @ tr2" "runs (clock :: ('a, 'b, time) handler) tr1 (Inr now)"
    and rest: "runs (bindP (Ret (ValidateTOTPCode (c_hmac1 (prim s)) secret code now (totpCfg s))) (\<lambda>(step, valid).
          if \<not> valid then Ret (Inl AuthSecondFactorInvalid)
          else let expiry = replay_expiry (totpCfg s) now in
            bindP (act (\<lambda>i w. case replay s (in_fault i) (in_now i) (w_guard w) uid step expiry of
                (r, g) \<Rightarrow> (r, w\<lparr>w_guard := g\<rparr>))) (\<lambda>first.
            if \<not> first then Ret (Inl AuthSecondFactorInvalid) else Ret (Inr ())))) tr2 (Inr ())"
    by (rule runs_bindE [OF assms [unfolded Service_consumeTOTPCode_def kr option.case secret bindP_simps]])
  obtain j u where j: "tr1 = [(j, u, u)]" "in_now j = now" using c(2) unfolding runs_clock by blast
  obtain step where v: "ValidateTOTPCode (c_hmac1 (prim s)) secret code now (totpCfg s) = Inr (step, True)"
    using rest unfolding runs_bind_Ret by (auto split: if_split_asm)
  obtain i w w' where i: "tr2 = [(i, w, w')]"
    "(case replay s (in_fault i) (in_now i) (w_guard w) uid step (replay_expiry (totpCfg s) now) of
        (r, g) \<Rightarrow> (r, w\<lparr>w_guard := g\<rparr>)) = (Inr True, w')"
    using rest unfolding v bindP_simps Let_def prod.case not_True_eq_False if_False runs_require runs_act by blast
  have "replay s (in_fault i) (in_now i) (w_guard w) uid step (replay_expiry (totpCfg s) now) = (Inr True, w_guard w')"
    using i(2) by (auto split: prod.splits)
  then show ?thesis
    unfolding totp_shown_def using kr secret v j i(1) c(1)
    by (intro exI bexI [of _ "(j, u, u)"] bexI [of _ "(i, w, w')"]) auto
qed

lemma runs_consume_recovery:
  assumes "runs (Service_consumeRecoveryCode s uid code) tr (Inr ())"
  shows "recovery_shown s uid code tr"
proof -
  obtain rs where rs: "recovery s = Some rs" using assms by (auto simp: Service_consumeRecoveryCode_def split: option.splits)
  define pick where "pick = MatchRecoveryCode (c_sha256 (prim s)) (c_upper (prim s))"
  obtain tr1 tr2 ds where c: "tr = tr1 @ tr2"
    and rest: "runs (let idx = pick ds code in
          if idx < 0 then Ret (Inl AuthSecondFactorInvalid)
          else bindP Service_instant (\<lambda>now.
            bindP (codes_act (\<lambda>i. rs_consume rs (in_fault i) uid (ds ! nat idx) now)) (\<lambda>used.
            if \<not> used then Ret (Inl AuthSecondFactorInvalid) else Ret (Inr ())))) tr2 (Inr ())"
    unfolding pick_def by (rule runs_bindE [OF assms [unfolded Service_consumeRecoveryCode_def rs option.case]])
  have idx: "0 \<le> pick ds code" using rest by (auto simp: Let_def split: if_split_asm)
  then have d: "ds ! nat (pick ds code) = HashRecoveryCode (c_sha256 (prim s)) (c_upper (prim s)) code"
    using match_recovery(2) unfolding pick_def by blast
  have rest': "runs (bindP Service_instant (\<lambda>now.
      bindP (codes_act (\<lambda>i. rs_consume rs (in_fault i) uid (ds ! nat (pick ds code)) now)) (\<lambda>used.
      if \<not> used then Ret (Inl AuthSecondFactorInvalid) else Ret (Inr ())))) tr2 (Inr ())"
    using rest unfolding Let_def runs_if_Inl by blast
  obtain tr3 tr4 now where n: "tr2 = tr3 @ tr4"
    "runs (codes_act (\<lambda>i. rs_consume rs (in_fault i) uid (ds ! nat (pick ds code)) now)) tr4 (Inr True)"
    by (rule runs_bindE [OF rest']) (simp only: runs_require)
  obtain i w w' where i: "tr4 = [(i, w, w')]"
    "(case rs_consume rs (in_fault i) uid (ds ! nat (pick ds code)) now (w_codes w) of
        (r, cs) \<Rightarrow> (r, w\<lparr>w_codes := cs\<rparr>)) = (Inr True, w')"
    using n(2) unfolding codes_act_def runs_act by blast
  have "rs_consume rs (in_fault i) uid (HashRecoveryCode (c_sha256 (prim s)) (c_upper (prim s)) code) now (w_codes w)
      = (Inr True, w_codes w')"
    using i(2) d by (auto split: prod.splits)
  then show ?thesis
    unfolding recovery_shown_def using rs c n(1) i(1) by (intro exI bexI [of _ "(i, w, w')"]) auto
qed

lemma runs_second_factor:
  assumes "runs (Service_checkSecondFactor s uid req) tr (Inr ())"
  shows "second_factor_shown s uid req tr"
proof -
  obtain tr1 tr2 found where r: "tr = tr1 @ tr2" "runs (load_totp uid :: (Input, ('a, 'b) World, _) proc) tr1 (Inr found)"
    and rest: "runs (case found of
       None \<Rightarrow> Ret (Inr ())
     | Some rec \<Rightarrow>
         if \<not> Confirmed rec then Ret (Inr ())
         else if \<not> Secret_IsZero (lr_recovery req) then Service_consumeRecoveryCode s uid (lr_recovery req)
         else if lr_totp req = [] then Ret (Inl AuthSecondFactorRequired)
         else Service_consumeTOTPCode s uid rec (lr_totp req)) tr2 (Inr ())"
    by (rule runs_bindE [OF assms [unfolded Service_checkSecondFactor_def]])
  obtain i w where i: "tr1 = [(i, w, w)]" "Store_LoadTOTP (in_fault i) uid (w_db w) = Inr found"
    using r(2) unfolding load_totp_def runs_read by blast
  have "case found of None \<Rightarrow> True | Some rec \<Rightarrow> \<not> Confirmed rec \<or>
      (if Secret_IsZero (lr_recovery req) then totp_shown s uid rec (lr_totp req) tr2
       else recovery_shown s uid (lr_recovery req) tr2)"
    using rest by (auto split: option.splits if_split_asm intro: runs_consume_totp runs_consume_recovery)
  moreover have "totp_shown s uid rec code tr2 \<Longrightarrow> totp_shown s uid rec code tr" for rec code
    unfolding totp_shown_def r(1) set_append by blast
  moreover have "recovery_shown s uid code tr2 \<Longrightarrow> recovery_shown s uid code tr" for code
    unfolding recovery_shown_def r(1) set_append by blast
  ultimately show ?thesis
    unfolding second_factor_shown_def using i r(1)
    by (intro bexI [of _ "(i, w, w)"]) (auto split: option.splits if_split_asm)
qed

section \<open>A session was opened\<close>

text \<open>The family and its first token are in the tables after one of the actions.\<close>

definition session_opened ::
  "('g, 'r) Service \<Rightarrow> Session \<Rightarrow> (Input \<times> ('g, 'r) World \<times> ('g, 'r) World) list \<Rightarrow> bool" where
  "session_opened s se tr \<longleftrightarrow>
     (\<exists>(i, w, w') \<in> set tr. \<exists>f \<in> set (families (w_db w')). \<exists>t \<in> set (tokens (w_db w')).
        f_id f = se_id se \<and> f_user f = ur_id (se_user se) \<and> f_revoked f = None \<and>
        t_family t = se_id se \<and> t_hash t = HashToken (c_sha256 (prim s)) (se_refresh se) \<and> t_used t = None \<and>
        t_expires t = se_expires se)"

lemma created_session:
  assumes "Store_CreateSession fault ns db = (Inr (), db')"
  obtains f t where "f \<in> set (families db')" "f_id f = ns_family ns" "f_user f = ns_user ns" "f_started f = ns_started ns"
    "f_revoked f = None" "t \<in> set (tokens db')" "t_family t = ns_family ns" "t_hash t = ns_hash ns" "t_used t = None"
    "t_expires t = ns_expires ns"
proof -
  have "create_session_tx ns db = TxCommit () db'"
    using assms unfolding Store_CreateSession_def inTx_def
    by (auto simp: create_session_tx_def split: if_split_asm sum.splits)
  then obtain db1 n m where ins: "insert_family \<lparr>f_id = ns_family ns, f_user = ns_user ns, f_started = ns_started ns,
      f_revoked = None, f_reason = None\<rparr> db = Inr (n, db1)"
    "insert_token \<lparr>t_id = ns_token ns, t_family = ns_family ns, t_parent = None, t_hash = ns_hash ns,
      t_issued = ns_issued ns, t_expires = ns_expires ns, t_used = None\<rparr> db1 = Inr (m, db')"
    unfolding create_session_tx_def by (auto split: sum.splits)
  have "families db1 = families db @ [\<lparr>f_id = ns_family ns, f_user = ns_user ns, f_started = ns_started ns,
      f_revoked = None, f_reason = None\<rparr>]"
    using ins(1) unfolding insert_family_def by (auto split: if_split_asm)
  moreover have "families db' = families db1" "tokens db' = tokens db1 @ [\<lparr>t_id = ns_token ns, t_family = ns_family ns,
      t_parent = None, t_hash = ns_hash ns, t_issued = ns_issued ns, t_expires = ns_expires ns, t_used = None\<rparr>]"
    using ins(2) unfolding insert_token_def by (auto split: if_split_asm)
  ultimately show thesis
    by (intro that [of "\<lparr>f_id = ns_family ns, f_user = ns_user ns, f_started = ns_started ns, f_revoked = None, f_reason = None\<rparr>"
          "\<lparr>t_id = ns_token ns, t_family = ns_family ns, t_parent = None, t_hash = ns_hash ns, t_issued = ns_issued ns,
            t_expires = ns_expires ns, t_used = None\<rparr>"]) simp_all
qed

lemma runs_open_session:
  assumes "runs (Service_openSession s user) tr (Inr se)"
  shows "se_user se = user \<and> session_opened s se tr"
  using assms unfolding Service_openSession_def Let_def
proof (elim runs_bindE)
  fix tr1 tr2 familyID tr3 tr4 tokenID tr5 tr6 refresh tr7 tr8 now tr9 tr10 x tr11 tr12 y
  let ?ns = "\<lparr>ns_family = familyID, ns_user = ur_id user, ns_started = now, ns_token = tokenID,
      ns_hash = HashToken (c_sha256 (prim s)) refresh, ns_issued = now, ns_expires = Service_cappedExpiry s now now\<rparr>"
  assume tr: "tr = tr1 @ tr2" "tr2 = tr3 @ tr4" "tr4 = tr5 @ tr6" "tr6 = tr7 @ tr8" "tr8 = tr9 @ tr10"
    and c: "runs (db_act (\<lambda>i. Store_CreateSession (in_fault i) ?ns)) tr9 (Inr x)"
    and e: "runs (case y of (access, claims) \<Rightarrow> Ret (Inr \<lparr>se_user = user, se_access = access, se_claims = claims,
      se_refresh = refresh, se_expires = Service_cappedExpiry s now now, se_id = familyID\<rparr>)) tr12 (Inr se)"
  obtain i w db where i: "tr9 = [(i, w, w\<lparr>w_db := db\<rparr>)]" "Store_CreateSession (in_fault i) ?ns (w_db w) = (Inr (), db)"
    using c unfolding runs_db_act by auto
  have se: "se_user se = user" "se_id se = familyID" "se_refresh se = refresh" "se_expires se = Service_cappedExpiry s now now"
    using e by (cases y; simp)+
  have mem: "(i, w, w\<lparr>w_db := db\<rparr>) \<in> set tr" by (simp add: tr i(1))
  obtain f t where "f \<in> set (families db)" "f_id f = ns_family ?ns" "f_user f = ns_user ?ns" "f_started f = ns_started ?ns"
    "f_revoked f = None" "t \<in> set (tokens db)" "t_family t = ns_family ?ns" "t_hash t = ns_hash ?ns" "t_used t = None"
    "t_expires t = ns_expires ?ns"
    using i(2) by (rule created_session)
  then show ?thesis unfolding session_opened_def using se mem
    by (intro conjI bexI [of _ "(i, w, w\<lparr>w_db := db\<rparr>)"]) (auto intro!: bexI [of _ f] bexI [of _ t])
qed

section \<open>A login that succeeded\<close>

lemma shown_mono:
  assumes "set tr \<subseteq> set tr'"
  shows "password_shown s h pw tr \<Longrightarrow> password_shown s h pw tr'"
    "second_factor_shown s uid req tr \<Longrightarrow> second_factor_shown s uid req tr'"
    "session_opened s se tr \<Longrightarrow> session_opened s se tr'"
proof -
  show "password_shown s h pw tr \<Longrightarrow> password_shown s h pw tr'" "session_opened s se tr \<Longrightarrow> session_opened s se tr'"
    using assms unfolding password_shown_def session_opened_def by blast+
  have t: "totp_shown s uid rec code tr \<Longrightarrow> totp_shown s uid rec code tr'" for rec code
    using assms unfolding totp_shown_def by blast
  have r: "recovery_shown s uid code tr \<Longrightarrow> recovery_shown s uid code tr'" for code
    using assms unfolding recovery_shown_def by blast
  assume "second_factor_shown s uid req tr"
  then obtain i w w' where m: "(i, w, w') \<in> set tr" and f: "case Store_LoadTOTP (in_fault i) uid (w_db w) of
          Inl _ \<Rightarrow> False
        | Inr None \<Rightarrow> True
        | Inr (Some rec) \<Rightarrow> \<not> Confirmed rec \<or>
            (if Secret_IsZero (lr_recovery req) then totp_shown s uid rec (lr_totp req) tr
             else recovery_shown s uid (lr_recovery req) tr)" unfolding second_factor_shown_def by blast
  have "case Store_LoadTOTP (in_fault i) uid (w_db w) of
          Inl _ \<Rightarrow> False
        | Inr None \<Rightarrow> True
        | Inr (Some rec) \<Rightarrow> \<not> Confirmed rec \<or>
            (if Secret_IsZero (lr_recovery req) then totp_shown s uid rec (lr_totp req) tr'
             else recovery_shown s uid (lr_recovery req) tr')"
    using f t r by (auto split: sum.splits option.splits if_split_asm)
  then show "second_factor_shown s uid req tr'" unfolding second_factor_shown_def using m assms by blast
qed

lemma runs_login_user:
  assumes "runs (login_user s req user) tr (Inr se)"
  shows "se_user se = user \<and> password_shown s (ur_hash user) (lr_password req) tr \<and>
    UserStatus_CanAuthenticate (ur_status user) \<and> second_factor_shown s (ur_id user) req tr \<and> session_opened s se tr"
proof -
  obtain tr1 tr2 m where v: "tr = tr1 @ tr2" "runs (Service_verifyPassword s (ur_hash user) (lr_password req)) tr1 (Inr m)"
    and k: "runs (if \<not> m then Ret (Inl AuthCredentials)
     else if \<not> UserStatus_CanAuthenticate (ur_status user) then Ret (Inl (statusError (ur_status user)))
     else bindP (Service_checkSecondFactor s (ur_id user) req) (\<lambda>_.
       thenP (Service_maybeRehash s user (lr_password req)) (\<lambda>_. Service_openSession s user))) tr2 (Inr se)"
    by (rule runs_bindE [OF assms [unfolded login_user_def]])
  have m: "m" "UserStatus_CanAuthenticate (ur_status user)"
    and k': "runs (bindP (Service_checkSecondFactor s (ur_id user) req) (\<lambda>_.
       thenP (Service_maybeRehash s user (lr_password req)) (\<lambda>_. Service_openSession s user))) tr2 (Inr se)"
    using k unfolding runs_if_Inl by blast+
  obtain tr3 tr4 u where f: "tr2 = tr3 @ tr4" "runs (Service_checkSecondFactor s (ur_id user) req) tr3 (Inr u)"
    and o: "runs (thenP (Service_maybeRehash s user (lr_password req)) (\<lambda>_. Service_openSession s user)) tr4 (Inr se)"
    by (rule runs_bindE [OF k'])
  obtain tr5 tr6 where o': "tr4 = tr5 @ tr6" "runs (Service_openSession s user) tr6 (Inr se)"
    using o unfolding runs_thenP by blast
  have "password_shown s (ur_hash user) (lr_password req) tr1" using v(2) m(1) by (intro runs_verify) simp
  moreover have "second_factor_shown s (ur_id user) req tr3" using f(2) by (intro runs_second_factor) simp
  moreover note runs_open_session [OF o'(2)]
  moreover have "set tr1 \<subseteq> set tr" "set tr3 \<subseteq> set tr" "set tr6 \<subseteq> set tr" using v(1) f(1) o'(1) by auto
  ultimately show ?thesis using m(2) shown_mono by metis
qed

lemma runs_login:
  assumes "runs (Service_login s req) tr (Inr se)"
  obtains email i w w' where "NewEmail (c_lower (prim s)) (lr_email req) = Inr email" "(i, w, w') \<in> set tr"
    "Store_UserByEmail (c_lower (prim s)) (in_fault i) email (w_db w) = Inr (Some (se_user se))"
    "password_shown s (ur_hash (se_user se)) (lr_password req) tr" "UserStatus_CanAuthenticate (ur_status (se_user se))"
    "second_factor_shown s (ur_id (se_user se)) req tr" "session_opened s se tr"
proof -
  have len: "\<not> MaxPasswordLen < Secret_Len (lr_password req)" using assms by (auto simp: Service_login_def)
  have bad: "\<not> runs (bad_credentials s pw) tr (Inr se)" for pw tr unfolding bad_credentials_def runs_bindP_Inr by auto
  obtain email where e: "NewEmail (c_lower (prim s)) (lr_email req) = Inr email"
    using assms bad len by (auto simp: Service_login_def split: sum.splits)
  have r: "runs (bindP (user_by_email s email) (\<lambda>found.
          case found of None \<Rightarrow> bad_credentials s (lr_password req) | Some user \<Rightarrow> login_user s req user)) tr (Inr se)"
    using assms len e by (simp add: Service_login_def)
  obtain tr1 tr2 found where f: "tr = tr1 @ tr2" "runs (user_by_email s email) tr1 (Inr found)"
    "runs (case found of None \<Rightarrow> bad_credentials s (lr_password req) | Some user \<Rightarrow> login_user s req user) tr2 (Inr se)"
    by (rule runs_bindE [OF r])
  obtain user where u: "found = Some user" "runs (login_user s req user) tr2 (Inr se)"
    using f(3) bad by (cases found) auto
  obtain i w where i: "tr1 = [(i, w, w)]" "Store_UserByEmail (c_lower (prim s)) (in_fault i) email (w_db w) = Inr (Some user)"
    using f(2) u(1) unfolding user_by_email_def runs_read by auto
  have "set tr2 \<subseteq> set tr" "(i, w, w) \<in> set tr" using f(1) i(1) by auto
  then show thesis using runs_login_user [OF u(2)] shown_mono e i(2) that by metis
qed

section \<open>A login that is refused\<close>

lemma run_bind_act:
  "run_proc (i # is) (bindP (act f) k) w =
     (case f i w of (r, w') \<Rightarrow> run_proc is (case r of Inl e \<Rightarrow> Ret (Inl e) | Inr x \<Rightarrow> k x) w')"
  by (cases "f i w") (simp add: bindP_def thenP_act)

lemma run_then_act:
  "run_proc (i # is) (thenP (act f) k) w = (case f i w of (r, w') \<Rightarrow> run_proc is (k r) w')"
  by (cases "f i w") (simp add: thenP_act)

lemma thenP_assoc: "thenP (thenP p k) l = thenP p (\<lambda>x. thenP (k x) l)"
proof (induction p)
  case (Act f)
  have "thenP (thenP z k) l = thenP z (\<lambda>x. thenP (k x) l)" if "z \<in> Basic_BNFs.fsts (f i w)" for z i w
    using that by (rule Act.IH [OF rangeI rangeI])
  then have "map_prod (\<lambda>p. thenP (thenP p k) l) (\<lambda>w. w) (f i w) = map_prod (\<lambda>p. thenP p (\<lambda>x. thenP (k x) l)) (\<lambda>w. w) (f i w)"
    for i w by (intro prod.map_cong0) auto
  then show ?case by (simp add: prod.map_comp comp_def)
qed simp

lemma bindP_assoc: "bindP (bindP p k) l = bindP p (\<lambda>x. bindP (k x) l)"
  unfolding bindP_def thenP_assoc by (rule arg_cong2 [where f = thenP]) (auto simp: fun_eq_iff split: sum.splits)

text \<open>One action of a handler run alone.\<close>

lemma run_actions:
  "run_proc (i # is) (bindP (db_read f) k) w = run_proc is (case f i (w_db w) of Inl e \<Rightarrow> Ret (Inl e) | Inr x \<Rightarrow> k x) w"
  "run_proc (i # is) (bindP (db_act g) k) w = (case g i (w_db w) of
     (r, db) \<Rightarrow> run_proc is (case r of Inl e \<Rightarrow> Ret (Inl e) | Inr x \<Rightarrow> k x) (w\<lparr>w_db := db\<rparr>))"
  "run_proc (i # is) (bindP (minting n mint) k) w =
     run_proc is (case mint (entropy_of n i) of Inl e \<Rightarrow> Ret (Inl e) | Inr x \<Rightarrow> k x) w"
  "run_proc (i # is) (bindP Service_instant l) w = run_proc is (l (truncate_to 1000 (in_now i))) w"
  "run_proc (i # is) (bindP clock l) w = run_proc is (l (in_now i)) w"
  by (simp_all add: db_read_def db_act_def minting_def Service_instant_def clock_def run_bind_act time_utc_def split: prod.splits)

lemma new_hasher_decoy:
  assumes "NewHasher argon opts c seed (Some salt) = Inr h" "kdf_length argon" "length salt = unat (SaltLen (policy h))"
  shows "\<exists>key. DecodeHash (decoy h) = Inr (policy h, salt, key)" "Params_Validate (policy h) = Inr ()"
proof -
  obtain params x d where p: "Params_Validate params = Inr ()" "Hasher_hash argon params (Some salt) x = Inr d"
    "h = \<lparr>policy = params, decoy = d\<rparr>"
    using assms(1) unfolding NewHasher_def Let_def by (auto simp: result_simps split: if_split_asm option.splits)
  show "Params_Validate (policy h) = Inr ()" using p by simp
  have "length salt = unat (SaltLen params)" using assms(3) p(3) by simp
  then show "\<exists>key. DecodeHash (decoy h) = Inr (policy h, salt, key)"
    using hash_decodes [OF p(1) assms(2) _ p(2)] p(3) by simp
qed

lemma decoy_run:
  assumes "DecodeHash (decoy (hasher s)) = Inr (policy (hasher s), salt, key)" "Secret_Len pw \<le> MaxPasswordLen" "in_fault i = NoFault"
  shows "run_proc (i # is) (bad_credentials s pw) w =
    (Ret (Inl AuthCredentials), w\<lparr>w_work := w_work w @ [policy (hasher s)]\<rparr>)"
  using assms unfolding bad_credentials_def verify_decoy_def run_bind_act
  by (simp add: VerifyDecoy_def Hasher_Verify_def acquire_def Let_def worked_def kdf_params_def)

text \<open>
  An unknown address and a wrong password are answered alike, after one derivation: under the policy's
  parameters, or under those of the hash that is stored.
\<close>

lemma refused_alike:
  assumes "DecodeHash (decoy (hasher s)) = Inr (policy (hasher s), salt, key)" "Secret_Len (lr_password req) \<le> MaxPasswordLen"
    "NewEmail (c_lower (prim s)) (lr_email req) = Inr email" "in_fault i = NoFault" "in_fault j = NoFault"
    "Store_UserByEmail (c_lower (prim s)) NoFault email (w_db w) = Inr found"
    "\<And>user. found = Some user \<Longrightarrow>
       Hasher_Verify (c_argon (prim s)) False (ur_hash user) (lr_password req) = Inr False"
  shows "\<exists>p. run_proc [i, j] (Service_login s req) w =
      (Ret (Inl AuthCredentials), w\<lparr>w_work := w_work w @ [p]\<rparr>) \<and>
    (case found of None \<Rightarrow> p = policy (hasher s) | Some user \<Rightarrow> \<exists>salt key. DecodeHash (ur_hash user) = Inr (p, salt, key))"
proof -
  have run: "run_proc [i, j] (Service_login s req) w = run_proc [j]
      (case found of None \<Rightarrow> bad_credentials s (lr_password req) | Some user \<Rightarrow> login_user s req user) w"
    using assms(2-4,6) by (simp add: Service_login_def user_by_email_def db_read_def run_bind_act)
  show ?thesis
  proof (cases found)
    case None
    then show ?thesis using run decoy_run [OF assms(1,2,5), of "[]"] by simp
  next
    case (Some user)
    have v: "Hasher_Verify (c_argon (prim s)) False (ur_hash user) (lr_password req) = Inr False" by (rule assms(7) [OF Some])
    then obtain p salt key where d: "DecodeHash (ur_hash user) = Inr (p, salt, key)"
      by (auto simp: Hasher_Verify_def result_simps split: if_splits)
    have "run_proc [j] (login_user s req user) w = (Ret (Inl AuthCredentials), w\<lparr>w_work := w_work w @ [p]\<rparr>)"
      using assms(5) v d unfolding login_user_def Service_verifyPassword_def run_bind_act
      by (simp add: Let_def worked_def kdf_params_def)
    then show ?thesis using run Some d by simp
  qed
qed

section \<open>A refresh that succeeded\<close>

text \<open>One action found the presented token live and left it redeemed, with the new token as its successor.\<close>

definition redeemed_for ::
  "('g, 'r) Service \<Rightarrow> Secret \<Rightarrow> Session \<Rightarrow> DB \<Rightarrow> DB \<Rightarrow> bool" where
  "redeemed_for s presented se db db' \<longleftrightarrow>
     (\<exists>t \<in> set (tokens db). \<exists>f \<in> set (families db). \<exists>u \<in> set (users db). \<exists>n \<in> set (tokens db'). \<exists>now.
        t_hash t = HashToken (c_sha256 (prim s)) presented \<and> t_used t = None \<and> now < t_expires t \<and>
        f_id f = t_family t \<and> f_revoked f = None \<and> u_id u = f_user f \<and> u_changed u \<le> f_started f \<and>
        t\<lparr>t_used := Some now\<rparr> \<in> set (tokens db') \<and>
        n = \<lparr>t_id = t_id n, t_family = t_family t, t_parent = Some (t_id t),
          t_hash = HashToken (c_sha256 (prim s)) (se_refresh se), t_issued = now, t_expires = se_expires se, t_used = None\<rparr> \<and>
        se_id se = f_id f)"

lemma rotated_for:
  assumes "rotateAttempt fault req db = (Inr (rec, RotateOK, why), db')"
    "rq_presented req = HashToken (c_sha256 (prim s)) presented" "rq_hash req = HashToken (c_sha256 (prim s)) (se_refresh se)"
    "se_expires se = sr_expires rec" "se_id se = sr_family rec"
  shows "redeemed_for s presented se db db'"
proof -
  obtain t f u status where r: "find_presented (rq_presented req) db = Some (t, f, u)" "f_revoked f = None"
    "u_changed u \<le> f_started f" "rq_now req < t_expires t" "t_used t = None"
    "redeem req \<lparr>sr_user = f_user f, sr_family = f_id f, sr_started = f_started f, sr_token = t_id t,
       sr_expires = 0, sr_status = status\<rparr> db = TxCommit (rec, RotateOK, why) db'"
    using assms(1) by (rule rotated)
  let ?rec = "\<lparr>sr_user = f_user f, sr_family = f_id f, sr_started = f_started f, sr_token = t_id t,
       sr_expires = 0, sr_status = status\<rparr>"
  note p = find_presentedD [OF r(1)]
  obtain n where n: "(rec, RotateOK, why) = (?rec\<lparr>sr_expires := cappedExpiry req (sr_started ?rec)\<rparr>, RotateOK, RevokedReasonUnknown)"
    "n = \<lparr>t_id = rq_successor req, t_family = sr_family ?rec, t_parent = Some (sr_token ?rec), t_hash = rq_hash req,
       t_issued = rq_now req, t_expires = cappedExpiry req (sr_started ?rec), t_used = None\<rparr>"
    "db' = db\<lparr>tokens := map (\<lambda>r. if t_id r = sr_token ?rec \<and> t_used r = None
      then r\<lparr>t_used := Some (rq_now req)\<rparr> else r) (tokens db) @ [n]\<rparr>"
    using r(6) by (rule redeem_commit)
  have "t\<lparr>t_used := Some (rq_now req)\<rparr> \<in> set (tokens db')" using p(1) r(5) n(3) by (force simp: image_iff)
  moreover have "n \<in> set (tokens db')" using n(3) by simp
  ultimately show ?thesis
    unfolding redeemed_for_def using r p n(1,2) assms(2-5)
    by (intro bexI [of _ t] bexI [of _ f] bexI [of _ u] bexI [of _ n] exI [of _ "rq_now req"]) auto
qed

lemma runs_rotate:
  assumes "runs (Store_Rotate req :: ('g, 'r, _) handler) tr (Inr (rec, RotateOK))"
  obtains i w db why where "(i, w, w\<lparr>w_db := db\<rparr>) \<in> set tr"
    "rotateAttempt (in_fault i) req (w_db w) = (Inr (rec, RotateOK, why), db)"
proof -
  obtain tr1 tr2 x where r: "tr = tr1 @ tr2" "runs (db_act (\<lambda>i. rotateAttempt (in_fault i) req) :: ('g, 'r, _) handler) tr1 (Inr x)"
    "runs ((case x of (rec, outcome, why) \<Rightarrow> if why = RevokedReasonUnknown then Ret (Inr (rec, outcome)) else
       bindP (db_act (\<lambda>i. Store_RevokeFamily (in_fault i) (sr_family rec) (rq_now req) why)) (\<lambda>_. Ret (Inr (rec, outcome))))
       :: ('g, 'r, _) handler) tr2 (Inr (rec, RotateOK))"
    by (rule runs_bindE [OF assms [unfolded Store_Rotate_def]])
  obtain rec' outcome why where x: "x = (rec', outcome, why)" by (cases x) auto
  have "rec' = rec \<and> outcome = RotateOK"
  proof (cases "why = RevokedReasonUnknown")
    case False
    then show ?thesis using r(3) unfolding x prod.case if_not_P [OF False] by (auto elim!: runs_bindE)
  qed (use r(3) in \<open>simp add: x\<close>)
  moreover obtain i w db where "tr1 = [(i, w, w\<lparr>w_db := db\<rparr>)]" "rotateAttempt (in_fault i) req (w_db w) = (Inr x, db)"
    using r(2) unfolding runs_db_act by blast
  ultimately show thesis using r(1) x by (intro that [of i w db why]) simp_all
qed

lemma runs_refreshed:
  assumes "runs (refreshed (s :: ('g, 'r) Service) successor now rec) tr (Inr se)"
  shows "se_refresh se = successor" "se_expires se = sr_expires rec" "se_id se = sr_family rec"
proof -
  have act: "UserStatus_CanAuthenticate (sr_status rec)"
    using assms by (cases "UserStatus_CanAuthenticate (sr_status rec)") (simp_all add: refreshed_def runs_thenP)
  have r: "runs (bindP (user_by_id s (sr_user rec)) (\<lambda>found.
        case found of
          None \<Rightarrow> Ret (Inl AuthSessionRevoked)
        | Some user \<Rightarrow>
            bindP (issue_token s (ur_id user) (sr_family rec)) (\<lambda>(access, claims).
            Ret (Inr \<lparr>se_user = user, se_access = access, se_claims = claims, se_refresh = successor,
              se_expires = sr_expires rec, se_id = sr_family rec\<rparr>)))) tr (Inr se)"
    using assms act by (simp add: refreshed_def)
  obtain tr1 found where f: "runs (case found of
          None \<Rightarrow> Ret (Inl AuthSessionRevoked)
        | Some user \<Rightarrow>
            bindP (issue_token s (ur_id user) (sr_family rec)) (\<lambda>(access, claims).
            Ret (Inr \<lparr>se_user = user, se_access = access, se_claims = claims, se_refresh = successor,
              se_expires = sr_expires rec, se_id = sr_family rec\<rparr>))) tr1 (Inr se)"
    by (rule runs_bindE [OF r])
  obtain user where u: "found = Some user" using f by (cases found) simp_all
  obtain tr2 x where x: "runs ((case x of (access, claims) \<Rightarrow>
            Ret (Inr \<lparr>se_user = user, se_access = access, se_claims = claims, se_refresh = successor,
              se_expires = sr_expires rec, se_id = sr_family rec\<rparr>)) :: ('g, 'r, Session) handler) tr2 (Inr se)"
    by (rule runs_bindE [OF f [unfolded u option.case]])
  then show "se_refresh se = successor" "se_expires se = sr_expires rec" "se_id se = sr_family rec"
    by (cases x, simp)+
qed

lemma runs_refresh:
  assumes "runs (Service_Refresh s presented) tr (Inr se)"
  obtains i w w' where "(i, w, w') \<in> set tr" "redeemed_for s presented se (w_db w) (w_db w')"
proof -
  have nz: "\<not> Secret_IsZero presented" using assms by (auto simp: Service_Refresh_def)
  obtain tr1 tr2 tid where a: "tr = tr1 @ tr2" "runs (bindP (minting TokenEntropyBytes NewRefreshTokenSecret) (\<lambda>successor.
        bindP Service_instant (\<lambda>now.
        bindP (Store_Rotate (refresh_request s presented tid successor now)) (\<lambda>(rec, outcome).
        case refusal outcome of
          Some e \<Rightarrow> Ret (Inl e)
        | None \<Rightarrow> refreshed s successor now rec)))) tr2 (Inr se)"
    by (rule runs_bindE [OF assms [unfolded Service_Refresh_def if_not_P [OF nz]]])
  obtain tr3 tr4 successor where b: "tr2 = tr3 @ tr4" "runs (bindP Service_instant (\<lambda>now.
        bindP (Store_Rotate (refresh_request s presented tid successor now)) (\<lambda>(rec, outcome).
        case refusal outcome of
          Some e \<Rightarrow> Ret (Inl e)
        | None \<Rightarrow> refreshed s successor now rec))) tr4 (Inr se)"
    by (rule runs_bindE [OF a(2)])
  obtain tr5 tr6 now where c: "tr4 = tr5 @ tr6" "runs (bindP (Store_Rotate (refresh_request s presented tid successor now))
       (\<lambda>(rec, outcome). case refusal outcome of
          Some e \<Rightarrow> Ret (Inl e)
        | None \<Rightarrow> refreshed s successor now rec)) tr6 (Inr se)"
    by (rule runs_bindE [OF b(2)])
  let ?req = "refresh_request s presented tid successor now"
  obtain tr7 tr8 x where d: "tr6 = tr7 @ tr8" "runs (Store_Rotate ?req) tr7 (Inr x)"
    "runs (case x of (rec, outcome) \<Rightarrow> case refusal outcome of
          Some e \<Rightarrow> Ret (Inl e) | None \<Rightarrow> refreshed s successor now rec) tr8 (Inr se)"
    by (rule runs_bindE [OF c(2)])
  obtain rec outcome where x: "x = (rec, outcome)" by (cases x)
  have ok: "outcome = RotateOK" using d(3) by (cases outcome) (auto simp: x)
  have end_run: "runs (refreshed s successor now rec) tr8 (Inr se)" using d(3) by (simp add: x ok)
  note se = runs_refreshed [OF end_run]
  obtain i w db why where m: "(i, w, w\<lparr>w_db := db\<rparr>) \<in> set tr7"
    "rotateAttempt (in_fault i) ?req (w_db w) = (Inr (rec, RotateOK, why), db)"
    using d(2) unfolding x ok by (rule runs_rotate)
  have "redeemed_for s presented se (w_db w) db"
    by (rule rotated_for [OF m(2)]) (simp_all add: refresh_request_def se)
  moreover have "(i, w, w\<lparr>w_db := db\<rparr>) \<in> set tr" using m(1) a(1) b(1) c(1) d(1) by simp
  ultimately show thesis using that by fastforce
qed

section \<open>A change of password that succeeded\<close>

lemma password_set:
  assumes "Store_SetPassword pg fault uid hash inst db = (Inr (), db')"
  obtains u where "u \<in> set (users db')" "u_id u = uid" "u_hash u = hash" "u_changed u = inst"
proof -
  let ?p = "\<lambda>u. u_id u = uid" and ?f = "\<lambda>u. u\<lparr>u_hash := hash, u_changed := inst\<rparr>"
  obtain n where r: "run_stmt fault (update_users pg ?p ?f) db = (Inr n, db')" "n \<noteq> 0"
    using assms unfolding Store_SetPassword_def one_user_def by (auto split: prod.splits sum.splits if_split_asm)
  have "update_users pg ?p ?f db = Inr (n, db')"
    using r(1) unfolding run_stmt_def by (auto split: call_fault.splits sum.splits if_split_asm)
  then have u: "n = length (filter ?p (users db))" "users db' = map (\<lambda>u. if ?p u then ?f u else u) (users db)"
    unfolding update_users_def by (auto split: if_split_asm)
  obtain u where "u \<in> set (users db)" "u_id u = uid"
    using u(1) r(2) by (metis (mono_tags, lifting) filter_False list.size(3))
  then show thesis using u(2) by (intro that [of "?f u"]) (auto simp: image_iff)
qed

lemma runs_hash:
  assumes "runs (Service_hashPassword s password) tr (Inr hash)"
  obtains i where "Hasher_Hash (c_argon (prim s)) (hasher s) (in_fault i \<noteq> NoFault)
         (entropy_of (unat (SaltLen (policy (hasher s)))) i) password = Inr hash"
  using assms unfolding Service_hashPassword_def runs_act by (auto simp: Let_def)

lemma hashed_verifies:
  assumes "Hasher_Hash argon h cancelled (entropy_of (unat (SaltLen (policy h))) i) password = Inr hash"
    "Params_Validate (policy h) = Inr ()" "kdf_length argon"
  shows "Hasher_Verify argon False hash password = Inr True"
proof -
  obtain salt where s: "entropy_of (unat (SaltLen (policy h))) i = Some salt" "Secret_Len password \<le> MaxPasswordLen"
    "Hasher_hash argon (policy h) (Some salt) (Expose password) = Inr hash"
    using assms(1) unfolding Hasher_Hash_def ValidatePassword_def
    by (auto simp: result_simps Let_def Hasher_hash_def entropy_of_def split: if_split_asm)
  have "length salt = unat (SaltLen (policy h))" using s(1) by (auto simp: entropy_of_def split: if_split_asm)
  then show ?thesis using verify_hashed [OF assms(2,3) _ s(3,2)] by simp
qed

text \<open>The old password was shown, and one action left the account with a hash of the new one.\<close>

definition password_replaced ::
  "('g, 'r) Service \<Rightarrow> string \<Rightarrow> Secret \<Rightarrow> (Input \<times> ('g, 'r) World \<times> ('g, 'r) World) list \<Rightarrow> bool" where
  "password_replaced s uid new tr \<longleftrightarrow>
     (\<exists>(i, w, w') \<in> set tr. \<exists>u \<in> set (users (w_db w')).
        u_id u = uid \<and> Hasher_Verify (c_argon (prim s)) False (u_hash u) new = Inr True)"

lemma password_replaced_mono: "password_replaced s uid new tr \<Longrightarrow> set tr \<subseteq> set tr' \<Longrightarrow> password_replaced s uid new tr'"
  unfolding password_replaced_def by blast

lemma runs_store_password:
  assumes "runs (store_password s uid hash) tr (Inr ())" "Hasher_Verify (c_argon (prim s)) False hash new = Inr True"
  shows "password_replaced s uid new tr"
proof -
  obtain tr1 tr2 now where a: "tr = tr1 @ tr2"
    "runs (bindP (db_act (\<lambda>i. Store_SetPassword (c_email (prim s)) (in_fault i) uid hash now)) (\<lambda>_.
       thenP (db_act (\<lambda>i. Store_RevokeUserSessions (in_fault i) uid now RevokedReasonCredentialChange))
         (\<lambda>_. Ret (Inr ())))) tr2 (Inr ())"
    by (rule runs_bindE [OF assms(1) [unfolded store_password_def]])
  obtain tr3 tr4 x where b: "tr2 = tr3 @ tr4"
    "runs (db_act (\<lambda>i. Store_SetPassword (c_email (prim s)) (in_fault i) uid hash now)) tr3 (Inr x)"
    by (rule runs_bindE [OF a(2)])
  obtain i w db where i: "tr3 = [(i, w, w\<lparr>w_db := db\<rparr>)]"
    "Store_SetPassword (c_email (prim s)) (in_fault i) uid hash now (w_db w) = (Inr (), db)"
    using b(2) unfolding runs_db_act by auto
  obtain u where "u \<in> set (users db)" "u_id u = uid" "u_hash u = hash" using i(2) by (rule password_set)
  then show ?thesis unfolding password_replaced_def using assms(2) a(1) b(1) i(1)
    by (intro bexI [of _ "(i, w, w\<lparr>w_db := db\<rparr>)"]) auto
qed

lemma runs_new_password:
  assumes "runs (new_password s uid user new) tr (Inr ())"
    "Params_Validate (policy (hasher s)) = Inr ()" "kdf_length (c_argon (prim s))"
  shows "password_replaced s uid new tr"
proof -
  have k: "runs (bindP (Service_verifyPassword s (ur_hash user) new) (\<lambda>same.
     if same then Ret (Inl AuthPasswordUnchanged)
     else bindP (Service_hashPassword s new) (store_password s uid))) tr (Inr ())"
    using assms(1) unfolding new_password_def runs_bind_Ret by blast
  obtain tr1 tr2 where a: "tr = tr1 @ tr2" "runs (bindP (Service_hashPassword s new) (store_password s uid)) tr2 (Inr ())"
    by (rule runs_bindE [OF k]) (unfold runs_if_Inl, blast)
  obtain tr3 tr4 hash where b: "tr2 = tr3 @ tr4" "runs (Service_hashPassword s new) tr3 (Inr hash)"
    "runs (store_password s uid hash) tr4 (Inr ())"
    by (rule runs_bindE [OF a(2)])
  have "Hasher_Verify (c_argon (prim s)) False hash new = Inr True"
    using b(2) by (rule runs_hash) (rule hashed_verifies [OF _ assms(2,3)])
  then have "password_replaced s uid new tr4" by (rule runs_store_password [OF b(3)])
  then show ?thesis by (rule password_replaced_mono) (simp add: a(1) b(1) subset_iff)
qed

lemma runs_change:
  assumes "runs (Service_ChangePassword s uid current new) tr (Inr ())"
    "Params_Validate (policy (hasher s)) = Inr ()" "kdf_length (c_argon (prim s))"
  obtains user where "password_shown s (ur_hash user) current tr" "password_replaced s uid new tr"
    "\<exists>(i, w, w') \<in> set tr. Store_UserByID (c_lower (prim s)) (in_fault i) uid (w_db w) = Inr (Some user)"
proof -
  obtain tr1 tr2 found where a: "tr = tr1 @ tr2" "runs (user_by_id s uid) tr1 (Inr found)" "runs (case found of
       None \<Rightarrow> Ret (Inl AuthCredentials)
     | Some user \<Rightarrow>
         if MaxPasswordLen < Secret_Len current then Ret (Inl AuthCredentials)
         else bindP (Service_verifyPassword s (ur_hash user) current) (\<lambda>matches.
           if \<not> matches then Ret (Inl AuthCredentials) else new_password s uid user new)) tr2 (Inr ())"
    by (rule runs_bindE [OF assms(1) [unfolded Service_ChangePassword_def]])
  obtain user where user: "found = Some user" using a(3) by (cases found) simp_all
  have k: "runs (bindP (Service_verifyPassword s (ur_hash user) current) (\<lambda>matches.
           if \<not> matches then Ret (Inl AuthCredentials) else new_password s uid user new)) tr2 (Inr ())"
    using a(3) unfolding user option.case runs_if_Inl by blast
  obtain tr3 tr4 m where b: "tr2 = tr3 @ tr4" "runs (Service_verifyPassword s (ur_hash user) current) tr3 (Inr m)"
    "runs (if \<not> m then Ret (Inl AuthCredentials) else new_password s uid user new) tr4 (Inr ())"
    by (rule runs_bindE [OF k])
  have m: m "runs (new_password s uid user new) tr4 (Inr ())" using b(3) unfolding runs_if_Inl by blast+
  have "set tr3 \<subseteq> set tr" "set tr4 \<subseteq> set tr" using a(1) b(1) by auto
  moreover have "password_shown s (ur_hash user) current tr3" using b(2) m(1) by (intro runs_verify) simp
  moreover have "password_replaced s uid new tr4" by (rule runs_new_password [OF m(2) assms(2,3)])
  ultimately have shown: "password_shown s (ur_hash user) current tr" "password_replaced s uid new tr"
    using shown_mono(1) password_replaced_mono by blast+
  obtain i w where "tr1 = [(i, w, w)]" "Store_UserByID (c_lower (prim s)) (in_fault i) uid (w_db w) = Inr (Some user)"
    using a(2) unfolding user user_by_id_def runs_read by blast
  then show thesis using a(1) shown by (intro that) auto
qed

end
