(* ===== verification/AuthSamples.thy ===== *)
theory AuthSamples
  imports AuthFlow
begin

text \<open>
  Concrete inputs for the auth service: primitives simple enough to compute with, a service over them,
  an account, its session and the inputs of its handlers.
\<close>

section \<open>Primitives\<close>

definition toy_argon :: kdf where
  "toy_argon pw salt t m p n = take n (pw @ salt @ replicate n CHR ''x'')"

definition toy_sha :: "string \<Rightarrow> string" where
  "toy_sha s = take 32 (s @ replicate 32 CHR ''x'')"

text \<open>The truncation reads the low four bytes of the step back.\<close>

definition toy_hmac1 :: "string \<Rightarrow> string \<Rightarrow> string" where
  "toy_hmac1 key message = take 8 message @ replicate 11 CHR ''x'' @ [char_of (4 :: nat)]"

definition toy_hmac256 :: "string \<Rightarrow> string \<Rightarrow> string" where
  "toy_hmac256 key message = take 32 (key @ message @ replicate 32 CHR ''x'')"

definition framed :: "string \<Rightarrow> string" where
  "framed s = replicate (length s) CHR ''x'' @ CHR ''y'' # s"

definition unframe :: "string \<Rightarrow> (string \<times> string) option" where
  "unframe s = (let n = length (takeWhile (\<lambda>c. c = CHR ''x'') s); rest = drop (Suc n) s in
     if length rest < n \<or> length s \<le> n then None else Some (take n rest, drop n rest))"

definition toy_seal :: gcm where
  "toy_seal key nonce plain a = framed a @ plain"

definition toy_open :: gcm_inverse where
  "toy_open key nonce cipher a =
     (case unframe cipher of None \<Rightarrow> None | Some (b, plain) \<Rightarrow> if b = a then Some plain else None)"

lemma unframe_framed: "unframe (framed s @ t) = Some (s, t)"
proof -
  have tw: "takeWhile (\<lambda>c. c = CHR ''x'') (replicate n CHR ''x'' @ CHR ''y'' # u) = replicate n CHR ''x''" for n u
    by (induction n) simp_all
  have "takeWhile (\<lambda>c. c = CHR ''x'') (framed s @ t) = replicate (length s) CHR ''x''"
    using tw [of "length s" "s @ t"] by (simp add: framed_def)
  moreover have "drop (Suc (length s)) (framed s @ t) = s @ t" by (simp add: framed_def)
  moreover have "length (framed s @ t) = Suc (2 * length s + length t)" by (simp add: framed_def)
  ultimately show ?thesis unfolding unframe_def Let_def length_replicate by simp
qed

lemma toy_gcm: "gcm_opens toy_seal toy_open" "gcm_binds toy_seal toy_open"
  by (simp_all add: gcm_opens_def gcm_binds_def toy_seal_def toy_open_def unframe_framed)

lemma toy_kdf: "kdf_length toy_argon"
  by (auto simp: kdf_length_def toy_argon_def min_def)

definition put_int :: "int \<Rightarrow> string" where
  "put_int i = (if i < 0 then ''-'' else ''+'') @ format_nat (nat \<bar>i\<bar>)"

definition get_int :: "string \<Rightarrow> int" where
  "get_int s = (if hd s = CHR ''-'' then - 1 else 1) * int (read_digits 0 (tl s))"

lemma get_put_int [simp]: "get_int (put_int i) = i"
  by (simp add: get_int_def put_int_def read_format_nat)

fun unframe_all :: "nat \<Rightarrow> string \<Rightarrow> string list option" where
  "unframe_all 0 s = (if s = [] then Some [] else None)"
| "unframe_all (Suc n) s =
     (case unframe s of
        None \<Rightarrow> None
      | Some (f, rest) \<Rightarrow> (case unframe_all n rest of None \<Rightarrow> None | Some fs \<Rightarrow> Some (f # fs)))"

lemma unframe_all_concat: "unframe_all (length fs) (concat (map framed fs)) = Some fs"
  by (induction fs) (simp_all add: unframe_framed)

definition toy_json :: json where
  "toy_json = \<lparr>
     put_header = (\<lambda>h. concat (map framed [h_alg h, h_typ h, h_crit h])),
     get_header = (\<lambda>s. case unframe_all 3 s of Some [a, t, c] \<Rightarrow> Some \<lparr>h_alg = a, h_typ = t, h_crit = c\<rparr> | _ \<Rightarrow> None),
     put_claims = (\<lambda>c. concat (map framed [w_iss c, w_sub c, w_aud c, w_jti c, w_sid c, put_int (w_iat c), put_int (w_nbf c),
       put_int (w_exp c)])),
     get_claims = (\<lambda>s. case unframe_all 8 s of Some [a, b, c, d, e, f, g, h] \<Rightarrow>
         Some \<lparr>w_iss = a, w_sub = b, w_aud = c, w_jti = d, w_sid = e, w_iat = get_int f, w_nbf = get_int g, w_exp = get_int h\<rparr>
       | _ \<Rightarrow> None),
     put_string = framed,
     get_string = (\<lambda>s. case unframe_all 1 s of Some [a] \<Rightarrow> Some a | _ \<Rightarrow> None),
     get_strings = (\<lambda>s. None)\<rparr>"

lemma toy_json_ok: "json_ok toy_json"
proof -
  have "unframe_all 3 (concat (map framed [a, b, c])) = Some [a, b, c]" for a b c
    using unframe_all_concat [of "[a, b, c]"] by (simp add: numeral_3_eq_3)
  moreover have "unframe_all 8 (concat (map framed [a, b, c, d, e, f, g, h])) = Some [a, b, c, d, e, f, g, h]" for a b c d e f g h
    using unframe_all_concat [of "[a, b, c, d, e, f, g, h]"] by (simp add: numeral_eq_Suc)
  moreover have "unframe_all 1 (framed a) = Some [a]" for a using unframe_all_concat [of "[a]"] by simp
  ultimately have "get_header toy_json (put_header toy_json h) = Some h" "get_claims toy_json (put_claims toy_json c) = Some c"
    "get_string toy_json (put_string toy_json s) = Some s" "put_string toy_json s \<noteq> []" for h c s
    by (simp_all add: toy_json_def framed_def)
  then show ?thesis by (simp add: json_ok_def)
qed

definition toy :: primitives where
  "toy = \<lparr>c_lower = (\<lambda>r. r), c_upper = (\<lambda>r. r), c_sha256 = toy_sha, c_hmac1 = toy_hmac1, c_hmac256 = toy_hmac256,
     c_argon = toy_argon, c_seal = toy_seal, c_open = toy_open, c_json = toy_json,
     c_email = (\<lambda>e. CHR ''@'' \<in> set e)\<rparr>"

section \<open>A service\<close>

definition small_params :: Params where
  "small_params = \<lparr>MemoryKiB = 8192, Passes = 2, Parallelism = 1, SaltLen = 8, DigestLen = 16\<rparr>"

definition old_params :: Params where
  "old_params = small_params\<lparr>Passes := 1\<rparr>"

definition hash_with :: "Params \<Rightarrow> string \<Rightarrow> string" where
  "hash_with p pw = Params_Encode p @ b64 (replicate 8 CHR ''s'') @ ''$'' @ b64 (kdf_run toy_argon pw (replicate 8 CHR ''s'') p)"

definition sample_params :: "Params \<Rightarrow> bool" where
  "sample_params p \<longleftrightarrow> Params_Validate p = Inr () \<and> SaltLen p = 8"

lemma sample_params: "sample_params small_params" "sample_params old_params"
  by (simp_all add: sample_params_def Params_Validate_def small_params_def old_params_def minMemoryKiB_def maxMemoryKiB_def
      minTime_def maxTime_def minSaltLen_def maxSaltLen_def minKeyLen_def maxKeyLen_def)

lemma decode_hash_with:
  "sample_params p \<Longrightarrow> DecodeHash (hash_with p pw) = Inr (p, replicate 8 CHR ''s'', kdf_run toy_argon pw (replicate 8 CHR ''s'') p)"
  using toy_kdf unfolding hash_with_def sample_params_def by (intro decode_hash_of) (auto simp: kdf_run_def kdf_length_def)

lemma verify_hash_with:
  "sample_params p \<Longrightarrow> Secret_Len pw \<le> MaxPasswordLen \<Longrightarrow> Hasher_Verify toy_argon False (hash_with p pw0) pw =
     Inr (kdf_run toy_argon (Expose pw) (replicate 8 CHR ''s'') p = kdf_run toy_argon pw0 (replicate 8 CHR ''s'') p)"
  by (simp add: Hasher_Verify_def acquire_def decode_hash_with)

lemma needs_hash_with: "sample_params p \<Longrightarrow> NeedsRehash h (hash_with p pw) = Inr (\<not> AtLeastAsStrongAs p (policy h))"
  by (simp add: NeedsRehash_def decode_hash_with)

definition toy_keyring :: Keyring where
  "toy_keyring = \<lparr>ring = [(''k1'', replicate 32 CHR ''k'')], activeID = ''k1''\<rparr>"

definition toy_service :: "(MemoryReplayGuard, unit) Service" where
  "toy_service = \<lparr>prim = toy, hasher = \<lparr>policy = small_params, decoy = hash_with small_params ''decoy''\<rparr>,
     issuer = \<lparr>ti_key = replicate 32 CHR ''j'', ti_issuer = DefaultIssuer, ti_audience = DefaultAudience,
       ti_ttl = DefaultAccessTTL, ti_leeway = 0\<rparr>,
     keyring = Some toy_keyring,
     replay = (\<lambda>f. MemoryReplayGuard_Consume (f \<noteq> NoFault)), recovery = None,
     totpCfg = \<lparr>Period = TOTPPeriod, Digits = 6, SkewSteps = 1, exactSkew = False\<rparr>, totpIssuer = DefaultIssuer,
     refreshTTL = DefaultRefreshTTL, sessionLifetime = DefaultSessionLifetime\<rparr>"

text \<open>A stored hash of these parameters fits its column.\<close>

lemma b64_length: "length (b64 s) = (4 * length s + 2) div 3"
  by (simp add: b64_def raw64_encode_def to_sextets_length)

lemma word_digits: "length (format_nat (unat (w :: 32 word))) \<le> 10" "length (format_nat (unat (b :: 8 word))) \<le> 10"
  by (rule format_nat_length, simp, rule less_le_trans [OF unsigned_less], simp)+

lemma hash_with_column:
  assumes "sample_params p"
  shows "take 10 (hash_with p pw) = ''$argon2id$''" "40 \<le> length (hash_with p pw)" "length (hash_with p pw) \<le> 512"
proof -
  have d: "16 \<le> unat (DigestLen p)" "unat (DigestLen p) \<le> 64"
    using assms by (auto simp: sample_params_def Params_Validate_def minKeyLen_def maxKeyLen_def word_le_nat_alt word_less_nat_alt
        split: if_splits)
  have k: "length (kdf_run toy_argon pw (replicate 8 CHR ''s'') p) = unat (DigestLen p)"
    using toy_kdf by (simp add: kdf_run_def kdf_length_def)
  have n: "Suc 0 \<le> length (format_nat n)" for n using format_nat_nonempty [of n] by (cases "format_nat n") simp_all
  have v: "length (format_nat argon2_Version) \<le> 10" by (rule format_nat_length) (simp_all add: argon2_Version_def)
  show "take 10 (hash_with p pw) = ''$argon2id$''" by (simp add: hash_with_def Params_Encode_def phcPrefix_def)
  show "40 \<le> length (hash_with p pw)" "length (hash_with p pw) \<le> 512"
    using d word_digits(1) [of "MemoryKiB p"] word_digits(1) [of "Passes p"] word_digits(2) [of "Parallelism p"] v
      n [of "unat (MemoryKiB p)"] n [of "unat (Passes p)"] n [of "unat (Parallelism p)"]
    by (simp_all add: hash_with_def Params_Encode_def phcPrefix_def Params_String_def b64_length k)
qed

text \<open>Inputs: the instant, in seconds of 2001, and the byte the entropy repeats.\<close>

definition sec :: "int \<Rightarrow> time" where
  "sec n = (63113904000 + n) * 10 ^ 9"

definition tick :: "int \<Rightarrow> char \<Rightarrow> Input" where
  "tick n c = \<lparr>in_fault = NoFault, in_now = sec n, in_rand = (\<lambda>_. c), in_rand_ok = True\<rparr>"

definition failing :: "Input \<Rightarrow> Input" where
  "failing i = i\<lparr>in_fault := FailBefore\<rparr>"

definition ann :: UserRow where
  "ann = \<lparr>u_id = ''usr_ann'', u_email = ''a@b'', u_hash = hash_with small_params ''correct horse'', u_changed = sec 0,
     u_status = ''active'', u_created = sec 0\<rparr>"

lemma ann_ids [simp]: "validID ''usr_ann'' = Inr ()" "validID ''fam_1'' = Inr ()" "validID ''rt_1'' = Inr ()" "validID ''rt_2'' = Inr ()"
  by (simp_all add: validID_ok_iff id_char_def between_def byte_def)

lemma ann_email: "NewEmail lower ''A@b'' = Inr ''a@b''" "NewEmail lower ''a@b'' = Inr ''a@b''"
proof -
  have a: "ascii ''A@b''" "ascii ''a@b''" by (simp_all add: ascii_def byte_def)
  have t: "trim_space ''A@b'' = ''A@b''" "trim_space ''a@b'' = ''a@b''"
    by (rule trim_space_ascii; simp add: a is_space_def byte_def)+
  have l: "map lower_char ''A@b'' = ''a@b''" "map lower_char ''a@b'' = ''a@b''" by code_simp+
  have c: "\<not> containsSpaceOrControl ''a''" "\<not> containsSpaceOrControl ''b''"
    by (subst space_or_control_ascii; simp add: ascii_def byte_def)+
  show "NewEmail lower ''A@b'' = Inr ''a@b''" "NewEmail lower ''a@b'' = Inr ''a@b''"
    using c by (simp_all add: NewEmail_def t valid_utf8_ascii a to_lower_ascii l MinEmailLen_def MaxEmailLen_def Let_def
        del: list.map)
qed

lemma ann_checks: "sample_params p \<Longrightarrow> user_checks (c_email toy) (ann\<lparr>u_hash := hash_with p pw, u_changed := t\<rparr>)"
  using hash_with_column [of p pw] by (simp add: user_checks_def ann_def toy_def)

lemma ann_checks_hash: "user_checks (c_email toy) (ann\<lparr>u_hash := hash_with small_params pw\<rparr>)" "user_checks (c_email toy) ann"
  using ann_checks [OF sample_params(1), where pw = pw and t = "u_changed ann"]
    ann_checks [OF sample_params(1), where pw = "''correct horse''" and t = "sec 0"] by (simp_all add: ann_def)

definition ann_world :: "UserRow \<Rightarrow> (MemoryReplayGuard, unit) World" where
  "ann_world u = \<lparr>w_db = \<lparr>users = [u], families = [], tokens = [], totps = []\<rparr>, w_guard = Map.empty, w_codes = (), w_work = []\<rparr>"

definition ann_login :: LoginRequest where
  "ann_login = \<lparr>lr_email = ''A@b'', lr_password = NewSecret ''correct horse'', lr_totp = [], lr_recovery = NewSecret []\<rparr>"

section \<open>A session opened\<close>

definition day :: duration where "day = 24 * (3600 * time_second)"

lemma toy_lifetime: "sessionLifetime toy_service = 30 * day" "prim toy_service = toy"
  by (simp_all add: toy_service_def DefaultSessionLifetime_def day_def)

lemma entropy_tick: "entropy_of n (tick t c) = Some (replicate n c)"
  by (simp add: entropy_of_def tick_def map_replicate_trivial)

lemma tick_now [simp]: "in_now (tick n c) = sec n" "in_fault (tick n c) = NoFault" "truncate_to 1000 (sec n) = sec n"
  by (simp_all add: tick_def truncate_to_def sec_def)

text \<open>What a session opened at one tick leaves behind.\<close>

definition fam_of :: "char \<Rightarrow> string" where "fam_of c = familyIDPrefix @ b64id (replicate IDEntropyBytes c)"
definition tok_of :: "char \<Rightarrow> string" where "tok_of c = tokenIDPrefix @ b64id (replicate IDEntropyBytes c)"
definition secret_of :: "char \<Rightarrow> Secret" where "secret_of c = NewSecret (b64id (replicate TokenEntropyBytes c))"

definition family_at :: "int \<Rightarrow> char \<Rightarrow> FamilyRow" where
  "family_at n c = \<lparr>f_id = fam_of c, f_user = ''usr_ann'', f_started = sec n, f_revoked = None, f_reason = None\<rparr>"

definition token_at :: "int \<Rightarrow> char \<Rightarrow> TokenRow" where
  "token_at n c = \<lparr>t_id = tok_of c, t_family = fam_of c, t_parent = None, t_hash = toy_sha (Expose (secret_of c)),
     t_issued = sec n, t_expires = sec n + 7 * day, t_used = None\<rparr>"

lemma minted:
  "NewFamilyID (Some (replicate IDEntropyBytes c)) = Inr (fam_of c)"
  "NewTokenID (Some (replicate IDEntropyBytes c)) = Inr (tok_of c)"
  "NewRefreshTokenSecret (Some (replicate TokenEntropyBytes c)) = Inr (secret_of c)"
  unfolding fam_of_def tok_of_def secret_of_def by (rule minters, simp)+ (simp add: NewRefreshTokenSecret_def)

lemma minted_ok: "validID (fam_of c) = Inr ()" "validID (tok_of c) = Inr ()"
  using minted_valid(1) [of familyIDPrefix "Some (replicate IDEntropyBytes c)"]
    minted_valid(1) [of tokenIDPrefix "Some (replicate IDEntropyBytes c)"] minted [of c]
  by (simp_all add: NewFamilyID_def NewTokenID_def)

lemma toy_sha_length: "length (toy_sha s) = 32"
  by (simp add: toy_sha_def min_def)

lemma session_run:
  assumes "ur_id user = ''usr_ann''" "''usr_ann'' \<in> u_id ` set (users (w_db w))" "families (w_db w) = []" "tokens (w_db w) = []"
  shows "\<exists>se. run_proc (replicate 6 (tick n c)) (Service_openSession toy_service user) w =
    (Ret (Inr se), w\<lparr>w_db := (w_db w)\<lparr>families := [family_at n c], tokens := [token_at n c]\<rparr>\<rparr>)"
proof -
  have r: "replicate 6 i = [i, i, i, i, i, i]" for i :: Input by (simp add: numeral_eq_Suc)
  have e: "Service_cappedExpiry toy_service (sec n) (sec n) = sec n + 7 * day"
    by (simp add: Service_cappedExpiry_def toy_service_def DefaultRefreshTTL_def DefaultSessionLifetime_def time_before_def day_def
      time_second_def)
  have c: "Store_CreateSession NoFault \<lparr>ns_family = fam_of c, ns_user = ''usr_ann'', ns_started = sec n, ns_token = tok_of c,
      ns_hash = HashToken (c_sha256 (prim toy_service)) (secret_of c), ns_issued = sec n, ns_expires = sec n + 7 * day\<rparr> (w_db w)
    = (Inr (), (w_db w)\<lparr>families := [family_at n c], tokens := [token_at n c]\<rparr>)"
    using assms minted_ok [of c]
    by (simp add: Store_CreateSession_def inTx_def create_session_tx_def insert_family_def insert_token_def family_checks_def
        token_checks_def HashToken_def toy_lifetime toy_def toy_sha_length family_at_def token_at_def day_def time_second_def)
  obtain access claims where j: "TokenIssuer_Issue (c_hmac256 (prim toy_service)) (c_json (prim toy_service)) (issuer toy_service)
      (Some (replicate IDEntropyBytes c)) (sec n) ''usr_ann'' (fam_of c) = Inr (access, claims)"
    using minted_ok(1) [of c]
    by (simp add: TokenIssuer_Issue_def NewOpaqueID_def MaxIDLen_def b64id_length Let_def IDEntropyBytes_def)
  show ?thesis unfolding r Service_openSession_def
    by (simp add: run_actions entropy_tick minted Let_def e assms(1) c issue_token_def run_bind_act j)
qed
definition ann_loaded :: "UserRow \<Rightarrow> UserRecord" where
  "ann_loaded u = \<lparr>ur_id = ''usr_ann'', ur_email = ''a@b'', ur_status = UserStatusActive, ur_created = u_created u,
     ur_hash = u_hash u, ur_changed = u_changed u\<rparr>"

lemma ann_found:
  assumes "u_id u = ''usr_ann''" "u_email u = ''a@b''" "u_status u = ''active''"
  shows "Store_UserByEmail lower NoFault ''a@b'' \<lparr>users = [u], families = fs, tokens = ts, totps = rs\<rparr> = Inr (Some (ann_loaded u))"
    "Store_UserByID lower NoFault ''usr_ann'' \<lparr>users = [u], families = fs, tokens = ts, totps = rs\<rparr> = Inr (Some (ann_loaded u))"
proof -
  have i: "from_domain (new_id ''usr_ann'') = Inr ''usr_ann''" by (simp add: new_id_domain)
  have p: "ParseUserStatus ''active'' = Inr UserStatusActive" by (simp add: ParseUserStatus_def)
  show "Store_UserByEmail lower NoFault ''a@b'' \<lparr>users = [u], families = fs, tokens = ts, totps = rs\<rparr> = Inr (Some (ann_loaded u))"
    "Store_UserByID lower NoFault ''usr_ann'' \<lparr>users = [u], families = fs, tokens = ts, totps = rs\<rparr> = Inr (Some (ann_loaded u))"
    using assms by (simp_all add: Store_UserByEmail_def Store_UserByID_def scanUser_def Email_String_def i ann_email p ann_loaded_def)
qed

lemma toy_prims: "c_argon (prim toy_service) = toy_argon" "policy (hasher toy_service) = small_params"
  by (simp_all add: toy_service_def toy_def)

lemma toy_verify:
  "sample_params p \<Longrightarrow> Secret_Len pw \<le> MaxPasswordLen \<Longrightarrow> Hasher_Verify (c_argon (prim toy_service)) False (hash_with p pw0) pw =
     Inr (take (unat (DigestLen p)) (Expose pw @ replicate 8 CHR ''s'' @ replicate (unat (DigestLen p)) CHR ''x'') =
       take (unat (DigestLen p)) (pw0 @ replicate 8 CHR ''s'' @ replicate (unat (DigestLen p)) CHR ''x''))"
  by (simp add: toy_prims verify_hash_with kdf_run_def toy_argon_def)

definition ann_in :: "char \<Rightarrow> (MemoryReplayGuard, unit) World" where
  "ann_in c = (ann_world ann)\<lparr>w_db := \<lparr>users = [ann], families = [family_at 100 c], tokens = [token_at 100 c], totps = []\<rparr>,
     w_work := [small_params]\<rparr>"

lemma login_run:
  "\<exists>se. run_proc (replicate 9 (tick 100 c)) (Service_login toy_service ann_login) (ann_world ann) = (Ret (Inr se), ann_in c)"
proof -
  have r: "replicate 9 i = i # i # i # replicate 6 i" for i :: Input by (simp add: numeral_eq_Suc)
  have len: "Secret_Len (lr_password ann_login) \<le> MaxPasswordLen" "lr_password ann_login = NewSecret ''correct horse''"
    "lr_email ann_login = ''A@b''"
    by (simp_all add: ann_login_def Secret_Len_def MaxPasswordLen_def)
  have f: "Store_UserByEmail lower NoFault ''a@b'' (w_db (ann_world ann)) = Inr (Some (ann_loaded ann))" for lower
    unfolding ann_world_def World.simps by (rule ann_found) (simp_all add: ann_def)
  have v: "Hasher_Verify (c_argon (prim toy_service)) False (ur_hash (ann_loaded ann)) (NewSecret ''correct horse'') = Inr True"
    using len by (simp add: ann_loaded_def ann_def toy_verify sample_params)
  have t: "Store_LoadTOTP NoFault uid (w_db (ann_world ann)) = Inr None" for uid
    by (simp add: Store_LoadTOTP_def ann_world_def)
  have h: "NeedsRehash (hasher toy_service) (ur_hash (ann_loaded ann)) = Inr False"
    by (simp add: ann_loaded_def ann_def needs_hash_with sample_params toy_prims AtLeastAsStrongAs_def)
  have st: "ur_status (ann_loaded ann) = UserStatusActive" "ur_id (ann_loaded ann) = ''usr_ann''" by (simp_all add: ann_loaded_def)
  let ?w = "worked (kdf_params (ur_hash (ann_loaded ann))) (Inr True :: bool ares) (ann_world ann)"
  have "\<exists>se. run_proc (replicate 6 (tick 100 c)) (Service_openSession toy_service (ann_loaded ann)) ?w =
      (Ret (Inr se), ?w\<lparr>w_db := (w_db ?w)\<lparr>families := [family_at 100 c], tokens := [token_at 100 c]\<rparr>\<rparr>)"
    by (rule session_run) (simp_all add: ann_loaded_def ann_world_def ann_def)
  then obtain se where o: "run_proc (replicate 6 (tick 100 c)) (Service_openSession toy_service (ann_loaded ann)) ?w =
      (Ret (Inr se), ?w\<lparr>w_db := (w_db ?w)\<lparr>families := [family_at 100 c], tokens := [token_at 100 c]\<rparr>\<rparr>)"
    by blast
  have "run_proc (replicate 9 (tick 100 c)) (Service_login toy_service ann_login) (ann_world ann) =
      run_proc (replicate 6 (tick 100 c)) (Service_openSession toy_service (ann_loaded ann)) ?w"
    unfolding r Service_login_def len
    using len(1) by (simp add: len ann_email user_by_email_def run_actions f login_user_def Service_verifyPassword_def run_bind_act v st
       UserStatus_CanAuthenticate_def Service_checkSecondFactor_def bindP_assoc load_totp_def t Service_maybeRehash_def h Let_def)
  moreover have "?w\<lparr>w_db := (w_db ?w)\<lparr>families := [family_at 100 c], tokens := [token_at 100 c]\<rparr>\<rparr> = ann_in c"
    using decode_hash_with [OF sample_params(1)]
    by (simp add: ann_in_def worked_def ann_world_def kdf_params_def ann_loaded_def ann_def)
  ultimately show ?thesis using o by auto
qed

text \<open>The same, as a thread among others.\<close>

lemma run_forget: "run_proc is p w = (Ret x, w') \<Longrightarrow> run_proc is (forget p) w = (Ret (), w')"
  unfolding forget_def
proof (induction "is" arbitrary: p w)
  case Nil
  then show ?case by simp
next
  case (Cons i "is")
  show ?case
  proof (cases p)
    case (Act f)
    then show ?thesis using Cons by (cases "f i w") simp
  qed (use Cons in simp)
qed

lemma reach_alone:
  assumes "threads_reach ok P ts0 w0 ts w" "ts t = Some p" "\<forall>i \<in> set is. \<forall>v. ok i v" "run_proc is p w = (q, w')"
  shows "threads_reach ok P ts0 w0 (ts(t \<mapsto> q)) w'"
  using assms
proof (induction "is" arbitrary: p w ts)
  case Nil
  then show ?case by (simp add: fun_upd_idem)
next
  case (Cons i "is")
  show ?case
  proof (cases p)
    case (Act f)
    obtain p' v where v: "f i w = (p', v)" by (cases "f i w")
    have "threads_reach ok P ts0 w0 (ts(t \<mapsto> p')) v"
      using Cons.prems v Act by (intro threads_reach.step [where f = f]) auto
    then have "threads_reach ok P ts0 w0 (ts(t \<mapsto> p', t \<mapsto> q)) w'"
      by (rule Cons.IH) (use Cons.prems Act v in auto)
    then show ?thesis by (simp only: fun_upd_upd)
  qed (use Cons.prems in \<open>simp add: fun_upd_idem\<close>)
qed

lemma ann_reach: "threads_reach (\<lambda>_ _. True) (handlers toy_service) Map.empty (ann_world ann) [0 \<mapsto> Ret ()] (ann_in c)"
proof -
  let ?p = "forget (Service_login toy_service ann_login)"
  have "threads_reach (\<lambda>_ _. True) (handlers toy_service) Map.empty (ann_world ann) [0 \<mapsto> ?p] (ann_world ann)"
    by (rule threads_reach.spawn [OF threads_reach.idle]) (rule handlers.intros, simp)
  moreover obtain se where "run_proc (replicate 9 (tick 100 c)) (Service_login toy_service ann_login) (ann_world ann) =
      (Ret (Inr se), ann_in c)" using login_run by blast
  then have "run_proc (replicate 9 (tick 100 c)) ?p (ann_world ann) = (Ret (), ann_in c)" by (rule run_forget)
  ultimately have "threads_reach (\<lambda>_ _. True) (handlers toy_service) Map.empty (ann_world ann) ([0 \<mapsto> ?p](0 \<mapsto> Ret ())) (ann_in c)"
    by (rule_tac reach_alone) simp_all
  then show ?thesis by (simp only: fun_upd_upd)
qed

lemma ann_start_ok: "db_ok (c_email toy) (30 * day) (w_db (ann_world ann))"
proof -
  have "db_typed (c_email toy) (w_db (ann_world ann))" using ann_checks_hash(2) by (simp add: db_typed_def ann_world_def)
  then show ?thesis by (simp add: db_ok_def db_chained_def db_capped_def ann_world_def)
qed
text \<open>And a refresh with the token of that session.\<close>

lemma secret_length: "length (Expose (secret_of c)) = 43"
  by (simp add: secret_of_def b64id_length TokenEntropyBytes_def)

lemma hd_secret: "hd (Expose (secret_of c)) = sextet_char url_alphabet (byte c div 4)"
proof -
  obtain cs where "replicate TokenEntropyBytes c = c # c # c # cs" by (simp add: TokenEntropyBytes_def numeral_eq_Suc)
  then show ?thesis by (simp add: secret_of_def b64id_def raw64_encode_def)
qed

lemma later_minted:
  "tok_of CHR ''d'' \<noteq> tok_of CHR ''c''" "toy_sha (Expose (secret_of CHR ''d'')) \<noteq> toy_sha (Expose (secret_of CHR ''c''))"
proof -
  show "tok_of CHR ''d'' \<noteq> tok_of CHR ''c''" by (simp add: tok_of_def IDEntropyBytes_def)
  have "hd (toy_sha (Expose (secret_of c))) = hd (Expose (secret_of c))" for c
    using secret_length [of c] by (cases "Expose (secret_of c)") (simp_all add: toy_sha_def)
  moreover have "hd (Expose (secret_of CHR ''d'')) \<noteq> hd (Expose (secret_of CHR ''c''))"
    unfolding hd_secret by (simp add: sextet_char_def url_alphabet_def byte_def)
  ultimately show "toy_sha (Expose (secret_of CHR ''d'')) \<noteq> toy_sha (Expose (secret_of CHR ''c''))" by metis
qed

lemma refresh_run:
  "\<exists>se w. run_proc (replicate 6 (tick 200 CHR ''d'')) (Service_Refresh toy_service (secret_of CHR ''c'')) (ann_in CHR ''c'') = (Ret (Inr se), w)"
proof -
  have r: "replicate 6 i = [i, i, i, i, i, i]" for i :: Input by (simp add: numeral_eq_Suc)
  have z: "\<not> Secret_IsZero (secret_of c)" for c using secret_length [of c] by (auto simp: Secret_IsZero_def)
  let ?req = "refresh_request toy_service (secret_of CHR ''c'') (tok_of CHR ''d'') (secret_of CHR ''d'') (sec 200)"
  have req: "?req = \<lparr>rq_presented = toy_sha (Expose (secret_of CHR ''c'')), rq_now = sec 200, rq_successor = tok_of CHR ''d'',
      rq_hash = toy_sha (Expose (secret_of CHR ''d'')), rq_expires = sec 200 + 7 * day, rq_lifetime = 30 * day\<rparr>"
    by (simp add: refresh_request_def HashToken_def toy_lifetime toy_def) (simp add: toy_service_def DefaultRefreshTTL_def day_def)
  let ?rec = "\<lparr>sr_user = ''usr_ann'', sr_family = fam_of CHR ''c'', sr_started = sec 100, sr_token = tok_of CHR ''c'', sr_expires = 0, sr_status = UserStatusActive\<rparr>"
  have f: "find_presented (rq_presented ?req) (w_db (ann_in CHR ''c'')) = Some (token_at 100 CHR ''c'', family_at 100 CHR ''c'', ann)"
    by (simp add: find_presented_def req ann_in_def token_at_def family_at_def ann_def)
  have s: "ParseUserStatus (u_status ann) = Inr UserStatusActive" "u_changed ann = sec 0" by (simp_all add: ann_def ParseUserStatus_def)
  have i: "from_domain (new_id ''usr_ann'') = Inr ''usr_ann''" by (simp add: new_id_domain)
  obtain db where "redeem ?req ?rec (w_db (ann_in CHR ''c'')) = TxCommit (?rec\<lparr>sr_expires := sec 200 + 7 * day\<rparr>, RotateOK, RevokedReasonUnknown) db"
    "users db = [ann]"
    using later_minted minted_ok toy_sha_length
    unfolding redeem_def Let_def markTokenUsedSQL_def update_tokens_def insert_token_def req
    by (simp add: ann_in_def token_at_def family_at_def token_checks_def cappedExpiry_def time_before_def sec_def day_def time_second_def)
  note red = this
  have a: "rotateAttempt NoFault ?req (w_db (ann_in CHR ''c'')) = (Inr (?rec\<lparr>sr_expires := sec 200 + 7 * day\<rparr>, RotateOK, RevokedReasonUnknown), db)"
  proof -
    have v: "f_revoked (family_at 100 c) = None" "f_started (family_at 100 c) = sec 100" "f_id (family_at 100 c) = fam_of c"
      "f_user (family_at 100 c) = ''usr_ann''" "t_id (token_at 100 c) = tok_of c" "t_used (token_at 100 c) = None"
      "sec 200 < t_expires (token_at 100 c)" "\<not> sec 100 < sec 0" for c
      by (simp_all add: family_at_def token_at_def sec_def day_def time_second_def)
    have "rq_now ?req = sec 200" by (simp add: req)
    then have "rotate_tx ?req (w_db (ann_in CHR ''c'')) = redeem ?req ?rec (w_db (ann_in CHR ''c''))"
      using i unfolding rotate_tx_def f option.case prod.case s v by (simp add: v time_before_def)
    then show ?thesis by (simp add: rotateAttempt_def inTx_def red(1))
  qed
  obtain access claims where j: "TokenIssuer_Issue (c_hmac256 (prim toy_service)) (c_json (prim toy_service)) (issuer toy_service)
      (Some (replicate IDEntropyBytes CHR ''d'')) (sec 200) ''usr_ann'' (fam_of CHR ''c'') = Inr (access, claims)"
    by (simp add: TokenIssuer_Issue_def NewOpaqueID_def MaxIDLen_def b64id_length Let_def IDEntropyBytes_def)
  have u: "Store_UserByID lower NoFault ''usr_ann'' db = Inr (Some (ann_loaded ann))" for lower
  proof -
    have "db = \<lparr>users = [ann], families = families db, tokens = tokens db, totps = totps db\<rparr>" using red(2) by (cases db) simp
    moreover have "Store_UserByID lower NoFault ''usr_ann'' \<lparr>users = [ann], families = families db, tokens = tokens db, totps = totps db\<rparr>
        = Inr (Some (ann_loaded ann))" by (rule ann_found) (simp_all add: ann_def)
    ultimately show ?thesis by simp
  qed
  show ?thesis unfolding r Service_Refresh_def
    by (simp add: z run_actions entropy_tick minted Store_Rotate_def bindP_assoc a refreshed_def UserStatus_CanAuthenticate_def
       user_by_id_def u issue_token_def run_bind_act j ann_loaded_def)
qed
text \<open>And a change of password.\<close>

definition new_pw :: Secret where "new_pw = NewSecret ''battery staple''"

definition with_hash :: "string \<Rightarrow> UserRow" where "with_hash h = ann\<lparr>u_hash := h\<rparr>"

definition only_user :: "UserRow \<Rightarrow> DB" where "only_user u = \<lparr>users = [u], families = [], tokens = [], totps = []\<rparr>"

definition changed_at :: "int \<Rightarrow> UserRow" where
  "changed_at n = ann\<lparr>u_hash := hash_with small_params ''battery staple'', u_changed := sec n\<rparr>"

lemma change_run:
  assumes "w_db w = only_user (with_hash (hash_with p ''correct horse''))" "sample_params p" "unat (DigestLen p) = 16"
  shows "\<exists>ws. run_proc (replicate 7 (tick n CHR ''s''))
      (Service_ChangePassword toy_service ''usr_ann'' (NewSecret ''correct horse'') new_pw) w =
    (Ret (Inr ()), w\<lparr>w_db := only_user (changed_at n), w_work := ws\<rparr>)"
proof -
  let ?u = "with_hash (hash_with p ''correct horse'')"
  have r: "replicate 7 i = [i, i, i, i, i, i, i]" for i :: Input by (simp add: numeral_eq_Suc)
  have len: "Secret_Len (NewSecret ''correct horse'') \<le> MaxPasswordLen" "Secret_Len new_pw \<le> MaxPasswordLen"
    by (simp_all add: Secret_Len_def MaxPasswordLen_def new_pw_def)
  have f: "Store_UserByID lower NoFault ''usr_ann'' (w_db w) = Inr (Some (ann_loaded ?u))" for lower
    unfolding assms(1) only_user_def by (rule ann_found) (simp_all add: ann_def with_hash_def)
  have h: "ur_hash (ann_loaded ?u) = hash_with p ''correct horse''" by (simp add: ann_loaded_def with_hash_def)
  have v: "Hasher_Verify (c_argon (prim toy_service)) False (hash_with p ''correct horse'') (NewSecret ''correct horse'') = Inr True"
    "Hasher_Verify (c_argon (prim toy_service)) False (hash_with p ''correct horse'') new_pw = Inr False"
    using assms(2,3) len by (simp_all add: toy_verify new_pw_def)
  have u8: "valid_utf8 ''battery staple''" by (rule valid_utf8_ascii) (simp add: ascii_def byte_def)
  have ok: "ValidatePassword new_pw = Inr ()" using u8 by (simp add: ValidatePassword_def Secret_Len_def new_pw_def MinPasswordLen_def MaxPasswordLen_def)
  have hn: "Hasher_Hash (c_argon (prim toy_service)) (hasher toy_service) False (Some (replicate 8 CHR ''s'')) new_pw =
      Inr (hash_with small_params ''battery staple'')"
    using ok by (simp add: Hasher_Hash_def acquire_def Hasher_hash_def toy_prims hash_with_def new_pw_def)
  have sl: "unat (SaltLen small_params) = 8" by (simp add: small_params_def)
  have set: "Store_SetPassword (c_email (prim toy_service)) NoFault ''usr_ann'' (hash_with small_params ''battery staple'') (sec n) (w_db w) =
      (Inr (), only_user (changed_at n))"
    unfolding assms(1) using ann_checks [OF sample_params(1)]
    by (simp add: Store_SetPassword_def one_user_def run_stmt_def update_users_def only_user_def with_hash_def changed_at_def toy_lifetime)
      (simp add: ann_def)
  have rv: "Store_RevokeUserSessions NoFault ''usr_ann'' (sec n) RevokedReasonCredentialChange (only_user (changed_at n)) =
      (Inr 0, only_user (changed_at n))"
    by (simp add: Store_RevokeUserSessions_def run_stmt_def update_families_def only_user_def)
  show ?thesis unfolding r Service_ChangePassword_def
    by (simp add: user_by_id_def run_actions f len(1) [THEN leD] Service_verifyPassword_def run_bind_act h v Let_def new_password_def ok
       Service_hashPassword_def entropy_tick toy_prims(2) sl hn store_password_def set run_then_act db_act_def rv)
      (rule exI [of _ "w_work w @ kdf_params (hash_with p ''correct horse'') @ kdf_params (hash_with p ''correct horse'') @ [small_params]"],
        rule World.equality, simp_all add: worked_def)
qed

section \<open>An account with one session\<close>

definition ann_family :: FamilyRow where
  "ann_family = \<lparr>f_id = ''fam_1'', f_user = ''usr_ann'', f_started = sec 10, f_revoked = None, f_reason = None\<rparr>"

definition ann_token :: TokenRow where
  "ann_token = \<lparr>t_id = ''rt_1'', t_family = ''fam_1'', t_parent = None, t_hash = replicate 32 CHR ''t'', t_issued = sec 10,
     t_expires = sec 10 + 7 * day, t_used = None\<rparr>"

definition ann_db :: DB where
  "ann_db = \<lparr>users = [ann], families = [ann_family], tokens = [ann_token], totps = []\<rparr>"

definition ann_rotate :: RotateRequest where
  "ann_rotate = \<lparr>rq_presented = replicate 32 CHR ''t'', rq_now = sec 20, rq_successor = ''rt_2'', rq_hash = replicate 32 CHR ''n'',
     rq_expires = sec 20 + 7 * day, rq_lifetime = 30 * day\<rparr>"

definition ann_next :: TokenRow where
  "ann_next = \<lparr>t_id = ''rt_2'', t_family = ''fam_1'', t_parent = Some ''rt_1'', t_hash = replicate 32 CHR ''n'', t_issued = sec 20,
     t_expires = sec 20 + 7 * day, t_used = None\<rparr>"

definition ann_rotated_db :: DB where
  "ann_rotated_db = ann_db\<lparr>tokens := [ann_token\<lparr>t_used := Some (sec 20)\<rparr>, ann_next]\<rparr>"

definition ann_record :: SessionRecord where
  "ann_record = \<lparr>sr_user = ''usr_ann'', sr_family = ''fam_1'', sr_started = sec 10, sr_token = ''rt_1'',
     sr_expires = sec 20 + 7 * day, sr_status = UserStatusActive\<rparr>"

lemmas ann_defs = ann_family_def ann_token_def ann_db_def ann_rotate_def ann_next_def ann_rotated_db_def ann_record_def
  sec_def day_def time_second_def

lemma ann_db_ok: "db_ok (c_email toy) (30 * day) ann_db"
proof -
  have "db_typed (c_email toy) ann_db"
    using ann_checks_hash(2) by (simp add: db_typed_def ann_defs family_checks_def token_checks_def) (simp add: ann_def)
  moreover have "db_chained ann_db" by (simp add: db_chained_def ann_defs unused_of_def)
  moreover have "db_capped (30 * day) ann_db" by (simp add: db_capped_def ann_defs)
  ultimately show ?thesis by (simp add: db_ok_def)
qed

lemma ann_rotates: "rotateAttempt NoFault ann_rotate ann_db = (Inr (ann_record, RotateOK, RevokedReasonUnknown), ann_rotated_db)"
proof -
  have f: "find_presented (rq_presented ann_rotate) ann_db = Some (ann_token, ann_family, ann)"
    by (simp add: find_presented_def ann_defs ann_def)
  have s: "ParseUserStatus (u_status ann) = Inr UserStatusActive" "u_changed ann = sec 0" by (simp_all add: ann_def ParseUserStatus_def)
  have i: "from_domain (new_id (f_user ann_family)) = Inr ''usr_ann''" by (simp add: new_id_domain ann_family_def)
  have v: "f_revoked ann_family = None" "f_started ann_family = sec 10" "f_id ann_family = ''fam_1''" "f_user ann_family = ''usr_ann''"
    "rq_now ann_rotate < t_expires ann_token" "t_used ann_token = None" "t_id ann_token = ''rt_1''"
    by (simp_all add: ann_defs)
  have "rotate_tx ann_rotate ann_db = redeem ann_rotate (ann_record\<lparr>sr_expires := 0\<rparr>) ann_db"
    using i unfolding rotate_tx_def f option.case prod.case s v
    by (simp add: v time_before_def ann_record_def sec_def)
  also have "\<dots> = TxCommit (ann_record, RotateOK, RevokedReasonUnknown) ann_rotated_db"
    by (simp add: ann_defs redeem_def Let_def markTokenUsedSQL_def update_tokens_def token_checks_def
        insert_token_def cappedExpiry_def time_before_def)
  finally show ?thesis by (simp add: rotateAttempt_def inTx_def)
qed

lemma ann_rotated_typed: "db_typed (c_email toy) ann_rotated_db"
proof -
  have "db_step (c_email toy) (30 * day) ann_db (snd (rotateAttempt NoFault ann_rotate ann_db))"
    unfolding rotateAttempt_def by (rule inTx_step, erule rotate_tx_step) (simp add: ann_rotate_def)
  then show ?thesis using ann_db_ok by (simp add: ann_rotates db_step_def db_ok_def)
qed

definition ann_killed_db :: DB where
  "ann_killed_db = ann_rotated_db\<lparr>families := [revoke_row (sec 20) ''reuse_detected'' ann_family]\<rparr>"

definition ann_reused :: SessionRecord where
  "ann_reused = ann_record\<lparr>sr_expires := 0\<rparr>"

lemma ann_reuse_attempt:
  "rotateAttempt NoFault ann_rotate ann_rotated_db = (Inr (ann_reused, RotateReuse, RevokedReasonReuseDetected), ann_rotated_db)"
proof -
  have f: "find_presented (rq_presented ann_rotate) ann_rotated_db = Some (ann_token\<lparr>t_used := Some (sec 20)\<rparr>, ann_family, ann)"
    by (simp add: find_presented_def ann_defs ann_def)
  have s: "ParseUserStatus (u_status ann) = Inr UserStatusActive" "u_changed ann = sec 0" by (simp_all add: ann_def ParseUserStatus_def)
  have i: "from_domain (new_id (f_user ann_family)) = Inr ''usr_ann''" by (simp add: new_id_domain ann_family_def)
  have v: "f_revoked ann_family = None" "f_started ann_family = sec 10" "f_id ann_family = ''fam_1''" "f_user ann_family = ''usr_ann''"
    "rq_now ann_rotate < t_expires ann_token" "t_id ann_token = ''rt_1''"
    by (simp_all add: ann_defs)
  have "rotate_tx ann_rotate ann_rotated_db = TxCommit (ann_reused, RotateReuse, RevokedReasonReuseDetected) ann_rotated_db"
    using i unfolding rotate_tx_def f option.case prod.case s v
    by (simp add: v time_before_def ann_reused_def ann_record_def sec_def Let_def)
  then show ?thesis by (simp add: rotateAttempt_def inTx_def)
qed

lemma ann_revoke:
  "Store_RevokeFamily NoFault ''fam_1'' (sec 20) RevokedReasonReuseDetected ann_rotated_db = (Inr (), ann_killed_db)"
  by (simp add: Store_RevokeFamily_def run_stmt_def revokeFamilySQL_def update_families_def ann_killed_db_def revoke_row_def
      family_checks_def ann_defs)

lemma ann_reuse:
  fixes c :: char
  defines "w \<equiv> (ann_world ann)\<lparr>w_db := ann_rotated_db\<rparr>"
  shows "runs (Store_Rotate ann_rotate :: (MemoryReplayGuard, unit, _) handler)
     [(tick 20 c, w, w\<lparr>w_db := ann_rotated_db\<rparr>), (tick 20 c, w, w\<lparr>w_db := ann_killed_db\<rparr>)] (Inr (ann_reused, RotateReuse))"
proof -
  have "runs (db_act (\<lambda>i. rotateAttempt (in_fault i) ann_rotate) :: (MemoryReplayGuard, unit, _) handler)
      [(tick 20 c, w, w\<lparr>w_db := ann_rotated_db\<rparr>)] (Inr (ann_reused, RotateReuse, RevokedReasonReuseDetected))"
    unfolding runs_db_act using ann_reuse_attempt by (simp add: w_def)
  moreover have "sr_family ann_reused = ''fam_1''" "rq_now ann_rotate = sec 20"
    by (simp_all add: ann_reused_def ann_record_def ann_rotate_def)
  then have "runs (db_act (\<lambda>i. Store_RevokeFamily (in_fault i) (sr_family ann_reused) (rq_now ann_rotate) RevokedReasonReuseDetected)
      :: (MemoryReplayGuard, unit, _) handler) [(tick 20 c, w, w\<lparr>w_db := ann_killed_db\<rparr>)] (Inr ())"
    unfolding runs_db_act using ann_revoke by (simp add: w_def)
  ultimately show ?thesis unfolding Store_Rotate_def runs_bindP_Inr
    by (intro exI [of _ "[(tick 20 c, w, w\<lparr>w_db := ann_rotated_db\<rparr>)]"] exI [of _ "[(tick 20 c, w, w\<lparr>w_db := ann_killed_db\<rparr>)]"]
        exI [of _ "(ann_reused, RotateReuse, RevokedReasonReuseDetected)"]) (auto simp: runs_bindP_Inr)
qed

lemma ann_killed_ok: "db_ok (c_email toy) (30 * day) ann_killed_db"
proof -
  have r: "revokeFamilySQL ''fam_1'' (sec 20) ''reuse_detected'' ann_rotated_db = Inr (1, ann_killed_db)"
    by (simp add: revokeFamilySQL_def update_families_def ann_killed_db_def revoke_row_def family_checks_def ann_defs)
  have "db_step (c_email toy) (30 * day) ann_rotated_db ann_killed_db"
    by (rule update_families_step [OF r [unfolded revokeFamilySQL_def]]) (simp add: revoke_kept)
  moreover have "db_step (c_email toy) (30 * day) ann_db (snd (rotateAttempt NoFault ann_rotate ann_db))"
    unfolding rotateAttempt_def by (rule inTx_step, erule rotate_tx_step) (simp add: ann_rotate_def)
  ultimately show ?thesis using ann_db_ok by (simp add: ann_rotates db_step_def)
qed

lemma reach_self: "threads_reach ok P Map.empty w Map.empty w"
  by (rule threads_reach.idle)

section \<open>Codes\<close>

lemma toy_mac:
  assumes "0 \<le> k" "k < 10"
  shows "truncate31 (toy_hmac1 key (be_bytes k)) = word_of_nat (nat k)"
proof -
  let ?m = "replicate 7 (char_of (0::nat)) @ char_of (nat k) # replicate 11 CHR ''x'' @ [char_of (4 :: nat)]"
  have u: "[0..<8] = [0, 1, 2, 3, 4, 5, 6, 7 :: nat]" by (simp add: upt_rec)
  have "be_bytes k = replicate 7 (char_of (0::nat)) @ [char_of (nat k)]"
    using assms by (simp add: be_bytes_def u) (simp add: numeral_eq_Suc)
  then have m: "toy_hmac1 key (be_bytes k) = ?m" by (simp add: toy_hmac1_def)
  have "byte (last ?m) = 4" by (simp add: byte_def)
  moreover have "byte (?m ! 4) = 0" "byte (?m ! 5) = 0" "byte (?m ! 6) = 0" "byte (?m ! 7) = nat k"
    using assms by (simp_all add: byte_def nth_append)
  ultimately show ?thesis unfolding m truncate31_def Let_def by simp
qed
lemma toy_code_at:
  assumes "0 \<le> k" "k < 10"
  shows "totpCodeForStep toy_hmac1 key k 6 = ''00000'' @ [digit_char (nat k)]"
proof -
  have "unat (word_of_nat (nat k) mod ((*) 10 ^^ 6) (1 :: 32 word)) = nat k"
  proof -
    obtain n where "k = int n" "n < 10" using assms nonneg_int_cases by fastforce
    then show ?thesis using power10_word [of 6] by (simp add: unat_mod unsigned_of_nat take_bit_nat_eq_self)
  qed
  moreover have "format_nat (nat k) = [digit_char (nat k)]" using assms by (simp add: format_nat.simps [of "nat k"])
  ultimately show ?thesis
    by (simp add: totpCodeForStep_def toy_mac [OF assms] Let_def zero_padded_def) (simp add: numeral_eq_Suc)
qed

lemma toy_digits: "n < 10 \<Longrightarrow> normaliseCode (''00000'' @ [digit_char n]) = ''00000'' @ [digit_char n]"
proof -
  assume n: "n < 10"
  have zero: "char_of (48 :: nat) = CHR ''0''" by code_simp
  from n have a: "ascii (''00000'' @ [digit_char n])" by (simp add: ascii_def byte_digit_char)
  show ?thesis using n unfolding normaliseCode_def runes_ascii [OF a]
    by (simp add: rune_of_def Let_def byte_digit_char encode_rune_ascii zero) (simp add: digit_char_def)
qed

definition toy_cfg :: "int \<Rightarrow> TOTPConfig" where
  "toy_cfg skew = \<lparr>Period = TOTPPeriod, Digits = 6, SkewSteps = skew, exactSkew = False\<rparr>"

lemma toy_cfg_wf: "1 \<le> skew \<Longrightarrow> skew \<le> 10 \<Longrightarrow> config_wf (toy_cfg skew)"
  by (simp add: toy_cfg_def config_wf_def TOTPPeriod_def time_second_def)

lemma toy_validates:
  assumes "1 \<le> skew" "skew \<le> 2" "0 \<le> k" "k < 10" "skew \<le> m" "m < 8" "\<bar>k - m\<bar> \<le> skew"
  shows "ValidateTOTPCode toy_hmac1 ''s'' (''00000'' @ [digit_char (nat k)]) (unix_time (30 * m)) (toy_cfg skew) = Inr (k, True)"
proof -
  let ?code = "''00000'' @ [digit_char (nat k)]"
  have st: "totpStep (unix_time (30 * m)) (Period (toy_cfg skew)) = Some m"
    using assms(1,5) by (simp add: totpStep_def toy_cfg_def TOTPPeriod_def time_second_def time_unix_def unix_time_def Let_def
      signed_divide_int_def sgn_mult sgn_if)
  have c: "SkewSteps (toy_cfg skew) = skew" "Digits (toy_cfg skew) = 6" by (simp_all add: toy_cfg_def)
  have wf: "config_wf (toy_cfg skew)" using assms(1,2) by (intro toy_cfg_wf) simp_all
  have n: "normaliseCode ?code = ?code" using assms(4) by (intro toy_digits) simp
  obtain s hit where v: "ValidateTOTPCode toy_hmac1 ''s'' ?code (unix_time (30 * m)) (toy_cfg skew) = Inr (s, hit)"
    "hit \<Longrightarrow> \<bar>s - m\<bar> \<le> skew \<and> totpCodeForStep toy_hmac1 ''s'' s 6 = ?code"
    "\<And>u. \<not> hit \<Longrightarrow> \<bar>u - m\<bar> \<le> skew \<Longrightarrow> totpCodeForStep toy_hmac1 ''s'' u 6 \<noteq> ?code"
    using validate_wf [OF wf _ st, where hmac = toy_hmac1 and secret = "''s''" and code = ?code] unfolding c n by (metis list.distinct(1))
  have hit: hit using v(3) [of k] assms(3,4,7) toy_code_at by blast
  have "\<bar>s - m\<bar> \<le> skew" using v(2) [OF hit] by blast
  then have "0 \<le> s" "s < 10" using assms(2,5,6) by linarith+
  then have "digit_char (nat s) = digit_char (nat k)" using v(2) [OF hit] toy_code_at [of s] by simp
  then have "digit_val (digit_char (nat s)) = digit_val (digit_char (nat k))" by (rule arg_cong)
  moreover have "nat s < 10" "nat k < 10" using \<open>s < 10\<close> assms(4) by linarith+
  ultimately have "nat s = nat k" using digit_val_digit_char by metis
  then show ?thesis using v(1) hit \<open>0 \<le> s\<close> assms(3) by simp
qed

lemma code_four: "''00000'' @ [digit_char (nat 4)] = ''000004''"
  by code_simp

section \<open>A recovery code\<close>

definition toy_code :: "Secret \<times> string" where
  "toy_code = (NewSecret (groupString (b32_encode (replicate 15 CHR ''r'')) recoveryGroupLen ''-''),
     HashRecoveryCode toy_sha (\<lambda>r. r) (NewSecret (b32_encode (replicate 15 CHR ''r''))))"

lemma toy_recovery: "new_recovery_code toy_sha (\<lambda>r. r) (Some (replicate 15 CHR ''r'')) = Inr toy_code"
  by (simp add: new_recovery_code_def toy_code_def Let_def)

lemma toy_code_ascii: "ascii (Expose (fst toy_code))"
proof -
  have "ascii ''-''" by (simp add: ascii_def byte_def)
  then show ?thesis by (simp add: toy_code_def groupString_def runes_ascii [OF quintet_ascii] quintet_ascii group_ascii)
qed

end
