(* ===== verification/AuthProperties.thy ===== *)
theory AuthProperties
  imports AuthSamples
begin

text \<open>
  What the auth service guarantees: the state of its tables in every world that its handlers reach
  side by side, rotation and reuse of refresh tokens, what a login and a change of password need, the
  single use of a code, and the round trips of hashes, tokens, sealed secrets and recovery codes.
\<close>

section \<open>The tables\<close>

text \<open>C12: Every session has exactly one refresh token that was not redeemed: its chain of tokens never
  forks and never ends.
\<close>

theorem one_live_token:
  assumes "threads_reach ok (handlers s) Map.empty w0 ts w"
    "db_ok (c_email (prim s)) (sessionLifetime s) (w_db w0)" "f \<in> set (families (w_db w))"
  shows "length (filter (\<lambda>t. t_family t = f_id f \<and> t_used t = None) (tokens (w_db w))) = 1"
proof -
  have "db_chained (w_db w)" using later_ok [OF assms(1) _ assms(2)] by (simp add: db_ok_def)
  then show ?thesis using assms(3) by (simp add: db_chained_def unused_of_def [abs_def])
qed

theorem one_live_token_witness:
  "length (filter (\<lambda>t. t_family t = fam_of CHR ''c'' \<and> t_used t = None) (tokens (w_db (ann_in CHR ''c'')))) = 1"
  using one_live_token [OF ann_reach, of "family_at 100 CHR ''c''" "CHR ''c''"] ann_start_ok
  by (simp add: toy_lifetime ann_in_def family_at_def)

text \<open>C26: No refresh token outlives the absolute lifetime of the session it belongs to.\<close>

theorem session_capped:
  assumes "threads_reach ok (handlers s) Map.empty w0 ts w"
    "db_ok (c_email (prim s)) (sessionLifetime s) (w_db w0)" "0 < sessionLifetime s"
    "t \<in> set (tokens (w_db w))" "f \<in> set (families (w_db w))" "f_id f = t_family t"
  shows "t_expires t \<le> f_started f + sessionLifetime s"
proof -
  have "db_capped (sessionLifetime s) (w_db w)" using later_ok [OF assms(1) _ assms(2)] by (simp add: db_ok_def)
  then show ?thesis using assms(3-6) by (simp add: db_capped_def)
qed

theorem session_capped_witness: "t_expires (token_at 100 CHR ''c'') \<le> sec 100 + 30 * day"
  using session_capped [OF ann_reach, of "token_at 100 CHR ''c''" "CHR ''c''" "family_at 100 CHR ''c''"] ann_start_ok
  by (simp add: toy_lifetime ann_in_def family_at_def token_at_def day_def time_second_def)

section \<open>Rotation\<close>

text \<open>C13: A refresh token is redeemed at most once: after a rotation that committed, no rotation that
  presents the same token succeeds, in any world that other handlers can make of the tables since.
\<close>

theorem token_redeemed_once:
  assumes "db_ok (c_email (prim s)) (sessionLifetime s) (w_db w)" "rq_lifetime req = sessionLifetime s"
    "rotateAttempt fault req (w_db w) = (Inr (rec, RotateOK, why), db')"
    "threads_reach ok (handlers s) Map.empty (w\<lparr>w_db := db'\<rparr>) ts v" "rq_presented again = rq_presented req"
  shows "fst (rotateAttempt fault' again (w_db v)) \<noteq> Inr (rec', RotateOK, why')"
proof -
  have "db_step (c_email (prim s)) (sessionLifetime s) (w_db w) (snd (rotateAttempt fault req (w_db w)))"
    unfolding rotateAttempt_def by (rule inTx_step) (rule rotate_tx_step [OF _ assms(2)])
  then have ok: "db_ok (c_email (prim s)) (sessionLifetime s) db'" using assms(1,3) by (simp add: db_step_def)
  have "db_typed (c_email (prim s)) (w_db w)" using assms(1) by (simp add: db_ok_def)
  then obtain t0 t where t: "t \<in> set (tokens db')" "t_hash t = rq_presented req" "t_used t = Some (rq_now req)"
    by (rule rotated_used [OF assms(3)])
  obtain t' where t': "t' \<in> set (tokens (w_db v))" "token_kept t t'"
    using later_token [OF assms(4), of t] t(1) by auto
  have "db_typed (c_email (prim s)) (w_db v)" using later_ok [OF assms(4)] ok by (simp add: db_ok_def)
  then show ?thesis using t' t assms(5) by (intro used_not_rotated [of _ _ t']) (auto simp: token_kept_def)
qed

theorem token_redeemed_once_witness:
  "fst (rotateAttempt NoFault ann_rotate ann_rotated_db) \<noteq> Inr (ann_record, RotateOK, RevokedReasonUnknown)"
proof -
  let ?w = "(ann_world ann)\<lparr>w_db := ann_db\<rparr>"
  have r: "rotateAttempt NoFault ann_rotate (w_db ?w) = (Inr (ann_record, RotateOK, RevokedReasonUnknown), ann_rotated_db)"
    by (simp add: ann_rotates)
  have "fst (rotateAttempt NoFault ann_rotate (w_db (?w\<lparr>w_db := ann_rotated_db\<rparr>))) \<noteq> Inr (ann_record, RotateOK, RevokedReasonUnknown)"
    by (rule token_redeemed_once [where s = toy_service, OF _ _ r reach_self])
      (use ann_db_ok in \<open>simp_all add: toy_lifetime ann_rotate_def\<close>)
  then show ?thesis by simp
qed

text \<open>C9: Presenting a redeemed token ends the session: when a rotation reports reuse, its revocation has
  committed, and from that world on no token of the lineage, the thief's or the customer's, rotates.
\<close>

theorem reuse_kills_lineage:
  assumes "runs (Store_Rotate req :: ('g, 'r, _) handler) tr (Inr (rec, RotateReuse))" "last tr = (i, w0, w1)"
    "db_ok (c_email (prim s)) (sessionLifetime s) (w_db w1)" "sr_family rec \<in> f_id ` set (families (w_db w1))"
    "threads_reach ok (handlers s) Map.empty w1 ts w" "t \<in> set (tokens (w_db w))" "t_family t = sr_family rec"
    "rq_presented next = t_hash t"
  shows "fst (rotateAttempt fault next (w_db w)) \<noteq> Inr (rec', RotateOK, why)"
proof -
  obtain f where f: "f \<in> set (families (w_db w1))" "f_id f = sr_family rec" "f_revoked f \<noteq> None"
  proof -
    obtain f where f: "f \<in> set (families (w_db w1))" "f_id f = sr_family rec" using assms(4) by auto
    obtain j u u' where "last tr = (j, u, u')" "\<forall>f \<in> set (families (w_db u')). f_id f = sr_family rec \<longrightarrow> f_revoked f \<noteq> None"
      using assms(1) by (rule reuse_revoked)
    then show thesis using that f assms(2) by auto
  qed
  obtain f' where f': "f' \<in> set (families (w_db w))" "family_kept f f'"
    using later_family [OF assms(5), of f] f(1) by auto
  have "db_typed (c_email (prim s)) (w_db w)" using later_ok [OF assms(5)] assms(3) by (simp add: db_ok_def)
  then show ?thesis using f f' assms(6-8) by (intro dead_not_rotated [of _ _ t _ f']) (auto simp: family_kept_def)
qed

theorem reuse_kills_lineage_witness:
  "fst (rotateAttempt NoFault (ann_rotate\<lparr>rq_presented := replicate 32 CHR ''n''\<rparr>) ann_killed_db) \<noteq>
    Inr (ann_record, RotateOK, RevokedReasonUnknown)"
proof -
  let ?w = "(ann_world ann)\<lparr>w_db := ann_rotated_db, w_db := ann_killed_db\<rparr>"
  have "fst (rotateAttempt NoFault (ann_rotate\<lparr>rq_presented := replicate 32 CHR ''n''\<rparr>) (w_db ?w)) \<noteq>
      Inr (ann_record, RotateOK, RevokedReasonUnknown)"
    by (rule reuse_kills_lineage [where s = toy_service and t = ann_next, OF ann_reuse [of "CHR ''c''"] _ _ _ reach_self])
      (use ann_killed_ok in \<open>simp_all add: toy_lifetime ann_killed_db_def ann_rotated_db_def ann_reused_def ann_record_def
        revoke_row_def ann_family_def ann_next_def\<close>)
  then show ?thesis by simp
qed

section \<open>Logging in\<close>

text \<open>C5: A login succeeds only for an account that one of its actions read under the normalised address,
  whose stored hash the password matched, whose status lets it in, and, when it has a confirmed second
  factor, after a code of that factor was consumed; the session it returns is then in the tables.
\<close>

theorem login_needs_both_factors:
  assumes "runs (Service_login s req) tr (Inr se)"
  shows "(\<exists>email. NewEmail (c_lower (prim s)) (lr_email req) = Inr email \<and>
      (\<exists>(i, w, w') \<in> set tr. Store_UserByEmail (c_lower (prim s)) (in_fault i) email (w_db w) = Inr (Some (se_user se)))) \<and>
    password_shown s (ur_hash (se_user se)) (lr_password req) tr \<and>
    UserStatus_CanAuthenticate (ur_status (se_user se)) \<and>
    second_factor_shown s (ur_id (se_user se)) req tr \<and> session_opened s se tr"
  by (rule runs_login [OF assms]) blast

theorem login_needs_both_factors_witness: "\<exists>se tr. session_opened toy_service se tr \<and>
    password_shown toy_service (ur_hash (se_user se)) (lr_password ann_login) tr"
proof -
  obtain se where r: "run_proc (replicate 9 (tick 100 CHR ''c'')) (Service_login toy_service ann_login) (ann_world ann) =
      (Ret (Inr se), ann_in CHR ''c'')" using login_run by blast
  obtain tr where "runs (Service_login toy_service ann_login) tr (Inr se)" using run_proc_runs [OF r] by (rule exE)
  note shown = login_needs_both_factors [OF this]
  show ?thesis by (intro exI conjI) (rule shown [THEN conjunct2, THEN conjunct2, THEN conjunct2, THEN conjunct2],
    rule shown [THEN conjunct2, THEN conjunct1])
qed

text \<open>C19: An address without an account and a wrong password for one that exists are answered alike: the
  same error, after exactly one key derivation, and nothing else changes. The derivation is under the policy's parameters
  for an unknown address and under those of the stored hash for an account, so the two do the same work
  exactly when the stored hash has the current parameters. (The address is well-formed, the password not too long, and no call fails.)
\<close>

theorem refusals_alike:
  assumes "NewHasher (c_argon (prim s)) opts c seed (Some salt) = Inr (hasher s)" "kdf_length (c_argon (prim s))"
    "length salt = unat (SaltLen (policy (hasher s)))"
    "Secret_Len (lr_password req) \<le> MaxPasswordLen" "NewEmail (c_lower (prim s)) (lr_email req) = Inr email"
    "in_fault i = NoFault" "in_fault j = NoFault"
    "Store_UserByEmail (c_lower (prim s)) NoFault email (w_db w) = Inr found"
    "\<And>user. found = Some user \<Longrightarrow>
       Hasher_Verify (c_argon (prim s)) False (ur_hash user) (lr_password req) = Inr False"
  shows "\<exists>p. run_proc [i, j] (Service_login s req) w =
      (Ret (Inl AuthCredentials), w\<lparr>w_work := w_work w @ [p]\<rparr>) \<and>
    (case found of None \<Rightarrow> p = policy (hasher s) | Some user \<Rightarrow> \<exists>salt key. DecodeHash (ur_hash user) = Inr (p, salt, key))"
proof -
  obtain key where "DecodeHash (decoy (hasher s)) = Inr (policy (hasher s), salt, key)"
    using new_hasher_decoy(1) [OF assms(1-3)] by blast
  then show ?thesis by (rule refused_alike) (rule assms | simp add: assms)+
qed

theorem refusals_alike_witness:
  "run_proc [tick 1 CHR ''c'', tick 2 CHR ''c''] (Service_login toy_service (ann_login\<lparr>lr_password := NewSecret ''wrong''\<rparr>)) (ann_world ann) =
    (Ret (Inl AuthCredentials), (ann_world ann)\<lparr>w_work := [small_params]\<rparr>)"
proof -
  let ?req = "ann_login\<lparr>lr_password := NewSecret ''wrong''\<rparr>"
  have n: "NewHasher (c_argon (prim toy_service)) small_params 0 (Some ''decoy'') (Some (replicate 8 CHR ''s'')) = Inr (hasher toy_service)"
    using sample_params(1) by (simp add: NewHasher_def sample_params_def Hasher_hash_def hash_with_def toy_service_def toy_def Let_def
        small_params_def zero_Params_def)
  have e: "NewEmail lower (lr_email ?req) = Inr ''a@b''" for lower by (simp add: ann_login_def ann_email)
  have f: "Store_UserByEmail lower NoFault ''a@b'' (w_db (ann_world ann)) = Inr (Some (ann_loaded ann))" for lower
    unfolding ann_world_def World.simps by (rule ann_found) (simp_all add: ann_def)
  have v: "Hasher_Verify (c_argon (prim toy_service)) False (ur_hash (ann_loaded ann)) (lr_password ?req) = Inr False"
    using sample_params(1) by (simp add: ann_loaded_def ann_def toy_verify Secret_Len_def MaxPasswordLen_def small_params_def)
  have "\<exists>p. run_proc [tick 1 CHR ''c'', tick 2 CHR ''c''] (Service_login toy_service ?req) (ann_world ann) =
      (Ret (Inl AuthCredentials), (ann_world ann)\<lparr>w_work := w_work (ann_world ann) @ [p]\<rparr>) \<and>
      (case Some (ann_loaded ann) of None \<Rightarrow> p = policy (hasher toy_service)
       | Some user \<Rightarrow> \<exists>salt key. DecodeHash (ur_hash user) = Inr (p, salt, key))"
    by (rule refusals_alike [OF n _ _ _ e _ _ f])
      (use v toy_kdf in \<open>simp_all add: toy_prims Secret_Len_def MaxPasswordLen_def small_params_def\<close>)
  then show ?thesis
    using decode_hash_with [OF sample_params(1)] by (auto simp: ann_loaded_def ann_def ann_world_def)
qed

text \<open>C18: A refresh succeeds only if one of its actions found the presented token live and unused in a
  session that was neither revoked nor older than the password; that action left it redeemed, with
  the token it returned as its only successor in the same session.
\<close>

theorem refresh_redeems:
  assumes "runs (Service_Refresh s presented) tr (Inr se)"
  shows "\<exists>(i, w, w') \<in> set tr. redeemed_for s presented se (w_db w) (w_db w')"
  by (rule runs_refresh [OF assms]) blast

theorem refresh_redeems_witness: "\<exists>se db db'. redeemed_for toy_service (secret_of CHR ''c'') se db db'"
proof -
  obtain se w where r: "run_proc (replicate 6 (tick 200 CHR ''d'')) (Service_Refresh toy_service (secret_of CHR ''c'')) (ann_in CHR ''c'') =
      (Ret (Inr se), w)" using refresh_run by blast
  obtain tr where "runs (Service_Refresh toy_service (secret_of CHR ''c'')) tr (Inr se)" using run_proc_runs [OF r] by (rule exE)
  then have "\<exists>(i, w, w') \<in> set tr. redeemed_for toy_service (secret_of CHR ''c'') se (w_db w) (w_db w')" by (rule refresh_redeems)
  then show ?thesis by (elim bexE) (auto split: prod.splits)
qed

section \<open>Second factors and secrets\<close>

text \<open>C20: One code, one login: with a period of whole seconds, once a presentation of a step's code that was
  validated at one instant was admitted by the in-memory guard, at whatever instant, no later call for the step is admitted that
  reaches the guard before two periods after the step began. With at most one step of skew every instant at which a code of that step
  validates is before that, so a code is admitted twice only if its second presentation validates and then reaches the guard after its time.
\<close>

theorem totp_code_once:
  assumes "config_wf cfg" "Period cfg = n * time_second"
    "sorted (map (\<lambda>(f, now, _). now) calls)" "i < j" "j < length calls"
    "calls ! i = (f, now, u, k, replay_expiry cfg t)" "calls ! j = (f', now', u, k, e)"
    "unix_time 0 \<le> t" "ValidateTOTPCode hmac secret code t cfg = Inr (k, True)"
    "now' < unix_time 0 + (k + 2) * Period cfg"
    "guard_answers MemoryReplayGuard_Consume g calls ! i = Inr True"
  shows "guard_answers MemoryReplayGuard_Consume g calls ! j \<noteq> Inr True \<and>
    (SkewSteps cfg \<le> 1 \<longrightarrow> (\<forall>t' secret' code'. unix_time 0 \<le> t' \<longrightarrow> ValidateTOTPCode hmac secret' code' t' cfg = Inr (k, True) \<longrightarrow>
       t' < unix_time 0 + (k + 2) * Period cfg))"
proof (intro conjI impI allI)
  obtain c where c: "totpStep t (Period cfg) = Some c" "\<bar>k - c\<bar> \<le> SkewSteps cfg" by (rule validate_accepts [OF assms(1,9)])
  have "unix_time 0 + (k - SkewSteps cfg) * Period cfg \<le> t"
    using step_window(1) [OF assms(1,2) c(1) _ c(2)] assms(8) by (simp add: unix_time_def)
  then have "now' < replay_expiry cfg t" using assms(10) by (simp add: replay_expiry_def algebra_simps)
  then show "guard_answers MemoryReplayGuard_Consume g calls ! j \<noteq> Inr True"
    by (rule memory_guard.consumed_once [OF assms(3-7) _ assms(11)])
next
  fix t' secret' code'
  assume t': "unix_time 0 \<le> t'" "ValidateTOTPCode hmac secret' code' t' cfg = Inr (k, True)" and s: "SkewSteps cfg \<le> 1"
  obtain d where d: "totpStep t' (Period cfg) = Some d" "\<bar>k - d\<bar> \<le> SkewSteps cfg" by (rule validate_accepts [OF assms(1) t'(2)])
  have "t' < unix_time 0 + (k + SkewSteps cfg + 1) * Period cfg"
    using step_window(2) [OF assms(1,2) d(1) _ d(2)] t'(1) by (simp add: unix_time_def)
  moreover have "(k + SkewSteps cfg + 1) * Period cfg \<le> (k + 2) * Period cfg"
    using assms(1) s by (intro mult_right_mono) (simp_all add: config_wf_def)
  ultimately show "t' < unix_time 0 + (k + 2) * Period cfg" by linarith
qed

definition twice :: "int \<Rightarrow> (bool \<times> time \<times> string \<times> int \<times> time) list" where
  "twice skew = map (\<lambda>m. (False, unix_time (30 * m), ''u'', 4, replay_expiry (toy_cfg skew) (unix_time (30 * m)))) [4 - skew, 4 + skew]"

theorem totp_code_once_witness:
  "guard_answers MemoryReplayGuard_Consume NewMemoryReplayGuard (twice 1) ! 1 \<noteq> Inr True"
proof (rule totp_code_once [where cfg = "toy_cfg 1" and n = 30 and i = 0 and secret = "''s''" and hmac = toy_hmac1
      and code = "''000004''" and k = 4 and u = "''u''" and t = "unix_time 90" and now = "unix_time 90" and now' = "unix_time 150"
      and f = False and f' = False and e = "replay_expiry (toy_cfg 1) (unix_time 150)", THEN conjunct1])
  show "ValidateTOTPCode toy_hmac1 ''s'' ''000004'' (unix_time 90) (toy_cfg 1) = Inr (4, True)"
    using toy_validates [of 1 4 3] unfolding code_four by simp
qed (simp_all add: toy_cfg_wf twice_def NewMemoryReplayGuard_def MemoryReplayGuard_Consume_def Let_def sweep_def unix_time_def,
  simp_all add: toy_cfg_def TOTPPeriod_def time_second_def)

text \<open>Validation depends on its instant by the step only.\<close>

lemma validate_same_step:
  assumes "config_wf cfg" "totpStep t (Period cfg) = totpStep t' (Period cfg)"
  shows "ValidateTOTPCode hmac secret code t cfg = ValidateTOTPCode hmac secret code t' cfg"
  using assms(2) by (simp add: ValidateTOTPCode_def normalise_id [OF assms(1)] Let_def)

text \<open>At the edge a code is admitted twice, under the default skew of one step: it is used as soon as it validates, validated again in
  the last nanosecond in which it does, and the guard reads its clock after that, when the entry is gone.\<close>

theorem late_guard_admits_twice:
  "ValidateTOTPCode toy_hmac1 ''s'' ''000004'' (unix_time 90) (toy_cfg 1) = Inr (4, True)"
  "ValidateTOTPCode toy_hmac1 ''s'' ''000004'' (unix_time 180 - 1) (toy_cfg 1) = Inr (4, True)"
  "guard_answers MemoryReplayGuard_Consume NewMemoryReplayGuard
     [(False, unix_time 90, ''u'', 4, replay_expiry (toy_cfg 1) (unix_time 90)),
      (False, unix_time 180, ''u'', 4, replay_expiry (toy_cfg 1) (unix_time 180 - 1))] = [Inr True, Inr True]"
proof -
  show "ValidateTOTPCode toy_hmac1 ''s'' ''000004'' (unix_time 90) (toy_cfg 1) = Inr (4, True)"
    using toy_validates [of 1 4 3] unfolding code_four by simp
  have "totpStep (unix_time 180 - 1) (Period (toy_cfg 1)) = totpStep (unix_time 150) (Period (toy_cfg 1))"
    by (simp add: totpStep_def time_unix_def unix_time_def Let_def toy_cfg_def TOTPPeriod_def time_second_def
        signed_divide_int_def)
  from validate_same_step [OF _ this] show "ValidateTOTPCode toy_hmac1 ''s'' ''000004'' (unix_time 180 - 1) (toy_cfg 1) = Inr (4, True)"
    using toy_validates [of 1 4 5] unfolding code_four by (simp add: toy_cfg_wf)
  show "guard_answers MemoryReplayGuard_Consume NewMemoryReplayGuard
     [(False, unix_time 90, ''u'', 4, replay_expiry (toy_cfg 1) (unix_time 90)),
      (False, unix_time 180, ''u'', 4, replay_expiry (toy_cfg 1) (unix_time 180 - 1))] = [Inr True, Inr True]"
    by (simp add: NewMemoryReplayGuard_def MemoryReplayGuard_Consume_def Let_def sweep_def unix_time_def replay_expiry_def
        toy_cfg_def TOTPPeriod_def time_second_def)
qed

text \<open>With two steps of skew the entry goes too early: the same code is admitted twice.\<close>

theorem wide_skew_admits_twice:
  "config_wf (toy_cfg 2)"
  "ValidateTOTPCode toy_hmac1 ''s'' ''000004'' (unix_time 60) (toy_cfg 2) = Inr (4, True)"
  "ValidateTOTPCode toy_hmac1 ''s'' ''000004'' (unix_time 180) (toy_cfg 2) = Inr (4, True)"
  "guard_answers MemoryReplayGuard_Consume NewMemoryReplayGuard (twice 2) = [Inr True, Inr True]"
proof -
  show "config_wf (toy_cfg 2)" by (simp add: toy_cfg_wf)
  show "ValidateTOTPCode toy_hmac1 ''s'' ''000004'' (unix_time 60) (toy_cfg 2) = Inr (4, True)"
    using toy_validates [of 2 4 2] unfolding code_four by simp
  show "ValidateTOTPCode toy_hmac1 ''s'' ''000004'' (unix_time 180) (toy_cfg 2) = Inr (4, True)"
    using toy_validates [of 2 4 6] unfolding code_four by simp
  show "guard_answers MemoryReplayGuard_Consume NewMemoryReplayGuard (twice 2) = [Inr True, Inr True]"
    by (simp add: twice_def NewMemoryReplayGuard_def MemoryReplayGuard_Consume_def Let_def sweep_def unix_time_def replay_expiry_def
        toy_cfg_def TOTPPeriod_def time_second_def)
qed

text \<open>C21: A sealed second-factor secret opens for the account it was sealed for and for no other:
  moving a sealed row to another account is detected.
\<close>

theorem secret_bound_to_owner:
  assumes "NewKeyring keys active = Inr kr" "distinct (map fst keys)" "gcm_opens seal opn" "gcm_binds seal opn"
    "owner \<noteq> []" "reader \<noteq> []" "plaintext \<noteq> []" "length nonce = gcm_nonce_size"
  shows "bindE (Keyring_Seal seal kr (Some nonce) owner plaintext) (Keyring_Open opn kr reader) =
    (if reader = owner then Inr plaintext else Inl AuthDecrypt)"
proof -
  have "keyring_wf kr" using NewKeyring_wf [OF assms(1,2)] by blast
  then show ?thesis using open_seal [OF _ assms(3,5,7,8)] open_other_owner [OF _ assms(4,5,7,8) _ assms(6)] by simp
qed

theorem secret_bound_to_owner_witness:
  "bindE (Keyring_Seal toy_seal toy_keyring (Some (replicate 12 CHR ''n'')) ''usr_ann'' ''secret'') (Keyring_Open toy_open toy_keyring ''usr_bob'') =
    Inl AuthDecrypt"
proof -
  have k: "NewKeyring [(''k1'', replicate 32 CHR ''k'')] ''k1'' = Inr toy_keyring"
    by (simp add: NewKeyring_def validKeyID_def MaxIDLen_def id_char_def between_def byte_def AESKeyLen_def toy_keyring_def)
  from secret_bound_to_owner [OF k _ toy_gcm, of "''usr_ann''" "''usr_bob''" "''secret''" "replicate 12 CHR ''n''"]
  show ?thesis by (simp add: gcm_nonce_size_def)
qed

text \<open>C40: A recovery code is accepted however it is typed: in either case, with or without the dashes,
  with spaces and tabs anywhere.
\<close>

theorem recovery_code_accepted:
  assumes "new_recovery_code sha256 upper (Some buf) = Inr (code, digest)" "ascii typed"
    "typed_form typed = typed_form (Expose code)" "digest \<in> set digests"
  shows "0 \<le> MatchRecoveryCode sha256 upper digests (NewSecret typed) \<and>
    digests ! nat (MatchRecoveryCode sha256 upper digests (NewSecret typed)) = digest"
proof
  have h: "HashRecoveryCode sha256 upper (NewSecret typed) = digest" by (rule recovery_code_typed [OF assms(1-3)])
  show n: "0 \<le> MatchRecoveryCode sha256 upper digests (NewSecret typed)"
    using match_recovery(1) [of sha256 upper digests "NewSecret typed", OF refl] h assms(4) by (simp add: not_less [symmetric])
  show "digests ! nat (MatchRecoveryCode sha256 upper digests (NewSecret typed)) = digest"
    using match_recovery(2) [OF refl n] h by simp
qed

theorem recovery_code_accepted_witness:
  "0 \<le> MatchRecoveryCode toy_sha (\<lambda>r. r) [''other'', snd toy_code] (NewSecret ('' '' @ Expose (fst toy_code)))"
  using recovery_code_accepted [of toy_sha "\<lambda>r. r" "replicate 15 CHR ''r''" "fst toy_code" "snd toy_code"] toy_recovery toy_code_ascii
  by (simp add: typed_form_def separator_def byte_def ascii_def)

section \<open>Passwords and access tokens\<close>

text \<open>C30: A stored hash verifies exactly the passwords whose derived key is the stored one, and a hash
  just made is never due for a rehash: \<open>DecodeHash\<close> reads back the parameters, salt and key it was made of.
\<close>

theorem hash_verifies:
  assumes "Params_Validate (policy h) = Inr ()" "kdf_length argon" "length salt = unat (SaltLen (policy h))"
    "Hasher_Hash argon h False (Some salt) password = Inr encoded" "Secret_Len candidate \<le> MaxPasswordLen"
  shows "Hasher_Verify argon False encoded candidate =
      Inr (kdf_run argon (Expose candidate) salt (policy h) = kdf_run argon (Expose password) salt (policy h)) \<and>
    NeedsRehash h encoded = Inr False"
proof -
  have "Hasher_hash argon (policy h) (Some salt) (Expose password) = Inr encoded"
    using assms(4) by (auto simp: Hasher_Hash_def result_simps)
  then show ?thesis using verify_hashed [OF assms(1-3)] fresh_hash_current [OF assms(1-3)] assms(5) by simp
qed

theorem hash_verifies_witness:
  "\<exists>e. Hasher_Verify toy_argon False e (NewSecret ''correct horse'') = Inr True \<and> NeedsRehash (hasher toy_service) e = Inr False"
proof -
  have p: "Params_Validate (policy (hasher toy_service)) = Inr ()" using sample_params(1) by (simp add: toy_prims sample_params_def)
  have u: "valid_utf8 ''correct horse''" by (rule valid_utf8_ascii) (simp add: ascii_def byte_def)
  have "\<exists>e. Hasher_Hash toy_argon (hasher toy_service) False (Some (replicate 8 CHR ''s'')) (NewSecret ''correct horse'') = Inr e"
    using u by (simp add: Hasher_Hash_def ValidatePassword_def Secret_Len_def MinPasswordLen_def MaxPasswordLen_def acquire_def
        Hasher_hash_def Let_def)
  then obtain e where e: "Hasher_Hash toy_argon (hasher toy_service) False (Some (replicate 8 CHR ''s'')) (NewSecret ''correct horse'')
      = Inr e" by blast
  then show ?thesis
    using hash_verifies [OF p toy_kdf _ e, of "NewSecret ''correct horse''"]
    by (auto simp: toy_prims small_params_def Secret_Len_def MaxPasswordLen_def)
qed

text \<open>What one stored hash can make a server compute is bounded, whatever the bytes in the column:
  between 8 MiB and 1 GiB of memory, at most sixteen passes, at least one lane of at least 8 KiB.
\<close>

theorem stored_hash_bounded:
  assumes "DecodeHash encoded = Inr (p, salt, digest)"
  shows "8192 \<le> unat (MemoryKiB p) \<and> unat (MemoryKiB p) \<le> 1048576 \<and> 1 \<le> unat (Passes p) \<and> unat (Passes p) \<le> 16 \<and>
    1 \<le> unat (Parallelism p)"
  using validate_bounds [OF decode_bounds [OF assms]] by simp

theorem stored_hash_bounded_witness: "unat (Passes small_params) \<le> 16"
  using stored_hash_bounded [OF decode_hash_with [OF sample_params(1), of "[]"]] by simp

text \<open>C29: An access token that was issued to a well-formed user identifier by an issuer whose lifetime is a whole number of
  seconds verifies, with the claims it was issued with, at every instant from its start, less the leeway, and before its expiry, plus the leeway. (The
  names and the session are UTF-8 and the instants fit 64 bits, so that \<open>encoding/json\<close> reads back what it wrote.)
\<close>

theorem issued_token_verifies:
  assumes "json_ok js" "TokenIssuer_Issue hmac js ti entropy now userID sessionID = Inr (token, claims)"
    "validID userID = Inr ()" "issuer_writable ti claims" "ti_ttl ti mod time_second = 0"
    "NotBefore claims - ti_leeway ti \<le> later" "later < ExpiresAt claims + ti_leeway ti"
  shows "TokenIssuer_Verify hmac js ti later token = Inr claims"
  by (rule issued_verifies [OF assms])

theorem issued_token_verifies_witness:
  "\<exists>token claims. TokenIssuer_Verify toy_hmac256 toy_json (issuer toy_service) (sec 60) token = Inr claims \<and>
    Subject claims = ''usr_ann''"
proof -
  have "\<exists>token claims. TokenIssuer_Issue toy_hmac256 toy_json (issuer toy_service) (Some (replicate 16 CHR ''i'')) (sec 1) ''usr_ann'' ''s''
      = Inr (token, claims) \<and> NotBefore claims = sec 1 \<and> ExpiresAt claims = sec 601 \<and> Subject claims = ''usr_ann'' \<and>
      IssuedAt claims = sec 1 \<and> SessionID claims = ''s''"
    by (simp add: TokenIssuer_Issue_def NewOpaqueID_def MaxIDLen_def b64id_length Let_def toy_service_def truncate_to_def sec_def
        DefaultAccessTTL_def time_second_def)
  then obtain token claims where i: "TokenIssuer_Issue toy_hmac256 toy_json (issuer toy_service) (Some (replicate 16 CHR ''i'')) (sec 1)
      ''usr_ann'' ''s'' = Inr (token, claims)" "NotBefore claims = sec 1" "ExpiresAt claims = sec 601" "Subject claims = ''usr_ann''"
    "IssuedAt claims = sec 1" "SessionID claims = ''s''" by blast
  have "ti_issuer (issuer toy_service) = ''sharpline''" "ti_audience (issuer toy_service) = ''sharpline-api''"
    by (simp_all add: toy_service_def DefaultIssuer_def DefaultAudience_def)
  moreover have "valid_utf8 ''sharpline''" "valid_utf8 ''sharpline-api''" "valid_utf8 ''s''"
    by (rule valid_utf8_ascii, simp add: ascii_def byte_def)+
  ultimately have writable: "issuer_writable (issuer toy_service) claims"
    by (simp add: issuer_writable_def i fits_int64_def time_unix_def sec_def)
  have "TokenIssuer_Verify toy_hmac256 toy_json (issuer toy_service) (sec 60) token = Inr claims"
    by (rule issued_token_verifies [OF toy_json_ok i(1) _ writable])
      (simp_all add: i toy_service_def DefaultAccessTTL_def time_second_def sec_def)
  then show ?thesis using i(4) by blast
qed

text \<open>C28: Whatever verifies ends in the signature, under this issuer's key, of everything before it, names a
  user, and is inside its validity interval; whatever does not is refused with one error.
\<close>

theorem verified_token_signed:
  assumes "TokenIssuer_Verify hmac js ti now token = r"
  shows "case r of
      Inl e \<Rightarrow> e = AuthAccessTokenInvalid
    | Inr claims \<Rightarrow> (\<exists>input sig. Expose token = input @ ''.'' @ sig \<and>
          raw64_decode url_alphabet sig = Some (hmac (ti_key ti) input)) \<and>
        Issuer claims = ti_issuer ti \<and> validID (Subject claims) = Inr () \<and>
        NotBefore claims - ti_leeway ti \<le> now \<and> now < ExpiresAt claims + ti_leeway ti"
proof (cases r)
  case (Inl e)
  then show ?thesis using verify_error assms by simp
next
  case (Inr claims)
  obtain input sig where "Expose token = input @ ''.'' @ sig" "raw64_decode url_alphabet sig = Some (hmac (ti_key ti) input)"
    "Issuer claims = ti_issuer ti" "validID (Subject claims) = Inr ()"
    "now < ExpiresAt claims + ti_leeway ti" "NotBefore claims - ti_leeway ti \<le> now"
    using verified [OF assms [unfolded Inr]] by blast
  then show ?thesis unfolding Inr sum.case by blast
qed

theorem verified_token_signed_witness:
  "case TokenIssuer_Verify toy_hmac256 toy_json (issuer toy_service) 0 (NewSecret ''a.b'') of
     Inl e \<Rightarrow> e = AuthAccessTokenInvalid | Inr _ \<Rightarrow> True"
  using verified_token_signed [OF refl, where hmac = toy_hmac256 and js = toy_json and ti = "issuer toy_service" and now = 0
      and token = "NewSecret ''a.b''"]
  by (simp split: sum.splits)

text \<open>C27: A change of password succeeds only if the old one was shown, and one of its actions left the
  account with a hash that the new password verifies.
\<close>

theorem password_change_replaces:
  assumes "runs (Service_ChangePassword s uid current new) tr (Inr ())"
    "Params_Validate (policy (hasher s)) = Inr ()" "kdf_length (c_argon (prim s))"
  shows "\<exists>user. password_shown s (ur_hash user) current tr \<and> password_replaced s uid new tr \<and>
    (\<exists>(i, w, w') \<in> set tr. Store_UserByID (c_lower (prim s)) (in_fault i) uid (w_db w) = Inr (Some user))"
  by (rule runs_change [OF assms]) blast

theorem password_change_replaces_witness: "\<exists>tr. password_replaced toy_service ''usr_ann'' new_pw tr"
proof -
  let ?w = "ann_world (with_hash (hash_with small_params ''correct horse''))"
  have "w_db ?w = only_user (with_hash (hash_with small_params ''correct horse''))" by (simp add: ann_world_def only_user_def)
  moreover have "unat (DigestLen small_params) = 16" by (simp add: small_params_def)
  ultimately obtain ws where "run_proc (replicate 7 (tick 5 CHR ''s''))
      (Service_ChangePassword toy_service ''usr_ann'' (NewSecret ''correct horse'') new_pw) ?w =
    (Ret (Inr ()), ?w\<lparr>w_db := only_user (changed_at 5), w_work := ws\<rparr>)" using change_run [OF _ sample_params(1)] by blast
  from run_proc_runs [OF this]
  obtain tr where r: "runs (Service_ChangePassword toy_service ''usr_ann'' (NewSecret ''correct horse'') new_pw) tr (Inr ())"
    by (rule exE)
  have p: "Params_Validate (policy (hasher toy_service)) = Inr ()" "kdf_length (c_argon (prim toy_service))"
    using sample_params(1) toy_kdf by (simp_all add: toy_prims sample_params_def)
  from password_change_replaces [OF r p] show ?thesis by (elim exE conjE) (rule exI)
qed

end
