(* ===== verification/AuthRaces.thy ===== *)
theory AuthRaces
  imports AuthSamples
begin

text \<open>
  A race of the auth service: \<open>maybeRehash\<close> stores the hash of the password that a login matched, with
  no condition on the hash that is stored by then, so it can undo a change of password. The login also
  opens its session after the change revoked every other one.
\<close>

text \<open>
  A login that matched the old password under the old parameters is about to store its
  rehash when a change of password runs; then the login goes on.
\<close>

definition login_paused :: "(Input, (MemoryReplayGuard, unit) World, Session ares) proc" where
  "login_paused = thenP (thenP (db_act (\<lambda>i. Store_RehashPassword (c_email toy) (in_fault i) ''usr_ann'' (hash_with small_params ''correct horse'')))
     (\<lambda>_. Ret ())) (\<lambda>_. Service_openSession toy_service (ann_loaded (with_hash (hash_with old_params ''correct horse''))))"

lemma login_until_rehash:
  assumes "w_db w = only_user (with_hash (hash_with old_params ''correct horse''))"
  shows "\<exists>ws. run_proc (replicate 4 (tick 100 CHR ''s'')) (Service_login toy_service ann_login) w = (login_paused, w\<lparr>w_work := ws\<rparr>)"
proof -
  let ?u = "with_hash (hash_with old_params ''correct horse'')"
  have r: "replicate 4 i = [i, i, i, i]" for i :: Input by (simp add: numeral_eq_Suc)
  have len: "\<not> MaxPasswordLen < Secret_Len (lr_password ann_login)" "lr_password ann_login = NewSecret ''correct horse''" "lr_email ann_login = ''A@b''"
    by (simp_all add: ann_login_def Secret_Len_def MaxPasswordLen_def)
  have f: "Store_UserByEmail lower NoFault ''a@b'' (w_db w) = Inr (Some (ann_loaded ?u))" for lower
    unfolding assms(1) only_user_def by (rule ann_found) (simp_all add: ann_def with_hash_def)
  have h: "ur_hash (ann_loaded ?u) = hash_with old_params ''correct horse''" "ur_status (ann_loaded ?u) = UserStatusActive"
    "ur_id (ann_loaded ?u) = ''usr_ann''" by (simp_all add: ann_loaded_def with_hash_def)
  have v: "Hasher_Verify (c_argon (prim toy_service)) False (hash_with old_params ''correct horse'') (NewSecret ''correct horse'') = Inr True"
    by (simp add: toy_verify sample_params Secret_Len_def MaxPasswordLen_def)
  have t: "Store_LoadTOTP NoFault uid (w_db w) = Inr None" for uid by (simp add: Store_LoadTOTP_def assms(1) only_user_def)
  have n: "NeedsRehash (hasher toy_service) (hash_with old_params ''correct horse'') = Inr True"
    by (simp add: needs_hash_with sample_params toy_prims AtLeastAsStrongAs_def) (simp add: small_params_def old_params_def word_le_nat_alt)
  have u8: "valid_utf8 ''correct horse''" by (rule valid_utf8_ascii) (simp add: ascii_def byte_def)
  have hn: "Hasher_Hash (c_argon (prim toy_service)) (hasher toy_service) False (Some (replicate 8 CHR ''s'')) (NewSecret ''correct horse'') =
      Inr (hash_with small_params ''correct horse'')"
    using u8 by (simp add: Hasher_Hash_def acquire_def Hasher_hash_def toy_prims hash_with_def ValidatePassword_def Secret_Len_def
      MinPasswordLen_def MaxPasswordLen_def)
  have sl: "unat (SaltLen small_params) = 8" by (simp add: small_params_def)
  have p: "c_email (prim toy_service) = c_email toy" by (simp add: toy_lifetime)
  have "run_proc (replicate 4 (tick 100 CHR ''s'')) (Service_login toy_service ann_login) w =
      (login_paused, worked [small_params] (Inr () :: unit ares) (worked (kdf_params (hash_with old_params ''correct horse'')) (Inr True :: bool ares) w))"
    unfolding r Service_login_def len login_paused_def
    using len(1) by (simp add: len ann_email user_by_email_def run_actions f login_user_def Service_verifyPassword_def run_bind_act v h
       UserStatus_CanAuthenticate_def Service_checkSecondFactor_def bindP_assoc load_totp_def t Service_maybeRehash_def n Let_def
       thenP_assoc Service_hashPassword_def run_then_act entropy_tick toy_prims(2) sl hn p worked_def)
  then show ?thesis by (simp add: worked_def) (rule exI, rule refl)
qed

definition back_to_old :: "int \<Rightarrow> UserRow" where
  "back_to_old n = (changed_at n)\<lparr>u_hash := hash_with small_params ''correct horse''\<rparr>"

lemma login_resumed:
  assumes "w_db w = only_user (changed_at n)"
  shows "\<exists>se. run_proc (replicate 7 (tick m c)) login_paused w = (Ret (Inr se), w\<lparr>w_db :=
    \<lparr>users = [back_to_old n], families = [family_at m c], tokens = [token_at m c], totps = []\<rparr>\<rparr>)"
proof -
  have r: "replicate 7 i = i # replicate 6 i" for i :: Input by (simp add: numeral_eq_Suc)
  have set: "Store_RehashPassword (c_email toy) NoFault ''usr_ann'' (hash_with small_params ''correct horse'') (w_db w) =
      (Inr (), only_user (back_to_old n))"
    unfolding assms using ann_checks [OF sample_params(1), where t = "sec n" and pw = "''correct horse''"]
    by (simp add: Store_RehashPassword_def one_user_def run_stmt_def update_users_def only_user_def back_to_old_def changed_at_def)
      (simp add: ann_def)
  let ?w = "w\<lparr>w_db := only_user (back_to_old n)\<rparr>"
  have "\<exists>se. run_proc (replicate 6 (tick m c)) (Service_openSession toy_service (ann_loaded (with_hash (hash_with old_params ''correct horse'')))) ?w =
    (Ret (Inr se), ?w\<lparr>w_db := (w_db ?w)\<lparr>families := [family_at m c], tokens := [token_at m c]\<rparr>\<rparr>)"
    by (rule session_run) (simp_all add: ann_loaded_def only_user_def back_to_old_def changed_at_def ann_def)
  moreover have "run_proc (replicate 7 (tick m c)) login_paused w =
      run_proc (replicate 6 (tick m c)) (Service_openSession toy_service (ann_loaded (with_hash (hash_with old_params ''correct horse'')))) ?w"
    unfolding r login_paused_def thenP_assoc by (simp add: db_act_def run_then_act set)
  ultimately show ?thesis by (simp add: only_user_def)
qed

text \<open>The whole race at once: a login with the old password that is due for a rehash, overtaken by a change of
  password that succeeds, puts the old password back: it verifies afterwards, the new one does not, and the session
  of the login outlives the revocation.
\<close>

theorem change_of_password_undone:
  assumes "w_db w = only_user (with_hash (hash_with old_params ''correct horse''))"
  shows "\<exists>p w1 w2 w3 se f u.
    run_proc (replicate 4 (tick 100 CHR ''s'')) (Service_login toy_service ann_login) w = (p, w1) \<and>
    run_proc (replicate 7 (tick 200 CHR ''s'')) (Service_ChangePassword toy_service ''usr_ann'' (NewSecret ''correct horse'') new_pw) w1 =
      (Ret (Inr ()), w2) \<and>
    run_proc (replicate 7 (tick 300 CHR ''s'')) p w2 = (Ret (Inr se), w3) \<and>
    users (w_db w3) = [u] \<and> Hasher_Verify toy_argon False (u_hash u) (NewSecret ''correct horse'') = Inr True \<and>
    Hasher_Verify toy_argon False (u_hash u) new_pw = Inr False \<and>
    families (w_db w3) = [f] \<and> f_revoked f = None \<and> u_changed u \<le> f_started f"
proof -
  obtain ws where a: "run_proc (replicate 4 (tick 100 CHR ''s'')) (Service_login toy_service ann_login) w = (login_paused, w\<lparr>w_work := ws\<rparr>)"
    using login_until_rehash [OF assms] by blast
  have o: "unat (DigestLen old_params) = 16" by (simp add: old_params_def small_params_def)
  obtain vs where b: "run_proc (replicate 7 (tick 200 CHR ''s''))
      (Service_ChangePassword toy_service ''usr_ann'' (NewSecret ''correct horse'') new_pw) (w\<lparr>w_work := ws\<rparr>) =
    (Ret (Inr ()), w\<lparr>w_work := ws, w_db := only_user (changed_at 200), w_work := vs\<rparr>)"
    using change_run [OF _ sample_params(2) o, of "w\<lparr>w_work := ws\<rparr>" 200] assms by auto
  obtain se where c: "run_proc (replicate 7 (tick 300 CHR ''s'')) login_paused
      (w\<lparr>w_work := ws, w_db := only_user (changed_at 200), w_work := vs\<rparr>) =
    (Ret (Inr se), w\<lparr>w_work := ws, w_db := only_user (changed_at 200), w_work := vs, w_db :=
      \<lparr>users = [back_to_old 200], families = [family_at 300 CHR ''s''], tokens = [token_at 300 CHR ''s''], totps = []\<rparr>\<rparr>)"
    using login_resumed [of "w\<lparr>w_work := ws, w_db := only_user (changed_at 200), w_work := vs\<rparr>" 200 300 "CHR ''s''"] by auto
  have "u_hash (back_to_old 200) = hash_with small_params ''correct horse''" "u_changed (back_to_old 200) = sec 200"
    by (simp_all add: back_to_old_def changed_at_def)
  moreover have "Hasher_Verify toy_argon False (hash_with small_params ''correct horse'') (NewSecret ''correct horse'') = Inr True"
    "Hasher_Verify toy_argon False (hash_with small_params ''correct horse'') new_pw = Inr False"
    by (simp_all add: verify_hash_with sample_params Secret_Len_def MaxPasswordLen_def new_pw_def kdf_run_def toy_argon_def)
      (simp_all add: small_params_def)
  moreover have "f_revoked (family_at 300 CHR ''s'') = None" "sec 200 \<le> f_started (family_at 300 CHR ''s'')"
    by (simp_all add: family_at_def sec_def)
  ultimately show ?thesis using a b c by (intro exI conjI) (assumption | simp)+
qed

text \<open>C37: A rehash is written without looking at what is stored by then. A login, of any account at any service, that
  matched the stored hash, is let in without a second factor and is due for a rehash, has after its fourth action only
  computed the new hash of the password it was given. Whatever happens to the tables before its next action, a change of password that
  succeeds included: if that action does not fail, it replaces the hash of the account's row as it then is, and nothing else of
  the row, by one that verifies the password of the login. (The row meets the constraints of its table with the new hash.)
\<close>

theorem rehash_undoes_change:
  assumes "in_fault i1 = NoFault" "in_fault i2 = NoFault" "in_fault i3 = NoFault" "in_fault i4 = NoFault" "in_fault i5 = NoFault"
    "NewEmail (c_lower (prim s)) (lr_email req) = Inr email"
    "Store_UserByEmail (c_lower (prim s)) NoFault email (w_db w) = Inr (Some user)"
    "Hasher_Verify (c_argon (prim s)) False (ur_hash user) (lr_password req) = Inr True"
    "UserStatus_CanAuthenticate (ur_status user)" "Store_LoadTOTP NoFault (ur_id user) (w_db w) = Inr None"
    "NeedsRehash (hasher s) (ur_hash user) = Inr True"
    "Hasher_Hash (c_argon (prim s)) (hasher s) False (entropy_of (unat (SaltLen (policy (hasher s)))) i4) (lr_password req) = Inr encoded"
    "Params_Validate (policy (hasher s)) = Inr ()" "kdf_length (c_argon (prim s))"
  shows "\<exists>p w1. run_proc [i1, i2, i3, i4] (Service_login s req) w = (p, w1) \<and> w_db w1 = w_db w \<and>
    Hasher_Verify (c_argon (prim s)) False encoded (lr_password req) = Inr True \<and>
    (\<forall>w2 u. db_typed (c_email (prim s)) (w_db w2) \<longrightarrow> u \<in> set (users (w_db w2)) \<longrightarrow> u_id u = ur_id user \<longrightarrow>
      user_checks (c_email (prim s)) (u\<lparr>u_hash := encoded\<rparr>) \<longrightarrow>
      (\<exists>p' w3. run_proc [i5] p w2 = (p', w3) \<and>
        users (w_db w3) = map (\<lambda>v. if u_id v = ur_id user then u\<lparr>u_hash := encoded\<rparr> else v) (users (w_db w2))))"
proof -
  let ?p = "thenP (thenP (db_act (\<lambda>i. Store_RehashPassword (c_email (prim s)) (in_fault i) (ur_id user) encoded))
     (\<lambda>_. Ret ())) (\<lambda>_. Service_openSession s user)"
  have len: "\<not> MaxPasswordLen < Secret_Len (lr_password req)"
    using assms(8) by (auto simp: Hasher_Verify_def result_simps split: if_splits)
  obtain salt where salt: "entropy_of (unat (SaltLen (policy (hasher s)))) i4 = Some salt"
    using assms(12) by (cases "entropy_of (unat (SaltLen (policy (hasher s)))) i4") (auto simp: Hasher_Hash_def Hasher_hash_def result_simps)
  then have "length salt = unat (SaltLen (policy (hasher s)))" by (auto simp: entropy_of_def split: if_splits)
  moreover have "Hasher_hash (c_argon (prim s)) (policy (hasher s)) (Some salt) (Expose (lr_password req)) = Inr encoded"
    using assms(12) salt by (auto simp: Hasher_Hash_def result_simps)
  ultimately have v: "Hasher_Verify (c_argon (prim s)) False encoded (lr_password req) = Inr True"
    using verify_hashed [OF assms(13,14)] len by simp
  have run: "\<exists>ws. run_proc [i1, i2, i3, i4] (Service_login s req) w = (?p, w\<lparr>w_work := ws\<rparr>)"
    using assms(1-4,6-12) len
    by (simp add: Service_login_def user_by_email_def run_actions login_user_def Service_verifyPassword_def run_bind_act
       Service_checkSecondFactor_def bindP_assoc load_totp_def Service_maybeRehash_def Let_def
       thenP_assoc Service_hashPassword_def run_then_act worked_def) blast
  have step: "\<exists>p' w3. run_proc [i5] ?p w2 = (p', w3) \<and>
      users (w_db w3) = map (\<lambda>v. if u_id v = ur_id user then u\<lparr>u_hash := encoded\<rparr> else v) (users (w_db w2))"
    if "db_typed (c_email (prim s)) (w_db w2)" "u \<in> set (users (w_db w2))" "u_id u = ur_id user"
      "user_checks (c_email (prim s)) (u\<lparr>u_hash := encoded\<rparr>)" for w2 u
  proof -
    note checks = that(4)
    have one: "v = u" if "v \<in> set (users (w_db w2))" "u_id v = ur_id user" for v
      using that \<open>db_typed _ _\<close> \<open>u \<in> _\<close> \<open>u_id u = _\<close> by (auto simp: db_typed_def distinct_map inj_on_def)
    have "filter (\<lambda>v. u_id v = ur_id user) (users (w_db w2)) \<noteq> []" using that(2,3) by (auto simp: filter_empty_conv)
    moreover have "list_all (\<lambda>v. u_id v = ur_id user \<longrightarrow> user_checks (c_email (prim s)) (v\<lparr>u_hash := encoded\<rparr>)) (users (w_db w2))"
      using one checks by (auto simp: list_all_iff)
    ultimately have e: "Store_RehashPassword (c_email (prim s)) NoFault (ur_id user) encoded (w_db w2) =
        (Inr (), (w_db w2)\<lparr>users := map (\<lambda>v. if u_id v = ur_id user then v\<lparr>u_hash := encoded\<rparr> else v) (users (w_db w2))\<rparr>)"
      by (simp add: Store_RehashPassword_def one_user_def run_stmt_def update_users_def)
    have "map (\<lambda>v. if u_id v = ur_id user then v\<lparr>u_hash := encoded\<rparr> else v) (users (w_db w2)) =
        map (\<lambda>v. if u_id v = ur_id user then u\<lparr>u_hash := encoded\<rparr> else v) (users (w_db w2))"
      using one by auto
    then show ?thesis
      using assms(5) by (simp add: thenP_assoc db_act_def run_then_act e)
  qed
  show ?thesis using run v step by (auto intro!: exI [of _ ?p])
qed

theorem rehash_undoes_change_witness:
  "\<exists>p w1 p' (w3 :: (MemoryReplayGuard, unit) World).
    run_proc [tick 100 CHR ''s'', tick 100 CHR ''s'', tick 100 CHR ''s'', tick 100 CHR ''s''] (Service_login toy_service ann_login)
      (ann_world (with_hash (hash_with old_params ''correct horse''))) = (p, w1) \<and>
    run_proc [tick 300 CHR ''s''] p ((ann_world ann)\<lparr>w_db := only_user (changed_at 200)\<rparr>) = (p', w3) \<and>
    users (w_db w3) = [back_to_old 200]"
proof -
  let ?u = "with_hash (hash_with old_params ''correct horse'')"
  let ?w = "ann_world ?u :: (MemoryReplayGuard, unit) World"
  let ?i = "tick 100 CHR ''s''"
  have db: "w_db ?w = only_user ?u" by (simp add: ann_world_def only_user_def)
  have h: "ur_hash (ann_loaded ?u) = hash_with old_params ''correct horse''" "ur_status (ann_loaded ?u) = UserStatusActive"
    "ur_id (ann_loaded ?u) = ''usr_ann''" by (simp_all add: ann_loaded_def with_hash_def)
  have e: "NewEmail lower (lr_email ann_login) = Inr ''a@b''" for lower by (simp add: ann_login_def ann_email)
  have f: "Store_UserByEmail lower NoFault ''a@b'' (w_db ?w) = Inr (Some (ann_loaded ?u))" for lower
    unfolding db only_user_def by (rule ann_found) (simp_all add: ann_def with_hash_def)
  have v: "Hasher_Verify (c_argon (prim toy_service)) False (ur_hash (ann_loaded ?u)) (lr_password ann_login) = Inr True"
    by (simp add: h toy_verify sample_params Secret_Len_def MaxPasswordLen_def ann_login_def)
  have t: "Store_LoadTOTP NoFault (ur_id (ann_loaded ?u)) (w_db ?w) = Inr None" by (simp add: Store_LoadTOTP_def db only_user_def)
  have n: "NeedsRehash (hasher toy_service) (ur_hash (ann_loaded ?u)) = Inr True"
    by (simp add: h needs_hash_with sample_params toy_prims AtLeastAsStrongAs_def) (simp add: small_params_def old_params_def word_le_nat_alt)
  have u8: "valid_utf8 ''correct horse''" by (rule valid_utf8_ascii) (simp add: ascii_def byte_def)
  have hn: "Hasher_Hash (c_argon (prim toy_service)) (hasher toy_service) False
      (entropy_of (unat (SaltLen (policy (hasher toy_service)))) ?i) (lr_password ann_login) =
      Inr (hash_with small_params ''correct horse'')"
    using u8 by (simp add: Hasher_Hash_def acquire_def Hasher_hash_def toy_prims hash_with_def ValidatePassword_def Secret_Len_def
      MinPasswordLen_def MaxPasswordLen_def ann_login_def entropy_tick) (simp add: small_params_def)
  have a: "UserStatus_CanAuthenticate (ur_status (ann_loaded ?u))" by (simp add: h UserStatus_CanAuthenticate_def)
  have p: "Params_Validate (policy (hasher toy_service)) = Inr ()" using sample_params(1) by (simp add: toy_prims sample_params_def)
  have k: "kdf_length (c_argon (prim toy_service))" using toy_kdf by (simp add: toy_prims)
  have row: "c_email (prim toy_service) = c_email toy" by (simp add: toy_lifetime)
  have ok: "user_checks (c_email toy) ((changed_at 200)\<lparr>u_hash := hash_with small_params ''correct horse''\<rparr>)"
    "db_typed (c_email toy) (only_user (changed_at 200))"
    using ann_checks [OF sample_params(1), where t = "sec 200" and pw = "''correct horse''"]
      ann_checks [OF sample_params(1), where t = "sec 200" and pw = "''battery staple''"]
    by (simp_all add: changed_at_def only_user_def db_typed_def user_checks_def)
  have f0: "in_fault (tick m c) = NoFault" for m c by (simp add: tick_def)
  obtain p w1 where start: "run_proc [?i, ?i, ?i, ?i] (Service_login toy_service ann_login) ?w = (p, w1)"
    and go: "\<And>w2 u. db_typed (c_email toy) (w_db w2) \<Longrightarrow> u \<in> set (users (w_db w2)) \<Longrightarrow> u_id u = ''usr_ann'' \<Longrightarrow>
      user_checks (c_email toy) (u\<lparr>u_hash := hash_with small_params ''correct horse''\<rparr>) \<Longrightarrow>
      \<exists>p' w3. run_proc [tick 300 CHR ''s''] p (w2 :: (MemoryReplayGuard, unit) World) = (p', w3) \<and>
        users (w_db w3) = map (\<lambda>v. if u_id v = ''usr_ann'' then u\<lparr>u_hash := hash_with small_params ''correct horse''\<rparr> else v) (users (w_db w2))"
    using rehash_undoes_change [where ?i5.0 = "tick 300 CHR ''s''" and ?i1.0 = ?i and ?i2.0 = ?i and ?i3.0 = ?i,
        OF f0 f0 f0 f0 f0 e f v a t n hn p k] unfolding h row by blast
  from go [of "(ann_world ann)\<lparr>w_db := only_user (changed_at 200)\<rparr>" "changed_at 200"] ok
  obtain p' w3 where "run_proc [tick 300 CHR ''s''] p ((ann_world ann)\<lparr>w_db := only_user (changed_at 200)\<rparr>) = (p', w3)"
    "users (w_db w3) = [back_to_old 200]" by (auto simp add: only_user_def changed_at_def back_to_old_def ann_def)
  then show ?thesis using start by blast
qed

end
