(* ===== verification/Spec2Isabelle.thy ===== *)
theory Spec2Isabelle
  imports
    WagerProperties LedgerProperties RoundRobinProperties MoneyProperties CatalogueProperties
    StreamProperties GatewayProperties ClientProperties AuthProperties AuthRaces
begin

text \<open>
  A model of Sharpline, a simulated sportsbook written in Go, and the theorems that make its core
  correct.

  The program. Odds are ingested from a provider, normalised, priced and streamed to browsers;
  customers place tickets that are settled and booked in a double-entry ledger. The packages under
  \<open>internal/domain\<close> define the values all services share and the rules they obey; they are pure. The
  pricer publishes one record per market to a compacted Kafka topic; every replica of the streaming
  gateway (\<open>internal/wsgw\<close>) folds that topic into a slate it serves snapshots from, and publishes a
  delta for every change.

  What models what.
  \<^item> \<open>Prelude\<close>: results with early return (an error sum for Go's value and error), instants.
    \<open>GoInt\<close>, \<open>GoFloat\<close>, \<open>GoText\<close>: the parts of Go and its standard library the code uses, as
    executable definitions: 64-bit words with truncated division, IEEE 754 binary64 as rationals
    with one rounding function, UTF-8 decoding and the string functions.
  \<^item> \<open>DomainErrors\<close>, \<open>Ids\<close>, \<open>Money\<close>, \<open>MoneyFloat\<close>, \<open>MoneyText\<close>: \<open>errors.go\<close>, \<open>ids.go\<close>,
    \<open>money.go\<close>. An amount is a 64-bit word of minor units.
  \<^item> \<open>TextEnum\<close> and \<open>Lifecycle\<close>: the contracts the domain's types share, as locales. Every
    enumeration interprets \<open>text_enum\<close>; markets, events and tickets interpret \<open>entity\<close>, which joins a
    status machine with updates stamped in time.
  \<^item> \<open>Market\<close>, \<open>Event\<close>, \<open>Catalogue\<close>, \<open>Selection\<close>, \<open>Price\<close>, \<open>Leg\<close>, \<open>Wager\<close>: the files of the same
    names (\<open>Catalogue\<close> is \<open>sport.go\<close>, \<open>league.go\<close>, \<open>book.go\<close>). \<open>WagerInvariant\<close> and \<open>WagerLimits\<close>
    hold the invariant of a ticket and what the transitions leave open.
  \<^item> \<open>Odometer\<close>, \<open>RoundRobin\<close>: the enumeration of combinations and the round robins of \<open>wager.go\<close>.
  \<^item> \<open>Ledger\<close>, \<open>Settlement\<close>: \<open>ledger.go\<close>, and the life of a ticket in it.
  \<^item> \<open>Sequence\<close>, \<open>Channel\<close>, \<open>Slate\<close>, \<open>SlateInvariant\<close>: \<open>sequence.go\<close>, \<open>channel.go\<close>, \<open>state.go\<close>
    under \<open>internal/wsgw\<close>, with the validation of a document in \<open>internal/pricing/payload.go\<close>;
    \<open>SlateView\<close> is the view a client builds from frames. \<open>Bus\<close>: the topic registry and the deliveries
    of \<open>internal/platform/kafka\<close>.
  \<^item> \<open>AuthErrors\<close>, \<open>AuthStatus\<close>, \<open>Email\<close>, \<open>AuthIds\<close>, \<open>Password\<close>, \<open>Jwt\<close>, \<open>Keyring\<close>, \<open>Totp\<close>: the files of
    \<open>internal/auth\<close> (\<open>AuthIds\<close> is \<open>secret.go\<close> and \<open>ids.go\<close>). \<open>ReplayGuard\<close> is the in-process guard of
    \<open>totp.go\<close> and the Redis guard of \<open>redisguard/guard.go\<close> under the keys of \<open>RedisKey\<close>
    (\<open>platform/redis/redis.go\<close>). \<open>AuthStore\<close> is \<open>store.go\<close> and \<open>pgstore/store.go\<close> over the tables of
    \<open>migrations/00005\<close>, \<open>AuthService\<close> is \<open>service.go\<close> and \<open>enrolment.go\<close>.
  \<^item> \<open>GoProc\<close>: a handler is a process, a sequence of atomic actions on a shared world, each of which
    reads its own inputs (the clock, entropy, whether its call fails). \<open>runs\<close> lets any other change of
    the world happen between two actions; \<open>threads_reach\<close> interleaves handlers that are given.
    \<open>AuthInvariant\<close>, \<open>AuthFacts\<close>, \<open>AuthFlow\<close> hold the invariant of the tables, what an operation of the
    store leaves, and what the runs of each handler show; \<open>AuthSamples\<close> a concrete service and
    account, and \<open>AuthRaces\<close> the interleavings of a login with a change of password.
  \<^item> \<open>Protocol\<close>, \<open>Conn\<close>, \<open>Hub\<close>: \<open>protocol.go\<close>, \<open>conn.go\<close> with \<open>options.go\<close>, \<open>hub.go\<close>. A connection has
    a bounded queue, a counter and a writer whose iterations are steps; what the socket answers is an
    input. The hub keeps connections in a heap under their pointers, so a route is a pointer in two
    places (the routing table and the connection's channels). \<open>ConnInvariant\<close>, \<open>HubInvariant\<close> hold the
    invariants; \<open>Gateway\<close> is the state machine of the whole gateway, whose steps are the critical
    sections of the code in any order (a subscription and a resync request are two each, with what the
    first found in \<open>gw_pending\<close>; shutdown is one to begin and two per connection), and \<open>GatewayView\<close>
    what its clients see. Two fields have no counterpart in the code and record a history for the
    theorems: \<open>gw_log\<close>, the records handled, and \<open>cn_lost\<close>, the frames discarded from a queue.
  \<^item> \<open>ClientStream\<close>: \<open>pkg/client/stream.go\<close>, the other end of the protocol, with the backoff of
    \<open>client.go\<close>. The goroutine that dials, reads and reconnects is a state machine whose steps are the
    iterations of its loops (one that would wait for room in the event buffer happens when there is
    room, and a panic ends the goroutine); the calls of the application happen between them, each as one step.
    \<open>ClientTrace\<close> holds what the events of a stream say, and how a frame of the gateway is read.

  State and operations. A struct is a record, a method that returns a changed copy a function to a
  result, and each entity has a type of its operations and a step function, so that a history is a
  list of operations folded by \<open>run\<close>, in which a refused operation leaves the value as it was.
  Reachable values are inductive predicates generated by the constructors and the steps. The store
  of the gateway is mutable; every method that touches it holds its mutex, so a call is a function
  of the store.

  What the theorems show. \<open>MoneyProperties\<close>: arithmetic is exact or refused, the parser is the
  stated grammar, printing round-trips, the error of a float product is bounded.
  \<open>CatalogueProperties\<close>: invariants of markets and events, absorbing statuses, late updates, mirrored
  lines, enumerations. \<open>WagerProperties\<close>: the invariant of tickets, what is frozen, what is final, and
  two ways in which the code is more permissive than its comments. \<open>RoundRobinProperties\<close>:
  termination and correctness of the expansion. \<open>LedgerProperties\<close>: every transaction balances, money
  is conserved, and every ticket can be booked at placement and at close with amounts that net to its
  return. \<open>StreamProperties\<close>: the slate's indexes are exact, snapshots are exact, deltas follow the
  slate except for a market that leaves a channel, redelivery is harmless. \<open>GatewayProperties\<close>: in
  every reachable state of the gateway the routing table is exact, no frame is lost without being
  \<open>reported\<close> (in the range of a resync frame, or through resync frames that were discarded in turn),
  and what a client shows of a channel is what the slate holds, but for markets that handled documents
  place differently (\<open>moved\<close>); a refusal can name
  the wrong channel, and a reported range can contain a frame that was delivered and miss one that was not. \<open>ClientProperties\<close>:
  the events of a client stream account for every number of a connection, what an application shows
  of a channel by following them is the gateway's slate in the same sense, reconnecting is bounded and ends, the
  waits are in range and the goroutine never panics in computing them; a resync whose answer is lost is not repeated, and an unsubscription between
  two connections is lost. \<open>AuthProperties\<close>:
  the constraints of the tables and the chain of refresh tokens hold under every interleaving, a
  token rotates once and a reused one ends its session, what a successful login, refresh and change
  of password rest on, how far a refusal hides whether an address exists, the single use of a
  code, and round trips of hashes, tokens, recovery codes and sealed secrets. \<open>AuthRaces\<close>: a rehash overwrites
  whatever hash is stored by then, so it can undo a change of password.

  Bounds. The enumeration of combinations is a loop whose termination is proved (it is a
  \<open>partial_function\<close> into \<open>option\<close>, and its value is \<open>Some\<close> for every admissible size); no fuel is
  used anywhere. Word arithmetic is over 64 bits. The numbers of frames are 64-bit words: the theorems
  on the gateway count the numbers handed out beside the counter (\<open>cn_count\<close>) and speak of connections
  whose counter has not wrapped.

  Parameters. What the client stream meets (payloads, the outcome of writes, dials, emits and sleeps,
  the draws of the jitter, how long a connection lasted) is the input of its steps; the decoder of
  JSON and the parser of URLs are arguments. JSON decoding of a computed document and the parsing of timestamp headers are
  arguments of the definitions that use them, and so is what \<open>json.Marshal\<close> makes of the raw bytes of a
  document (\<open>raw\<close>: nothing of bytes that are not JSON, otherwise a compacted and escaped copy). No property assumes
  anything of them, except, for the views of clients, that no bytes are not JSON, that what decodes is JSON, and that the rewritten
  copy decodes to the same document (\<open>json_law\<close>). The environment of a hub step (\<open>Env\<close>) carries the clock, \<open>raw\<close> and the
  interleaving of each connection's writer with the sender.

  In the auth parts: the hash functions, HMAC, argon2id and AES-GCM, Unicode case mapping, the JSON of
  a token and the CHECKs that PostgreSQL evaluates on an address are arguments; theorems that need
  more than that they are functions say so (\<open>kdf_length\<close>, \<open>gcm_opens\<close>, \<open>gcm_binds\<close>, and \<open>json_ok\<close>, the round
  trip of \<open>encoding/json\<close> for UTF-8 strings, 64-bit numbers and raw messages it wrote). A
  statement and a transaction of the store are one action each, which is what the row locks of the
  code give; how long Redis keeps a key is an argument of its guard. A call on a store can fail
  before or after it took effect.

  Not modelled. Log output, metrics and the \<open>String\<close> methods that feed them; JSON of lines; the
  limiter of concurrent password derivations, beyond the error of a wait that was given up; a
  store over a transaction of its caller; the odds mathematics (Kelly, correlation), the HTTP API,
  ingest, the pricing engine, the platform clients, the rest of the client library (its REST calls and
  its websocket adapter) and the commands.
\<close>

end
